(* ===== verification/Alp_Prelude.thy ===== *)
theory Alp_Prelude
  imports Main "HOL-Library.Word"
begin

text \<open>
  Shared vocabulary of the development: Rust's results, panics and unsigned 64-bit
  arithmetic, and the generic facts about lists and ring indices that the components use.

  \<^item> An \<open>anyhow::Result\<close> is \<open>rust_error + 'a\<close>: \<open>Inl (Err m)\<close> is an error value with the
    fixed part of its message, \<open>Inl (Panic m)\<close> is a panic (\<open>assert!\<close>, \<open>expect\<close>, an index out
    of range), \<open>Inr v\<close> is a value.
  \<^item> \<open>Slot\<close>, \<open>u64\<close> and \<open>usize\<close> values are \<open>nat\<close>. The crate is released without overflow
    checks (\<open>[profile.release]\<close> of Cargo.toml), so unchecked \<open>+\<close> and \<open>-\<close> are \<open>add64\<close> and
    \<open>sub64\<close>, which wrap modulo \<open>2 ^ 64\<close>; \<open>checked_sub\<close> and \<open>saturating_sub\<close> are Rust's.
\<close>

named_theorems alp_defs \<open>definitions unfolded by component proofs\<close>
named_theorems ring_simps \<open>arithmetic of ring indices\<close>

type_synonym Slot = nat
type_synonym UnixTimestamp = int
type_synonym StorageId = nat
type_synonym u8 = "8 word"
type_synonym bytes = "8 word list"

datatype rust_error = Err string | Panic string

type_synonym 'a result = "rust_error + 'a"

text \<open>The \<open>?\<close> operator on a result.\<close>

fun bind_result :: "'a result \<Rightarrow> ('a \<Rightarrow> 'b result) \<Rightarrow> 'b result" where
  "bind_result (Inl e) f = Inl e"
| "bind_result (Inr x) f = f x"

definition ensure :: "bool \<Rightarrow> string \<Rightarrow> unit result" where
  "ensure c m = (if c then Inr () else Inl (Err m))"

definition is_panic :: "'a result \<Rightarrow> bool" where
  "is_panic r = (case r of Inl (Panic _) \<Rightarrow> True | _ \<Rightarrow> False)"

definition is_ok :: "'a result \<Rightarrow> bool" where
  "is_ok r = (case r of Inr _ \<Rightarrow> True | Inl _ \<Rightarrow> False)"

lemma bind_result_Inr_iff [simp]:
  "bind_result r f = Inr y \<longleftrightarrow> (\<exists>x. r = Inr x \<and> f x = Inr y)"
  by (cases r) auto

lemma ensure_Inr_iff [simp]: "ensure c m = Inr u \<longleftrightarrow> c"
  by (simp add: ensure_def)

lemma is_panic_simps [simp]:
  "is_panic (Inr x) = False" "is_panic (Inl (Err m)) = False" "is_panic (Inl (Panic m)) = True"
  by (simp_all add: is_panic_def)

lemma is_ok_simps [simp]: "is_ok (Inr x) = True" "is_ok (Inl e) = False"
  by (simp_all add: is_ok_def)

section \<open>Unsigned 64-bit arithmetic\<close>

abbreviation u64_modulus :: nat where
  "u64_modulus \<equiv> 18446744073709551616"

abbreviation u64_MAX :: nat where
  "u64_MAX \<equiv> 18446744073709551615"

definition add64 :: "nat \<Rightarrow> nat \<Rightarrow> nat" where
  "add64 a b = (a + b) mod u64_modulus"

definition sub64 :: "nat \<Rightarrow> nat \<Rightarrow> nat" where
  "sub64 a b = (a + (u64_modulus - b mod u64_modulus)) mod u64_modulus"

definition checked_sub :: "nat \<Rightarrow> nat \<Rightarrow> nat option" where
  "checked_sub a b = (if b \<le> a then Some (a - b) else None)"

definition saturating_sub :: "nat \<Rightarrow> nat \<Rightarrow> nat" where
  "saturating_sub a b = a - b"

lemma add64_small [simp]: "a + b < u64_modulus \<Longrightarrow> add64 a b = a + b"
  by (simp add: add64_def)

lemma sub64_small [simp]: "b \<le> a \<Longrightarrow> a < u64_modulus \<Longrightarrow> sub64 a b = a - b"
proof -
  assume ba: "b \<le> a" and a: "a < u64_modulus"
  then have "b mod u64_modulus = b" by simp
  then have "sub64 a b = ((a - b) + u64_modulus) mod u64_modulus"
    using ba a by (simp add: sub64_def)
  also have "\<dots> = a - b" using a by simp
  finally show ?thesis .
qed

lemma add64_less: "add64 a b < u64_modulus"
  by (simp add: add64_def)

lemma sub64_less: "sub64 a b < u64_modulus"
  by (simp add: sub64_def)

lemma checked_sub_simps [simp]:
  "b \<le> a \<Longrightarrow> checked_sub a b = Some (a - b)"
  "a < b \<Longrightarrow> checked_sub a b = None"
  by (simp_all add: checked_sub_def)

section \<open>Ring indices\<close>

text \<open>
  \<open>(i + 1) % len\<close> and \<open>i.checked_sub(1).unwrap_or(len - 1)\<close>, the two ways the code moves
  an index around a ring of \<open>len\<close> cells.
\<close>

definition ring_next :: "nat \<Rightarrow> nat \<Rightarrow> nat" where
  "ring_next n i = (i + 1) mod n"

definition ring_prev :: "nat \<Rightarrow> nat \<Rightarrow> nat" where
  "ring_prev n i = (case checked_sub i 1 of Some j \<Rightarrow> j | None \<Rightarrow> n - 1)"

lemma ring_next_less [simp, intro]: "0 < n \<Longrightarrow> ring_next n i < n"
  by (simp add: ring_next_def)

lemma ring_prev_less [simp, intro]: "i < n \<Longrightarrow> ring_prev n i < n"
  by (cases i) (simp_all add: ring_prev_def checked_sub_def)

lemma ring_prev_next [simp]:
  assumes "i < n"
  shows "ring_prev n (ring_next n i) = i"
proof (cases "Suc i < n")
  case True
  then show ?thesis by (simp add: ring_prev_def ring_next_def)
next
  case False
  with assms have "n = Suc i" by simp
  then show ?thesis by (simp add: ring_prev_def ring_next_def)
qed

lemma ring_next_prev [simp]: "i < n \<Longrightarrow> ring_next n (ring_prev n i) = i"
  by (cases i) (simp_all add: ring_prev_def ring_next_def checked_sub_def)

lemma mod_less_of_less: "c < n \<Longrightarrow> x mod n < (n :: nat)"
  by simp

text \<open>Positions \<open>(t + i) mod n\<close> of a window of a ring.\<close>

lemma ring_pos_inj:
  assumes "(t + i) mod n = (t + j) mod n" and "i < n" and "j < n"
  shows "i = (j::nat)"
proof (cases "i \<le> j")
  case True
  then have "n dvd (t + j) - (t + i)"
    using assms(1) by (metis add_le_cancel_left mod_eq_dvd_iff_nat)
  with True assms(3) show ?thesis by (simp add: nat_dvd_not_less) (meson True diff_is_0_eq dvd_imp_le le_antisym less_imp_diff_less not_le zero_less_diff)
next
  case False
  then have "n dvd (t + i) - (t + j)"
    using assms(1) by (metis add_le_cancel_left mod_eq_dvd_iff_nat nat_le_linear)
  with False assms(2) show ?thesis by simp (meson False dvd_imp_le less_imp_diff_less not_le zero_less_diff)
qed

lemma ring_pos_surj:
  assumes "j < n" and "t < n"
  obtains i where "i < n" and "(t + i) mod n = (j::nat)"
proof -
  have "(t + ((j + n - t) mod n)) mod n = (t + (j + n - t)) mod n"
    by (simp add: mod_add_right_eq)
  also have "\<dots> = j" using assms by simp
  finally show ?thesis using that [of "(j + n - t) mod n"] assms by simp
qed

end
