(* ===== verification/Alp_Ring.thy ===== *)
theory Alp_Ring
  imports Alp_Prelude
begin

text \<open>
  The ring buffer that \<open>StoredBlocksWrite\<close> and \<open>StoredBlocksRead\<close> (src/src/storage/blocks.rs)
  share: a vector of cells, the index \<open>t\<close> of the lowest stored cell, the index \<open>h\<close> of the
  highest one, and a test \<open>ex\<close> that tells stored cells from free ones.

  \<open>ring_rep ex bs t h xs\<close> says that the ring holds exactly the list \<open>xs\<close>, lowest slot first;
  \<open>ring_list\<close> computes that list. The lemmas are the four updates of a deque. The locale
  \<open>bounded_deque\<close> is the contract the two sides of the storage give to their clients.
\<close>

section \<open>The list a ring holds\<close>

definition ring_at :: "'a list \<Rightarrow> nat \<Rightarrow> nat \<Rightarrow> 'a" where
  "ring_at bs t i = bs ! ((t + i) mod length bs)"

definition ring_list :: "('a \<Rightarrow> bool) \<Rightarrow> 'a list \<Rightarrow> nat \<Rightarrow> 'a list" where
  "ring_list ex bs t = takeWhile ex (map (ring_at bs t) [0..<length bs])"

definition ring_rep :: "('a \<Rightarrow> bool) \<Rightarrow> 'a list \<Rightarrow> nat \<Rightarrow> nat \<Rightarrow> 'a list \<Rightarrow> bool" where
  "ring_rep ex bs t h xs \<longleftrightarrow>
     t < length bs \<and> h < length bs \<and> length xs \<le> length bs \<and>
     ring_next (length bs) h = (t + length xs) mod length bs \<and>
     (\<forall>i < length xs. ring_at bs t i = xs ! i \<and> ex (xs ! i)) \<and>
     (\<forall>i. length xs \<le> i \<and> i < length bs \<longrightarrow> \<not> ex (ring_at bs t i))"

lemma ring_repI:
  assumes "t < length bs" "h < length bs" "length xs \<le> length bs"
    and "ring_next (length bs) h = (t + length xs) mod length bs"
    and "\<And>i. i < length xs \<Longrightarrow> ring_at bs t i = xs ! i"
    and "\<And>i. i < length xs \<Longrightarrow> ex (xs ! i)"
    and "\<And>i. length xs \<le> i \<Longrightarrow> i < length bs \<Longrightarrow> \<not> ex (ring_at bs t i)"
  shows "ring_rep ex bs t h xs"
  using assms by (simp add: ring_rep_def)

lemma ring_repD:
  assumes "ring_rep ex bs t h xs"
  shows "t < length bs" "h < length bs" "length xs \<le> length bs"
    and "ring_next (length bs) h = (t + length xs) mod length bs"
    and "i < length xs \<Longrightarrow> ring_at bs t i = xs ! i"
    and "i < length xs \<Longrightarrow> ex (xs ! i)"
    and "length xs \<le> i \<Longrightarrow> i < length bs \<Longrightarrow> \<not> ex (ring_at bs t i)"
  using assms by (auto simp: ring_rep_def)

lemma ring_rep_all_ex: "ring_rep ex bs t h xs \<Longrightarrow> x \<in> set xs \<Longrightarrow> ex x"
  by (metis in_set_conv_nth ring_repD(6))

lemma ring_list_eq:
  assumes rep: "ring_rep ex bs t h xs"
  shows "ring_list ex bs t = xs"
proof -
  let ?cells = "map (ring_at bs t) [0..<length bs]"
  have "takeWhile ex ?cells = take (length xs) ?cells"
  proof (rule takeWhile_eq_take_P_nth)
    fix i assume "i < length xs" "i < length ?cells"
    then show "ex (?cells ! i)" using ring_repD(5,6) [OF rep] by simp
  next
    assume "length xs < length ?cells"
    then show "\<not> ex (?cells ! length xs)" using ring_repD(7) [OF rep] by simp
  qed
  also have "\<dots> = xs"
    using ring_repD(3,5) [OF rep] by (intro nth_equalityI) simp_all
  finally show ?thesis by (simp add: ring_list_def)
qed

lemma ring_rep_unique: "ring_rep ex bs t h xs \<Longrightarrow> ring_rep ex bs t h ys \<Longrightarrow> xs = ys"
  using ring_list_eq by blast

lemma ring_at_0: "t < length bs \<Longrightarrow> ring_at bs t 0 = bs ! t"
  by (simp add: ring_at_def)

text \<open>The index of the highest cell: one before the first free one.\<close>

lemma ring_head_pos:
  assumes rep: "ring_rep ex bs t h xs"
  shows "h = (t + length xs + length bs - 1) mod length bs"
proof -
  let ?n = "length bs"
  have n: "0 < ?n" and h: "h < ?n" using ring_repD(1,2) [OF rep] by auto
  have "(h + 1) mod ?n = (t + length xs) mod ?n"
    using ring_repD(4) [OF rep] by (simp add: ring_next_def)
  then have "((h + 1) + (?n - 1)) mod ?n = ((t + length xs) + (?n - 1)) mod ?n"
    by (metis mod_add_left_eq)
  moreover have "((h + 1) + (?n - 1)) mod ?n = h" using h n by simp
  moreover have "(t + length xs) + (?n - 1) = t + length xs + ?n - 1" using h by linarith
  ultimately show ?thesis by metis
qed

lemma ring_head_nonempty:
  assumes rep: "ring_rep ex bs t h xs" and "xs \<noteq> []"
  shows "h = (t + (length xs - 1)) mod length bs"
proof -
  have "t + length xs + length bs - 1 = (t + (length xs - 1)) + length bs"
    using assms(2) by (cases xs) auto
  then show ?thesis using ring_head_pos [OF rep] by simp
qed

lemma ring_tail_cell:
  assumes rep: "ring_rep ex bs t h xs"
  shows "ex (bs ! t) \<longleftrightarrow> xs \<noteq> []" and "xs \<noteq> [] \<Longrightarrow> bs ! t = hd xs"
proof -
  have at0: "ring_at bs t 0 = bs ! t" using ring_repD(1) [OF rep] by (rule ring_at_0)
  have "ex (bs ! t)" "bs ! t = hd xs" if "xs \<noteq> []"
    using ring_repD(5,6) [OF rep, of 0] at0 that by (simp_all add: hd_conv_nth)
  moreover have "\<not> ex (bs ! t)" if "xs = []"
  proof -
    have "0 < length bs" using ring_repD(1) [OF rep] by linarith
    then have "\<not> ex (ring_at bs t 0)" using that by (intro ring_repD(7) [OF rep]) simp_all
    then show ?thesis by (simp add: at0)
  qed
  ultimately show "ex (bs ! t) \<longleftrightarrow> xs \<noteq> []" and "xs \<noteq> [] \<Longrightarrow> bs ! t = hd xs" by auto
qed

lemma ring_head_cell:
  assumes rep: "ring_rep ex bs t h xs"
  shows "ex (bs ! h) \<longleftrightarrow> xs \<noteq> []" and "xs \<noteq> [] \<Longrightarrow> bs ! h = last xs"
proof -
  have ne: "ex (bs ! h)" "bs ! h = last xs" if "xs \<noteq> []"
  proof -
    have "bs ! h = ring_at bs t (length xs - 1)"
      using ring_head_nonempty [OF rep that] by (simp add: ring_at_def)
    then show "ex (bs ! h)" "bs ! h = last xs"
      using ring_repD(5,6) [OF rep, of "length xs - 1"] that by (simp_all add: last_conv_nth)
  qed
  have "\<not> ex (bs ! h)" if "xs = []"
  proof -
    have n: "0 < length bs" using ring_repD(1) [OF rep] by linarith
    have "t + length xs + length bs - 1 = t + (length bs - 1)" using that n by (simp add: Suc_le_eq)
    then have "h = (t + (length bs - 1)) mod length bs"
      using ring_head_pos [OF rep] by simp
    then have "bs ! h = ring_at bs t (length bs - 1)" by (simp add: ring_at_def)
    then show ?thesis using ring_repD(7) [OF rep, of "length bs - 1"] that n by simp
  qed
  with ne show "ex (bs ! h) \<longleftrightarrow> xs \<noteq> []" and "xs \<noteq> [] \<Longrightarrow> bs ! h = last xs" by auto
qed

lemma ring_next_cell:
  assumes rep: "ring_rep ex bs t h xs"
  shows "ex (bs ! ring_next (length bs) h) \<longleftrightarrow> length xs = length bs"
proof (cases "length xs = length bs")
  case True
  then have "ring_next (length bs) h = t"
    using ring_repD(1,4) [OF rep] by simp
  moreover have "xs \<noteq> []" using True ring_repD(1) [OF rep] by auto
  ultimately show ?thesis using ring_tail_cell(1) [OF rep] True by simp
next
  case False
  then have lt: "length xs < length bs" using ring_repD(3) [OF rep] by simp
  have "bs ! ring_next (length bs) h = ring_at bs t (length xs)"
    using ring_repD(4) [OF rep] by (simp add: ring_at_def)
  then show ?thesis using ring_repD(7) [OF rep, of "length xs"] lt False by simp
qed

lemma ring_prev_cell:
  assumes rep: "ring_rep ex bs t h xs"
  shows "ex (bs ! ring_prev (length bs) t) \<longleftrightarrow> length xs = length bs"
proof -
  let ?n = "length bs"
  have n: "0 < ?n" and t: "t < ?n" using ring_repD(1) [OF rep] by auto
  have "ring_prev ?n t = (t + (?n - 1)) mod ?n"
  proof (cases t)
    case 0
    then show ?thesis using t by (simp add: ring_prev_def)
  next
    case (Suc j)
    then have "t + (?n - 1) = j + ?n" using t by linarith
    then show ?thesis using Suc t by (simp add: ring_prev_def)
  qed
  then have at: "bs ! ring_prev ?n t = ring_at bs t (?n - 1)"
    by (simp add: ring_at_def)
  show ?thesis
  proof (cases "length xs = ?n")
    case True
    then show ?thesis
      using at ring_repD(5,6) [OF rep, of "?n - 1"] n by simp
  next
    case False
    then show ?thesis
      using at ring_repD(3) [OF rep] ring_repD(7) [OF rep, of "?n - 1"] n by simp
  qed
qed

section \<open>The four updates\<close>

lemma ring_at_update:
  assumes "t < length bs" "i < length bs" "k < length bs"
  shows "ring_at (bs[(t + k) mod length bs := x]) t i = (if i = k then x else ring_at bs t i)"
proof -
  have "(t + k) mod length bs = (t + i) mod length bs \<longleftrightarrow> i = k"
    using ring_pos_inj [of t k "length bs" i] assms by auto
  moreover have "(t + i) mod length bs < length bs"
    using assms(1) by (intro mod_less_divisor) auto
  ultimately show ?thesis
    by (cases "i = k") (simp_all add: ring_at_def)
qed

lemma ring_push_front:
  assumes rep: "ring_rep ex bs t h xs" and room: "length xs < length bs" and x: "ex x"
  shows "ring_rep ex (bs[ring_next (length bs) h := x]) t (ring_next (length bs) h) (xs @ [x])"
proof -
  let ?h = "ring_next (length bs) h" and ?n = "length bs"
  have t: "t < ?n" using ring_repD(1) [OF rep] .
  have h: "?h = (t + length xs) mod ?n" using ring_repD(4) [OF rep] .
  have at: "ring_at (bs[?h := x]) t i = (if i = length xs then x else ring_at bs t i)"
    if "i < ?n" for i
    unfolding h by (rule ring_at_update [OF t that room])
  show ?thesis
  proof (rule ring_repI)
    show "ring_next (length (bs[?h := x])) ?h = (t + length (xs @ [x])) mod length (bs[?h := x])"
      using h by (simp add: ring_next_def) (metis mod_Suc_eq)
  next
    fix i assume "i < length (xs @ [x])"
    then show "ring_at (bs[?h := x]) t i = (xs @ [x]) ! i"
      using at [of i] ring_repD(5) [OF rep, of i] room by (auto simp: nth_append less_Suc_eq)
  next
    fix i assume "i < length (xs @ [x])"
    then show "ex ((xs @ [x]) ! i)"
      using ring_repD(6) [OF rep, of i] x by (auto simp: nth_append less_Suc_eq)
  next
    fix i assume "length (xs @ [x]) \<le> i" "i < length (bs[?h := x])"
    then show "\<not> ex (ring_at (bs[?h := x]) t i)"
      using at [of i] ring_repD(7) [OF rep, of i] by simp
  qed (use t room in auto)
qed

lemma ring_pop_back:
  assumes rep: "ring_rep ex bs t h xs" and ne: "xs \<noteq> []" and y: "\<not> ex y"
  shows "ring_rep ex (bs[t := y]) (ring_next (length bs) t) h (tl xs)"
proof -
  let ?t = "ring_next (length bs) t" and ?n = "length bs"
  have t: "t < ?n" and n: "0 < ?n" using ring_repD(1) [OF rep] by auto
  have pos: "(?t + i) mod ?n = (t + Suc i) mod ?n" for i
    unfolding ring_next_def by (simp add: mod_add_left_eq)
  have t0: "t = (t + 0) mod ?n" using t by simp
  have at: "ring_at (bs[t := y]) ?t i = (if Suc i = ?n then y else ring_at bs t (Suc i))"
    if "i < ?n" for i
  proof (cases "Suc i = ?n")
    case True
    then have "(t + Suc i) mod ?n = t" using t by simp
    then show ?thesis using True t by (simp add: ring_at_def pos)
  next
    case False
    then have lt: "Suc i < ?n" using that by simp
    have "ring_at (bs[t := y]) ?t i = ring_at (bs[t := y]) t (Suc i)"
      by (simp add: ring_at_def pos)
    also have "\<dots> = ring_at bs t (Suc i)"
      using ring_at_update [OF t lt, of 0 y] t0 n by simp
    finally show ?thesis using False by simp
  qed
  obtain a ys where xs: "xs = a # ys" using ne by (cases xs) auto
  have "ring_rep ex (bs[t := y]) ?t h ys"
  proof (rule ring_repI)
    show "ring_next (length (bs[t := y])) h = (?t + length ys) mod length (bs[t := y])"
      using ring_repD(4) [OF rep] pos [of "length ys"] xs by simp
  next
    fix i assume i: "i < length ys"
    then show "ring_at (bs[t := y]) ?t i = ys ! i"
      using at [of i] ring_repD(5) [OF rep, of "Suc i"] ring_repD(3) [OF rep] xs by auto
  next
    fix i assume i: "i < length ys"
    then show "ex (ys ! i)" using ring_repD(6) [OF rep, of "Suc i"] xs by simp
  next
    fix i assume "length ys \<le> i" "i < length (bs[t := y])"
    then show "\<not> ex (ring_at (bs[t := y]) ?t i)"
      using at [of i] ring_repD(7) [OF rep, of "Suc i"] xs y by auto
  qed (use n ring_repD(2,3) [OF rep] xs in auto)
  then show ?thesis by (simp add: xs)
qed

lemma ring_push_back:
  assumes rep: "ring_rep ex bs t h xs" and room: "length xs < length bs" and x: "ex x"
  shows "ring_rep ex (bs[ring_prev (length bs) t := x]) (ring_prev (length bs) t) h (x # xs)"
proof -
  let ?t = "ring_prev (length bs) t" and ?n = "length bs"
  have t: "t < ?n" and n: "0 < ?n" using ring_repD(1) [OF rep] by auto
  have t': "?t < ?n" using t by simp
  have nx: "(?t + 1) mod ?n = t" using ring_next_prev [OF t] by (simp add: ring_next_def)
  have pos: "(?t + Suc i) mod ?n = (t + i) mod ?n" for i
  proof -
    have "(?t + Suc i) mod ?n = ((?t + 1) mod ?n + i) mod ?n" by (simp add: mod_add_left_eq)
    then show ?thesis by (simp only: nx)
  qed
  have at0: "ring_at (bs[?t := x]) ?t 0 = x" using t' by (simp add: ring_at_def)
  have atS: "ring_at (bs[?t := x]) ?t (Suc i) = ring_at bs t i" if "Suc i < ?n" for i
  proof -
    have "ring_at (bs[?t := x]) ?t (Suc i) = ring_at bs ?t (Suc i)"
      using ring_at_update [OF t' that, of 0 x] n t' by simp
    then show ?thesis by (simp only: ring_at_def pos)
  qed
  show ?thesis
  proof (rule ring_repI)
    show "ring_next (length (bs[?t := x])) h = (?t + length (x # xs)) mod length (bs[?t := x])"
      using ring_repD(4) [OF rep] pos [of "length xs"] by simp
  next
    fix i assume "i < length (x # xs)"
    then show "ring_at (bs[?t := x]) ?t i = (x # xs) ! i"
      using at0 atS [of "i - 1"] ring_repD(5) [OF rep, of "i - 1"] room by (cases i) auto
  next
    fix i assume "i < length (x # xs)"
    then show "ex ((x # xs) ! i)"
      using x ring_repD(6) [OF rep, of "i - 1"] by (cases i) auto
  next
    fix i assume "length (x # xs) \<le> i" "i < length (bs[?t := x])"
    then show "\<not> ex (ring_at (bs[?t := x]) ?t i)"
      using atS [of "i - 1"] ring_repD(7) [OF rep, of "i - 1"] by (cases i) auto
  qed (use t' room ring_repD(2) [OF rep] in auto)
qed

lemma ring_pop_front:
  assumes rep: "ring_rep ex bs t h xs" and ne: "xs \<noteq> []" and y: "\<not> ex y"
  shows "ring_rep ex (bs[h := y]) t (ring_prev (length bs) h) (butlast xs)"
proof -
  let ?h = "ring_prev (length bs) h" and ?n = "length bs" and ?k = "length xs - 1"
  have t: "t < ?n" and hn: "h < ?n" using ring_repD(1,2) [OF rep] by auto
  have k: "?k < ?n" using ring_repD(3) [OF rep] ne t by (cases xs) auto
  have h: "h = (t + ?k) mod ?n" by (rule ring_head_nonempty [OF rep ne])
  have at: "ring_at (bs[h := y]) t i = (if i = ?k then y else ring_at bs t i)" if "i < ?n" for i
    using ring_at_update [OF t that k, of y] h by simp
  have len: "length xs = Suc ?k" using ne by (cases xs) auto
  show ?thesis
  proof (rule ring_repI)
    show "ring_next (length (bs[h := y])) ?h = (t + length (butlast xs)) mod length (bs[h := y])"
      using ring_next_prev [OF hn] h by simp
  next
    fix i assume "i < length (butlast xs)"
    then show "ring_at (bs[h := y]) t i = butlast xs ! i"
      using at [of i] ring_repD(5) [OF rep, of i] k by (simp add: nth_butlast)
  next
    fix i assume "i < length (butlast xs)"
    then show "ex (butlast xs ! i)"
      using ring_repD(6) [OF rep, of i] by (simp add: nth_butlast)
  next
    fix i assume "length (butlast xs) \<le> i" "i < length (bs[h := y])"
    then show "\<not> ex (ring_at (bs[h := y]) t i)"
      using at [of i] ring_repD(7) [OF rep, of i] len y by auto
  qed (use t hn k in auto)
qed

section \<open>The contract of a bounded deque\<close>

text \<open>
  What the storage relies on from its block index: \<open>content\<close> is the stored list (lowest slot
  first), \<open>capacity\<close> the fixed number of cells, and the four operations are partial functions
  of the state that are defined exactly when there is room, or something to remove.
\<close>

locale bounded_deque =
  fixes valid :: "'s \<Rightarrow> bool"
    and content :: "'s \<Rightarrow> 'a list"
    and capacity :: "'s \<Rightarrow> nat"
    and storable :: "'a \<Rightarrow> bool"
    and push_lo :: "'s \<Rightarrow> 'a \<Rightarrow> 's"
    and push_hi :: "'s \<Rightarrow> 'a \<Rightarrow> 's"
    and pop_lo :: "'s \<Rightarrow> 's"
    and pop_hi :: "'s \<Rightarrow> 's"
  assumes within_capacity: "valid s \<Longrightarrow> length (content s) \<le> capacity s"
    and push_lo_spec: "valid s \<Longrightarrow> storable x \<Longrightarrow> length (content s) < capacity s \<Longrightarrow>
      valid (push_lo s x) \<and> content (push_lo s x) = x # content s \<and> capacity (push_lo s x) = capacity s"
    and push_hi_spec: "valid s \<Longrightarrow> storable x \<Longrightarrow> length (content s) < capacity s \<Longrightarrow>
      valid (push_hi s x) \<and> content (push_hi s x) = content s @ [x] \<and> capacity (push_hi s x) = capacity s"
    and pop_lo_spec: "valid s \<Longrightarrow> content s \<noteq> [] \<Longrightarrow>
      valid (pop_lo s) \<and> content (pop_lo s) = tl (content s) \<and> capacity (pop_lo s) = capacity s"
    and pop_hi_spec: "valid s \<Longrightarrow> content s \<noteq> [] \<Longrightarrow>
      valid (pop_hi s) \<and> content (pop_hi s) = butlast (content s) \<and> capacity (pop_hi s) = capacity s"

datatype 'a deque_op = PushLo 'a | PushHi 'a | PopLo | PopHi

text \<open>The abstract machine: a list of bounded length; an operation that does not fit is refused.\<close>

fun deque_step :: "nat \<Rightarrow> 'a list \<Rightarrow> 'a deque_op \<Rightarrow> 'a list option" where
  "deque_step n xs (PushLo x) = (if length xs < n then Some (x # xs) else None)"
| "deque_step n xs (PushHi x) = (if length xs < n then Some (xs @ [x]) else None)"
| "deque_step n xs PopLo = (if xs = [] then None else Some (tl xs))"
| "deque_step n xs PopHi = (if xs = [] then None else Some (butlast xs))"

fun deque_run :: "nat \<Rightarrow> 'a list \<Rightarrow> 'a deque_op list \<Rightarrow> 'a list option" where
  "deque_run n xs [] = Some xs"
| "deque_run n xs (op # ops) = (case deque_step n xs op of None \<Rightarrow> None | Some ys \<Rightarrow> deque_run n ys ops)"

fun op_storable :: "('a \<Rightarrow> bool) \<Rightarrow> 'a deque_op \<Rightarrow> bool" where
  "op_storable P (PushLo x) = P x"
| "op_storable P (PushHi x) = P x"
| "op_storable P PopLo = True"
| "op_storable P PopHi = True"

context bounded_deque
begin

fun exec_op :: "'s \<Rightarrow> 'a deque_op \<Rightarrow> 's" where
  "exec_op s (PushLo x) = push_lo s x"
| "exec_op s (PushHi x) = push_hi s x"
| "exec_op s PopLo = pop_lo s"
| "exec_op s PopHi = pop_hi s"

lemma exec_op_refines:
  assumes "valid s" "op_storable storable op" "deque_step (capacity s) (content s) op = Some ys"
  shows "valid (exec_op s op) \<and> content (exec_op s op) = ys \<and> capacity (exec_op s op) = capacity s"
  using assms push_lo_spec push_hi_spec pop_lo_spec pop_hi_spec
  by (cases op) (auto split: if_splits)

lemma exec_ops_refine:
  assumes "valid s" "\<forall>op \<in> set ops. op_storable storable op"
    and "deque_run (capacity s) (content s) ops = Some ys"
  shows "valid (foldl exec_op s ops) \<and> content (foldl exec_op s ops) = ys \<and>
    capacity (foldl exec_op s ops) = capacity s"
  using assms
proof (induction ops arbitrary: s)
  case Nil
  then show ?case by simp
next
  case (Cons op ops)
  then obtain zs where zs: "deque_step (capacity s) (content s) op = Some zs"
    and run: "deque_run (capacity s) zs ops = Some ys"
    by (auto split: option.splits)
  have "valid (exec_op s op) \<and> content (exec_op s op) = zs \<and> capacity (exec_op s op) = capacity s"
    using exec_op_refines [OF Cons.prems(1) _ zs] Cons.prems(2) by simp
  with Cons.IH [of "exec_op s op"] Cons.prems(2) run show ?case by simp
qed

end

end
