(* ===== verification/Alp_BTree.thy ===== *)
theory Alp_BTree
  imports Alp_Prelude
begin

text \<open>
  The standard library's \<open>BTreeMap\<close> as the code uses it: a finite map with its entries in
  ascending key order, as a list of entries. \<open>bt_get\<close>, \<open>bt_insert\<close>, \<open>bt_remove\<close> and
  \<open>bt_first\<close> (\<open>first_key_value\<close>) are its operations, \<open>bt_prune\<close> is the loop "while the first
  key satisfies the test, remove it" that slots.rs, read.rs and stream.rs all contain. The locale
  \<open>ordered_map\<close> states what the components rely on, and is interpreted on these definitions.
\<close>

type_synonym ('k, 'v) btree = "('k \<times> 'v) list"

definition bt_ok :: "('k::linorder, 'v) btree \<Rightarrow> bool" where
  "bt_ok m \<longleftrightarrow> sorted_wrt (<) (map fst m)"

definition bt_get :: "('k, 'v) btree \<Rightarrow> 'k \<Rightarrow> 'v option" where
  "bt_get m k = map_of m k"

fun bt_insert :: "'k::linorder \<Rightarrow> 'v \<Rightarrow> ('k, 'v) btree \<Rightarrow> ('k, 'v) btree" where
  "bt_insert k v [] = [(k, v)]"
| "bt_insert k v ((k', v') # m) =
     (if k < k' then (k, v) # (k', v') # m
      else if k = k' then (k, v) # m
      else (k', v') # bt_insert k v m)"

definition bt_remove :: "'k \<Rightarrow> ('k, 'v) btree \<Rightarrow> ('k, 'v) btree" where
  "bt_remove k m = filter (\<lambda>e. fst e \<noteq> k) m"

definition bt_first :: "('k, 'v) btree \<Rightarrow> ('k \<times> 'v) option" where
  "bt_first m = (case m of [] \<Rightarrow> None | e # _ \<Rightarrow> Some e)"

definition bt_contains :: "('k, 'v) btree \<Rightarrow> 'k \<Rightarrow> bool" where
  "bt_contains m k = (bt_get m k \<noteq> None)"

text \<open>The pruning loop, one removal of the first entry per iteration.\<close>

fun bt_prune :: "('k \<Rightarrow> 'v \<Rightarrow> bool) \<Rightarrow> ('k, 'v) btree \<Rightarrow> ('k, 'v) btree" where
  "bt_prune P [] = []"
| "bt_prune P ((k, v) # m) = (if P k v then bt_prune P m else (k, v) # m)"

lemma bt_ok_Nil [simp]: "bt_ok []"
  by (simp add: bt_ok_def)

lemma bt_ok_Cons [simp]: "bt_ok ((k, v) # m) \<longleftrightarrow> (\<forall>e \<in> set m. k < fst e) \<and> bt_ok m"
  by (simp add: bt_ok_def)

lemma bt_get_Nil [simp]: "bt_get [] k = None"
  by (simp add: bt_get_def)

lemma bt_get_Cons [simp]: "bt_get ((k', v) # m) k = (if k = k' then Some v else bt_get m k)"
  by (simp add: bt_get_def)

lemma bt_get_in_set: "bt_get m k = Some v \<Longrightarrow> (k, v) \<in> set m"
  by (simp add: bt_get_def map_of_SomeD)

lemma bt_get_eq_Some_iff: "bt_ok m \<Longrightarrow> bt_get m k = Some v \<longleftrightarrow> (k, v) \<in> set m"
  by (induction m) (fastforce dest: bt_get_in_set split: if_splits)+

lemma set_keys_bt_insert: "fst ` set (bt_insert k v m) = insert k (fst ` set m)"
  by (induction k v m rule: bt_insert.induct) auto

lemma bt_ok_insert [simp]: "bt_ok m \<Longrightarrow> bt_ok (bt_insert k v m)"
proof (induction k v m rule: bt_insert.induct)
  case (2 k v k' v' m)
  have "\<forall>e \<in> set (bt_insert k v m). k' < fst e" if "k' < k" "\<forall>e \<in> set m. k' < fst e"
    using set_keys_bt_insert [of k v m] that by (metis image_eqI insertE imageE)
  with 2 show ?case by (auto intro: less_trans)
qed simp

lemma bt_get_insert [simp]: "bt_get (bt_insert k v m) k' = (if k' = k then Some v else bt_get m k')"
  by (induction k v m rule: bt_insert.induct) auto

lemma bt_ok_remove [simp]: "bt_ok m \<Longrightarrow> bt_ok (bt_remove k m)"
  by (induction m) (auto simp: bt_remove_def)

lemma bt_get_remove [simp]: "bt_get (bt_remove k m) k' = (if k' = k then None else bt_get m k')"
  by (induction m) (auto simp: bt_remove_def)

lemma bt_first_None_iff [simp]: "bt_first m = None \<longleftrightarrow> m = []"
  by (simp add: bt_first_def split: list.splits)

lemma bt_first_get: "bt_first m = Some (k, v) \<Longrightarrow> bt_get m k = Some v"
  by (cases m) (auto simp: bt_first_def)

lemma bt_first_least: "bt_ok m \<Longrightarrow> bt_first m = Some (k, v) \<Longrightarrow> bt_get m k' = Some v' \<Longrightarrow> k \<le> k'"
  by (cases m) (fastforce simp: bt_first_def split: if_splits dest: bt_get_in_set)+

lemma bt_first_is_None: "bt_first m = None \<Longrightarrow> bt_get m k = None"
  by simp

lemma bt_prune_suffix: "\<exists>xs. m = xs @ bt_prune P m \<and> (\<forall>(k, v) \<in> set xs. P k v)"
proof (induction P m rule: bt_prune.induct)
  case (2 P k v m)
  then show ?case
  proof (cases "P k v")
    case True
    with 2 obtain xs where "m = xs @ bt_prune P m" "\<forall>(k, v) \<in> set xs. P k v" by auto
    with True show ?thesis by (intro exI [of _ "(k, v) # xs"]) auto
  qed simp
qed simp

lemma bt_ok_append: "bt_ok (xs @ ys) \<Longrightarrow> bt_ok ys"
  by (simp add: bt_ok_def sorted_wrt_append)

lemma bt_ok_prune [simp]: "bt_ok m \<Longrightarrow> bt_ok (bt_prune P m)"
  by (metis bt_ok_append bt_prune_suffix)

lemma bt_ok_filter: "bt_ok m \<Longrightarrow> bt_ok (filter P m)"
  by (induction m) auto

text \<open>For a downward closed test on keys, the loop is a filter.\<close>

lemma bt_prune_le:
  "bt_ok m \<Longrightarrow> bt_prune (\<lambda>k v. k \<le> s) m = filter (\<lambda>e. s < fst e) m"
  by (induction m) (fastforce simp: not_le intro!: filter_True [symmetric] dest: less_trans)+

lemma bt_get_filter_key: "bt_get (filter (\<lambda>e. Q (fst e)) m) k = (if Q k then bt_get m k else None)"
  by (induction m) auto

lemma bt_get_prune_le: "bt_ok m \<Longrightarrow> bt_get (bt_prune (\<lambda>k v. k \<le> s) m) k = (if s < k then bt_get m k else None)"
  by (simp add: bt_prune_le bt_get_filter_key)

section \<open>The contract of an ordered map\<close>

locale ordered_map =
  fixes valid :: "'m \<Rightarrow> bool"
    and empty :: 'm
    and get :: "'m \<Rightarrow> 'k::linorder \<Rightarrow> 'v option"
    and put :: "'k \<Rightarrow> 'v \<Rightarrow> 'm \<Rightarrow> 'm"
    and delete :: "'k \<Rightarrow> 'm \<Rightarrow> 'm"
    and first_entry :: "'m \<Rightarrow> ('k \<times> 'v) option"
  assumes valid_empty: "valid empty"
    and get_empty: "get empty k = None"
    and valid_put: "valid m \<Longrightarrow> valid (put k v m)"
    and get_put: "valid m \<Longrightarrow> get (put k v m) k' = (if k' = k then Some v else get m k')"
    and valid_delete: "valid m \<Longrightarrow> valid (delete k m)"
    and get_delete: "valid m \<Longrightarrow> get (delete k m) k' = (if k' = k then None else get m k')"
    and first_entry_get: "valid m \<Longrightarrow> first_entry m = Some (k, v) \<Longrightarrow> get m k = Some v"
    and first_entry_least: "valid m \<Longrightarrow> first_entry m = Some (k, v) \<Longrightarrow> get m k' = Some v' \<Longrightarrow> k \<le> k'"
    and first_entry_None: "valid m \<Longrightarrow> first_entry m = None \<Longrightarrow> get m k = None"
begin

lemmas map_laws = valid_empty get_empty valid_put get_put valid_delete get_delete

text \<open>Inserting a batch of entries: later entries win, as repeated \<open>insert\<close> calls do.\<close>

lemma get_fold_put:
  assumes "valid m"
  shows "valid (fold (\<lambda>(k, v). put k v) kvs m) \<and>
    get (fold (\<lambda>(k, v). put k v) kvs m) k =
      (case map_of (rev kvs) k of Some v \<Rightarrow> Some v | None \<Rightarrow> get m k)"
  using assms
proof (induction kvs arbitrary: m)
  case Nil
  then show ?case by simp
next
  case (Cons e kvs)
  obtain k' v' where e: "e = (k', v')" by fastforce
  from Cons.IH [of "put k' v' m"] Cons.prems
  show ?case by (simp add: e map_laws map_add_def split: option.splits)
qed

text \<open>Keys below the first one are absent.\<close>

lemma absent_below_first:
  "valid m \<Longrightarrow> first_entry m = Some (k, v) \<Longrightarrow> k' < k \<Longrightarrow> get m k' = None"
  using first_entry_least by (metis not_le option.exhaust)

end

interpretation bt: ordered_map bt_ok "[]" bt_get bt_insert bt_remove bt_first
proof
  fix m :: "('a::linorder, 'b) btree" and k k' :: 'a and v v' :: 'b
  show "bt_ok []" and "bt_get [] k = None" by simp_all
  show "bt_ok m \<Longrightarrow> bt_ok (bt_insert k v m)" by simp
  show "bt_ok m \<Longrightarrow> bt_get (bt_insert k v m) k' = (if k' = k then Some v else bt_get m k')" by simp
  show "bt_ok m \<Longrightarrow> bt_ok (bt_remove k m)" by simp
  show "bt_ok m \<Longrightarrow> bt_get (bt_remove k m) k' = (if k' = k then None else bt_get m k')" by simp
  show "bt_ok m \<Longrightarrow> bt_first m = Some (k, v) \<Longrightarrow> bt_get m k = Some v" by (rule bt_first_get)
  show "bt_ok m \<Longrightarrow> bt_first m = Some (k, v) \<Longrightarrow> bt_get m k' = Some v' \<Longrightarrow> k \<le> k'"
    by (rule bt_first_least)
  show "bt_ok m \<Longrightarrow> bt_first m = None \<Longrightarrow> bt_get m k = None" by simp
qed

end
