(* ===== verification/Alp_Types.thy ===== *)
theory Alp_Types
  imports Alp_BTree
begin

text \<open>
  The data the components exchange (src/src/source/{block,sfa,fees,transaction}.rs): the records
  of a transaction, of a block with its binary form, and of the entries of the address index. The
  type variable \<open>'e\<close> stands for \<open>TransactionError\<close>, a type of the Solana crates. Public keys,
  signatures and hashes are byte strings. A \<open>HashMap\<close> is the list of its entries in iteration
  order, with one entry per key.
\<close>

type_synonym Pubkey = bytes
type_synonym Signature = bytes

text \<open>The standard library's \<open>HashMap\<close>.\<close>

type_synonym ('k, 'v) hmap = "('k \<times> 'v) list"

definition hm_get :: "('k, 'v) hmap \<Rightarrow> 'k \<Rightarrow> 'v option" where
  "hm_get m k = map_of m k"

fun hm_insert :: "'k \<Rightarrow> 'v \<Rightarrow> ('k, 'v) hmap \<Rightarrow> ('k, 'v) hmap" where
  "hm_insert k v [] = [(k, v)]"
| "hm_insert k v ((k', v') # m) = (if k = k' then (k, v) # m else (k', v') # hm_insert k v m)"

definition hm_remove :: "'k \<Rightarrow> ('k, 'v) hmap \<Rightarrow> ('k, 'v) hmap" where
  "hm_remove k m = filter (\<lambda>e. fst e \<noteq> k) m"

definition hm_ok :: "('k, 'v) hmap \<Rightarrow> bool" where
  "hm_ok m \<longleftrightarrow> distinct (map fst m)"

lemma hm_get_Nil [simp]: "hm_get [] k = None"
  by (simp add: hm_get_def)

lemma hm_get_Cons [simp]: "hm_get ((k', v) # m) k = (if k = k' then Some v else hm_get m k)"
  by (simp add: hm_get_def)

lemma hm_get_insert [simp]: "hm_get (hm_insert k v m) k' = (if k' = k then Some v else hm_get m k')"
  by (induction k v m rule: hm_insert.induct) auto

lemma hm_get_remove [simp]: "hm_get (hm_remove k m) k' = (if k' = k then None else hm_get m k')"
  by (induction m) (auto simp: hm_remove_def)

lemma hm_keys_insert [simp]: "fst ` set (hm_insert k v m) = insert k (fst ` set m)"
  by (induction k v m rule: hm_insert.induct) auto

lemma hm_ok_insert [simp]: "hm_ok m \<Longrightarrow> hm_ok (hm_insert k v m)"
proof (induction k v m rule: hm_insert.induct)
  case (2 k v k' v' m)
  then show ?case
    using hm_keys_insert [of k v m] by (auto simp: hm_ok_def simp del: hm_keys_insert)
qed (simp add: hm_ok_def)

lemma hm_ok_remove [simp]: "hm_ok m \<Longrightarrow> hm_ok (hm_remove k m)"
  by (auto simp: hm_ok_def hm_remove_def distinct_map inj_on_def)

lemma hm_get_None_iff: "hm_get m k = None \<longleftrightarrow> k \<notin> fst ` set m"
  by (simp add: hm_get_def map_of_eq_None_iff)

lemma hm_get_eq_Some_iff: "hm_ok m \<Longrightarrow> hm_get m k = Some v \<longleftrightarrow> (k, v) \<in> set m"
  by (simp add: hm_get_def hm_ok_def)

section \<open>Entries of the address index (sfa.rs)\<close>

record 'e SignatureForAddress =
  sf_key :: bytes
  sf_address_hash :: bytes
  sf_address :: Pubkey
  sf_signature :: Signature
  sf_err :: "'e option"
  sf_memo :: "bytes option"
  sf_transaction_index :: nat
  sf_is_token_owner :: bool
  sf_token_balance_changed :: bool

record 'e SignatureStatus =
  sg_signature :: Signature
  sg_err :: "'e option"
  sg_memo :: "bytes option"
  sg_transaction_index :: nat
  sg_is_token_owner :: bool
  sg_token_balance_changed :: bool

record 'e SignaturesForAddress =
  sfa_key :: bytes
  sfa_address_hash :: bytes
  sfa_signatures :: "'e SignatureStatus list"

section \<open>Fees (fees.rs)\<close>

record TransactionFees =
  tf_unit_price :: nat
  tf_account_keys :: "Pubkey list"

record TransactionsFees =
  fs_fees :: "nat list"
  fs_writable_account_fees :: "(Pubkey, nat list) hmap"

section \<open>Transactions and blocks (transaction.rs, block.rs)\<close>

record 'e TransactionWithBinary =
  tx_key :: bytes
  tx_signature :: Signature
  tx_is_vote :: bool
  tx_err :: "'e option"
  tx_sfa :: "'e SignatureForAddress list"
  tx_fees :: "TransactionFees option"
  tx_protobuf :: bytes
  tx_index :: nat

record 'e BlockTransactionOffset =
  to_key :: bytes
  to_offset :: nat
  to_size :: nat
  to_err :: "'e option"
  to_index :: nat

text \<open>
  \<open>BlockWithBinary\<close>. The two \<open>Instant\<close>s and the two \<open>Duration\<close>s of the Rust struct are read
  by log messages only and are left out.
\<close>

record 'e BlockWithBinary =
  bl_blockhash :: string
  bl_parent_slot :: Slot
  bl_block_time :: "UnixTimestamp option"
  bl_block_height :: "Slot option"
  bl_protobuf :: bytes
  bl_txs_offset :: "'e BlockTransactionOffset list"
  bl_transactions :: "(Signature, 'e TransactionWithBinary) hmap"
  bl_sfa :: "(Pubkey, 'e SignaturesForAddress) hmap"
  bl_fees :: TransactionsFees

text \<open>\<open>TransactionConfirmationStatus\<close> and \<open>CommitmentLevel\<close> of the Solana crates.\<close>

datatype TransactionConfirmationStatus = TcsProcessed | TcsConfirmed | TcsFinalized

datatype CommitmentLevel = LevelProcessed | LevelConfirmed | LevelFinalized

text \<open>\<open>VecSide\<close> (src/src/util.rs).\<close>

datatype VecSide = Back | Front

text \<open>\<open>tokens_match\<close> (src/src/util.rs): the comparison whose time does not depend on the bytes.\<close>

definition tokens_match :: "bytes \<Rightarrow> bytes \<Rightarrow> bool" where
  "tokens_match a b \<longleftrightarrow> length a = length b \<and>
     foldl (\<lambda>acc (x, y). or acc (xor x y)) 0 (zip a b) = (0 :: u8)"

lemma or_eq_0_word: "or a b = (0 :: u8) \<longleftrightarrow> a = 0 \<and> b = 0"
  by (auto simp: bit_eq_iff bit_simps)

lemma xor_eq_0_word: "xor a b = (0 :: u8) \<longleftrightarrow> a = b"
  by (auto simp: bit_eq_iff bit_simps)

lemma tokens_fold:
  "foldl (\<lambda>acc (x, y). or acc (xor x y)) a (zip xs ys) = (0 :: u8) \<longleftrightarrow>
     a = 0 \<and> (\<forall>(x, y) \<in> set (zip xs ys). x = y)"
proof (induction xs arbitrary: ys a)
  case (Cons x xs)
  then show ?case by (cases ys) (auto simp: or_eq_0_word xor_eq_0_word)
qed simp

text \<open>
  The constant-time token comparison accepts exactly equal tokens.
\<close>

lemma tokens_match_iff_equal: "tokens_match a b \<longleftrightarrow> a = b"
proof -
  have "length a = length b \<Longrightarrow> (\<forall>(x, y) \<in> set (zip a b). x = y) \<longleftrightarrow> a = b"
    by (induction a b rule: list_induct2) auto
  then show ?thesis by (auto simp: tokens_match_def tokens_fold)
qed

end
