(* ===== verification/Alp_Slots.thy ===== *)
theory Alp_Slots
  imports Alp_BTree
begin

text \<open>
  src/src/storage/slots.rs: the slots shared by all threads (\<open>StoredSlots\<close>) and the counters by
  which the read threads agree on them (\<open>StoredSlotsRead\<close>). Each atomic is a field; each method
  is one function on the state. The clones of \<open>StoredSlotsRead\<close> share everything but the flag
  \<open>max_recent_blockhashes_ready\<close>, which the model keeps per read thread. Prometheus gauges are
  not part of the state. The lemmas show the quorum rule: a slot is published only after every
  read thread has reported it.
\<close>

section \<open>StoredSlots\<close>

record StoredSlots =
  ss_processed :: Slot
  ss_confirmed :: Slot
  ss_finalized :: Slot
  ss_first_available :: Slot
  ss_max_recent_blockhashes :: bool

definition StoredSlots_default :: StoredSlots where
  "StoredSlots_default = \<lparr>ss_processed = 0, ss_confirmed = 0, ss_finalized = 0,
     ss_first_available = u64_MAX, ss_max_recent_blockhashes = False\<rparr>"

definition is_ready :: "StoredSlots \<Rightarrow> bool" where
  "is_ready s \<longleftrightarrow> ss_processed s \<noteq> 0 \<and> ss_confirmed s \<noteq> 0 \<and> ss_finalized s \<noteq> 0 \<and>
     ss_first_available s \<noteq> u64_MAX \<and> ss_max_recent_blockhashes s"

definition processed_store_max :: "Slot \<Rightarrow> StoredSlots \<Rightarrow> StoredSlots" where
  "processed_store_max slot s = s\<lparr>ss_processed := max (ss_processed s) slot\<rparr>"

definition confirmed_store :: "Slot \<Rightarrow> StoredSlots \<Rightarrow> StoredSlots" where
  "confirmed_store slot s = s\<lparr>ss_confirmed := slot\<rparr>"

definition finalized_store :: "Slot \<Rightarrow> StoredSlots \<Rightarrow> StoredSlots" where
  "finalized_store slot s =
     (if ss_first_available s \<le> slot then s\<lparr>ss_finalized := slot\<rparr> else s)"

definition first_available_store :: "Slot option \<Rightarrow> StoredSlots \<Rightarrow> StoredSlots" where
  "first_available_store slot s =
     s\<lparr>ss_first_available := (case slot of Some x \<Rightarrow> x | None \<Rightarrow> u64_MAX)\<rparr>"

lemmas slots_store_defs = processed_store_max_def confirmed_store_def finalized_store_def
  first_available_store_def

section \<open>StoredSlotsRead\<close>

type_synonym reports = "(Slot, nat set) btree"

record StoredSlotsRead =
  sr_stored_slots :: StoredSlots
  sr_processed :: reports
  sr_confirmed :: reports
  sr_finalized :: reports
  sr_max_recent_blockhashes :: nat
  sr_ready :: "nat \<Rightarrow> bool"
  sr_total_readers :: nat

definition StoredSlotsRead_new :: "StoredSlots \<Rightarrow> nat \<Rightarrow> StoredSlotsRead" where
  "StoredSlotsRead_new stored_slots total_readers =
     \<lparr>sr_stored_slots = stored_slots, sr_processed = [], sr_confirmed = [], sr_finalized = [],
      sr_max_recent_blockhashes = 0, sr_ready = (\<lambda>_. False), sr_total_readers = total_readers\<rparr>"

text \<open>\<open>set\<close>: record the report, and when the last reader reports, drop the entry and answer true.\<close>

definition slots_set :: "nat \<Rightarrow> reports \<Rightarrow> nat \<Rightarrow> Slot \<Rightarrow> bool \<times> reports" where
  "slots_set total_readers m index slot =
     (let entry = insert index (case bt_get m slot of Some e \<Rightarrow> e | None \<Rightarrow> {});
          m' = bt_insert slot entry m
      in if card entry = total_readers then (True, bt_remove slot m') else (False, m'))"

definition set_processed :: "nat \<Rightarrow> Slot \<Rightarrow> StoredSlotsRead \<Rightarrow> StoredSlotsRead" where
  "set_processed index slot s =
     (let (full, m) = slots_set (sr_total_readers s) (sr_processed s) index slot;
          s = s\<lparr>sr_processed := m\<rparr>
      in if full then s\<lparr>sr_stored_slots := processed_store_max slot (sr_stored_slots s)\<rparr> else s)"

definition set_confirmed :: "nat \<Rightarrow> Slot \<Rightarrow> StoredSlotsRead \<Rightarrow> StoredSlotsRead" where
  "set_confirmed index slot s =
     (let (full, m) = slots_set (sr_total_readers s) (sr_confirmed s) index slot;
          s = s\<lparr>sr_confirmed := m\<rparr>
      in if full
         then s\<lparr>sr_stored_slots := confirmed_store slot (processed_store_max slot (sr_stored_slots s))\<rparr>
         else s)"

definition set_finalized :: "nat \<Rightarrow> Slot \<Rightarrow> StoredSlotsRead \<Rightarrow> StoredSlotsRead" where
  "set_finalized index slot s =
     (let (full, m) = slots_set (sr_total_readers s) (sr_finalized s) index slot;
          s = s\<lparr>sr_finalized := m\<rparr>
      in if full
         then s\<lparr>sr_stored_slots := finalized_store slot (sr_stored_slots s),
                sr_processed := bt_prune (\<lambda>k _. k \<le> slot) (sr_processed s),
                sr_confirmed := bt_prune (\<lambda>k _. k \<le> slot) (sr_confirmed s),
                sr_finalized := bt_prune (\<lambda>k _. k \<le> slot) (sr_finalized s)\<rparr>
         else s)"

definition set_ready :: "nat \<Rightarrow> bool \<Rightarrow> StoredSlotsRead \<Rightarrow> StoredSlotsRead" where
  "set_ready index ready s =
     (if ready \<and> \<not> sr_ready s index then
        let n = sr_max_recent_blockhashes s + 1;
            s = s\<lparr>sr_ready := (sr_ready s)(index := True), sr_max_recent_blockhashes := n\<rparr>
        in if n = sr_total_readers s
           then s\<lparr>sr_stored_slots := (sr_stored_slots s)\<lparr>ss_max_recent_blockhashes := True\<rparr>\<rparr>
           else s
      else s)"

section \<open>Runs of the shared state\<close>

text \<open>
  Every mutex-protected call is atomic, so an execution of the read threads and of the write
  thread (which calls \<open>confirmed_store\<close> at start-up and \<open>first_available_store\<close>) is a sequence
  of calls.
\<close>

datatype slots_event =
    SetProcessed nat Slot
  | SetConfirmed nat Slot
  | SetFinalized nat Slot
  | SetReady nat bool
  | StoreConfirmed Slot
  | StoreFirstAvailable "Slot option"

fun slots_step :: "slots_event \<Rightarrow> StoredSlotsRead \<Rightarrow> StoredSlotsRead" where
  "slots_step (SetProcessed i x) s = set_processed i x s"
| "slots_step (SetConfirmed i x) s = set_confirmed i x s"
| "slots_step (SetFinalized i x) s = set_finalized i x s"
| "slots_step (SetReady i b) s = set_ready i b s"
| "slots_step (StoreConfirmed x) s = s\<lparr>sr_stored_slots := confirmed_store x (sr_stored_slots s)\<rparr>"
| "slots_step (StoreFirstAvailable x) s =
     s\<lparr>sr_stored_slots := first_available_store x (sr_stored_slots s)\<rparr>"

definition slots_run :: "slots_event list \<Rightarrow> StoredSlotsRead \<Rightarrow> StoredSlotsRead" where
  "slots_run evs s = fold slots_step evs s"

fun event_reader :: "slots_event \<Rightarrow> nat option" where
  "event_reader (SetProcessed i _) = Some i"
| "event_reader (SetConfirmed i _) = Some i"
| "event_reader (SetFinalized i _) = Some i"
| "event_reader (SetReady i _) = Some i"
| "event_reader _ = None"

definition readers_below :: "nat \<Rightarrow> slots_event list \<Rightarrow> bool" where
  "readers_below n evs \<longleftrightarrow> (\<forall>e \<in> set evs. case event_reader e of Some i \<Rightarrow> i < n | None \<Rightarrow> True)"

section \<open>The quorum invariant\<close>

text \<open>The readers recorded for a slot are readers that reported it.\<close>

definition reports_ok :: "nat \<Rightarrow> (nat \<Rightarrow> Slot \<Rightarrow> bool) \<Rightarrow> reports \<Rightarrow> bool" where
  "reports_ok n R m \<longleftrightarrow> bt_ok m \<and>
     (\<forall>slot e. bt_get m slot = Some e \<longrightarrow> e \<subseteq> {i. i < n \<and> R i slot})"

lemma reports_ok_mono: "reports_ok n R m \<Longrightarrow> (\<And>i x. R i x \<Longrightarrow> R' i x) \<Longrightarrow> reports_ok n R' m"
  unfolding reports_ok_def by blast

lemma reports_ok_Nil: "reports_ok n R []"
  by (simp add: reports_ok_def)

lemma reports_ok_prune: "reports_ok n R m \<Longrightarrow> reports_ok n R (bt_prune (\<lambda>k _. k \<le> x) m)"
  by (auto simp: reports_ok_def bt_get_prune_le split: if_splits)

lemma slots_set_reports_ok:
  assumes ok: "reports_ok n R m" and i: "i < n" "R i x"
    and set: "slots_set n m i x = (full, m')"
  shows "reports_ok n R m'" and "full \<Longrightarrow> \<forall>j < n. R j x"
proof -
  define e where "e = insert i (case bt_get m x of Some e \<Rightarrow> e | None \<Rightarrow> {})"
  have sub: "e \<subseteq> {j. j < n \<and> R j x}"
    using ok i by (auto simp: e_def reports_ok_def split: option.splits)
  have m': "m' = (if full then bt_remove x (bt_insert x e m) else bt_insert x e m)"
    and full: "full \<longleftrightarrow> card e = n"
    using set by (auto simp: slots_set_def e_def Let_def split: if_splits)
  show "reports_ok n R m'"
    using ok sub by (auto simp: m' reports_ok_def split: if_splits)
  show "\<forall>j < n. R j x" if full
  proof -
    have "card e = card {..<n}" using that full by simp
    moreover have "e \<subseteq> {..<n}" using sub by auto
    ultimately have "e = {..<n}" by (intro card_subset_eq) simp_all
    then show ?thesis using sub by auto
  qed
qed

definition quorum_inv :: "nat \<Rightarrow> slots_event list \<Rightarrow> StoredSlotsRead \<Rightarrow> bool" where
  "quorum_inv n evs s \<longleftrightarrow>
     sr_total_readers s = n \<and>
     reports_ok n (\<lambda>i x. SetProcessed i x \<in> set evs) (sr_processed s) \<and>
     reports_ok n (\<lambda>i x. SetConfirmed i x \<in> set evs) (sr_confirmed s) \<and>
     reports_ok n (\<lambda>i x. SetFinalized i x \<in> set evs) (sr_finalized s) \<and>
     (ss_processed (sr_stored_slots s) \<noteq> 0 \<longrightarrow>
        (\<forall>i < n. SetProcessed i (ss_processed (sr_stored_slots s)) \<in> set evs) \<or>
        (\<forall>i < n. SetConfirmed i (ss_processed (sr_stored_slots s)) \<in> set evs)) \<and>
     (ss_confirmed (sr_stored_slots s) \<noteq> 0 \<longrightarrow>
        StoreConfirmed (ss_confirmed (sr_stored_slots s)) \<in> set evs \<or>
        (\<forall>i < n. SetConfirmed i (ss_confirmed (sr_stored_slots s)) \<in> set evs)) \<and>
     (ss_finalized (sr_stored_slots s) \<noteq> 0 \<longrightarrow>
        (\<forall>i < n. SetFinalized i (ss_finalized (sr_stored_slots s)) \<in> set evs))"

lemma quorum_inv_new: "quorum_inv n [] (StoredSlotsRead_new StoredSlots_default n)"
  by (simp add: quorum_inv_def StoredSlotsRead_new_def StoredSlots_default_def reports_ok_Nil)

lemma quorum_inv_weaken: "quorum_inv n evs s \<Longrightarrow> quorum_inv n (evs @ [e]) s"
  unfolding quorum_inv_def by (auto elim!: reports_ok_mono)

lemma set_processed_quorum:
  assumes inv: "quorum_inv n evs s" and i: "i < n" and e: "SetProcessed i x \<in> set evs"
  shows "quorum_inv n evs (set_processed i x s)"
proof -
  obtain full m where set: "slots_set (sr_total_readers s) (sr_processed s) i x = (full, m)"
    by fastforce
  have n: "sr_total_readers s = n" using inv by (simp add: quorum_inv_def)
  have "reports_ok n (\<lambda>i x. SetProcessed i x \<in> set evs) (sr_processed s)"
    using inv by (simp add: quorum_inv_def)
  note ok = slots_set_reports_ok [OF this i e set [unfolded n]]
  show ?thesis using inv ok
    by (simp add: quorum_inv_def set_processed_def Let_def set [unfolded n] processed_store_max_def max_def)
qed

lemma set_confirmed_quorum:
  assumes inv: "quorum_inv n evs s" and i: "i < n" and e: "SetConfirmed i x \<in> set evs"
  shows "quorum_inv n evs (set_confirmed i x s)"
proof -
  obtain full m where set: "slots_set (sr_total_readers s) (sr_confirmed s) i x = (full, m)"
    by fastforce
  have n: "sr_total_readers s = n" using inv by (simp add: quorum_inv_def)
  have "reports_ok n (\<lambda>i x. SetConfirmed i x \<in> set evs) (sr_confirmed s)"
    using inv by (simp add: quorum_inv_def)
  note ok = slots_set_reports_ok [OF this i e set [unfolded n]]
  show ?thesis using inv ok
    by (simp add: quorum_inv_def set_confirmed_def Let_def set [unfolded n] slots_store_defs max_def)
qed

lemma set_finalized_quorum:
  assumes inv: "quorum_inv n evs s" and i: "i < n" and e: "SetFinalized i x \<in> set evs"
  shows "quorum_inv n evs (set_finalized i x s)"
proof -
  obtain full m where set: "slots_set (sr_total_readers s) (sr_finalized s) i x = (full, m)"
    by fastforce
  have n: "sr_total_readers s = n" using inv by (simp add: quorum_inv_def)
  have "reports_ok n (\<lambda>i x. SetFinalized i x \<in> set evs) (sr_finalized s)"
    using inv by (simp add: quorum_inv_def)
  note ok = slots_set_reports_ok [OF this i e set [unfolded n]]
  show ?thesis using inv ok
    by (simp add: quorum_inv_def set_finalized_def Let_def set [unfolded n] slots_store_defs reports_ok_prune)
qed

lemma slots_step_quorum:
  assumes inv: "quorum_inv n evs s" and rd: "case event_reader e of Some i \<Rightarrow> i < n | None \<Rightarrow> True"
  shows "quorum_inv n (evs @ [e]) (slots_step e s)"
proof (cases e)
  case (SetReady i b)
  then show ?thesis using quorum_inv_weaken [OF inv, of e]
    by (simp add: set_ready_def Let_def quorum_inv_def)
next
  case (StoreConfirmed x)
  then show ?thesis using quorum_inv_weaken [OF inv, of e]
    by (simp add: confirmed_store_def quorum_inv_def)
next
  case (StoreFirstAvailable x)
  then show ?thesis using quorum_inv_weaken [OF inv, of e]
    by (simp add: first_available_store_def quorum_inv_def)
qed (use rd quorum_inv_weaken [OF inv, of e] set_processed_quorum set_confirmed_quorum
       set_finalized_quorum in auto)

lemma slots_run_quorum:
  assumes "readers_below n evs"
  shows "quorum_inv n evs (slots_run evs (StoredSlotsRead_new StoredSlots_default n))"
  using assms
proof (induction evs rule: rev_induct)
  case Nil
  show ?case by (simp add: slots_run_def quorum_inv_new)
next
  case (snoc e evs)
  then show ?case
    by (simp add: slots_run_def readers_below_def slots_step_quorum)
qed

text \<open>\<open>processed\<close> never goes back.\<close>

lemma slots_step_processed_mono:
  "ss_processed (sr_stored_slots s) \<le> ss_processed (sr_stored_slots (slots_step e s))"
  by (cases e) (auto simp: set_processed_def set_confirmed_def set_finalized_def set_ready_def
    slots_store_defs Let_def split: prod.splits)

lemma slots_run_processed_mono:
  "ss_processed (sr_stored_slots s) \<le> ss_processed (sr_stored_slots (slots_run evs s))"
proof (induction evs arbitrary: s)
  case (Cons e evs)
  show ?case using slots_step_processed_mono [of s e] Cons.IH [of "slots_step e s"]
    by (simp add: slots_run_def)
qed (simp add: slots_run_def)

section \<open>Properties\<close>



end
