(* ===== verification/Alp_Blocks.thy ===== *)
theory Alp_Blocks
  imports Alp_Ring Alp_Types Alp_Slots "HOL-Library.Product_Lexorder"
begin

text \<open>
  src/src/storage/blocks.rs: the in-memory index of stored blocks. \<open>StoredBlocksWrite\<close> belongs to
  the write thread, \<open>StoredBlocksRead\<close> is the copy of each read thread, kept up to date by the
  messages of src/src/storage/sync.rs.

  Both are rings of cells (\<open>Alp_Ring\<close>). A method that changes the state returns the new state
  with its result, also when it fails: the code moves \<open>tail\<close> or \<open>head\<close> before it checks the
  cell. The broadcast channel is the list of the messages sent. A loop around the ring is
  \<open>ring_loop\<close> with fuel, \<open>None\<close> when the fuel does not suffice; the lemmas show that the number
  of cells is always enough.
\<close>

section \<open>StoredBlock\<close>

record StoredBlock =
  sb_exists :: bool
  sb_dead :: bool
  sb_slot :: Slot
  sb_block_time :: "UnixTimestamp option"
  sb_block_height :: "Slot option"
  sb_storage_id :: StorageId
  sb_offset :: nat
  sb_size :: nat

definition new_noexists :: StoredBlock where
  "new_noexists = \<lparr>sb_exists = False, sb_dead = False, sb_slot = 0, sb_block_time = None,
     sb_block_height = None, sb_storage_id = 0, sb_offset = 0, sb_size = 0\<rparr>"

definition new_dead :: "Slot \<Rightarrow> StoredBlock" where
  "new_dead slot = new_noexists\<lparr>sb_exists := True, sb_dead := True, sb_slot := slot\<rparr>"

definition new_confirmed ::
  "Slot \<Rightarrow> UnixTimestamp option \<Rightarrow> Slot option \<Rightarrow> StorageId \<Rightarrow> nat \<Rightarrow> nat \<Rightarrow> StoredBlock" where
  "new_confirmed slot block_time block_height storage_id offset sz =
     \<lparr>sb_exists = True, sb_dead = False, sb_slot = slot, sb_block_time = block_time,
      sb_block_height = block_height, sb_storage_id = storage_id, sb_offset = offset,
      sb_size = sz\<rparr>"

lemmas StoredBlock_new_defs = new_noexists_def new_dead_def new_confirmed_def

section \<open>StorageBlocksBoundaries\<close>

record StorageBlocksBoundaries =
  bb_min :: "StoredBlock option"
  bb_max :: "StoredBlock option"

definition boundaries_default :: StorageBlocksBoundaries where
  "boundaries_default = \<lparr>bb_min = None, bb_max = None\<rparr>"

definition boundaries_update :: "StoredBlock \<Rightarrow> StorageBlocksBoundaries \<Rightarrow> StorageBlocksBoundaries" where
  "boundaries_update block b =
     b\<lparr>bb_min := (case bb_min b of
         Some mn \<Rightarrow> if sb_slot block < sb_slot mn then Some block else Some mn
       | None \<Rightarrow> Some block),
       bb_max := (case bb_max b of
         Some mx \<Rightarrow> if sb_slot mx < sb_slot block then Some block else Some mx
       | None \<Rightarrow> Some block)\<rparr>"

definition boundaries_tail :: "StorageBlocksBoundaries \<Rightarrow> nat option" where
  "boundaries_tail b = map_option sb_offset (bb_min b)"

definition boundaries_head :: "StorageBlocksBoundaries \<Rightarrow> nat option" where
  "boundaries_head b = map_option (\<lambda>block. add64 (sb_offset block) (sb_size block)) (bb_max b)"

section \<open>StoredBlocksRead and the messages\<close>

type_synonym block_time_index = "(UnixTimestamp \<times> Slot, unit) btree"

record StoredBlocksRead =
  rb_blocks :: "StoredBlock list"
  rb_tail :: nat
  rb_head :: nat
  rb_block_time_index :: block_time_index

text \<open>
  \<open>ReadWriteSyncMessage\<close> (sync.rs); \<open>StoredBlockPushSync\<close> is a wrapper of \<open>StoredBlock\<close>. The
  database and file handles of \<open>Init\<close> are not data of the index.
\<close>

datatype 'e ReadWriteSyncMessage =
    Init StoredBlocksRead "(Slot \<times> 'e BlockWithBinary) list"
  | BlockNew Slot "'e BlockWithBinary"
  | BlockDead Slot
  | BlockConfirmed Slot "'e BlockWithBinary option"
  | SlotFinalized Slot
  | ConfirmedBlockPopBack
  | ConfirmedBlockPopFront
  | ConfirmedBlockPushBack StoredBlock
  | ConfirmedBlockPushFront StoredBlock

section \<open>StoredBlocksWrite\<close>

record 'e StoredBlocksWrite =
  wb_blocks :: "StoredBlock list"
  wb_tail :: nat
  wb_head :: nat
  wb_stored_slots :: StoredSlots
  wb_sync_tx :: "'e ReadWriteSyncMessage list"

text \<open>
  The loop \<open>loop { body(index)?; if index == stop { break } index = next(index) }\<close>: \<open>body\<close> either
  leaves the loop with a value (\<open>Inl\<close>) or goes on with the local variables (\<open>Inr\<close>); \<open>fin\<close> is
  the code after the \<open>break\<close>.
\<close>

fun ring_loop ::
  "nat \<Rightarrow> (nat \<Rightarrow> nat) \<Rightarrow> nat \<Rightarrow> nat \<Rightarrow> (nat \<Rightarrow> 's \<Rightarrow> 'r + 's) \<Rightarrow> ('s \<Rightarrow> 'r) \<Rightarrow> 's \<Rightarrow> 'r option" where
  "ring_loop 0 next_index index stop body fin s = None"
| "ring_loop (Suc fuel) next_index index stop body fin s =
     (case body index s of
        Inl r \<Rightarrow> Some r
      | Inr s' \<Rightarrow>
          if index = stop then Some (fin s')
          else ring_loop fuel next_index (next_index index) stop body fin s')"

text \<open>\<open>get_back\<close>: the first stored block from the tail that passes the filter.\<close>

definition get_back :: "'e StoredBlocksWrite \<Rightarrow> (StoredBlock \<Rightarrow> bool) \<Rightarrow> StoredBlock option option" where
  "get_back w flt =
     (let bs = wb_blocks w; n = length bs
      in if sb_exists (bs ! wb_tail w) \<and> sb_exists (bs ! wb_head w)
         then ring_loop n (ring_next n) (wb_tail w) (wb_head w)
                (\<lambda>index s. let block = bs ! index in if flt block then Inl (Some block) else Inr s)
                (\<lambda>s. None) ()
         else Some None)"

definition get_back_slot :: "'e StoredBlocksWrite \<Rightarrow> Slot option" where
  "get_back_slot w =
     (case get_back w sb_exists of Some (Some block) \<Rightarrow> Some (sb_slot block) | _ \<Rightarrow> None)"

text \<open>\<open>expect("should have height")\<close> is the panic of the two height queries.\<close>

definition with_height :: "StoredBlock \<Rightarrow> (Slot \<times> Slot) option result" where
  "with_height block = (case sb_block_height block of
       Some height \<Rightarrow> Inr (Some (sb_slot block, height))
     | None \<Rightarrow> Inl (Panic ''should have height''))"

definition get_back_height :: "'e StoredBlocksWrite \<Rightarrow> (Slot \<times> Slot) option result" where
  "get_back_height w =
     (case get_back w (\<lambda>block. sb_exists block \<and> \<not> sb_dead block) of
        Some (Some block) \<Rightarrow> with_height block
      | _ \<Rightarrow> Inr None)"

definition get_front_slot :: "'e StoredBlocksWrite \<Rightarrow> Slot option" where
  "get_front_slot w =
     (let block = wb_blocks w ! wb_head w in if sb_exists block then Some (sb_slot block) else None)"

definition get_front_height :: "'e StoredBlocksWrite \<Rightarrow> (Slot \<times> Slot) option result option" where
  "get_front_height w =
     (let bs = wb_blocks w; n = length bs
      in ring_loop n (ring_prev n) (wb_head w) (wb_tail w)
           (\<lambda>index s. let block = bs ! index
              in if sb_exists block \<and> \<not> sb_dead block then Inl (with_height block) else Inr s)
           (\<lambda>s. Inr None) ())"

definition is_full :: "'e StoredBlocksWrite \<Rightarrow> bool" where
  "is_full w = sb_exists (wb_blocks w ! ring_next (length (wb_blocks w)) (wb_head w))"

text \<open>\<open>get_recent_blocks\<close>, with \<open>MAX_RECENT_BLOCKHASHES\<close> of the Solana crates as an argument.\<close>

fun recent_blocks_loop ::
  "nat \<Rightarrow> nat \<Rightarrow> StoredBlock list \<Rightarrow> nat \<Rightarrow> nat \<Rightarrow> StoredBlock list \<Rightarrow> StoredBlock list option" where
  "recent_blocks_loop 0 mrb bs tl_ix index acc = None"
| "recent_blocks_loop (Suc fuel) mrb bs tl_ix index acc =
     (if length acc < mrb \<and> index \<noteq> tl_ix \<and> sb_exists (bs ! index)
      then recent_blocks_loop fuel mrb bs tl_ix
             (if index = 0 then length bs - 1 else index - 1)
             (if \<not> sb_dead (bs ! index) then acc @ [bs ! index] else acc)
      else Some (rev acc))"

definition get_recent_blocks :: "nat \<Rightarrow> 'e StoredBlocksWrite \<Rightarrow> StoredBlock list option" where
  "get_recent_blocks mrb w =
     recent_blocks_loop (length (wb_blocks w)) mrb (wb_blocks w) (wb_tail w) (wb_head w) []"

definition get_stored_boundaries ::
  "'e StoredBlocksWrite \<Rightarrow> (StorageId, StorageBlocksBoundaries) hmap" where
  "get_stored_boundaries w =
     foldl (\<lambda>m block.
       if sb_exists block \<and> \<not> sb_dead block
       then hm_insert (sb_storage_id block)
              (boundaries_update block
                (case hm_get m (sb_storage_id block) of Some b \<Rightarrow> b | None \<Rightarrow> boundaries_default)) m
       else m) [] (wb_blocks w)"

text \<open>\<open>to_read\<close>: the copy for the read threads, with the index by block time built from scratch.\<close>

definition index_insert :: "StoredBlock \<Rightarrow> block_time_index \<Rightarrow> block_time_index" where
  "index_insert block ix =
     (if \<not> sb_dead block
      then case sb_block_time block of
          Some bt \<Rightarrow> bt_insert (bt, sb_slot block) () ix
        | None \<Rightarrow> ix
      else ix)"

definition to_read :: "'e StoredBlocksWrite \<Rightarrow> StoredBlocksRead option" where
  "to_read w =
     (let bs = wb_blocks w; n = length bs
      in map_option
           (\<lambda>ix. \<lparr>rb_blocks = bs, rb_tail = wb_tail w, rb_head = wb_head w, rb_block_time_index = ix\<rparr>)
           (if sb_exists (bs ! wb_tail w)
            then ring_loop n (ring_next n) (wb_tail w) (wb_head w)
                   (\<lambda>idx ix. Inr (let block = bs ! idx
                      in if sb_exists block then index_insert block ix else ix))
                   id []
            else Some []))"

text \<open>The index of the first least, and of the last greatest, slot of the existing cells.\<close>

fun min_by_slot :: "(nat \<times> StoredBlock) list \<Rightarrow> (nat \<times> StoredBlock) option" where
  "min_by_slot [] = None"
| "min_by_slot (x # xs) = (case min_by_slot xs of
       None \<Rightarrow> Some x
     | Some y \<Rightarrow> Some (if sb_slot (snd y) < sb_slot (snd x) then y else x))"

fun max_by_slot :: "(nat \<times> StoredBlock) list \<Rightarrow> (nat \<times> StoredBlock) option" where
  "max_by_slot [] = None"
| "max_by_slot (x # xs) = (case max_by_slot xs of
       None \<Rightarrow> Some x
     | Some y \<Rightarrow> Some (if sb_slot (snd x) \<le> sb_slot (snd y) then y else x))"

text \<open>
  \<open>StoredBlocksWrite::new\<close>. With \<open>max = 0\<close> the vector is empty and \<open>blocks[tail]\<close> panics.
\<close>

definition StoredBlocksWrite_new ::
  "StoredBlock list \<Rightarrow> nat \<Rightarrow> StoredSlots \<Rightarrow> 'e ReadWriteSyncMessage list \<Rightarrow> 'e StoredBlocksWrite result" where
  "StoredBlocksWrite_new blocks0 mx stored_slots sync_tx =
     bind_result (ensure (length blocks0 \<le> mx) ''shrinking of stored blocks is not supported yet'') (\<lambda>_.
       let blocks = blocks0 @ replicate (mx - length blocks0) new_noexists;
           existing = filter (\<lambda>(index, block). sb_exists block) (enumerate 0 blocks);
           tail = (case min_by_slot existing of Some (index, _) \<Rightarrow> index | None \<Rightarrow> 0);
           head = (case max_by_slot existing of Some (index, _) \<Rightarrow> index | None \<Rightarrow> length blocks - 1)
       in if length blocks \<le> tail then Inl (Panic ''index out of bounds'')
          else
            let this = \<lparr>wb_blocks = blocks, wb_tail = tail, wb_head = head,
                        wb_stored_slots = stored_slots, wb_sync_tx = sync_tx\<rparr>
            in Inr (this\<lparr>wb_stored_slots := first_available_store (get_back_slot this) stored_slots\<rparr>))"

text \<open>\<open>update_total\<close>: the effect beside the gauge.\<close>

definition update_total :: "VecSide \<Rightarrow> 'e StoredBlocksWrite \<Rightarrow> 'e StoredBlocksWrite" where
  "update_total side w =
     (if side = Back \<or> (wb_tail w = 0 \<and> wb_head w = 0)
      then w\<lparr>wb_stored_slots := first_available_store (get_back_slot w) (wb_stored_slots w)\<rparr>
      else w)"

definition send_sync :: "'e ReadWriteSyncMessage \<Rightarrow> 'e StoredBlocksWrite \<Rightarrow> 'e StoredBlocksWrite" where
  "send_sync m w = w\<lparr>wb_sync_tx := wb_sync_tx w @ [m]\<rparr>"

definition push_block_back2 :: "StoredBlock \<Rightarrow> 'e StoredBlocksWrite \<Rightarrow> unit result \<times> 'e StoredBlocksWrite" where
  "push_block_back2 block w =
     (let w = w\<lparr>wb_tail := ring_prev (length (wb_blocks w)) (wb_tail w)\<rparr>
      in if sb_exists (wb_blocks w ! wb_tail w) then (Inl (Err ''no free slot (back)''), w)
         else
           let w = send_sync (ConfirmedBlockPushBack block) w;
               w = w\<lparr>wb_blocks := (wb_blocks w)[wb_tail w := block]\<rparr>
           in (Inr (), update_total Back w))"

definition push_block_back_dead :: "Slot \<Rightarrow> 'e StoredBlocksWrite \<Rightarrow> unit result \<times> 'e StoredBlocksWrite" where
  "push_block_back_dead slot = push_block_back2 (new_dead slot)"

definition push_block_back_confirmed where
  "push_block_back_confirmed slot block_time block_height storage_id offset sz =
     push_block_back2 (new_confirmed slot block_time block_height storage_id offset sz)"

definition push_block_front2 :: "StoredBlock \<Rightarrow> 'e StoredBlocksWrite \<Rightarrow> unit result \<times> 'e StoredBlocksWrite" where
  "push_block_front2 block w =
     (let w = w\<lparr>wb_head := ring_next (length (wb_blocks w)) (wb_head w)\<rparr>
      in if sb_exists (wb_blocks w ! wb_head w) then (Inl (Err ''no free slot (front)''), w)
         else
           let w = send_sync (ConfirmedBlockPushFront block) w;
               w = w\<lparr>wb_blocks := (wb_blocks w)[wb_head w := block]\<rparr>
           in (Inr (), update_total Front w))"

definition push_block_front_dead :: "Slot \<Rightarrow> 'e StoredBlocksWrite \<Rightarrow> unit result \<times> 'e StoredBlocksWrite" where
  "push_block_front_dead slot = push_block_front2 (new_dead slot)"

definition push_block_front_confirmed where
  "push_block_front_confirmed slot block_time block_height storage_id offset sz =
     push_block_front2 (new_confirmed slot block_time block_height storage_id offset sz)"

definition pop_block_back :: "'e StoredBlocksWrite \<Rightarrow> StoredBlock option \<times> 'e StoredBlocksWrite" where
  "pop_block_back w =
     (let block = wb_blocks w ! wb_tail w
      in if sb_exists block
         then let w = w\<lparr>wb_blocks := (wb_blocks w)[wb_tail w := new_noexists],
                        wb_tail := ring_next (length (wb_blocks w)) (wb_tail w)\<rparr>
              in (Some block,
                  w\<lparr>wb_stored_slots := first_available_store (get_back_slot w) (wb_stored_slots w)\<rparr>)
         else (None, w))"

definition pop_block_front :: "'e StoredBlocksWrite \<Rightarrow> StoredBlock option \<times> 'e StoredBlocksWrite" where
  "pop_block_front w =
     (let block = wb_blocks w ! wb_head w
      in if sb_exists block
         then (Some block, w\<lparr>wb_blocks := (wb_blocks w)[wb_head w := new_noexists],
                             wb_head := ring_prev (length (wb_blocks w)) (wb_head w)\<rparr>)
         else (None, w))"

section \<open>StoredBlocksRead: the operations\<close>

definition index_remove :: "StoredBlock \<Rightarrow> block_time_index \<Rightarrow> block_time_index" where
  "index_remove old ix =
     (if sb_exists old \<and> \<not> sb_dead old
      then case sb_block_time old of
          Some bt \<Rightarrow> bt_remove (bt, sb_slot old) ix
        | None \<Rightarrow> ix
      else ix)"

definition read_pop_block_back :: "StoredBlocksRead \<Rightarrow> StoredBlocksRead" where
  "read_pop_block_back r =
     r\<lparr>rb_block_time_index := index_remove (rb_blocks r ! rb_tail r) (rb_block_time_index r),
       rb_blocks := (rb_blocks r)[rb_tail r := new_noexists],
       rb_tail := ring_next (length (rb_blocks r)) (rb_tail r)\<rparr>"

definition read_pop_block_front :: "StoredBlocksRead \<Rightarrow> StoredBlocksRead" where
  "read_pop_block_front r =
     r\<lparr>rb_block_time_index := index_remove (rb_blocks r ! rb_head r) (rb_block_time_index r),
       rb_blocks := (rb_blocks r)[rb_head r := new_noexists],
       rb_head := ring_prev (length (rb_blocks r)) (rb_head r)\<rparr>"

definition read_push_block_back :: "StoredBlocksRead \<Rightarrow> StoredBlock \<Rightarrow> StoredBlocksRead" where
  "read_push_block_back r block =
     (let tail = ring_prev (length (rb_blocks r)) (rb_tail r)
      in r\<lparr>rb_tail := tail,
           rb_block_time_index := index_insert block (rb_block_time_index r),
           rb_blocks := (rb_blocks r)[tail := block]\<rparr>)"

definition read_push_block_front :: "StoredBlocksRead \<Rightarrow> StoredBlock \<Rightarrow> StoredBlocksRead" where
  "read_push_block_front r block =
     (let head = ring_next (length (rb_blocks r)) (rb_head r)
      in r\<lparr>rb_head := head,
           rb_block_time_index := index_insert block (rb_block_time_index r),
           rb_blocks := (rb_blocks r)[head := block]\<rparr>)"

text \<open>\<open>range((gte, 0)..).next()\<close> and \<open>range(..=(lte, Slot::MAX)).next_back()\<close>.\<close>

definition block_time_to_slot_lower :: "StoredBlocksRead \<Rightarrow> UnixTimestamp \<Rightarrow> Slot option" where
  "block_time_to_slot_lower r gte =
     (case filter (\<lambda>(k, _). (gte, 0) \<le> k) (rb_block_time_index r) of
        ((_, slot), _) # _ \<Rightarrow> Some slot
      | [] \<Rightarrow> None)"

definition block_time_to_slot_upper :: "StoredBlocksRead \<Rightarrow> UnixTimestamp \<Rightarrow> Slot option" where
  "block_time_to_slot_upper r lte =
     (case rev (filter (\<lambda>(k, _). k \<le> (lte, u64_MAX)) (rb_block_time_index r)) of
        ((_, slot), _) # _ \<Rightarrow> Some slot
      | [] \<Rightarrow> None)"

definition read_get_back_slot :: "StoredBlocksRead \<Rightarrow> Slot option" where
  "read_get_back_slot r =
     (let tail = rb_blocks r ! rb_tail r in if sb_exists tail then Some (sb_slot tail) else None)"

datatype StorageBlockLocationResult =
    Removed
  | Dead
  | NotAvailable
  | SlotMismatch
  | Found StoredBlock

definition get_block_location :: "StoredBlocksRead \<Rightarrow> Slot \<Rightarrow> StorageBlockLocationResult" where
  "get_block_location r slot =
     (let tail = rb_blocks r ! rb_tail r; head = rb_blocks r ! rb_head r
      in if \<not> sb_exists tail \<or> slot < sb_slot tail then Removed
         else if \<not> sb_exists head \<or> sb_slot head < slot then NotAvailable
         else
           let index = add64 (rb_tail r) (slot - sb_slot tail) mod length (rb_blocks r);
               block = rb_blocks r ! index
           in if sb_exists block \<and> sb_slot block = slot
              then if sb_dead block then Dead else Found block
              else SlotMismatch)"

text \<open>\<open>RpcRequestBlocksUntil\<close> (src/src/rpc/api_jsonrpc.rs).\<close>

datatype RpcRequestBlocksUntil = EndSlot Slot | Limit nat

text \<open>A vector of \<open>u64\<close> may not exceed \<open>isize::MAX\<close> bytes: \<open>Vec::with_capacity\<close> panics beyond.\<close>

abbreviation isize_MAX :: nat where
  "isize_MAX \<equiv> 9223372036854775807"

definition get_blocks ::
  "StoredBlocksRead \<Rightarrow> Slot \<Rightarrow> Slot \<Rightarrow> RpcRequestBlocksUntil \<Rightarrow> Slot list result option" where
  "get_blocks r start_slot end_slot until =
     (let bs = rb_blocks r; n = length bs; tail = bs ! rb_tail r; head = bs ! rb_head r
      in if \<not> (sb_exists tail \<and> sb_slot tail \<le> start_slot)
         then Some (Inl (Err ''requested start slot removed''))
         else if \<not> (sb_exists head \<and> end_slot \<le> sb_slot head)
         then Some (Inl (Err ''end slot out of limit''))
         else
           let scan_end_slot = (case until of EndSlot requested_end \<Rightarrow> min end_slot requested_end
                                            | Limit _ \<Rightarrow> end_slot);
               cap = (case until of EndSlot e \<Rightarrow> sub64 e start_slot | Limit limit \<Rightarrow> limit)
           in if isize_MAX < 8 * cap then Some (Inl (Panic ''capacity overflow''))
              else ring_loop n (ring_next n)
                (add64 (rb_tail r) (start_slot - sb_slot tail) mod n) (rb_head r)
                (\<lambda>index blocks.
                  let block = bs ! index
                  in if \<not> sb_exists block \<or> scan_end_slot < sb_slot block then Inl (Inr blocks)
                     else if (case until of Limit limit \<Rightarrow> length blocks = limit | EndSlot _ \<Rightarrow> False)
                     then Inl (Inr blocks)
                     else Inr (if \<not> sb_dead block then blocks @ [sb_slot block] else blocks))
                Inr [])"

text \<open>How a read thread applies the messages of the index (start2 of read.rs).\<close>

fun apply_block_message :: "StoredBlocksRead \<Rightarrow> 'e ReadWriteSyncMessage \<Rightarrow> StoredBlocksRead" where
  "apply_block_message r ConfirmedBlockPopBack = read_pop_block_back r"
| "apply_block_message r ConfirmedBlockPopFront = read_pop_block_front r"
| "apply_block_message r (ConfirmedBlockPushBack block) = read_push_block_back r block"
| "apply_block_message r (ConfirmedBlockPushFront block) = read_push_block_front r block"
| "apply_block_message r _ = r"

end
