(* ===== verification/Alp_Index.thy ===== *)
theory Alp_Index
  imports Alp_Blocks
begin

text \<open>
  Correctness of the block index (blocks.rs). The stored content of a ring is a list of blocks
  with consecutive slots (\<open>wb_valid\<close>, \<open>rb_valid\<close>); every query is shown equal to its reading on
  that list, every update is a deque operation on it (the interpretations of \<open>bounded_deque\<close>),
  and the copy of a read thread that applies the messages stays equal to \<open>to_read\<close> of the
  writer.
\<close>

section \<open>Loops around the ring\<close>

fun list_loop :: "('a \<Rightarrow> 's \<Rightarrow> 'r + 's) \<Rightarrow> ('s \<Rightarrow> 'r) \<Rightarrow> 'a list \<Rightarrow> 's \<Rightarrow> 'r" where
  "list_loop body fin [] s = fin s"
| "list_loop body fin (x # xs) s = (case body x s of Inl r \<Rightarrow> r | Inr s' \<Rightarrow> list_loop body fin xs s')"

lemma ring_next_pos: "ring_next n ((t + j) mod n) = (t + Suc j) mod n"
  by (simp add: ring_next_def mod_Suc_eq)

lemma ring_prev_pos:
  assumes "0 < n" shows "ring_prev n ((t + Suc j) mod n) = (t + j) mod n"
proof -
  have "ring_prev n (ring_next n ((t + j) mod n)) = (t + j) mod n"
    using assms by (intro ring_prev_next) simp
  then show ?thesis by (simp add: ring_next_pos)
qed

lemma ring_loop_up:
  assumes "j \<le> m" "m < length bs" "m - j < fuel"
  shows "ring_loop fuel (ring_next (length bs)) ((t + j) mod length bs) ((t + m) mod length bs)
      (\<lambda>i. body (bs ! i)) fin s =
    Some (list_loop body fin (map (ring_at bs t) [j..<Suc m]) s)"
  using assms
proof (induction fuel arbitrary: j s)
  case (Suc fuel)
  have stop: "(t + j) mod length bs = (t + m) mod length bs \<longleftrightarrow> j = m"
    using ring_pos_inj [of t j "length bs" m] Suc.prems by auto
  show ?case
  proof (cases "j = m")
    case True
    then show ?thesis by (simp add: ring_at_def split: sum.splits)
  next
    case False
    then have up: "[j..<Suc m] = j # [Suc j..<Suc m]" using Suc.prems by (simp add: upt_conv_Cons)
    show ?thesis using Suc.IH [of "Suc j"] Suc.prems False stop
      by (simp add: up ring_next_pos ring_at_def del: upt_Suc split: sum.splits)
  qed
qed simp

lemma ring_loop_down:
  assumes "j < length bs" "j < fuel" "t < length bs"
  shows "ring_loop fuel (ring_prev (length bs)) ((t + j) mod length bs) t (\<lambda>i. body (bs ! i)) fin s =
    Some (list_loop body fin (rev (map (ring_at bs t) [0..<Suc j])) s)"
  using assms
proof (induction fuel arbitrary: j s)
  case (Suc fuel)
  have stop: "(t + j) mod length bs = t \<longleftrightarrow> j = 0"
    using ring_pos_inj [of t j "length bs" 0] Suc.prems by (metis add_0_right gr_implies_not0 mod_less neq0_conv)
  show ?case
  proof (cases j)
    case 0
    then show ?thesis using Suc.prems by (simp add: ring_at_def split: sum.splits)
  next
    case (Suc i)
    have n: "0 < length bs" using Suc.prems(1) by linarith
    have "ring_prev (length bs) ((t + j) mod length bs) = (t + i) mod length bs"
      using ring_prev_pos [OF n, of t i] Suc by simp
    then show ?thesis using Suc.IH [of i] Suc.prems Suc stop
      by (simp add: ring_at_def split: sum.splits)
  qed
qed simp

text \<open>The cells of a non-empty ring, from position \<open>j\<close> up to the head.\<close>

lemma ring_rep_cells:
  assumes "ring_rep ex bs t h xs"
  shows "map (ring_at bs t) [j..<length xs] = drop j xs"
  using ring_repD(5) [OF assms] by (intro nth_equalityI) auto

lemma ring_loop_rep:
  assumes rep: "ring_rep ex bs t h xs" and j: "j < length xs"
  shows "ring_loop (length bs) (ring_next (length bs)) ((t + j) mod length bs) h
      (\<lambda>i. body (bs ! i)) fin s = Some (list_loop body fin (drop j xs) s)"
proof -
  let ?m = "length xs - 1"
  have ne: "xs \<noteq> []" using j by auto
  have h: "h = (t + ?m) mod length bs" by (rule ring_head_nonempty [OF rep ne])
  have m: "Suc ?m = length xs" using j by simp
  show ?thesis
    using ring_loop_up [of j ?m bs "length bs" t body fin s] ring_repD(3) [OF rep] j
      ring_rep_cells [OF rep, of j] unfolding h m by simp
qed

lemma ring_loop_rep_tail:
  assumes rep: "ring_rep ex bs t h xs" and "xs \<noteq> []"
  shows "ring_loop (length bs) (ring_next (length bs)) t h (\<lambda>i. body (bs ! i)) fin s =
    Some (list_loop body fin xs s)"
  using ring_loop_rep [OF rep, of 0 body fin s] assms(2) ring_repD(1) [OF rep] by simp

lemma list_loop_find:
  "list_loop (\<lambda>x s. if P x then Inl (f x) else Inr s) (\<lambda>s. d) xs u =
     (case find P xs of Some x \<Rightarrow> f x | None \<Rightarrow> d)"
  by (induction xs) auto

lemma list_loop_foldl: "list_loop (\<lambda>x s. Inr (g x s)) fin xs s = fin (foldl (\<lambda>s x. g x s) s xs)"
  by (induction xs arbitrary: s) auto

section \<open>Valid indices\<close>

definition slots_consecutive :: "StoredBlock list \<Rightarrow> bool" where
  "slots_consecutive xs \<longleftrightarrow> successively (\<lambda>b c. sb_slot c = sb_slot b + 1) xs"

lemma slots_consecutive_Nil [simp]: "slots_consecutive []"
  by (simp add: slots_consecutive_def)

lemma slots_consecutive_Cons:
  "slots_consecutive (b # xs) \<longleftrightarrow>
     slots_consecutive xs \<and> (xs \<noteq> [] \<longrightarrow> sb_slot (hd xs) = sb_slot b + 1)"
  by (cases xs) (auto simp: slots_consecutive_def)

lemma slots_consecutive_snoc:
  "slots_consecutive (xs @ [b]) \<longleftrightarrow>
     slots_consecutive xs \<and> (xs \<noteq> [] \<longrightarrow> sb_slot b = sb_slot (last xs) + 1)"
  by (auto simp: slots_consecutive_def successively_append_iff)

lemma slots_consecutive_nth:
  "slots_consecutive xs \<Longrightarrow> i < length xs \<Longrightarrow> sb_slot (xs ! i) = sb_slot (hd xs) + i"
proof (induction xs arbitrary: i)
  case (Cons b xs)
  then show ?case by (cases i) (auto simp: slots_consecutive_Cons)
qed simp

lemma slots_consecutive_map:
  "slots_consecutive xs \<Longrightarrow> map sb_slot xs = map (\<lambda>i. sb_slot (hd xs) + i) [0..<length xs]"
  by (intro nth_equalityI) (simp_all add: slots_consecutive_nth)

lemma slots_consecutive_last:
  "slots_consecutive xs \<Longrightarrow> xs \<noteq> [] \<Longrightarrow> sb_slot (last xs) = sb_slot (hd xs) + (length xs - 1)"
  by (simp add: last_conv_nth slots_consecutive_nth)

lemma slots_consecutive_distinct: "slots_consecutive xs \<Longrightarrow> distinct (map sb_slot xs)"
  by (simp add: slots_consecutive_map distinct_map)

lemma slots_consecutive_tl: "slots_consecutive xs \<Longrightarrow> slots_consecutive (tl xs)"
  by (cases xs) (simp_all add: slots_consecutive_Cons)

lemma slots_consecutive_butlast: "slots_consecutive xs \<Longrightarrow> slots_consecutive (butlast xs)"
  by (cases xs rule: rev_cases) (simp_all add: slots_consecutive_snoc)

definition wb_list :: "'e StoredBlocksWrite \<Rightarrow> StoredBlock list" where
  "wb_list w = ring_list sb_exists (wb_blocks w) (wb_tail w)"

definition wb_rep :: "'e StoredBlocksWrite \<Rightarrow> StoredBlock list \<Rightarrow> bool" where
  "wb_rep w xs \<longleftrightarrow> ring_rep sb_exists (wb_blocks w) (wb_tail w) (wb_head w) xs"

definition rb_list :: "StoredBlocksRead \<Rightarrow> StoredBlock list" where
  "rb_list r = ring_list sb_exists (rb_blocks r) (rb_tail r)"

definition rb_rep :: "StoredBlocksRead \<Rightarrow> StoredBlock list \<Rightarrow> bool" where
  "rb_rep r xs \<longleftrightarrow> ring_rep sb_exists (rb_blocks r) (rb_tail r) (rb_head r) xs"

lemma wb_list_eq: "wb_rep w xs \<Longrightarrow> wb_list w = xs"
  by (simp add: wb_list_def wb_rep_def ring_list_eq)

lemma rb_list_eq: "rb_rep r xs \<Longrightarrow> rb_list r = xs"
  by (simp add: rb_list_def rb_rep_def ring_list_eq)

definition wb_valid :: "'e StoredBlocksWrite \<Rightarrow> bool" where
  "wb_valid w \<longleftrightarrow> wb_rep w (wb_list w)"

definition rb_valid :: "StoredBlocksRead \<Rightarrow> bool" where
  "rb_valid r \<longleftrightarrow> rb_rep r (rb_list r)"

lemma wb_validI: "wb_rep w xs \<Longrightarrow> wb_valid w \<and> wb_list w = xs"
  by (simp add: wb_valid_def wb_list_eq)

lemma rb_validI: "rb_rep r xs \<Longrightarrow> rb_valid r \<and> rb_list r = xs"
  by (simp add: rb_valid_def rb_list_eq)

section \<open>Queries of the writer\<close>

lemma get_back_find:
  assumes rep: "wb_rep w xs"
  shows "get_back w flt = Some (find flt xs)"
proof (cases "xs = []")
  case True
  then show ?thesis using ring_tail_cell(1) [OF rep [unfolded wb_rep_def]] by (simp add: get_back_def)
next
  case False
  have "sb_exists (wb_blocks w ! wb_tail w)" "sb_exists (wb_blocks w ! wb_head w)"
    using ring_tail_cell(1) ring_head_cell(1) rep False unfolding wb_rep_def by blast+
  then show ?thesis
    using ring_loop_rep_tail [OF rep [unfolded wb_rep_def] False,
        of "\<lambda>b s. if flt b then Inl (Some b) else Inr s" "\<lambda>s. None" "()"]
    by (simp add: get_back_def list_loop_find Let_def split: option.splits)
qed

lemma get_back_slot_rep:
  assumes rep: "wb_rep w xs"
  shows "get_back_slot w = (case xs of [] \<Rightarrow> None | b # _ \<Rightarrow> Some (sb_slot b))"
  using ring_rep_all_ex [OF rep [unfolded wb_rep_def]]
  by (cases xs) (simp_all add: get_back_slot_def get_back_find [OF rep])

lemma get_front_slot_rep:
  assumes rep: "wb_rep w xs"
  shows "get_front_slot w = (if xs = [] then None else Some (sb_slot (last xs)))"
  using ring_head_cell [OF rep [unfolded wb_rep_def]] by (simp add: get_front_slot_def Let_def)

lemma get_back_height_rep:
  assumes rep: "wb_rep w xs"
  shows "get_back_height w =
    (case find (\<lambda>b. sb_exists b \<and> \<not> sb_dead b) xs of Some b \<Rightarrow> with_height b | None \<Rightarrow> Inr None)"
  by (simp add: get_back_height_def get_back_find [OF rep] split: option.splits)

lemma find_none_ex: "(\<And>x. x \<in> set xs \<Longrightarrow> \<not> P x) \<Longrightarrow> find P xs = None"
  by (auto simp: find_None_iff)

lemma get_front_height_rep:
  assumes rep: "wb_rep w xs"
  shows "get_front_height w = Some
    (case find (\<lambda>b. sb_exists b \<and> \<not> sb_dead b) (rev xs) of Some b \<Rightarrow> with_height b | None \<Rightarrow> Inr None)"
proof -
  let ?bs = "wb_blocks w" and ?n = "length (wb_blocks w)"
  let ?P = "\<lambda>b. sb_exists b \<and> \<not> sb_dead b"
  note r = rep [unfolded wb_rep_def]
  have n: "0 < ?n" and t: "wb_tail w < ?n" using ring_repD(1) [OF r] by auto
  define j where "j = (if xs = [] then ?n - 1 else length xs - 1)"
  have jn: "j < ?n" using ring_repD(3) [OF r] n by (cases xs) (auto simp: j_def)
  have h: "wb_head w = (wb_tail w + j) mod ?n"
  proof (cases "xs = []")
    case True
    then show ?thesis using ring_head_pos [OF r] n by (simp add: j_def Suc_le_eq)
  next
    case False
    then show ?thesis using ring_head_nonempty [OF r] by (simp add: j_def)
  qed
  have "get_front_height w = Some (case find ?P (rev (map (ring_at ?bs (wb_tail w)) [0..<Suc j])) of
      Some b \<Rightarrow> with_height b | None \<Rightarrow> Inr None)"
    using ring_loop_down [OF jn jn t, of "\<lambda>b s. if ?P b then Inl (with_height b) else Inr s"
        "\<lambda>s. Inr None" "()"]
    by (simp add: get_front_height_def h list_loop_find Let_def del: upt_Suc)
  moreover have "find ?P (rev (map (ring_at ?bs (wb_tail w)) [0..<Suc j])) = find ?P (rev xs)"
  proof (cases "xs = []")
    case True
    then have "Suc j = ?n" using n by (simp add: j_def)
    then show ?thesis using True ring_repD(7) [OF r] by (auto intro!: find_none_ex)
  next
    case False
    then have "Suc j = length xs" by (simp add: j_def)
    then show ?thesis using ring_rep_cells [OF r, of 0] by simp
  qed
  ultimately show ?thesis by (simp only:)
qed

lemma is_full_rep:
  assumes rep: "wb_rep w xs" shows "is_full w \<longleftrightarrow> length xs = length (wb_blocks w)"
  using ring_next_cell [OF rep [unfolded wb_rep_def]] by (simp add: is_full_def)

section \<open>Updates of the writer\<close>

lemma update_total_sel [simp]:
  "wb_blocks (update_total side w) = wb_blocks w" "wb_tail (update_total side w) = wb_tail w"
  "wb_head (update_total side w) = wb_head w" "wb_sync_tx (update_total side w) = wb_sync_tx w"
  by (simp_all add: update_total_def)

lemma send_sync_sel [simp]:
  "wb_blocks (send_sync m w) = wb_blocks w" "wb_tail (send_sync m w) = wb_tail w"
  "wb_head (send_sync m w) = wb_head w" "wb_sync_tx (send_sync m w) = wb_sync_tx w @ [m]"
  "wb_stored_slots (send_sync m w) = wb_stored_slots w"
  by (simp_all add: send_sync_def)

lemma push_block_back2_rep:
  assumes rep: "wb_rep w xs" and b: "sb_exists b" and room: "length xs < length (wb_blocks w)"
  obtains w' where "push_block_back2 b w = (Inr (), w')" "wb_rep w' (b # xs)"
    "length (wb_blocks w') = length (wb_blocks w)"
    "wb_sync_tx w' = wb_sync_tx w @ [ConfirmedBlockPushBack b]"
    "wb_stored_slots w' = first_available_store (Some (sb_slot b)) (wb_stored_slots w)"
proof -
  note r = rep [unfolded wb_rep_def]
  let ?t = "ring_prev (length (wb_blocks w)) (wb_tail w)"
  let ?w = "(send_sync (ConfirmedBlockPushBack b) (w\<lparr>wb_tail := ?t\<rparr>))\<lparr>wb_blocks := (wb_blocks w)[?t := b]\<rparr>"
  have rep': "wb_rep ?w (b # xs)"
    using ring_push_back [OF r room b] by (simp add: wb_rep_def)
  have free: "\<not> sb_exists (wb_blocks w ! ?t)" using ring_prev_cell [OF r] room by simp
  have "push_block_back2 b w = (Inr (), update_total Back ?w)"
    using free by (simp add: push_block_back2_def Let_def)
  moreover have "wb_rep (update_total Back ?w) (b # xs)" using rep' by (simp add: wb_rep_def)
  moreover have "wb_stored_slots (update_total Back ?w) =
      first_available_store (Some (sb_slot b)) (wb_stored_slots w)"
    using get_back_slot_rep [OF rep'] by (simp add: update_total_def)
  ultimately show ?thesis using that by simp
qed

lemma push_block_back2_full:
  assumes rep: "wb_rep w xs" and "length xs = length (wb_blocks w)"
  shows "fst (push_block_back2 b w) = Inl (Err ''no free slot (back)'')"
  using ring_prev_cell [OF rep [unfolded wb_rep_def]] assms(2)
  by (simp add: push_block_back2_def Let_def)

lemma push_block_front2_rep:
  assumes rep: "wb_rep w xs" and b: "sb_exists b" and room: "length xs < length (wb_blocks w)"
  obtains w' where "push_block_front2 b w = (Inr (), w')" "wb_rep w' (xs @ [b])"
    "length (wb_blocks w') = length (wb_blocks w)"
    "wb_sync_tx w' = wb_sync_tx w @ [ConfirmedBlockPushFront b]"
    "wb_tail w' = wb_tail w"
    "wb_stored_slots w' = (if xs = [] \<and> wb_tail w \<noteq> 0 then wb_stored_slots w
       else if wb_tail w' = 0 \<and> wb_head w' = 0
       then first_available_store (Some (sb_slot (hd (xs @ [b])))) (wb_stored_slots w)
       else wb_stored_slots w)"
proof -
  note r = rep [unfolded wb_rep_def]
  let ?h = "ring_next (length (wb_blocks w)) (wb_head w)"
  let ?w = "(send_sync (ConfirmedBlockPushFront b) (w\<lparr>wb_head := ?h\<rparr>))\<lparr>wb_blocks := (wb_blocks w)[?h := b]\<rparr>"
  have rep': "wb_rep ?w (xs @ [b])"
    using ring_push_front [OF r room b] by (simp add: wb_rep_def)
  have free: "\<not> sb_exists (wb_blocks w ! ?h)" using ring_next_cell [OF r] room by simp
  have "push_block_front2 b w = (Inr (), update_total Front ?w)"
    using free by (simp add: push_block_front2_def Let_def)
  moreover have "wb_rep (update_total Front ?w) (xs @ [b])" using rep' by (simp add: wb_rep_def)
  moreover have "wb_stored_slots (update_total Front ?w) =
      (if wb_tail ?w = 0 \<and> wb_head ?w = 0
       then first_available_store (Some (sb_slot (hd (xs @ [b])))) (wb_stored_slots w)
       else wb_stored_slots w)"
    using get_back_slot_rep [OF rep'] unfolding update_total_def
    by (cases xs) (simp_all only: if_cancel if_True if_False send_sync_sel, auto)
  ultimately show ?thesis using that by simp
qed

lemma push_block_front2_full:
  assumes rep: "wb_rep w xs" and "length xs = length (wb_blocks w)"
  shows "fst (push_block_front2 b w) = Inl (Err ''no free slot (front)'')"
  using ring_next_cell [OF rep [unfolded wb_rep_def]] assms(2)
  by (simp add: push_block_front2_def Let_def)

lemma not_exists_noexists [simp]: "\<not> sb_exists new_noexists"
  by (simp add: new_noexists_def)

lemma exists_new [simp]: "sb_exists (new_dead s)" "sb_exists (new_confirmed s t h i off sz)"
  by (simp_all add: StoredBlock_new_defs)

lemma pop_block_back_rep:
  assumes rep: "wb_rep w (b # xs)"
  obtains w' where "pop_block_back w = (Some b, w')" "wb_rep w' xs"
    "length (wb_blocks w') = length (wb_blocks w)" "wb_sync_tx w' = wb_sync_tx w"
    "wb_stored_slots w' =
       first_available_store (case xs of [] \<Rightarrow> None | c # _ \<Rightarrow> Some (sb_slot c)) (wb_stored_slots w)"
proof -
  note r = rep [unfolded wb_rep_def]
  let ?w = "w\<lparr>wb_blocks := (wb_blocks w)[wb_tail w := new_noexists],
              wb_tail := ring_next (length (wb_blocks w)) (wb_tail w)\<rparr>"
  have rep': "wb_rep ?w xs"
    using ring_pop_back [OF r, of new_noexists] by (simp add: wb_rep_def)
  have "sb_exists (wb_blocks w ! wb_tail w)" "wb_blocks w ! wb_tail w = b"
    using ring_tail_cell [OF r] by simp_all
  then have "pop_block_back w = (Some b,
      ?w\<lparr>wb_stored_slots := first_available_store (get_back_slot ?w) (wb_stored_slots w)\<rparr>)"
    by (simp add: pop_block_back_def Let_def)
  then show ?thesis
    using that [OF _ _] rep' get_back_slot_rep [OF rep'] by (simp add: wb_rep_def)
qed

lemma pop_block_back_empty: "wb_rep w [] \<Longrightarrow> pop_block_back w = (None, w)"
  using ring_tail_cell(1) [of sb_exists "wb_blocks w" "wb_tail w" "wb_head w" "[]"]
  by (simp add: pop_block_back_def wb_rep_def)

lemma pop_block_front_rep:
  assumes rep: "wb_rep w xs" and ne: "xs \<noteq> []"
  obtains w' where "pop_block_front w = (Some (last xs), w')" "wb_rep w' (butlast xs)"
    "length (wb_blocks w') = length (wb_blocks w)" "wb_sync_tx w' = wb_sync_tx w"
    "wb_stored_slots w' = wb_stored_slots w" "wb_tail w' = wb_tail w"
proof -
  note r = rep [unfolded wb_rep_def]
  show ?thesis
    using that ring_pop_front [OF r ne, of new_noexists] ring_head_cell [OF r] ne
    by (simp add: pop_block_front_def Let_def wb_rep_def)
qed

lemma pop_block_front_empty: "wb_rep w [] \<Longrightarrow> pop_block_front w = (None, w)"
  using ring_head_cell(1) [of sb_exists "wb_blocks w" "wb_tail w" "wb_head w" "[]"]
  by (simp add: pop_block_front_def wb_rep_def)

text \<open>The writer's index is a bounded deque.\<close>

interpretation wd: bounded_deque
  "wb_valid :: 'e StoredBlocksWrite \<Rightarrow> bool" wb_list "\<lambda>w. length (wb_blocks w)" sb_exists
  "\<lambda>w b. snd (push_block_back2 b w)" "\<lambda>w b. snd (push_block_front2 b w)"
  "\<lambda>w. snd (pop_block_back w)" "\<lambda>w. snd (pop_block_front w)"
proof
  fix w :: "'e StoredBlocksWrite" and b :: StoredBlock
  assume v: "wb_valid w"
  then have rep: "wb_rep w (wb_list w)" by (simp add: wb_valid_def)
  show "length (wb_list w) \<le> length (wb_blocks w)"
    using rep by (simp add: wb_rep_def ring_repD(3))
  show "wb_valid (snd (push_block_back2 b w)) \<and> wb_list (snd (push_block_back2 b w)) = b # wb_list w \<and>
      length (wb_blocks (snd (push_block_back2 b w))) = length (wb_blocks w)"
    if "sb_exists b" "length (wb_list w) < length (wb_blocks w)"
    by (rule push_block_back2_rep [OF rep that]) (simp add: wb_validI)
  show "wb_valid (snd (push_block_front2 b w)) \<and> wb_list (snd (push_block_front2 b w)) = wb_list w @ [b] \<and>
      length (wb_blocks (snd (push_block_front2 b w))) = length (wb_blocks w)"
    if "sb_exists b" "length (wb_list w) < length (wb_blocks w)"
    by (rule push_block_front2_rep [OF rep that]) (simp add: wb_validI)
  show "wb_valid (snd (pop_block_back w)) \<and> wb_list (snd (pop_block_back w)) = tl (wb_list w) \<and>
      length (wb_blocks (snd (pop_block_back w))) = length (wb_blocks w)"
    if ne: "wb_list w \<noteq> []"
  proof -
    have "wb_rep w (hd (wb_list w) # tl (wb_list w))" using rep ne by simp
    then show ?thesis by (rule pop_block_back_rep) (simp add: wb_validI)
  qed
  show "wb_valid (snd (pop_block_front w)) \<and> wb_list (snd (pop_block_front w)) = butlast (wb_list w) \<and>
      length (wb_blocks (snd (pop_block_front w))) = length (wb_blocks w)"
    if ne: "wb_list w \<noteq> []"
    by (rule pop_block_front_rep [OF rep ne]) (simp add: wb_validI)
qed

end
