(* ===== verification/Alp_Index_Read.thy ===== *)
theory Alp_Index_Read
  imports Alp_Index
begin

text \<open>
  The read side of the block index (blocks.rs): the copies of the read threads follow the writer,
  and the queries \<open>get_block_location\<close>, \<open>get_blocks\<close>, \<open>block_time_to_slot_*\<close> and
  \<open>get_recent_blocks\<close> answer what the stored list says. The properties of the index are here.
\<close>

section \<open>The index by block time\<close>

definition index_key :: "StoredBlock \<Rightarrow> UnixTimestamp \<times> Slot \<Rightarrow> bool" where
  "index_key b k \<longleftrightarrow> \<not> sb_dead b \<and> sb_block_time b = Some (fst k) \<and> sb_slot b = snd k"

definition index_of :: "StoredBlock list \<Rightarrow> block_time_index" where
  "index_of xs = foldl (\<lambda>ix b. index_insert b ix) [] xs"

lemma bt_ok_index_insert [simp]: "bt_ok ix \<Longrightarrow> bt_ok (index_insert b ix)"
  by (simp add: index_insert_def split: option.splits)

lemma bt_get_index_insert:
  "bt_get (index_insert b ix) k = (if index_key b k then Some () else bt_get ix k)"
  by (cases k) (auto simp: index_insert_def index_key_def split: option.splits)

lemma bt_ok_index_remove [simp]: "bt_ok ix \<Longrightarrow> bt_ok (index_remove b ix)"
  by (simp add: index_remove_def split: option.splits)

lemma bt_get_index_remove:
  "sb_exists b \<Longrightarrow> bt_get (index_remove b ix) k = (if index_key b k then None else bt_get ix k)"
  by (cases k) (auto simp: index_remove_def index_key_def split: option.splits)

lemma index_of_snoc: "index_of (xs @ [b]) = index_insert b (index_of xs)"
  by (simp add: index_of_def)

lemma bt_ok_index_of [simp]: "bt_ok (index_of xs)"
  by (induction xs rule: rev_induct) (simp_all add: index_of_snoc, simp add: index_of_def)

lemma bt_get_index_of:
  "bt_get (index_of xs) k = (if \<exists>b \<in> set xs. index_key b k then Some () else None)"
  by (induction xs rule: rev_induct) (auto simp: index_of_snoc bt_get_index_insert, simp add: index_of_def)

lemma bt_ext:
  assumes "bt_ok m" "bt_ok m'" "\<And>k. bt_get m k = bt_get m' k"
  shows "m = m'"
proof -
  have "set m = set m'"
    using assms bt_get_eq_Some_iff by (metis (no_types) old.prod.exhaust subset_antisym subsetI)
  moreover have "sorted_wrt (\<lambda>a b. fst a < fst b) m" "sorted_wrt (\<lambda>a b. fst a < fst b) m'"
    using assms(1,2) by (simp_all add: bt_ok_def sorted_wrt_map)
  ultimately show ?thesis
  proof (induction m arbitrary: m')
    case (Cons e m)
    then obtain e' n where m': "m' = e' # n" by (cases m') auto
    have e: "e = e'"
      using Cons.prems unfolding m' by simp (metis Cons.prems(1) list.set_intros(1) m' not_less_iff_gr_or_eq set_ConsD)
    have "e \<notin> set m" "e' \<notin> set n" using Cons.prems(2,3) unfolding m' by auto
    then have "set m = set n" using Cons.prems(1) e unfolding m' by auto
    with Cons.IH [of n] Cons.prems(2,3) e show ?case unfolding m' by simp
  qed simp
qed

lemma index_of_Cons: "index_of (b # xs) = index_insert b (index_of xs)"
  by (rule bt_ext) (simp_all add: bt_get_index_of bt_get_index_insert)

lemma index_of_remove:
  assumes "distinct (map sb_slot (b # xs))" "sb_exists b"
  shows "index_remove b (index_of (b # xs)) = index_of xs"
  by (rule bt_ext) (use assms in \<open>auto simp: bt_get_index_of bt_get_index_remove index_key_def image_iff\<close>)

lemma index_of_remove_last:
  assumes "distinct (map sb_slot (xs @ [b]))" "sb_exists b"
  shows "index_remove b (index_of (xs @ [b])) = index_of xs"
  by (rule bt_ext) (use assms in \<open>auto simp: bt_get_index_of bt_get_index_remove index_key_def image_iff\<close>)

section \<open>The reader follows the writer\<close>

definition rb_follows :: "StoredBlocksRead \<Rightarrow> 'e StoredBlocksWrite \<Rightarrow> bool" where
  "rb_follows r w \<longleftrightarrow> rb_blocks r = wb_blocks w \<and> rb_tail r = wb_tail w \<and> rb_head r = wb_head w \<and>
     rb_block_time_index r = index_of (wb_list w)"

lemma to_read_rep:
  assumes rep: "wb_rep w xs"
  shows "to_read w = Some \<lparr>rb_blocks = wb_blocks w, rb_tail = wb_tail w, rb_head = wb_head w,
    rb_block_time_index = index_of xs\<rparr>"
proof (cases "xs = []")
  case True
  then show ?thesis
    using ring_tail_cell(1) [OF rep [unfolded wb_rep_def]] by (simp add: to_read_def index_of_def Let_def)
next
  case False
  have fold_ex: "foldl (\<lambda>ix b. if sb_exists b then index_insert b ix else ix) [] xs = index_of xs"
    using ring_rep_all_ex [OF rep [unfolded wb_rep_def]]
    by (induction xs rule: rev_induct) (simp_all add: index_of_def)
  show ?thesis
    using ring_tail_cell(1) [OF rep [unfolded wb_rep_def]] False fold_ex
      ring_loop_rep_tail [OF rep [unfolded wb_rep_def] False,
        of "\<lambda>b ix. Inr (if sb_exists b then index_insert b ix else ix)" id "[]"]
    by (simp add: to_read_def list_loop_foldl Let_def)
qed

lemma to_read_follows:
  "wb_valid w \<Longrightarrow> to_read w = Some r \<longleftrightarrow> rb_follows r w"
  by (auto simp: wb_valid_def to_read_rep rb_follows_def)

lemma rb_follows_rep: "rb_follows r w \<Longrightarrow> wb_rep w xs \<longleftrightarrow> rb_rep r xs"
  by (simp add: rb_follows_def rb_rep_def wb_rep_def)

lemma follows_push_back:
  assumes f: "rb_follows r w" and rep: "wb_rep w xs" and b: "sb_exists b"
    and room: "length xs < length (wb_blocks w)"
  shows "rb_follows (read_push_block_back r b) (snd (push_block_back2 b w))"
proof -
  have "wb_list (snd (push_block_back2 b w)) = b # xs"
    by (rule push_block_back2_rep [OF rep b room]) (simp add: wb_list_eq)
  moreover have "\<not> sb_exists (wb_blocks w ! ring_prev (length (wb_blocks w)) (wb_tail w))"
    using ring_prev_cell [OF rep [unfolded wb_rep_def]] room by simp
  ultimately show ?thesis using f wb_list_eq [OF rep]
    by (simp add: rb_follows_def read_push_block_back_def push_block_back2_def Let_def index_of_Cons)
qed

lemma follows_push_front:
  assumes f: "rb_follows r w" and rep: "wb_rep w xs" and b: "sb_exists b"
    and room: "length xs < length (wb_blocks w)"
  shows "rb_follows (read_push_block_front r b) (snd (push_block_front2 b w))"
proof -
  have "wb_list (snd (push_block_front2 b w)) = xs @ [b]"
    by (rule push_block_front2_rep [OF rep b room]) (simp add: wb_list_eq)
  moreover have "\<not> sb_exists (wb_blocks w ! ring_next (length (wb_blocks w)) (wb_head w))"
    using ring_next_cell [OF rep [unfolded wb_rep_def]] room by simp
  ultimately show ?thesis using f wb_list_eq [OF rep]
    by (simp add: rb_follows_def read_push_block_front_def push_block_front2_def Let_def index_of_snoc)
qed

lemma follows_pop_back:
  assumes f: "rb_follows r w" and rep: "wb_rep w (b # xs)" and d: "slots_consecutive (b # xs)"
  shows "rb_follows (read_pop_block_back r) (snd (pop_block_back w))"
proof -
  note rr = rep [unfolded wb_rep_def]
  have cell: "sb_exists b" "wb_blocks w ! wb_tail w = b"
    using ring_tail_cell [OF rr] by auto
  have "wb_list (snd (pop_block_back w)) = xs"
    by (rule pop_block_back_rep [OF rep]) (simp add: wb_list_eq)
  then show ?thesis
    using f cell wb_list_eq [OF rep] index_of_remove [OF slots_consecutive_distinct [OF d] cell(1)]
    by (simp add: rb_follows_def read_pop_block_back_def pop_block_back_def Let_def)
qed

lemma follows_pop_front:
  assumes f: "rb_follows r w" and rep: "wb_rep w xs" and ne: "xs \<noteq> []" and d: "slots_consecutive xs"
  shows "rb_follows (read_pop_block_front r) (snd (pop_block_front w))"
proof -
  note rr = rep [unfolded wb_rep_def]
  have cell: "sb_exists (last xs)" "wb_blocks w ! wb_head w = last xs"
    using ring_head_cell [OF rr] ne by auto
  have "wb_list (snd (pop_block_front w)) = butlast xs"
    by (rule pop_block_front_rep [OF rep ne]) (simp add: wb_list_eq)
  moreover have "index_remove (last xs) (index_of xs) = index_of (butlast xs)"
    using index_of_remove_last [of "butlast xs" "last xs"] slots_consecutive_distinct [OF d] cell(1) ne
    by simp
  ultimately show ?thesis
    using f cell wb_list_eq [OF rep]
    by (simp add: rb_follows_def read_pop_block_front_def pop_block_front_def Let_def)
qed

text \<open>The reader's copy is a bounded deque as well.\<close>

interpretation rd: bounded_deque rb_valid rb_list "\<lambda>r. length (rb_blocks r)" sb_exists
  read_push_block_back read_push_block_front read_pop_block_back read_pop_block_front
proof
  fix r b
  assume "rb_valid r"
  then have rep: "ring_rep sb_exists (rb_blocks r) (rb_tail r) (rb_head r) (rb_list r)"
    by (simp add: rb_valid_def rb_rep_def)
  show "length (rb_list r) \<le> length (rb_blocks r)" using ring_repD(3) [OF rep] .
  show "rb_valid (read_push_block_back r b) \<and> rb_list (read_push_block_back r b) = b # rb_list r \<and>
      length (rb_blocks (read_push_block_back r b)) = length (rb_blocks r)"
    if "sb_exists b" "length (rb_list r) < length (rb_blocks r)"
    using rb_validI [of "read_push_block_back r b"] ring_push_back [OF rep that(2,1)]
    by (simp add: read_push_block_back_def rb_rep_def Let_def)
  show "rb_valid (read_push_block_front r b) \<and> rb_list (read_push_block_front r b) = rb_list r @ [b] \<and>
      length (rb_blocks (read_push_block_front r b)) = length (rb_blocks r)"
    if "sb_exists b" "length (rb_list r) < length (rb_blocks r)"
    using rb_validI [of "read_push_block_front r b"] ring_push_front [OF rep that(2,1)]
    by (simp add: read_push_block_front_def rb_rep_def Let_def)
  show "rb_valid (read_pop_block_back r) \<and> rb_list (read_pop_block_back r) = tl (rb_list r) \<and>
      length (rb_blocks (read_pop_block_back r)) = length (rb_blocks r)" if "rb_list r \<noteq> []"
    using rb_validI [of "read_pop_block_back r"] ring_pop_back [OF rep that, of new_noexists]
    by (simp add: read_pop_block_back_def rb_rep_def)
  show "rb_valid (read_pop_block_front r) \<and> rb_list (read_pop_block_front r) = butlast (rb_list r) \<and>
      length (rb_blocks (read_pop_block_front r)) = length (rb_blocks r)" if "rb_list r \<noteq> []"
    using rb_validI [of "read_pop_block_front r"] ring_pop_front [OF rep that, of new_noexists]
    by (simp add: read_pop_block_front_def rb_rep_def)
qed

section \<open>Queries of the reader\<close>

definition rb_wf :: "StoredBlocksRead \<Rightarrow> bool" where
  "rb_wf r \<longleftrightarrow> rb_valid r \<and> slots_consecutive (rb_list r) \<and> length (rb_blocks r) \<le> isize_MAX"

lemma rb_wf_cells:
  assumes wf: "rb_wf r" and ne: "rb_list r \<noteq> []"
  shows "rb_blocks r ! rb_tail r = hd (rb_list r)" "sb_exists (rb_blocks r ! rb_tail r)"
    "rb_blocks r ! rb_head r = last (rb_list r)" "sb_exists (rb_blocks r ! rb_head r)"
  using wf ne ring_tail_cell ring_head_cell unfolding rb_wf_def rb_valid_def rb_rep_def by blast+

lemma rb_wf_nth:
  assumes wf: "rb_wf r" and i: "i < length (rb_list r)"
  shows "rb_blocks r ! (add64 (rb_tail r) i mod length (rb_blocks r)) = rb_list r ! i"
proof -
  have rep: "ring_rep sb_exists (rb_blocks r) (rb_tail r) (rb_head r) (rb_list r)"
    and len: "length (rb_blocks r) \<le> isize_MAX"
    using wf by (simp_all add: rb_wf_def rb_valid_def rb_rep_def)
  have "rb_tail r + i < u64_modulus" using ring_repD(1,3) [OF rep] i len by simp
  then show ?thesis using ring_repD(5) [OF rep i] by (simp add: ring_at_def)
qed

lemma get_block_location_list:
  assumes wf: "rb_wf r"
  shows "get_block_location r slot =
    (case rb_list r of
       [] \<Rightarrow> Removed
     | b # _ \<Rightarrow>
         if slot < sb_slot b then Removed
         else if sb_slot b + length (rb_list r) \<le> slot then NotAvailable
         else let c = rb_list r ! (slot - sb_slot b) in if sb_dead c then Dead else Found c)"
proof (cases "rb_list r")
  case Nil
  have "\<not> sb_exists (rb_blocks r ! rb_tail r)"
    using wf ring_tail_cell(1) Nil unfolding rb_wf_def rb_valid_def rb_rep_def by metis
  then show ?thesis using Nil by (simp add: get_block_location_def)
next
  case (Cons b bs)
  let ?xs = "rb_list r"
  have ne: "?xs \<noteq> []" and hd: "hd ?xs = b" using Cons by auto
  have sc: "slots_consecutive ?xs" using wf by (simp add: rb_wf_def)
  note cells = rb_wf_cells [OF wf ne]
  have lst: "sb_slot (last ?xs) = sb_slot b + (length ?xs - 1)"
    using slots_consecutive_last [OF sc ne] hd by simp
  have inside: "get_block_location r slot = (let c = ?xs ! (slot - sb_slot b) in if sb_dead c then Dead else Found c)"
    if "sb_slot b \<le> slot" "slot < sb_slot b + length ?xs"
  proof -
    have i: "slot - sb_slot b < length ?xs" using that by simp
    have "sb_exists (?xs ! (slot - sb_slot b))"
      using wf i ring_repD(6) unfolding rb_wf_def rb_valid_def rb_rep_def by blast
    moreover have "sb_slot (?xs ! (slot - sb_slot b)) = slot"
      using slots_consecutive_nth [OF sc i] hd that by simp
    moreover have "\<not> sb_slot (last ?xs) < slot" using lst that by simp
    ultimately show ?thesis
      using cells rb_wf_nth [OF wf i] that hd by (simp add: get_block_location_def Let_def)
  qed
  moreover have "sb_slot b + length ?xs \<le> slot \<longleftrightarrow> sb_slot (last ?xs) < slot"
    using lst ne by (cases ?xs) auto
  moreover have "get_block_location r slot = Removed" if "slot < sb_slot b"
    using cells hd that by (simp add: get_block_location_def Let_def)
  moreover have "get_block_location r slot = NotAvailable"
    if "\<not> slot < sb_slot b" "sb_slot (last ?xs) < slot"
    using cells hd that by (simp add: get_block_location_def Let_def)
  ultimately show ?thesis
    by (simp only: Cons list.case not_less not_le) (auto simp: Cons not_less)
qed

text \<open>The slots the scan of \<open>get_blocks\<close> collects.\<close>

abbreviation live_slots :: "StoredBlock list \<Rightarrow> Slot list" where
  "live_slots xs \<equiv> map sb_slot (filter (\<lambda>b. \<not> sb_dead b) xs)"

definition until_cap :: "RpcRequestBlocksUntil \<Rightarrow> Slot list \<Rightarrow> Slot list" where
  "until_cap until xs = (case until of EndSlot _ \<Rightarrow> xs | Limit limit \<Rightarrow> take limit xs)"

lemma scan_loop:
  assumes "\<forall>b \<in> set ys. sb_exists b" "case until of Limit l \<Rightarrow> length acc \<le> l | EndSlot _ \<Rightarrow> True"
  shows "list_loop (\<lambda>block blocks.
      if \<not> sb_exists block \<or> e < sb_slot block then Inl (Inr blocks)
      else if (case until of Limit limit \<Rightarrow> length blocks = limit | EndSlot _ \<Rightarrow> False) then Inl (Inr blocks)
      else Inr (if \<not> sb_dead block then blocks @ [sb_slot block] else blocks)) Inr ys acc =
    (Inr (until_cap until (acc @ live_slots (takeWhile (\<lambda>b. sb_slot b \<le> e) ys))) :: Slot list result)"
  using assms
proof (induction ys arbitrary: acc)
  case Nil
  then show ?case by (simp add: until_cap_def split: RpcRequestBlocksUntil.splits)
next
  case (Cons y ys)
  show ?case
  proof (cases until)
    case (EndSlot q)
    then show ?thesis using Cons by (auto simp: not_le until_cap_def)
  next
    case (Limit l)
    have cap: "take l (acc @ zs) = acc" if "length acc = l" for zs :: "Slot list" using that by simp
    show ?thesis using Cons Limit by (auto simp: not_le until_cap_def cap take_Cons')
  qed
qed

lemma takeWhile_drop_consecutive:
  assumes sc: "slots_consecutive xs" and j: "j < length xs"
  shows "takeWhile (\<lambda>b. sb_slot b \<le> e) (drop j xs) =
    filter (\<lambda>b. sb_slot (hd xs) + j \<le> sb_slot b \<and> sb_slot b \<le> e) xs"
proof -
  have srt: "sorted_wrt (<) (map sb_slot xs)"
    using sc by (simp add: slots_consecutive_map sorted_wrt_map sorted_wrt_iff_nth_less)
  have split: "xs = take j xs @ drop j xs" by simp
  have lo: "sb_slot b < sb_slot (hd xs) + j" if "b \<in> set (take j xs)" for b
    using that slots_consecutive_nth [OF sc] by (auto simp: in_set_conv_nth)
  have hi: "sb_slot (hd xs) + j \<le> sb_slot b" if "b \<in> set (drop j xs)" for b
    using that slots_consecutive_nth [OF sc] by (auto simp: in_set_conv_nth)
  have tw: "sorted_wrt (<) (map sb_slot ys) \<Longrightarrow> takeWhile (\<lambda>b. sb_slot b \<le> e) ys = filter (\<lambda>b. sb_slot b \<le> e) ys" for ys
    by (induction ys) (auto simp: eq_commute [of "[]"] filter_empty_conv)
  have "sorted_wrt (<) (map sb_slot (drop j xs))"
    using srt by (simp add: drop_map [symmetric] sorted_wrt_drop)
  then have "takeWhile (\<lambda>b. sb_slot b \<le> e) (drop j xs) = filter (\<lambda>b. sb_slot b \<le> e) (drop j xs)"
    by (rule tw)
  also have "\<dots> = filter (\<lambda>b. sb_slot (hd xs) + j \<le> sb_slot b \<and> sb_slot b \<le> e) (drop j xs)"
    using hi by (intro filter_cong) auto
  also have "\<dots> = filter (\<lambda>b. sb_slot (hd xs) + j \<le> sb_slot b \<and> sb_slot b \<le> e) (take j xs @ drop j xs)"
  proof -
    have "filter (\<lambda>b. sb_slot (hd xs) + j \<le> sb_slot b \<and> sb_slot b \<le> e) (take j xs) = []"
      using lo by (fastforce simp: filter_empty_conv)
    then show ?thesis by (simp only: filter_append append_Nil)
  qed
  finally show ?thesis by simp
qed

lemma get_blocks_list:
  assumes wf: "rb_wf r" and ne: "rb_list r \<noteq> []"
    and lo: "sb_slot (hd (rb_list r)) \<le> start_slot" and hi: "start_slot \<le> sb_slot (last (rb_list r))"
    and e: "end_slot \<le> sb_slot (last (rb_list r))"
    and cap: "8 * (case until of EndSlot q \<Rightarrow> sub64 q start_slot | Limit l \<Rightarrow> l) \<le> isize_MAX"
  shows "get_blocks r start_slot end_slot until = Some (Inr (until_cap until
    (map sb_slot (filter (\<lambda>b. \<not> sb_dead b \<and> start_slot \<le> sb_slot b \<and>
       sb_slot b \<le> (case until of EndSlot q \<Rightarrow> min end_slot q | Limit _ \<Rightarrow> end_slot)) (rb_list r)))))"
proof -
  let ?xs = "rb_list r" and ?bs = "rb_blocks r"
  let ?e = "case until of EndSlot q \<Rightarrow> min end_slot q | Limit _ \<Rightarrow> end_slot"
  define j where "j = start_slot - sb_slot (hd ?xs)"
  have sc: "slots_consecutive ?xs" and len: "length ?bs \<le> isize_MAX"
    and rep: "ring_rep sb_exists ?bs (rb_tail r) (rb_head r) ?xs"
    using wf by (simp_all add: rb_wf_def rb_valid_def rb_rep_def)
  have jl: "j < length ?xs"
    using lo hi ne slots_consecutive_last [OF sc ne] by (cases ?xs) (auto simp: j_def)
  have start: "sb_slot (hd ?xs) + j = start_slot" using lo by (simp add: j_def)
  have "rb_tail r + j < u64_modulus" using ring_repD(1,3) [OF rep] jl len by simp
  then have pos: "add64 (rb_tail r) j = rb_tail r + j" by simp
  have all_ex: "\<forall>b \<in> set (drop j ?xs). sb_exists b"
    using ring_rep_all_ex [OF rep] in_set_dropD by metis
  define body :: "StoredBlock \<Rightarrow> Slot list \<Rightarrow> Slot list result + Slot list" where
    "body = (\<lambda>block blocks.
      if \<not> sb_exists block \<or> ?e < sb_slot block then Inl (Inr blocks)
      else if (case until of Limit limit \<Rightarrow> length blocks = limit | EndSlot _ \<Rightarrow> False) then Inl (Inr blocks)
      else Inr (if \<not> sb_dead block then blocks @ [sb_slot block] else blocks))"
  have "get_blocks r start_slot end_slot until =
      ring_loop (length ?bs) (ring_next (length ?bs)) ((rb_tail r + j) mod length ?bs) (rb_head r)
        (\<lambda>i. body (?bs ! i)) Inr []"
    using rb_wf_cells [OF wf ne] lo e cap pos
    by (simp add: get_blocks_def Let_def j_def not_less body_def)
  also have "\<dots> = Some (Inr (until_cap until ([] @ live_slots (takeWhile (\<lambda>b. sb_slot b \<le> ?e) (drop j ?xs)))))"
    using ring_loop_rep [OF rep jl, of body Inr "[]"] scan_loop [OF all_ex, where until = until and acc = "[]" and e = ?e]
    by (simp add: body_def split: RpcRequestBlocksUntil.splits)
  also have "takeWhile (\<lambda>b. sb_slot b \<le> ?e) (drop j ?xs) =
      filter (\<lambda>b. start_slot \<le> sb_slot b \<and> sb_slot b \<le> ?e) ?xs"
    using takeWhile_drop_consecutive [OF sc jl, of ?e] start by simp
  finally show ?thesis by (simp add: filter_filter conj_ac)
qed

section \<open>The most recent blocks\<close>

lemma recent_blocks_loop_down:
  assumes rep: "ring_rep sb_exists bs t h xs" and "j < length xs" "j < fuel"
  shows "recent_blocks_loop fuel mrb bs t ((t + j) mod length bs) acc =
    Some (rev (acc @ take (mrb - length acc) (filter (\<lambda>b. \<not> sb_dead b) (rev (tl (take (Suc j) xs))))))"
  using assms(2,3)
proof (induction fuel arbitrary: j acc)
  case (Suc fuel)
  have n: "0 < length bs" and jn: "j < length bs" using ring_repD(1,3) [OF rep] Suc.prems(1) by auto
  have stop: "(t + j) mod length bs = t \<longleftrightarrow> j = 0"
    using ring_pos_inj [of t j "length bs" 0] ring_repD(1) [OF rep] jn n by (cases "j = 0") auto
  have cell: "bs ! ((t + j) mod length bs) = xs ! j" "sb_exists (xs ! j)"
    using ring_repD(5,6) [OF rep Suc.prems(1)] by (simp_all add: ring_at_def)
  show ?case
  proof (cases j)
    case 0
    then show ?thesis using stop by (cases xs) simp_all
  next
    case (Suc i)
    have prev: "(if (t + j) mod length bs = 0 then length bs - 1 else (t + j) mod length bs - 1) =
        (t + i) mod length bs"
      using ring_prev_pos [OF n, of t i] Suc by (simp add: ring_prev_def checked_sub_def split: if_splits)
    have tk: "rev (tl (take (Suc j) xs)) = xs ! j # rev (tl (take (Suc i) xs))"
      using Suc.prems(1) Suc by (cases xs) (simp_all add: take_Suc_conv_app_nth)
    have ne: "(t + j) mod length bs \<noteq> t" using stop Suc by simp
    have step: "recent_blocks_loop (Suc fuel) mrb bs t ((t + j) mod length bs) acc =
        (if length acc < mrb
         then recent_blocks_loop fuel mrb bs t ((t + i) mod length bs)
                (if \<not> sb_dead (xs ! j) then acc @ [xs ! j] else acc)
         else Some (rev acc))"
      using cell ne by (simp only: recent_blocks_loop.simps prev) simp
    have "i < length xs" "i < fuel" using Suc.prems Suc by simp_all
    note IH = Suc.IH [OF this]
    show ?thesis unfolding step tk IH by (auto simp: take_Cons' split: if_splits)
  qed
qed simp

lemma get_recent_blocks_rep:
  assumes rep: "wb_rep w xs"
  shows "get_recent_blocks mrb w =
    Some (rev (take mrb (rev (filter (\<lambda>b. \<not> sb_dead b) (tl xs)))))"
proof (cases "xs = []")
  case True
  note r = rep [unfolded wb_rep_def]
  have "\<not> sb_exists (wb_blocks w ! wb_head w)" using ring_head_cell(1) [OF r] True by simp
  moreover obtain m where "length (wb_blocks w) = Suc m"
    using ring_repD(1) [OF r] by (cases "length (wb_blocks w)") auto
  ultimately show ?thesis using True by (simp add: get_recent_blocks_def)
next
  case False
  note r = rep [unfolded wb_rep_def]
  have len: "length xs - 1 < length xs" "length xs - 1 < length (wb_blocks w)"
    using False ring_repD(3) [OF r] by (cases xs, auto)+
  have h: "wb_head w = (wb_tail w + (length xs - 1)) mod length (wb_blocks w)"
    by (rule ring_head_nonempty [OF r False])
  show ?thesis
    using recent_blocks_loop_down [OF r len, of mrb "[]"] False
    by (simp add: get_recent_blocks_def h rev_filter)
qed

section \<open>Loading the index\<close>

lemma min_by_slot_first:
  assumes "xs \<noteq> []" "\<forall>e \<in> set (tl xs). sb_slot (snd (hd xs)) < sb_slot (snd e)"
  shows "min_by_slot xs = Some (hd xs)"
proof -
  have "min_by_slot ys = Some y \<Longrightarrow> y \<in> set ys" for ys and y :: "nat \<times> StoredBlock"
    by (induction ys arbitrary: y) (auto split: option.splits if_splits)
  then show ?thesis using assms by (cases xs) (fastforce split: option.splits)+
qed

lemma max_by_slot_last:
  assumes "sorted_wrt (\<lambda>a b. sb_slot (snd a) < sb_slot (snd b)) xs" "xs \<noteq> []"
  shows "max_by_slot xs = Some (last xs)"
  using assms
proof (induction xs)
  case (Cons x xs)
  then show ?case by (cases "xs = []") (auto simp: less_imp_le)
qed simp

lemma StoredBlocksWrite_new_rep:
  fixes tx :: "'e ReadWriteSyncMessage list"
  assumes len: "length blocks0 \<le> mx" and mx: "0 < mx"
    and ex: "\<forall>b \<in> set blocks0. sb_exists b" and sc: "slots_consecutive blocks0"
  obtains w where "StoredBlocksWrite_new blocks0 mx slots tx = Inr w" "wb_rep w blocks0"
    "length (wb_blocks w) = mx" "wb_sync_tx w = tx"
    "wb_stored_slots w = first_available_store
       (case blocks0 of [] \<Rightarrow> None | b # _ \<Rightarrow> Some (sb_slot b)) slots"
proof -
  let ?k = "length blocks0"
  define bs where "bs = blocks0 @ replicate (mx - ?k) new_noexists"
  define hd_ix where "hd_ix = (if blocks0 = [] then mx - 1 else ?k - 1)"
  have lbs: "length bs = mx" using len by (simp add: bs_def)
  have filt: "filter (\<lambda>(i, b). sb_exists b) (enumerate 0 bs) = enumerate 0 blocks0"
  proof -
    have "filter (\<lambda>(i, b). sb_exists b) (enumerate 0 blocks0) = enumerate 0 blocks0"
      using ex by (auto simp: filter_id_conv in_set_enumerate_eq)
    moreover have "filter (\<lambda>(i, b). sb_exists b) (enumerate n (replicate m new_noexists)) = []" for n m
      by (auto simp: filter_empty_conv in_set_enumerate_eq)
    ultimately show ?thesis by (simp add: bs_def enumerate_append_eq)
  qed
  have srt: "sorted_wrt (\<lambda>a b. sb_slot (snd a) < sb_slot (snd b)) (enumerate 0 blocks0)"
    using slots_consecutive_nth [OF sc] by (auto simp: sorted_wrt_iff_nth_less nth_enumerate_eq)
  have tail: "(case min_by_slot (enumerate 0 blocks0) of Some (i, _) \<Rightarrow> i | None \<Rightarrow> 0) = 0"
  proof (cases blocks0)
    case (Cons b ys)
    have "min_by_slot (enumerate 0 blocks0) = Some (hd (enumerate 0 blocks0))"
      using srt Cons by (intro min_by_slot_first) auto
    then show ?thesis using Cons by simp
  qed simp
  have head: "(case max_by_slot (enumerate 0 blocks0) of Some (i, _) \<Rightarrow> i | None \<Rightarrow> length bs - 1) = hd_ix"
  proof (cases "blocks0 = []")
    case False
    then have "max_by_slot (enumerate 0 blocks0) = Some (last (enumerate 0 blocks0))"
      using srt by (intro max_by_slot_last) (auto simp: enumerate_eq_zip)
    then show ?thesis using False
      by (simp add: hd_ix_def last_conv_nth nth_enumerate_eq enumerate_eq_zip)
  qed (simp add: hd_ix_def lbs)
  define w :: "'e StoredBlocksWrite" where "w = \<lparr>wb_blocks = bs, wb_tail = 0, wb_head = hd_ix,
      wb_stored_slots = slots, wb_sync_tx = tx\<rparr>"
  have rep: "wb_rep w blocks0"
    unfolding wb_rep_def
  proof (rule ring_repI)
    show "ring_next (length (wb_blocks w)) (wb_head w) = (wb_tail w + ?k) mod length (wb_blocks w)"
      using mx by (cases blocks0) (simp_all add: w_def lbs hd_ix_def ring_next_def)
  qed (use len mx ex in \<open>auto simp: w_def lbs hd_ix_def ring_at_def bs_def nth_append less_le_trans\<close>)
  let ?w = "w\<lparr>wb_stored_slots := first_available_store (get_back_slot w) slots\<rparr>"
  have "StoredBlocksWrite_new blocks0 mx slots tx = Inr ?w"
    using len mx filt tail head lbs
    by (simp add: StoredBlocksWrite_new_def ensure_def bs_def [symmetric] w_def Let_def)
  then show ?thesis
    using that [of ?w] rep get_back_slot_rep [OF rep] lbs by (simp add: wb_rep_def w_def)
qed

section \<open>Runs of the writer and of a reader\<close>

fun writer_exec :: "'e StoredBlocksWrite \<Rightarrow> StoredBlock deque_op \<Rightarrow> 'e StoredBlocksWrite" where
  "writer_exec w (PushLo b) = snd (push_block_back2 b w)"
| "writer_exec w (PushHi b) = snd (push_block_front2 b w)"
| "writer_exec w PopLo = snd (pop_block_back w)"
| "writer_exec w PopHi = snd (pop_block_front w)"

fun op_message :: "StoredBlock deque_op \<Rightarrow> 'e ReadWriteSyncMessage" where
  "op_message (PushLo b) = ConfirmedBlockPushBack b"
| "op_message (PushHi b) = ConfirmedBlockPushFront b"
| "op_message PopLo = ConfirmedBlockPopBack"
| "op_message PopHi = ConfirmedBlockPopFront"

text \<open>The runs the write thread makes: each operation fits, and the slots stay consecutive.\<close>

fun index_run_ok :: "nat \<Rightarrow> StoredBlock list \<Rightarrow> StoredBlock deque_op list \<Rightarrow> bool" where
  "index_run_ok n xs [] \<longleftrightarrow> slots_consecutive xs"
| "index_run_ok n xs (op # ops) \<longleftrightarrow> slots_consecutive xs \<and> op_storable sb_exists op \<and>
     (case deque_step n xs op of None \<Rightarrow> False | Some ys \<Rightarrow> index_run_ok n ys ops)"

lemma writer_exec_follows:
  assumes v: "wb_valid w" and f: "rb_follows r w" and sc: "slots_consecutive (wb_list w)"
    and st: "op_storable sb_exists op" and step: "deque_step (length (wb_blocks w)) (wb_list w) op = Some ys"
  shows "wb_valid (writer_exec w op)" "wb_list (writer_exec w op) = ys"
    "length (wb_blocks (writer_exec w op)) = length (wb_blocks w)"
    "rb_follows (apply_block_message r (op_message op)) (writer_exec w op)"
proof -
  have rep: "wb_rep w (wb_list w)" using v by (simp add: wb_valid_def)
  have ex: "wd.exec_op w op = writer_exec w op" by (cases op) simp_all
  show "wb_valid (writer_exec w op)" "wb_list (writer_exec w op) = ys"
    "length (wb_blocks (writer_exec w op)) = length (wb_blocks w)"
    using wd.exec_op_refines [OF v st step] by (simp_all add: ex)
  show "rb_follows (apply_block_message r (op_message op)) (writer_exec w op)"
  proof (cases op)
    case (PushLo b)
    then show ?thesis using follows_push_back [OF f rep] st step by (simp split: if_splits)
  next
    case (PushHi b)
    then show ?thesis using follows_push_front [OF f rep] st step by (simp split: if_splits)
  next
    case PopLo
    then obtain b xs where "wb_list w = b # xs" using step by (cases "wb_list w") auto
    then show ?thesis using follows_pop_back [OF f] rep sc PopLo by simp
  next
    case PopHi
    then show ?thesis using follows_pop_front [OF f rep] sc step by (simp split: if_splits)
  qed
qed

lemma writer_run_follows:
  assumes "wb_valid w" "rb_follows r w" "index_run_ok (length (wb_blocks w)) (wb_list w) ops"
  shows "wb_valid (foldl writer_exec w ops) \<and>
    rb_follows (foldl apply_block_message r (map op_message ops)) (foldl writer_exec w ops) \<and>
    deque_run (length (wb_blocks w)) (wb_list w) ops = Some (wb_list (foldl writer_exec w ops))"
  using assms
proof (induction ops arbitrary: w r)
  case (Cons op ops)
  then obtain ys where ys: "deque_step (length (wb_blocks w)) (wb_list w) op = Some ys"
    and ok: "index_run_ok (length (wb_blocks w)) ys ops" and st: "op_storable sb_exists op"
    and sc: "slots_consecutive (wb_list w)"
    by (auto split: option.splits)
  note step = writer_exec_follows [OF Cons.prems(1,2) sc st ys]
  show ?case
    using Cons.IH [OF step(1,4)] ok ys step(2,3) by simp
qed simp

lemma slots_consecutive_bounds:
  assumes sc: "slots_consecutive xs" and c: "c \<in> set xs"
  shows "sb_slot (hd xs) \<le> sb_slot c" "sb_slot c < sb_slot (hd xs) + length xs"
proof -
  obtain i where i: "i < length xs" "xs ! i = c" using c by (auto simp: in_set_conv_nth)
  show "sb_slot (hd xs) \<le> sb_slot c" "sb_slot c < sb_slot (hd xs) + length xs"
    using slots_consecutive_nth [OF sc i(1)] i by simp_all
qed

lemma slots_consecutive_at:
  assumes sc: "slots_consecutive xs"
  shows "c \<in> set xs \<and> sb_slot c = slot \<longleftrightarrow>
    sb_slot (hd xs) \<le> slot \<and> slot < sb_slot (hd xs) + length xs \<and> xs ! (slot - sb_slot (hd xs)) = c"
proof
  assume a: "c \<in> set xs \<and> sb_slot c = slot"
  then obtain i where i: "i < length xs" "xs ! i = c" by (auto simp: in_set_conv_nth)
  show "sb_slot (hd xs) \<le> slot \<and> slot < sb_slot (hd xs) + length xs \<and> xs ! (slot - sb_slot (hd xs)) = c"
    using slots_consecutive_nth [OF sc i(1)] i a by auto
next
  assume a: "sb_slot (hd xs) \<le> slot \<and> slot < sb_slot (hd xs) + length xs \<and> xs ! (slot - sb_slot (hd xs)) = c"
  then have l: "slot - sb_slot (hd xs) < length xs" by auto
  show "c \<in> set xs \<and> sb_slot c = slot"
    using slots_consecutive_nth [OF sc l] nth_mem [OF l] a by auto
qed

section \<open>Properties\<close>


definition demo_block :: "Slot \<Rightarrow> StoredBlock" where
  "demo_block slot = new_confirmed slot (Some (int slot)) (Some slot) 0 0 1"

definition demo_writer :: "unit StoredBlocksWrite" where
  "demo_writer = \<lparr>wb_blocks = [demo_block 7, new_noexists], wb_tail = 0, wb_head = 0,
     wb_stored_slots = StoredSlots_default, wb_sync_tx = []\<rparr>"

lemma demo_writer_rep: "wb_rep demo_writer [demo_block 7]"
  unfolding wb_rep_def demo_writer_def
  by (rule ring_repI) (auto simp: ring_at_def ring_next_def demo_block_def less_Suc_eq)


lemma get_block_location_cases:
  assumes "rb_wf r"
  shows "get_block_location r slot = Found b \<longleftrightarrow> b \<in> set (rb_list r) \<and> sb_slot b = slot \<and> \<not> sb_dead b"
    and "get_block_location r slot = Dead \<longleftrightarrow> (\<exists>c \<in> set (rb_list r). sb_slot c = slot \<and> sb_dead c)"
    and "get_block_location r slot = Removed \<longleftrightarrow> (\<forall>c \<in> set (rb_list r). slot < sb_slot c)"
    and "get_block_location r slot = NotAvailable \<longleftrightarrow>
           rb_list r \<noteq> [] \<and> (\<forall>c \<in> set (rb_list r). sb_slot c < slot)"
    and "get_block_location r slot \<noteq> SlotMismatch"
proof -
  have sc: "slots_consecutive (rb_list r)" using assms by (simp add: rb_wf_def)
  note loc = get_block_location_list [OF assms, of slot] and bnd = slots_consecutive_bounds [OF sc]
  show "get_block_location r slot \<noteq> SlotMismatch"
    by (simp add: loc Let_def split: list.splits)
  show "get_block_location r slot = Removed \<longleftrightarrow> (\<forall>c \<in> set (rb_list r). slot < sb_slot c)"
  proof (cases "rb_list r")
    case (Cons b xs)
    have "sb_slot b \<le> sb_slot c" if "c \<in> set (rb_list r)" for c
      using bnd(1) [OF that] Cons by simp
    moreover have "b \<in> set (rb_list r)" using Cons by simp
    moreover have "get_block_location r slot = Removed \<longleftrightarrow> slot < sb_slot b"
      using Cons by (auto simp: loc Let_def)
    ultimately show ?thesis by (meson less_le_trans)
  qed (simp add: loc)
  show "get_block_location r slot = NotAvailable \<longleftrightarrow>
      rb_list r \<noteq> [] \<and> (\<forall>c \<in> set (rb_list r). sb_slot c < slot)"
  proof (cases "rb_list r = []")
    case False
    let ?l = "sb_slot (hd (rb_list r))" and ?n = "length (rb_list r)"
    have "get_block_location r slot = NotAvailable \<longleftrightarrow> ?l + ?n \<le> slot"
      using False by (cases "rb_list r") (auto simp: loc Let_def)
    moreover have "?l + ?n \<le> slot" if "\<forall>c \<in> set (rb_list r). sb_slot c < slot"
    proof -
      have "last (rb_list r) \<in> set (rb_list r)" using False by simp
      then have "sb_slot (last (rb_list r)) < slot" using that by blast
      then show ?thesis using slots_consecutive_nth [OF sc, of "?n - 1"] False by (simp add: last_conv_nth)
    qed
    moreover have "sb_slot c < slot" if "?l + ?n \<le> slot" "c \<in> set (rb_list r)" for c
      using bnd(2) [OF that(2)] that(1) by simp
    ultimately show ?thesis using False by blast
  qed (simp add: loc)
  let ?l = "sb_slot (hd (rb_list r))" and ?n = "length (rb_list r)"
  have inr: "get_block_location r slot = (if sb_dead (rb_list r ! (slot - ?l)) then Dead else Found (rb_list r ! (slot - ?l)))"
    if "?l \<le> slot" "slot < ?l + ?n"
    using that by (cases "rb_list r") (auto simp: loc Let_def)
  have out: "get_block_location r slot \<in> {Removed, NotAvailable}" if "\<not> (?l \<le> slot \<and> slot < ?l + ?n)"
    using that by (cases "rb_list r") (auto simp: loc Let_def)
  have at: "c \<in> set (rb_list r) \<and> sb_slot c = slot \<longleftrightarrow> ?l \<le> slot \<and> slot < ?l + ?n \<and> rb_list r ! (slot - ?l) = c" for c
    using slots_consecutive_at [OF sc] by blast
  show "get_block_location r slot = Found b \<longleftrightarrow> b \<in> set (rb_list r) \<and> sb_slot b = slot \<and> \<not> sb_dead b"
    using at [of b] inr out by (cases "?l \<le> slot \<and> slot < ?l + ?n") auto
  show "get_block_location r slot = Dead \<longleftrightarrow> (\<exists>c \<in> set (rb_list r). sb_slot c = slot \<and> sb_dead c)"
  proof (cases "?l \<le> slot \<and> slot < ?l + ?n")
    case True
    then have "(\<exists>c \<in> set (rb_list r). sb_slot c = slot \<and> sb_dead c) \<longleftrightarrow> sb_dead (rb_list r ! (slot - ?l))"
      using at [of "rb_list r ! (slot - ?l)"] at by metis
    then show ?thesis using inr True by simp
  next
    case False
    then show ?thesis using at out by auto
  qed
qed

text \<open>
  \<open>get_block_location\<close> answers by the stored list: found with the stored block of that slot,
  dead, removed when the slot is below the stored range or nothing is stored, not available above
  it; the mismatch answer is never given for a well-formed index.
\<close>

lemma get_block_location_correct:
  assumes "rb_wf r"
  shows "(get_block_location r slot = Found b \<longleftrightarrow> b \<in> set (rb_list r) \<and> sb_slot b = slot \<and> \<not> sb_dead b) \<and>
    (get_block_location r slot = Dead \<longleftrightarrow> (\<exists>c \<in> set (rb_list r). sb_slot c = slot \<and> sb_dead c)) \<and>
    (get_block_location r slot = Removed \<longleftrightarrow> (\<forall>c \<in> set (rb_list r). slot < sb_slot c)) \<and>
    (get_block_location r slot = NotAvailable \<longleftrightarrow>
       rb_list r \<noteq> [] \<and> (\<forall>c \<in> set (rb_list r). sb_slot c < slot)) \<and>
    get_block_location r slot \<noteq> SlotMismatch"
  using get_block_location_cases [OF assms] by blast

definition demo_reader :: StoredBlocksRead where
  "demo_reader = \<lparr>rb_blocks = [demo_block 8, demo_block 7], rb_tail = 1, rb_head = 0,
     rb_block_time_index = index_of [demo_block 7, demo_block 8]\<rparr>"

lemma demo_reader_wf: "rb_wf demo_reader" "rb_list demo_reader = [demo_block 7, demo_block 8]"
proof -
  have "rb_rep demo_reader [demo_block 7, demo_block 8]"
    unfolding rb_rep_def demo_reader_def
    by (rule ring_repI) (auto simp: ring_at_def ring_next_def demo_block_def new_confirmed_def less_Suc_eq mod_Suc)
  from rb_validI [OF this] show "rb_wf demo_reader" "rb_list demo_reader = [demo_block 7, demo_block 8]"
    by (simp_all add: rb_wf_def) (simp add: demo_reader_def demo_block_def new_confirmed_def slots_consecutive_def)
qed



text \<open>
  The missing upper bound of \<open>get_blocks\<close>: on a full ring a start slot above the stored range,
  which a request with a limit can carry, wraps around and returns slots below the start slot.
\<close>

lemma get_blocks_start_beyond_head:
  "rb_wf demo_reader \<and> get_blocks demo_reader 9 8 (Limit 5) = Some (Inr [7, 8])"
  using demo_reader_wf(1)
  by (simp add: get_blocks_def demo_reader_def demo_block_def new_confirmed_def ring_next_def Let_def
    numeral_2_eq_2 mod_Suc)

text \<open>
  \<open>get_recent_blocks\<close> returns, oldest first, the last at most \<open>MAX_RECENT_BLOCKHASHES\<close> blocks
  that are not dead, among all stored blocks but the lowest one; it always returns.
\<close>

lemma get_recent_blocks_correct:
  assumes "wb_valid w"
  shows "get_recent_blocks mrb w =
    Some (rev (take mrb (rev (filter (\<lambda>b. \<not> sb_dead b) (tl (wb_list w))))))"
  using assms by (simp add: wb_valid_def get_recent_blocks_rep)

text \<open>
  A restart: \<open>StoredBlocksWrite::new\<close> on blocks with consecutive slots, no more than the
  configured number, gives a valid ring that stores exactly them and publishes the first one as
  first available.
\<close>

lemma StoredBlocksWrite_new_correct:
  assumes "length blocks0 \<le> mx" and "0 < mx" and "\<forall>b \<in> set blocks0. sb_exists b" and "slots_consecutive blocks0"
  shows "\<exists>w. StoredBlocksWrite_new blocks0 mx slots tx = Inr w \<and> wb_valid w \<and> wb_list w = blocks0 \<and>
    length (wb_blocks w) = mx \<and> wb_stored_slots w = first_available_store (map_option sb_slot (case blocks0 of [] \<Rightarrow> None | b # _ \<Rightarrow> Some b)) slots"
  by (rule StoredBlocksWrite_new_rep [OF assms, of slots tx])
    (use wb_validI in \<open>fastforce split: list.splits\<close>)

end
