(* ===== verification/Alp_Memory.thy ===== *)
theory Alp_Memory
  imports Alp_Types
begin

text \<open>
  src/src/storage/memory.rs: the queue between the source and the store. Blocks arrive in any
  order, some slots get a block, some are dead, some are confirmed; \<open>pop_confirmed\<close> emits the
  slots one by one, each as a block, as dead or as missed.

  A \<open>VecDeque\<close> is a list. A panic is a result. The loop that walks from a confirmed block to its
  ancestors has fuel; \<open>pop_confirmed_progress\<close> shows that it always ends when the parent of
  each block has a lower slot.
\<close>

datatype 'e MemoryConfirmedBlock =
    MemMissed Slot
  | MemDead Slot
  | MemBlock Slot "'e BlockWithBinary"

definition missed_or_dead :: "Slot \<Rightarrow> bool \<Rightarrow> 'e MemoryConfirmedBlock" where
  "missed_or_dead slot dead = (if dead then MemDead slot else MemMissed slot)"

fun get_slot :: "'e MemoryConfirmedBlock \<Rightarrow> Slot" where
  "get_slot (MemMissed slot) = slot"
| "get_slot (MemDead slot) = slot"
| "get_slot (MemBlock slot _) = slot"

record 'e BlockInfo =
  bi_slot :: Slot
  bi_block :: "'e BlockWithBinary option"
  bi_dead :: bool
  bi_confirmed :: bool

definition BlockInfo_new :: "Slot \<Rightarrow> 'e BlockInfo" where
  "BlockInfo_new slot = \<lparr>bi_slot = slot, bi_block = None, bi_dead = False, bi_confirmed = False\<rparr>"

record 'e StorageMemory =
  sm_blocks :: "'e BlockInfo list"
  sm_confirmed :: Slot
  sm_gen_next_slot :: Slot

definition StorageMemory_default :: "'e StorageMemory" where
  "StorageMemory_default = \<lparr>sm_blocks = [], sm_confirmed = 0, sm_gen_next_slot = 0\<rparr>"

section \<open>The operations\<close>

text \<open>
  \<open>add_slot\<close> returns the index of the cell that the code returns a reference to, \<open>None\<close> when
  the slot was already reported.
\<close>

definition add_slot :: "Slot \<Rightarrow> 'e StorageMemory \<Rightarrow> nat option result \<times> 'e StorageMemory" where
  "add_slot slot m =
     (let m = (if sm_gen_next_slot m = 0 then m\<lparr>sm_gen_next_slot := slot\<rparr> else m)
      in if slot < sm_gen_next_slot m then (Inr None, m)
         else
           let bs = sm_blocks m;
               bs = (if bs = [] then [BlockInfo_new slot]
                     else if slot < bi_slot (bs ! 0)
                     then foldl (\<lambda>q s. BlockInfo_new s # q) bs (rev [slot..<bi_slot (bs ! 0)])
                     else if bi_slot (bs ! (length bs - 1)) < slot
                     then foldl (\<lambda>q s. q @ [BlockInfo_new s]) bs
                            [bi_slot (bs ! (length bs - 1)) + 1..<slot + 1]
                     else bs);
               index = sub64 slot (bi_slot (bs ! 0));
               m = m\<lparr>sm_blocks := bs\<rparr>
           in if index < length bs then (Inr (Some index), m)
              else (Inl (Panic ''Out of bounds access''), m))"

definition update_cell :: "nat \<Rightarrow> ('e BlockInfo \<Rightarrow> 'e BlockInfo) \<Rightarrow> 'e StorageMemory \<Rightarrow> 'e StorageMemory" where
  "update_cell index f m = m\<lparr>sm_blocks := (sm_blocks m)[index := f (sm_blocks m ! index)]\<rparr>"

definition add_processed ::
  "Slot \<Rightarrow> 'e BlockWithBinary \<Rightarrow> 'e StorageMemory \<Rightarrow> unit result \<times> 'e StorageMemory" where
  "add_processed slot block m =
     (case add_slot slot m of
        (Inl e, m) \<Rightarrow> (Inl e, m)
      | (Inr None, m) \<Rightarrow> (Inr (), m)
      | (Inr (Some index), m) \<Rightarrow> (Inr (), update_cell index (bi_block_update (\<lambda>_. Some block)) m))"

definition set_dead :: "Slot \<Rightarrow> 'e StorageMemory \<Rightarrow> unit result \<times> 'e StorageMemory" where
  "set_dead slot m =
     (case add_slot slot m of
        (Inl e, m) \<Rightarrow> (Inl e, m)
      | (Inr None, m) \<Rightarrow> (Inr (), m)
      | (Inr (Some index), m) \<Rightarrow>
          if bi_confirmed (sm_blocks m ! index)
          then (Inl (Panic ''trying to mark confirmed slot as dead''), m)
          else (Inr (), update_cell index (bi_dead_update (\<lambda>_. True)) m))"

definition mem_set_confirmed :: "Slot \<Rightarrow> 'e StorageMemory \<Rightarrow> unit result \<times> 'e StorageMemory" where
  "mem_set_confirmed slot m =
     (if \<not> sm_confirmed m < slot then (Inl (Panic ''attempt to backward confirmed''), m)
      else case add_slot slot m of
        (Inl e, m) \<Rightarrow> (Inl e, m)
      | (Inr None, m) \<Rightarrow> (Inr (), m)
      | (Inr (Some index), m) \<Rightarrow>
          if bi_dead (sm_blocks m ! index)
          then (Inl (Panic ''trying to mark dead slot as confirmed''), m)
          else (Inr (), (update_cell index (bi_confirmed_update (\<lambda>_. True)) m)\<lparr>sm_confirmed := slot\<rparr>))"

text \<open>The two ways \<open>pop_confirmed\<close> takes the first cell.\<close>

definition kill_prefix :: "nat \<Rightarrow> 'e BlockInfo list \<Rightarrow> 'e BlockInfo list" where
  "kill_prefix n bs =
     foldl (\<lambda>bs index. bs[index := (bs ! index)\<lparr>bi_block := None, bi_dead := True\<rparr>]) bs [0..<n]"

definition pop_front_block :: "'e StorageMemory \<Rightarrow> 'e MemoryConfirmedBlock \<times> 'e StorageMemory" where
  "pop_front_block m =
     (let item = hd (sm_blocks m); m = m\<lparr>sm_blocks := tl (sm_blocks m)\<rparr>
      in (case bi_block item of
            Some block \<Rightarrow> MemBlock (bi_slot item) block
          | None \<Rightarrow> missed_or_dead (bi_slot item) (bi_dead item), m))"

definition pop_front_missed :: "'e StorageMemory \<Rightarrow> 'e MemoryConfirmedBlock \<times> 'e StorageMemory" where
  "pop_front_missed m =
     (let item = hd (sm_blocks m)
      in (missed_or_dead (bi_slot item) (bi_dead item), m\<lparr>sm_blocks := tl (sm_blocks m)\<rparr>))"

fun pop_loop ::
  "nat \<Rightarrow> Slot \<Rightarrow> nat \<Rightarrow> 'e StorageMemory \<Rightarrow> ('e MemoryConfirmedBlock result \<times> 'e StorageMemory) option" where
  "pop_loop 0 first_slot confirmed_index m = None"
| "pop_loop (Suc fuel) first_slot confirmed_index m =
     (if length (sm_blocks m) \<le> confirmed_index then Some (Inl (Panic ''Out of bounds access''), m)
      else
        let item = sm_blocks m ! confirmed_index; gen = sm_gen_next_slot m
        in case bi_block item of
          Some block \<Rightarrow>
            if first_slot \<le> bl_parent_slot block
            then pop_loop fuel first_slot (bl_parent_slot block - first_slot) m
            else if gen \<le> bl_parent_slot block then Some (Inr (MemMissed gen), m)
            else if gen < first_slot then Some (Inr (MemDead gen), m)
            else if gen = first_slot
            then Some (apfst Inr (pop_front_block
                   (m\<lparr>sm_blocks := kill_prefix confirmed_index (sm_blocks m)\<rparr>)))
            else Some (Inl (Panic ''failed to get next block''), m)
        | None \<Rightarrow>
            if gen < first_slot then Some (Inr (MemMissed gen), m)
            else if gen = first_slot then Some (apfst Inr (pop_front_missed m))
            else Some (Inl (Panic ''failed to get next block''), m))"

fun find_index :: "('a \<Rightarrow> bool) \<Rightarrow> 'a list \<Rightarrow> nat option" where
  "find_index P [] = None"
| "find_index P (x # xs) = (if P x then Some 0 else map_option Suc (find_index P xs))"

definition pop_confirmed ::
  "'e StorageMemory \<Rightarrow> ('e MemoryConfirmedBlock option result \<times> 'e StorageMemory) option" where
  "pop_confirmed m =
     (if sm_confirmed m = 0 \<or> sm_gen_next_slot m = 0 then Some (Inr None, m)
      else case sm_blocks m of
        [] \<Rightarrow> Some (Inr None, m)
      | b # _ \<Rightarrow>
          (case find_index bi_confirmed (sm_blocks m) of
             None \<Rightarrow> Some (Inr None, m)
           | Some confirmed_index \<Rightarrow>
               (case pop_loop (Suc (length (sm_blocks m))) (bi_slot b) confirmed_index m of
                  None \<Rightarrow> None
                | Some (Inl e, m) \<Rightarrow> Some (Inl e, m)
                | Some (Inr block, m) \<Rightarrow>
                    Some (Inr (Some block), m\<lparr>sm_gen_next_slot := add64 (sm_gen_next_slot m) 1\<rparr>))))"

section \<open>The window of slots\<close>

text \<open>
  The queue holds the slots \<open>lo..<hi\<close>, none of them reported yet; a block's parent is below it.
\<close>

definition parents_below :: "'e BlockInfo list \<Rightarrow> bool" where
  "parents_below bs \<longleftrightarrow> (\<forall>c \<in> set bs. \<forall>b. bi_block c = Some b \<longrightarrow> bl_parent_slot b < bi_slot c)"

definition mem_window :: "'e StorageMemory \<Rightarrow> Slot \<Rightarrow> Slot \<Rightarrow> bool" where
  "mem_window m lo hi \<longleftrightarrow> map bi_slot (sm_blocks m) = [lo..<hi] \<and> lo \<le> hi \<and> hi \<le> u64_MAX \<and>
     sm_gen_next_slot m \<le> lo \<and> (sm_gen_next_slot m = 0 \<longrightarrow> lo = hi) \<and> parents_below (sm_blocks m)"

definition mem_inv :: "'e StorageMemory \<Rightarrow> bool" where
  "mem_inv m \<longleftrightarrow> (\<exists>lo hi. mem_window m lo hi)"

lemma mem_window_length: "mem_window m lo hi \<Longrightarrow> length (sm_blocks m) = hi - lo"
  unfolding mem_window_def by (metis length_map length_upt)

lemma mem_window_nth: "mem_window m lo hi \<Longrightarrow> i < hi - lo \<Longrightarrow> bi_slot (sm_blocks m ! i) = lo + i"
  using mem_window_length [of m lo hi] unfolding mem_window_def by (metis nth_map nth_upt less_diff_conv add.commute)

lemma foldl_push_front: "foldl (\<lambda>q s. f s # q) bs (rev xs) = map f xs @ bs"
  by (induction xs arbitrary: bs) simp_all

lemma foldl_push_back: "foldl (\<lambda>q s. q @ [f s]) bs xs = bs @ map f xs"
  by (induction xs arbitrary: bs) simp_all

lemma parents_below_simps [simp]:
  "parents_below []"
  "parents_below (c # bs) \<longleftrightarrow> (\<forall>b. bi_block c = Some b \<longrightarrow> bl_parent_slot b < bi_slot c) \<and> parents_below bs"
  "parents_below (bs @ cs) \<longleftrightarrow> parents_below bs \<and> parents_below cs"
  by (auto simp: parents_below_def)

lemma parents_below_new [simp]: "parents_below (map BlockInfo_new ss)"
  by (auto simp: parents_below_def BlockInfo_new_def)

lemma map_bi_slot_new [simp]: "map (\<lambda>s. bi_slot (BlockInfo_new s)) ss = ss"
  by (simp add: BlockInfo_new_def)

lemma mem_window_cons:
  assumes "mem_window m lo hi" "sm_blocks m = c # cs"
  shows "bi_slot c = lo" "lo < hi" "map bi_slot cs = [Suc lo..<hi]" "0 < sm_gen_next_slot m"
proof -
  have eq: "bi_slot c # map bi_slot cs = [lo..<hi]" and gen: "sm_gen_next_slot m = 0 \<longrightarrow> lo = hi"
    using assms by (auto simp: mem_window_def)
  show lt: "lo < hi" using eq by (metis list.distinct(1) not_le upt_conv_Nil)
  then have "[lo..<hi] = lo # [Suc lo..<hi]" by (rule upt_conv_Cons)
  then show "bi_slot c = lo" "map bi_slot cs = [Suc lo..<hi]" using eq by simp_all
  show "0 < sm_gen_next_slot m" using gen lt by auto
qed

lemma add_slot_window:
  assumes w: "mem_window m lo hi" and slot: "0 < slot" "slot < u64_MAX"
  obtains (old) "add_slot slot m = (Inr None, m)" "slot < sm_gen_next_slot m"
  | (cell) i m' lo' hi' where "add_slot slot m = (Inr (Some i), m')" "mem_window m' lo' hi'"
      "i < hi' - lo'" "lo' + i = slot" "sm_confirmed m' = sm_confirmed m" "0 < sm_gen_next_slot m'"
      "sm_gen_next_slot m \<noteq> 0 \<Longrightarrow> sm_gen_next_slot m' = sm_gen_next_slot m"
proof (cases "sm_gen_next_slot m \<noteq> 0 \<and> slot < sm_gen_next_slot m")
  case True
  then show ?thesis using old by (simp add: add_slot_def)
next
  case False
  define g where "g = (if sm_gen_next_slot m = 0 then slot else sm_gen_next_slot m)"
  define m1 where "m1 = (if sm_gen_next_slot m = 0 then m\<lparr>sm_gen_next_slot := slot\<rparr> else m)"
  have m1: "sm_blocks m1 = sm_blocks m" "sm_confirmed m1 = sm_confirmed m" "sm_gen_next_slot m1 = g"
    by (simp_all add: m1_def g_def)
  have g: "g \<le> slot" "0 < g" using False slot by (auto simp: g_def)
  have fin: thesis
    if "add_slot slot m = (if sub64 slot (bi_slot (bs ! 0)) < length bs
          then (Inr (Some (sub64 slot (bi_slot (bs ! 0)))), m1\<lparr>sm_blocks := bs\<rparr>)
          else (Inl (Panic ''Out of bounds access''), m1\<lparr>sm_blocks := bs\<rparr>))"
      and bs: "map bi_slot bs = [lo'..<hi']" and "g \<le> lo'" "lo' \<le> slot" "slot < hi'" "hi' \<le> u64_MAX"
      "parents_below bs" for bs lo' hi'
  proof -
    have len: "length bs = hi' - lo'" using bs by (metis length_map length_upt)
    have fst: "bi_slot (bs ! 0) = lo'" using bs len that(4,5)
      by (metis add.right_neutral diff_is_0_eq le_less_trans nth_map nth_upt not_le zero_less_diff)
    show thesis
      by (rule cell [of "slot - lo'" "m1\<lparr>sm_blocks := bs\<rparr>" lo' hi'])
        (use that g m1 len fst slot in \<open>auto simp: mem_window_def g_def\<close>)
  qed
  define nb where "nb = (let bs = sm_blocks m in
    if bs = [] then [BlockInfo_new slot]
    else if slot < bi_slot (bs ! 0) then map BlockInfo_new [slot..<bi_slot (bs ! 0)] @ bs
    else if bi_slot (bs ! (length bs - 1)) < slot
    then bs @ map BlockInfo_new [bi_slot (bs ! (length bs - 1)) + 1..<slot + 1] else bs)"
  have add: "add_slot slot m = (if sub64 slot (bi_slot (nb ! 0)) < length nb
         then (Inr (Some (sub64 slot (bi_slot (nb ! 0)))), m1\<lparr>sm_blocks := nb\<rparr>)
         else (Inl (Panic ''Out of bounds access''), m1\<lparr>sm_blocks := nb\<rparr>))"
    using g by (simp only: add_slot_def m1_def [symmetric] Let_def m1 foldl_push_front foldl_push_back nb_def)
      (simp add: m1)
  show thesis
  proof (cases "sm_blocks m")
    case Nil
    show ?thesis
      by (rule fin [OF add, of slot "Suc slot"])
        (use Nil g slot in \<open>simp_all add: BlockInfo_new_def nb_def\<close>)
  next
    case (Cons c cs)
    note wc = mem_window_cons [OF w Cons]
    have bs: "map bi_slot (sm_blocks m) = [lo..<hi]" "hi \<le> u64_MAX" "sm_gen_next_slot m \<le> lo" "parents_below (sm_blocks m)"
      using w by (simp_all add: mem_window_def)
    have first: "bi_slot (sm_blocks m ! 0) = lo" and ne: "sm_blocks m \<noteq> []" using wc(1) Cons by simp_all
    have last: "bi_slot (sm_blocks m ! (length (sm_blocks m) - 1)) = hi - 1"
      using mem_window_nth [OF w, of "hi - lo - 1"] mem_window_length [OF w] wc(2) by simp
    have gl: "g \<le> lo" using bs(3) wc(4) by (simp add: g_def)
    have nb: "nb = (if slot < lo then map BlockInfo_new [slot..<lo] @ sm_blocks m
        else if hi \<le> slot then sm_blocks m @ map BlockInfo_new [hi..<Suc slot] else sm_blocks m)"
      using wc(2) ne by (simp add: nb_def first last [simplified] Let_def) (auto simp: less_diff_conv2)
    have pb: "parents_below nb" using bs(4) by (simp add: nb) (simp add: BlockInfo_new_def)
    consider "slot < lo" | "lo \<le> slot" "slot < hi" | "hi \<le> slot" by linarith
    then show ?thesis
    proof cases
      case 1
      have "[slot..<lo] @ [lo..<hi] = [slot..<hi]" using 1 wc(2) by (metis le_add_diff_inverse less_imp_le upt_add_eq_append)
      then have "map bi_slot nb = [slot..<hi]" using 1 bs(1) by (simp add: nb comp_def)
      then show ?thesis using fin [OF add _ _ _ _ bs(2) pb, of slot] 1 g wc(2) by simp
    next
      case 2
      then have "map bi_slot nb = [lo..<hi]" using bs(1) by (simp add: nb)
      then show ?thesis using fin [OF add _ _ _ _ bs(2) pb, of lo] 2 gl by simp
    next
      case 3
      have "[lo..<hi] @ [hi..<Suc slot] = [lo..<Suc slot]"
        using 3 wc(2) by (metis le_SucI le_add_diff_inverse less_imp_le upt_add_eq_append)
      then have "map bi_slot nb = [lo..<Suc slot]" using 3 wc(2) bs(1) by (simp add: nb comp_def) (simp add: BlockInfo_new_def)
      then show ?thesis using fin [OF add _ _ _ _ _ pb, of lo "Suc slot"] 3 gl slot wc(2) by simp
    qed
  qed
qed

lemma mem_window_update_cell:
  assumes w: "mem_window m lo hi" and f: "\<And>c. bi_slot (f c) = bi_slot c"
    and p: "i < length (sm_blocks m) \<Longrightarrow> parents_below [f (sm_blocks m ! i)]"
  shows "mem_window (update_cell i f m) lo hi"
proof (cases "i < length (sm_blocks m)")
  case True
  have "map bi_slot ((sm_blocks m)[i := f (sm_blocks m ! i)]) = map bi_slot (sm_blocks m)"
    using True by (simp add: map_update f list_update_same_conv)
  moreover have "parents_below ((sm_blocks m)[i := f (sm_blocks m ! i)])"
    using w p [OF True] set_update_subset_insert by (fastforce simp: parents_below_def mem_window_def)
  ultimately show ?thesis using w by (simp add: mem_window_def update_cell_def)
qed (use w in \<open>simp add: update_cell_def mem_window_def not_less list_update_beyond\<close>)

lemma parents_below_nth: "parents_below bs \<Longrightarrow> i < length bs \<Longrightarrow> parents_below [bs ! i]"
  by (simp add: parents_below_def)

lemma mem_window_parents: "mem_window m lo hi \<Longrightarrow> parents_below (sm_blocks m)"
  by (simp add: mem_window_def)

section \<open>The walk to the first ancestor\<close>

text \<open>One step of the walk: from the cell of a block to the cell of its parent, in the queue.\<close>

definition parent_cell :: "Slot \<Rightarrow> 'e BlockInfo list \<Rightarrow> nat \<Rightarrow> nat \<Rightarrow> bool" where
  "parent_cell lo bs i j \<longleftrightarrow> i < length bs \<and>
     (\<exists>b. bi_block (bs ! i) = Some b \<and> lo \<le> bl_parent_slot b \<and> j = bl_parent_slot b - lo)"

definition chain_end :: "Slot \<Rightarrow> 'e BlockInfo list \<Rightarrow> nat \<Rightarrow> bool" where
  "chain_end lo bs i \<longleftrightarrow> i < length bs \<and>
     (\<forall>b. bi_block (bs ! i) = Some b \<longrightarrow> bl_parent_slot b < lo)"

text \<open>What \<open>pop_confirmed\<close> does with the last cell of the walk.\<close>

definition pop_at :: "Slot \<Rightarrow> nat \<Rightarrow> 'e StorageMemory \<Rightarrow> 'e MemoryConfirmedBlock \<times> 'e StorageMemory" where
  "pop_at lo i m =
     (case bi_block (sm_blocks m ! i) of
        Some block \<Rightarrow>
          if sm_gen_next_slot m \<le> bl_parent_slot block then (MemMissed (sm_gen_next_slot m), m)
          else if sm_gen_next_slot m < lo then (MemDead (sm_gen_next_slot m), m)
          else pop_front_block (m\<lparr>sm_blocks := kill_prefix i (sm_blocks m)\<rparr>)
      | None \<Rightarrow>
          if sm_gen_next_slot m < lo then (MemMissed (sm_gen_next_slot m), m) else pop_front_missed m)"

lemma pop_loop_walk:
  assumes w: "mem_window m lo hi" and i: "i < hi - lo" and fuel: "i < fuel"
  shows "\<exists>j. (parent_cell lo (sm_blocks m))\<^sup>*\<^sup>* i j \<and> chain_end lo (sm_blocks m) j \<and> j \<le> i \<and>
    pop_loop fuel lo i m = Some (apfst Inr (pop_at lo j m))"
  using i fuel
proof (induction fuel arbitrary: i)
  case (Suc fuel)
  have len: "i < length (sm_blocks m)" using mem_window_length [OF w] Suc.prems(1) by simp
  have gen: "sm_gen_next_slot m \<le> lo" using w by (simp add: mem_window_def)
  show ?case
  proof (cases "bi_block (sm_blocks m ! i)")
    case None
    then have "chain_end lo (sm_blocks m) i" using len by (simp add: chain_end_def)
    moreover have "pop_loop (Suc fuel) lo i m = Some (apfst Inr (pop_at lo i m))"
      using len None gen by (auto simp: pop_at_def Let_def)
    ultimately show ?thesis by blast
  next
    case (Some b)
    have par: "bl_parent_slot b < lo + i"
      using parents_below_nth [OF mem_window_parents [OF w] len] Some mem_window_nth [OF w Suc.prems(1)] by simp
    show ?thesis
    proof (cases "lo \<le> bl_parent_slot b")
      case True
      let ?j = "bl_parent_slot b - lo"
      have "?j < i" using par True by simp
      then obtain k where k: "(parent_cell lo (sm_blocks m))\<^sup>*\<^sup>* ?j k" "chain_end lo (sm_blocks m) k" "k \<le> ?j"
        "pop_loop fuel lo ?j m = Some (apfst Inr (pop_at lo k m))"
        using Suc.IH [of ?j] Suc.prems by auto
      moreover have "parent_cell lo (sm_blocks m) i ?j" using len Some True by (simp add: parent_cell_def)
      moreover have "pop_loop (Suc fuel) lo i m = pop_loop fuel lo ?j m"
        using len Some True by (simp add: Let_def)
      ultimately show ?thesis using \<open>?j < i\<close> by (metis converse_rtranclp_into_rtranclp le_trans less_imp_le)
    next
      case False
      then have "chain_end lo (sm_blocks m) i" using len Some by (simp add: chain_end_def)
      moreover have "pop_loop (Suc fuel) lo i m = Some (apfst Inr (pop_at lo i m))"
        using len Some False gen by (auto simp: pop_at_def Let_def)
      ultimately show ?thesis by blast
    qed
  qed
qed simp

lemma find_index_Some:
  "find_index P xs = Some i \<longleftrightarrow> i < length xs \<and> P (xs ! i) \<and> (\<forall>j < i. \<not> P (xs ! j))"
proof (induction xs arbitrary: i)
  case (Cons x xs)
  then show ?case by (cases i) (auto simp: nth_Cons split: nat.splits)
qed simp

lemma find_index_None: "find_index P xs = None \<longleftrightarrow> (\<forall>x \<in> set xs. \<not> P x)"
  by (induction xs) auto

lemma kill_prefix_eq:
  "n \<le> length bs \<Longrightarrow>
   kill_prefix n bs = map (\<lambda>c. c\<lparr>bi_block := None, bi_dead := True\<rparr>) (take n bs) @ drop n bs"
proof (induction n)
  case (Suc n)
  then have "kill_prefix (Suc n) bs = (kill_prefix n bs)[n := (kill_prefix n bs ! n)\<lparr>bi_block := None, bi_dead := True\<rparr>]"
    by (simp add: kill_prefix_def)
  then show ?case using Suc
    by (simp add: nth_append list_update_append take_Suc_conv_app_nth Cons_nth_drop_Suc [symmetric])
qed (simp add: kill_prefix_def)

lemma parents_below_kill: "parents_below bs \<Longrightarrow> n \<le> length bs \<Longrightarrow> parents_below (kill_prefix n bs)"
  by (auto simp: kill_prefix_eq parents_below_def dest: in_set_dropD)

lemma map_bi_slot_kill: "n \<le> length bs \<Longrightarrow> map bi_slot (kill_prefix n bs) = map bi_slot bs"
  by (simp add: kill_prefix_eq comp_def) (metis append_take_drop_id map_append)

lemma pop_front_window:
  assumes slots: "map bi_slot (sm_blocks m) = [lo..<hi]" and pb: "parents_below (sm_blocks m)"
    and lh: "lo < hi" "hi \<le> u64_MAX" "0 < lo" and f: "f = pop_front_block \<or> f = pop_front_missed"
  shows "get_slot (fst (f m)) = lo" "mem_window ((snd (f m))\<lparr>sm_gen_next_slot := Suc lo\<rparr>) (Suc lo) hi"
    "sm_gen_next_slot (snd (f m)) = sm_gen_next_slot m" "sm_confirmed (snd (f m)) = sm_confirmed m"
proof -
  have "[lo..<hi] = lo # [Suc lo..<hi]" using lh(1) by (rule upt_conv_Cons)
  then obtain c cs where c: "sm_blocks m = c # cs" "bi_slot c = lo" "map bi_slot cs = [Suc lo..<hi]"
    using slots by (cases "sm_blocks m") auto
  show "get_slot (fst (f m)) = lo" "mem_window ((snd (f m))\<lparr>sm_gen_next_slot := Suc lo\<rparr>) (Suc lo) hi"
    "sm_gen_next_slot (snd (f m)) = sm_gen_next_slot m" "sm_confirmed (snd (f m)) = sm_confirmed m"
    using c pb lh f
    by (auto simp: pop_front_block_def pop_front_missed_def missed_or_dead_def mem_window_def Let_def split: option.splits)
qed

lemma pop_at_window:
  assumes w: "mem_window m lo hi" and j: "chain_end lo (sm_blocks m) j" and g: "0 < sm_gen_next_slot m"
  defines "g \<equiv> sm_gen_next_slot m"
  shows "get_slot (fst (pop_at lo j m)) = g" "sm_gen_next_slot (snd (pop_at lo j m)) = g"
    "sm_confirmed (snd (pop_at lo j m)) = sm_confirmed m"
    "\<exists>lo'. mem_window ((snd (pop_at lo j m))\<lparr>sm_gen_next_slot := Suc g\<rparr>) lo' hi"
proof -
  have jl: "j < length (sm_blocks m)" using j by (simp add: chain_end_def)
  have lh: "lo < hi" using jl mem_window_length [OF w] by simp
  have par: "bl_parent_slot b < lo" if "bi_block (sm_blocks m ! j) = Some b" for b
    using j that by (simp add: chain_end_def)
  have early_w: "mem_window (m\<lparr>sm_gen_next_slot := Suc g\<rparr>) lo hi" if "g < lo"
    using w that by (simp add: mem_window_def)
  have ww: "map bi_slot (sm_blocks m) = [lo..<hi]" "parents_below (sm_blocks m)" "hi \<le> u64_MAX" "g \<le> lo"
    using w by (simp_all add: mem_window_def g_def)
  let ?k = "m\<lparr>sm_blocks := kill_prefix j (sm_blocks m)\<rparr>"
  have k: "map bi_slot (sm_blocks ?k) = [lo..<hi]" "parents_below (sm_blocks ?k)"
    using jl ww(1,2) by (simp_all add: map_bi_slot_kill parents_below_kill)
  have at: "g < lo \<and> snd (pop_at lo j m) = m \<and> get_slot (fst (pop_at lo j m)) = g \<or>
      g = lo \<and> pop_at lo j m = pop_front_block ?k \<or> g = lo \<and> pop_at lo j m = pop_front_missed m"
  proof (cases "bi_block (sm_blocks m ! j)")
    case None
    then show ?thesis using ww(4) by (auto simp: pop_at_def g_def)
  next
    case (Some b)
    then show ?thesis using par [OF Some] ww(4) by (auto simp: pop_at_def g_def)
  qed
  have g0: "0 < g" using g by (simp add: g_def)
  consider (early) "g < lo" "snd (pop_at lo j m) = m" "get_slot (fst (pop_at lo j m)) = g"
    | (block) "lo = g" "pop_at lo j m = pop_front_block ?k" | (missed) "lo = g" "pop_at lo j m = pop_front_missed m"
    using at by blast
  then have "get_slot (fst (pop_at lo j m)) = g \<and> sm_gen_next_slot (snd (pop_at lo j m)) = g \<and>
    sm_confirmed (snd (pop_at lo j m)) = sm_confirmed m \<and>
    (\<exists>lo'. mem_window ((snd (pop_at lo j m))\<lparr>sm_gen_next_slot := Suc g\<rparr>) lo' hi)"
  proof cases
    case early
    then show ?thesis using early_w by (auto simp: g_def)
  next
    case block
    have "0 < lo" using block g0 by simp
    note p = pop_front_window [where m = ?k and f = pop_front_block, OF k lh ww(3) this]
    show ?thesis unfolding block(2) using p block(1) by (auto simp: g_def)
  next
    case missed
    have "0 < lo" using missed g0 by simp
    note p = pop_front_window [where f = pop_front_missed, OF ww(1,2) lh ww(3) this]
    show ?thesis unfolding missed(2) using p missed(1) by (auto simp: g_def)
  qed
  then show "get_slot (fst (pop_at lo j m)) = g" "sm_gen_next_slot (snd (pop_at lo j m)) = g"
    "sm_confirmed (snd (pop_at lo j m)) = sm_confirmed m"
    "\<exists>lo'. mem_window ((snd (pop_at lo j m))\<lparr>sm_gen_next_slot := Suc g\<rparr>) lo' hi"
    by blast+
qed

lemma pop_confirmed_cases:
  assumes w: "mem_window m lo hi"
  obtains (none) "pop_confirmed m = Some (Inr None, m)"
      "sm_confirmed m = 0 \<or> (\<forall>c \<in> set (sm_blocks m). \<not> bi_confirmed c)"
  | (emit) i j where "find_index bi_confirmed (sm_blocks m) = Some i"
      "(parent_cell lo (sm_blocks m))\<^sup>*\<^sup>* i j" "chain_end lo (sm_blocks m) j" "0 < sm_gen_next_slot m"
      "pop_confirmed m = Some (Inr (Some (fst (pop_at lo j m))),
         (snd (pop_at lo j m))\<lparr>sm_gen_next_slot := Suc (sm_gen_next_slot m)\<rparr>)"
proof (cases "sm_confirmed m = 0 \<or> sm_gen_next_slot m = 0 \<or> find_index bi_confirmed (sm_blocks m) = None")
  case True
  have "sm_gen_next_slot m = 0 \<Longrightarrow> sm_blocks m = []"
    using w by (auto simp: mem_window_def)
  with True have "sm_confirmed m = 0 \<or> (\<forall>c \<in> set (sm_blocks m). \<not> bi_confirmed c)"
    by (auto simp: find_index_None)
  moreover have "pop_confirmed m = Some (Inr None, m)"
    using True by (cases "sm_blocks m") (auto simp only: pop_confirmed_def list.case option.case if_True simp_thms split: if_splits)
  ultimately show ?thesis by (rule none [rotated])
next
  case False
  then obtain i where i: "find_index bi_confirmed (sm_blocks m) = Some i" by auto
  then have il: "i < length (sm_blocks m)" by (simp add: find_index_Some)
  then obtain c cs where c: "sm_blocks m = c # cs" by (cases "sm_blocks m") auto
  have "i < hi - lo" using il mem_window_length [OF w] by simp
  then obtain j where j: "(parent_cell lo (sm_blocks m))\<^sup>*\<^sup>* i j" "chain_end lo (sm_blocks m) j"
    "pop_loop (Suc (length (sm_blocks m))) lo i m = Some (apfst Inr (pop_at lo j m))"
    using pop_loop_walk [OF w, of i "Suc (length (sm_blocks m))"] il by auto
  have g: "0 < sm_gen_next_slot m" using False by simp
  have "sm_gen_next_slot m < u64_MAX"
    using w mem_window_cons [OF w c] by (simp add: mem_window_def)
  then have "add64 (sm_gen_next_slot m) 1 = Suc (sm_gen_next_slot m)" by simp
  moreover note pop_at_window(2) [OF w j(2) g]
  ultimately have "pop_confirmed m = Some (Inr (Some (fst (pop_at lo j m))),
      (snd (pop_at lo j m))\<lparr>sm_gen_next_slot := Suc (sm_gen_next_slot m)\<rparr>)"
    using False i j(3) c mem_window_cons(1) [OF w c]
    by (simp add: pop_confirmed_def apfst_def map_prod_def split: prod.splits)
  then show ?thesis using emit i j g by blast
qed

section \<open>Runs\<close>

text \<open>
  The states the write thread reaches, with what it has taken from the queue so far. Slots are
  positive and below \<open>u64::MAX\<close>, and a block comes after its parent; nothing is assumed about the
  order of the calls.
\<close>

definition valid_slot :: "Slot \<Rightarrow> bool" where
  "valid_slot slot \<longleftrightarrow> 0 < slot \<and> slot < u64_MAX"

inductive mem_trace :: "'e MemoryConfirmedBlock list \<Rightarrow> 'e StorageMemory \<Rightarrow> bool" where
  mt_start: "mem_trace [] StorageMemory_default"
| mt_processed: "mem_trace out m \<Longrightarrow> valid_slot slot \<Longrightarrow> bl_parent_slot b < slot \<Longrightarrow>
    add_processed slot b m = (Inr (), m') \<Longrightarrow> mem_trace out m'"
| mt_dead: "mem_trace out m \<Longrightarrow> valid_slot slot \<Longrightarrow> set_dead slot m = (Inr (), m') \<Longrightarrow> mem_trace out m'"
| mt_confirmed: "mem_trace out m \<Longrightarrow> valid_slot slot \<Longrightarrow> mem_set_confirmed slot m = (Inr (), m') \<Longrightarrow>
    mem_trace out m'"
| mt_pop: "mem_trace out m \<Longrightarrow> pop_confirmed m = Some (Inr (Some c), m') \<Longrightarrow> mem_trace (out @ [c]) m'"

inductive_simps mem_trace_snoc: "mem_trace (out @ [c]) m"

definition trace_inv :: "'e MemoryConfirmedBlock list \<Rightarrow> 'e StorageMemory \<Rightarrow> bool" where
  "trace_inv out m \<longleftrightarrow> mem_inv m \<and>
     (out \<noteq> [] \<longrightarrow> map get_slot out = [sm_gen_next_slot m - length out..<sm_gen_next_slot m] \<and>
        length out < sm_gen_next_slot m)"

lemma trace_inv_gen:
  assumes "trace_inv out m" "mem_inv m'" "sm_gen_next_slot m \<noteq> 0 \<Longrightarrow> sm_gen_next_slot m' = sm_gen_next_slot m"
  shows "trace_inv out m'"
  using assms by (auto simp: trace_inv_def)

lemma input_inv:
  assumes inv: "mem_inv m" and slot: "valid_slot slot"
    and cell: "\<And>i m1. add_slot slot m = (Inr (Some i), m1) \<Longrightarrow> f = (Inr (), m') \<Longrightarrow>
      \<exists>g s. m' = (update_cell i g m1)\<lparr>sm_confirmed := s\<rparr> \<and> (\<forall>c. bi_slot (g c) = bi_slot c) \<and>
        (\<forall>c. parents_below [c] \<and> bi_slot c = slot \<longrightarrow> parents_below [g c])"
    and old: "add_slot slot m = (Inr None, m) \<Longrightarrow> f = (Inr (), m') \<Longrightarrow> m' = m"
    and f: "f = (Inr (), m')"
  shows "mem_inv m' \<and> (sm_gen_next_slot m \<noteq> 0 \<longrightarrow> sm_gen_next_slot m' = sm_gen_next_slot m)"
proof -
  obtain lo hi where w: "mem_window m lo hi" using inv by (auto simp: mem_inv_def)
  show ?thesis
  proof (rule add_slot_window [OF w])
    show "0 < slot" "slot < u64_MAX" using slot by (simp_all add: valid_slot_def)
  next
    assume "add_slot slot m = (Inr None, m)"
    then show ?thesis using old f inv by blast
  next
    fix i m1 lo' hi'
    assume a: "add_slot slot m = (Inr (Some i), m1)" "mem_window m1 lo' hi'" "i < hi' - lo'" "lo' + i = slot"
      and g: "sm_gen_next_slot m \<noteq> 0 \<Longrightarrow> sm_gen_next_slot m1 = sm_gen_next_slot m"
    obtain g s where c: "m' = (update_cell i g m1)\<lparr>sm_confirmed := s\<rparr>" "\<forall>c. bi_slot (g c) = bi_slot c"
      "\<forall>c. parents_below [c] \<and> bi_slot c = slot \<longrightarrow> parents_below [g c]"
      using cell [OF a(1) f] by blast
    have "parents_below [g (sm_blocks m1 ! i)]" if "i < length (sm_blocks m1)"
      using parents_below_nth [OF mem_window_parents [OF a(2)] that] mem_window_nth [OF a(2,3)] a(4) c(3) by blast
    then have "mem_window (update_cell i g m1) lo' hi'" using mem_window_update_cell [OF a(2)] c(2) by blast
    then have "mem_window m' lo' hi'" using c(1) by (simp add: mem_window_def)
    then show ?thesis using g c(1) by (auto simp: mem_inv_def update_cell_def)
  qed
qed

lemma mem_trace_inv: "mem_trace out m \<Longrightarrow> trace_inv out m"
proof (induction rule: mem_trace.induct)
  case mt_start
  have "mem_window StorageMemory_default 0 0" by (simp add: mem_window_def StorageMemory_default_def)
  then show ?case by (auto simp: trace_inv_def mem_inv_def)
next
  case (mt_processed out m slot b m')
  have "mem_inv m' \<and> (sm_gen_next_slot m \<noteq> 0 \<longrightarrow> sm_gen_next_slot m' = sm_gen_next_slot m)"
  proof (rule input_inv [OF _ mt_processed.hyps(2) _ _ mt_processed.hyps(4)])
    fix i m1 assume "add_slot slot m = (Inr (Some i), m1)" "add_processed slot b m = (Inr (), m')"
    then show "\<exists>g s. m' = (update_cell i g m1)\<lparr>sm_confirmed := s\<rparr> \<and> (\<forall>c. bi_slot (g c) = bi_slot c) \<and>
        (\<forall>c. parents_below [c] \<and> bi_slot c = slot \<longrightarrow> parents_below [g c])"
      using mt_processed.hyps(3)
      by (intro exI [of _ "bi_block_update (\<lambda>_. Some b)"] exI [of _ "sm_confirmed m'"]) (auto simp: add_processed_def)
  qed (use mt_processed.IH in \<open>auto simp: trace_inv_def add_processed_def\<close>)
  then show ?case using trace_inv_gen mt_processed.IH by blast
next
  case (mt_dead out m slot m')
  have "mem_inv m' \<and> (sm_gen_next_slot m \<noteq> 0 \<longrightarrow> sm_gen_next_slot m' = sm_gen_next_slot m)"
  proof (rule input_inv [OF _ mt_dead.hyps(2) _ _ mt_dead.hyps(3)])
    fix i m1 assume "add_slot slot m = (Inr (Some i), m1)" "set_dead slot m = (Inr (), m')"
    then show "\<exists>g s. m' = (update_cell i g m1)\<lparr>sm_confirmed := s\<rparr> \<and> (\<forall>c. bi_slot (g c) = bi_slot c) \<and>
        (\<forall>c. parents_below [c] \<and> bi_slot c = slot \<longrightarrow> parents_below [g c])"
      by (intro exI [of _ "bi_dead_update (\<lambda>_. True)"] exI [of _ "sm_confirmed m'"]) (auto simp: set_dead_def split: if_splits)
  qed (use mt_dead.IH in \<open>auto simp: trace_inv_def set_dead_def\<close>)
  then show ?case using trace_inv_gen mt_dead.IH by blast
next
  case (mt_confirmed out m slot m')
  have "mem_inv m' \<and> (sm_gen_next_slot m \<noteq> 0 \<longrightarrow> sm_gen_next_slot m' = sm_gen_next_slot m)"
  proof (rule input_inv [OF _ mt_confirmed.hyps(2) _ _ mt_confirmed.hyps(3)])
    fix i m1 assume "add_slot slot m = (Inr (Some i), m1)" "mem_set_confirmed slot m = (Inr (), m')"
    then show "\<exists>g s. m' = (update_cell i g m1)\<lparr>sm_confirmed := s\<rparr> \<and> (\<forall>c. bi_slot (g c) = bi_slot c) \<and>
        (\<forall>c. parents_below [c] \<and> bi_slot c = slot \<longrightarrow> parents_below [g c])"
      by (intro exI [of _ "bi_confirmed_update (\<lambda>_. True)"] exI [of _ slot]) (auto simp: mem_set_confirmed_def split: if_splits)
  qed (use mt_confirmed.IH in \<open>auto simp: trace_inv_def mem_set_confirmed_def split: if_splits\<close>)
  then show ?case using trace_inv_gen mt_confirmed.IH by blast
next
  case (mt_pop out m c m')
  obtain lo hi where w: "mem_window m lo hi" using mt_pop.IH by (auto simp: trace_inv_def mem_inv_def)
  show ?case
  proof (cases rule: pop_confirmed_cases [OF w, case_names none emit])
    case (emit i j)
    note p = pop_at_window [OF w emit(3,4)]
    have m': "m' = (snd (pop_at lo j m))\<lparr>sm_gen_next_slot := Suc (sm_gen_next_slot m)\<rparr>" "c = fst (pop_at lo j m)"
      using emit(5) mt_pop.hyps(2) by simp_all
    have "mem_inv m'" using p(4) m' by (auto simp: mem_inv_def)
    moreover have "map get_slot (out @ [c]) = [Suc (sm_gen_next_slot m) - length (out @ [c])..<Suc (sm_gen_next_slot m)]"
      using mt_pop.IH p(1) m'(2) emit(4) by (auto simp: trace_inv_def)
    ultimately show ?thesis using mt_pop.IH m'(1) emit(4) by (auto simp: trace_inv_def)
  qed (use mt_pop.hyps(2) in simp)
qed

lemma pop_at_block:
  assumes w: "mem_window m lo hi" and j: "chain_end lo (sm_blocks m) j"
    and b: "fst (pop_at lo j m) = MemBlock s b"
  shows "j = 0 \<and> s = lo \<and> bi_block (sm_blocks m ! 0) = Some b"
proof -
  have jl: "j < length (sm_blocks m)" using j by (simp add: chain_end_def)
  then obtain c cs where c: "sm_blocks m = c # cs" by (cases "sm_blocks m") auto
  show ?thesis
  proof (cases j)
    case 0
    then show ?thesis using b c mem_window_cons(1) [OF w c]
      by (auto simp: pop_at_def pop_front_block_def pop_front_missed_def missed_or_dead_def kill_prefix_def Let_def split: option.splits if_splits)
  next
    case (Suc i)
    then have "bi_block (hd (kill_prefix j (sm_blocks m))) = None"
      using jl by (simp add: kill_prefix_eq c)
    then show ?thesis using b
      by (auto simp: pop_at_def pop_front_block_def pop_front_missed_def missed_or_dead_def Let_def split: option.splits if_splits)
  qed
qed

section \<open>Properties\<close>

text \<open>
  C17. Whatever the order of the calls, the queue emits the slots one after the other with no gap and
  no repetition, up to \<open>gen_next_slot\<close>.
\<close>

theorem emitted_slots_consecutive:
  assumes "mem_trace out m" and "out \<noteq> []"
  shows "map get_slot out = [sm_gen_next_slot m - length out..<sm_gen_next_slot m]"
  using mem_trace_inv [OF assms(1)] assms(2) by (simp add: trace_inv_def)

definition demo_mem_block :: "Slot \<Rightarrow> unit BlockWithBinary" where
  "demo_mem_block parent = \<lparr>bl_blockhash = [], bl_parent_slot = parent, bl_block_time = None,
     bl_block_height = None, bl_protobuf = [], bl_txs_offset = [], bl_transactions = [], bl_sfa = [],
     bl_fees = \<lparr>fs_fees = [], fs_writable_account_fees = []\<rparr>\<rparr>"

definition demo_mem :: "unit StorageMemory" where
  "demo_mem = snd (mem_set_confirmed 5 (snd (add_processed 5 (demo_mem_block 4) StorageMemory_default)))"

lemma demo_mem_eq: "demo_mem = \<lparr>sm_blocks = [\<lparr>bi_slot = 5, bi_block = Some (demo_mem_block 4),
    bi_dead = False, bi_confirmed = True\<rparr>], sm_confirmed = 5, sm_gen_next_slot = 5\<rparr>"
  by (simp add: demo_mem_def mem_set_confirmed_def add_processed_def add_slot_def StorageMemory_default_def
      BlockInfo_new_def update_cell_def Let_def)

lemma demo_mem_trace: "mem_trace [] demo_mem"
proof -
  let ?m = "snd (add_processed 5 (demo_mem_block 4) (StorageMemory_default :: unit StorageMemory))"
  have "add_processed 5 (demo_mem_block 4) StorageMemory_default = (Inr (), ?m)"
    by (simp add: add_processed_def add_slot_def StorageMemory_default_def BlockInfo_new_def Let_def)
  then have "mem_trace [] ?m"
    using mt_processed [OF mt_start, of 5 "demo_mem_block 4" ?m] by (simp add: demo_mem_block_def valid_slot_def)
  moreover have "mem_set_confirmed 5 ?m = (Inr (), demo_mem)"
    by (simp add: demo_mem_def mem_set_confirmed_def add_processed_def add_slot_def StorageMemory_default_def
      BlockInfo_new_def update_cell_def Let_def)
  ultimately show ?thesis using mt_confirmed [of "[]" ?m 5 demo_mem] by (simp add: valid_slot_def)
qed

lemma demo_mem_pop: "pop_confirmed demo_mem = Some (Inr (Some (MemBlock 5 (demo_mem_block 4))),
    \<lparr>sm_blocks = [], sm_confirmed = 5, sm_gen_next_slot = 6\<rparr>)"
  by (simp add: demo_mem_eq pop_confirmed_def demo_mem_block_def kill_prefix_def pop_front_block_def Let_def)

theorem emitted_slots_consecutive_witness:
  "mem_trace [MemBlock 5 (demo_mem_block 4)] \<lparr>sm_blocks = [], sm_confirmed = 5, sm_gen_next_slot = 6\<rparr> \<and>
   map get_slot [MemBlock 5 (demo_mem_block 4)] = [6 - 1..<6]"
proof -
  have t: "mem_trace [MemBlock 5 (demo_mem_block 4)] \<lparr>sm_blocks = [], sm_confirmed = 5, sm_gen_next_slot = 6\<rparr>"
    using mt_pop [OF demo_mem_trace demo_mem_pop] by simp
  show ?thesis using t emitted_slots_consecutive [OF t] by simp
qed

text \<open>
  C29. \<open>pop_confirmed\<close> always returns and never panics on a state the queue can reach: the walk to
  the first ancestor ends. It returns a slot exactly when a confirmed slot is in the queue.
\<close>

theorem pop_confirmed_progress:
  assumes "mem_trace out m"
  shows "\<exists>r m'. pop_confirmed m = Some (Inr r, m') \<and>
    (r = None \<longleftrightarrow> sm_confirmed m = 0 \<or> (\<forall>c \<in> set (sm_blocks m). \<not> bi_confirmed c))"
proof -
  obtain lo hi where w: "mem_window m lo hi" using mem_trace_inv [OF assms] by (auto simp: trace_inv_def mem_inv_def)
  show ?thesis
  proof (cases rule: pop_confirmed_cases [OF w, case_names none emit])
    case (emit i j)
    have "i < length (sm_blocks m) \<and> bi_confirmed (sm_blocks m ! i)" using emit(1) by (simp add: find_index_Some)
    then have "\<not> (\<forall>c \<in> set (sm_blocks m). \<not> bi_confirmed c)" by force
    moreover have "sm_confirmed m = 0 \<Longrightarrow> pop_confirmed m = Some (Inr None, m)" by (simp add: pop_confirmed_def)
    then have "sm_confirmed m \<noteq> 0" using emit(5) by auto
    ultimately have "Some (fst (pop_at lo j m)) = None \<longleftrightarrow> sm_confirmed m = 0 \<or> (\<forall>c \<in> set (sm_blocks m). \<not> bi_confirmed c)"
      by simp
    then show ?thesis using emit(5) by blast
  qed auto
qed

theorem pop_confirmed_progress_witness:
  "mem_trace [] demo_mem \<and> (\<exists>r m'. pop_confirmed demo_mem = Some (Inr r, m') \<and> r \<noteq> None)"
  using pop_confirmed_progress [OF demo_mem_trace] demo_mem_trace by (auto simp: demo_mem_eq)

text \<open>
  C20. Only blocks of the confirmed fork are emitted: when \<open>pop_confirmed\<close> gives a block, that block
  was received for that slot, its parent is below, and the slot is reached from the first
  confirmed slot of the queue by following parents.
\<close>

theorem emitted_block_is_confirmed_ancestor:
  assumes "mem_trace out m" and "pop_confirmed m = Some (Inr (Some (MemBlock s b)), m')"
  shows "\<exists>i. find_index bi_confirmed (sm_blocks m) = Some i \<and> (parent_cell s (sm_blocks m))\<^sup>*\<^sup>* i 0 \<and>
    bi_slot (sm_blocks m ! 0) = s \<and> bi_block (sm_blocks m ! 0) = Some b \<and> bl_parent_slot b < s"
proof -
  obtain lo hi where w: "mem_window m lo hi" using mem_trace_inv [OF assms(1)] by (auto simp: trace_inv_def mem_inv_def)
  show ?thesis
  proof (cases rule: pop_confirmed_cases [OF w, case_names none emit])
    case (emit i j)
    have "fst (pop_at lo j m) = MemBlock s b" using emit(5) assms(2) by simp
    then have j: "j = 0" "s = lo" "bi_block (sm_blocks m ! 0) = Some b" using pop_at_block [OF w emit(3)] by simp_all
    have "0 < length (sm_blocks m)" using emit(3) j(1) unfolding chain_end_def by simp
    then have "bi_slot (sm_blocks m ! 0) = lo" using mem_window_nth [OF w, of 0] mem_window_length [OF w] by simp
    then show ?thesis using emit(1-3) j by (auto simp: chain_end_def)
  qed (use assms(2) in simp)
qed

theorem emitted_block_is_confirmed_ancestor_witness:
  "mem_trace [] demo_mem \<and> (parent_cell 5 (sm_blocks demo_mem))\<^sup>*\<^sup>* 0 0 \<and> bl_parent_slot (demo_mem_block 4) < 5"
  using emitted_block_is_confirmed_ancestor [OF demo_mem_trace demo_mem_pop] demo_mem_trace by (auto simp: demo_mem_eq)

end
