(* ===== verification/Alp_Files.thy ===== *)
theory Alp_Files
  imports Alp_Blocks
begin

text \<open>
  src/src/storage/files.rs: the block files, used as rings of bytes. The disk maps a path to the
  bytes of the file; a handle is its path, so that a reader that opens the same path sees what
  the writer wrote. The outcome of the I/O calls of one operation is an argument: all succeed,
  the write fails after some bytes, or the sync fails after the write. Gauges are not state.
\<close>

type_synonym disk = "string \<Rightarrow> bytes"

text \<open>\<open>write_all_at\<close> on a regular file: a write behind the end extends it.\<close>

definition write_at :: "nat \<Rightarrow> bytes \<Rightarrow> bytes \<Rightarrow> bytes" where
  "write_at off buf f =
     take off (f @ replicate (off - length f) 0) @ buf @ drop (off + length buf) f"

definition disk_write :: "string \<Rightarrow> nat \<Rightarrow> bytes \<Rightarrow> disk \<Rightarrow> disk" where
  "disk_write path off buf d = d(path := write_at off buf (d path))"

text \<open>\<open>read_exact_at\<close>: fails at the end of the file.\<close>

definition read_exact_at :: "string \<Rightarrow> nat \<Rightarrow> nat \<Rightarrow> disk \<Rightarrow> bytes result" where
  "read_exact_at path off sz d =
     (if off + sz \<le> length (d path) then Inr (take sz (drop off (d path)))
      else Inl (Err ''failed to fill whole buffer''))"

datatype io_outcome = IoOk | WriteErr nat | SyncErr

definition write_and_sync :: "io_outcome \<Rightarrow> string \<Rightarrow> nat \<Rightarrow> bytes \<Rightarrow> disk \<Rightarrow> unit result \<times> disk" where
  "write_and_sync io path off buf d =
     (case io of
        IoOk \<Rightarrow> (Inr (), disk_write path off buf d)
      | WriteErr n \<Rightarrow> (Inl (Err ''write''), disk_write path off (take n buf) d)
      | SyncErr \<Rightarrow> (Inl (Err ''sync''), disk_write path off buf d))"

section \<open>StorageFile\<close>

record StorageFile =
  fl_id :: StorageId
  fl_file :: string
  fl_tail :: nat
  fl_head :: nat
  fl_size :: nat
  fl_new_blocks :: bool

definition free_space :: "StorageFile \<Rightarrow> nat" where
  "free_space f =
     (if fl_head f < fl_tail f then fl_tail f - fl_head f
      else max (fl_tail f) (sub64 (fl_size f) (fl_head f)))"

definition write_back :: "io_outcome \<Rightarrow> bytes \<Rightarrow> StorageFile \<times> disk \<Rightarrow> nat result \<times> StorageFile \<times> disk" where
  "write_back io buffer = (\<lambda>(f, d).
     let len = length buffer
     in if \<not> len \<le> free_space f then (Inl (Err ''not enough space''), f, d)
        else
          let f = f\<lparr>fl_tail := (case checked_sub (fl_tail f) len of
                                 Some t \<Rightarrow> t | None \<Rightarrow> sub64 (fl_size f) len)\<rparr>
          in case write_and_sync io (fl_file f) (fl_tail f) buffer d of
               (Inl e, d) \<Rightarrow> (Inl e, f, d)
             | (Inr _, d) \<Rightarrow> (Inr (fl_tail f), f, d))"

definition write_front :: "io_outcome \<Rightarrow> bytes \<Rightarrow> StorageFile \<times> disk \<Rightarrow> nat result \<times> StorageFile \<times> disk" where
  "write_front io buffer = (\<lambda>(f, d).
     let len = length buffer
     in if \<not> len \<le> free_space f then (Inl (Err ''not enough space''), f, d)
        else
          let f = (if fl_tail f < fl_head f \<and> sub64 (fl_size f) (fl_head f) < len
                   then f\<lparr>fl_head := 0\<rparr> else f)
          in case write_and_sync io (fl_file f) (fl_head f) buffer d of
               (Inl e, d) \<Rightarrow> (Inl e, f, d)
             | (Inr _, d) \<Rightarrow>
                 let offset = fl_head f; f = f\<lparr>fl_head := add64 (fl_head f) len\<rparr>
                 in if fl_head f \<le> fl_size f then (Inr offset, f, d)
                    else (Inl (Err ''file storage head overflow''), f, d))"

section \<open>StorageFilesWrite\<close>

record StorageFilesWrite =
  fw_files :: "StorageFile list"
  fw_id2file :: "(StorageId, nat) hmap"
  fw_next_file :: nat

text \<open>\<open>get_file_index_for_new_block\<close>: round robin over the files.\<close>

fun file_index_loop ::
  "nat \<Rightarrow> nat \<Rightarrow> nat \<Rightarrow> StorageFilesWrite \<Rightarrow> (nat option result \<times> StorageFilesWrite) option" where
  "file_index_loop 0 sz current_index w = None"
| "file_index_loop (Suc fuel) sz current_index w =
     (let n = length (fw_files w); index = fw_next_file w
      in if n = 0 then Some (Inl (Panic ''remainder with a divisor of zero''), w)
         else
           let w = w\<lparr>fw_next_file := (index + 1) mod n\<rparr>
           in if n \<le> index then Some (Inl (Panic ''index out of bounds''), w)
              else if fl_new_blocks (fw_files w ! index) \<and> sz \<le> free_space (fw_files w ! index)
              then Some (Inr (Some index), w)
              else if fw_next_file w = current_index then Some (Inr None, w)
              else file_index_loop fuel sz current_index w)"

definition get_file_index_for_new_block ::
  "nat \<Rightarrow> StorageFilesWrite \<Rightarrow> (nat option result \<times> StorageFilesWrite) option" where
  "get_file_index_for_new_block sz w =
     file_index_loop (Suc (length (fw_files w))) sz (fw_next_file w) w"

definition files_push_block ::
  "VecSide \<Rightarrow> io_outcome \<Rightarrow> bytes \<Rightarrow> StorageFilesWrite \<times> disk \<Rightarrow>
     ((StorageId \<times> nat) option result \<times> StorageFilesWrite \<times> disk) option" where
  "files_push_block side io buffer = (\<lambda>(w, d).
     case get_file_index_for_new_block (length buffer) w of
       None \<Rightarrow> None
     | Some (Inl e, w) \<Rightarrow> Some (Inl e, w, d)
     | Some (Inr None, w) \<Rightarrow> Some (Inr None, w, d)
     | Some (Inr (Some index), w) \<Rightarrow>
         let (r, f, d) = (case side of
               Back \<Rightarrow> write_back io buffer (fw_files w ! index, d)
             | Front \<Rightarrow> write_front io buffer (fw_files w ! index, d));
             w = w\<lparr>fw_files := (fw_files w)[index := f]\<rparr>
         in Some (case r of Inl e \<Rightarrow> Inl e | Inr offset \<Rightarrow> Inr (Some (fl_id f, offset)), w, d))"

definition files_push_block_back where "files_push_block_back = files_push_block Back"

definition files_push_block_front where "files_push_block_front = files_push_block Front"

text \<open>\<open>pop_block\<close>, for the file the block is in.\<close>

definition file_pop :: "VecSide \<Rightarrow> nat \<Rightarrow> nat \<Rightarrow> StorageFile \<Rightarrow> unit result \<times> StorageFile" where
  "file_pop side offset sz f =
     (if side = Back \<and> fl_size f = 0 then (Inl (Panic ''remainder with a divisor of zero''), f)
      else
        let f = (case side of
              Back \<Rightarrow> f\<lparr>fl_tail := add64 offset sz mod fl_size f\<rparr>
            | Front \<Rightarrow> f\<lparr>fl_head := offset\<rparr>)
        in if \<not> fl_head f < fl_size f then (Inl (Err ''file storage head overflow''), f)
           else if \<not> fl_tail f \<le> fl_size f then (Inl (Err ''file storage tail overflow''), f)
           else (Inr (), f))"

definition files_pop_block :: "VecSide \<Rightarrow> StoredBlock \<Rightarrow> StorageFilesWrite \<Rightarrow> unit result \<times> StorageFilesWrite" where
  "files_pop_block side block w =
     (case hm_get (fw_id2file w) (sb_storage_id block) of
        None \<Rightarrow> (Inl (Err ''unknown storage id''), w)
      | Some index \<Rightarrow>
          if length (fw_files w) \<le> index then (Inl (Panic ''index out of bounds''), w)
          else
            let (r, f) = file_pop side (sb_offset block) (sb_size block) (fw_files w ! index)
            in (r, w\<lparr>fw_files := (fw_files w)[index := f]\<rparr>))"

definition files_pop_block_back where "files_pop_block_back = files_pop_block Back"

definition files_pop_block_front where "files_pop_block_front = files_pop_block Front"

section \<open>Opening\<close>

record ConfigStorageFile =
  cf_id :: StorageId
  cf_path :: string
  cf_size :: nat
  cf_new_blocks :: bool

record StorageFilesSyncInit =
  fi_files_paths :: "string list"
  fi_id2file :: "(StorageId, nat) hmap"

text \<open>
  \<open>open_file\<close>: \<open>opened\<close> and \<open>alloc\<close> are the outcomes of \<open>util::open\<close> and \<open>fallocate\<close> for that path.
\<close>

definition open_file ::
  "(string \<Rightarrow> unit result) \<Rightarrow> (string \<Rightarrow> unit result) \<Rightarrow> ConfigStorageFile \<Rightarrow> disk \<Rightarrow> StorageFile result \<times> disk" where
  "open_file opened alloc config d =
     (case opened (cf_path config) of
        Inl e \<Rightarrow> (Inl e, d)
      | Inr _ \<Rightarrow>
          let file_size = length (d (cf_path config));
              file = \<lparr>fl_id = cf_id config, fl_file = cf_path config, fl_tail = 0, fl_head = 0,
                      fl_size = cf_size config, fl_new_blocks = cf_new_blocks config\<rparr>
          in if file_size = 0
             then (case alloc (cf_path config) of
                 Inl e \<Rightarrow> (Inl e, d)
               | Inr _ \<Rightarrow> (Inr file, d(cf_path config := replicate (cf_size config) 0)))
             else if cf_size config \<noteq> file_size then (Inl (Err ''invalid file size''), d)
             else (Inr file, d))"

text \<open>\<open>try_join_all\<close> over the configs; the error is the one of the first that fails.\<close>

fun open_all ::
  "(string \<Rightarrow> unit result) \<Rightarrow> (string \<Rightarrow> unit result) \<Rightarrow> ConfigStorageFile list \<Rightarrow> disk \<Rightarrow>
     StorageFile list result \<times> disk" where
  "open_all opened alloc [] d = (Inr [], d)"
| "open_all opened alloc (c # cs) d =
     (case open_file opened alloc c d of
        (Inl e, d) \<Rightarrow> (Inl e, d)
      | (Inr f, d) \<Rightarrow>
          (case open_all opened alloc cs d of
             (Inl e, d) \<Rightarrow> (Inl e, d)
           | (Inr fs, d) \<Rightarrow> (Inr (f # fs), d)))"

fun set_bounds ::
  "(StorageId \<times> nat) list \<Rightarrow> (StorageId, StorageBlocksBoundaries) hmap \<Rightarrow> StorageFile list \<Rightarrow>
     (StorageFile list \<times> (StorageId, StorageBlocksBoundaries) hmap) result" where
  "set_bounds [] boundaries files = Inr (files, boundaries)"
| "set_bounds ((storage_id, index) # rest) boundaries files =
     (case hm_get boundaries storage_id of
        None \<Rightarrow> set_bounds rest boundaries files
      | Some b \<Rightarrow>
          let tail = (case boundaries_tail b of Some t \<Rightarrow> t | None \<Rightarrow> 0);
              head = (case boundaries_head b of Some h \<Rightarrow> h | None \<Rightarrow> 0);
              file = (files ! index)\<lparr>fl_tail := tail, fl_head := head\<rparr>
          in if \<not> tail < fl_size file then Inl (Err ''invalid tail for file'')
             else if \<not> head \<le> fl_size file then Inl (Err ''invalid head'')
             else set_bounds rest (hm_remove storage_id boundaries) (files[index := file]))"

definition StorageFilesWrite_open ::
  "(string \<Rightarrow> unit result) \<Rightarrow> (string \<Rightarrow> unit result) \<Rightarrow> ConfigStorageFile list \<Rightarrow> 'e StoredBlocksWrite \<Rightarrow>
     disk \<Rightarrow> (StorageFilesWrite \<times> StorageFilesSyncInit) result \<times> disk" where
  "StorageFilesWrite_open opened alloc configs blocks d =
     (let files_paths = map cf_path configs
      in case open_all opened alloc configs d of
           (Inl e, d) \<Rightarrow> (Inl e, d)
         | (Inr files, d) \<Rightarrow>
             let files = sort_key fl_id files;
                 id2file = foldl (\<lambda>m (index, file). hm_insert (fl_id file) index m) [] (enumerate 0 files)
             in (case set_bounds id2file (get_stored_boundaries blocks) files of
                   Inl e \<Rightarrow> (Inl e, d)
                 | Inr (files, boundaries) \<Rightarrow>
                     if boundaries \<noteq> [] then (Inl (Err ''file storage is missed''), d)
                     else (Inr (\<lparr>fw_files = files, fw_id2file = id2file, fw_next_file = 0\<rparr>,
                                \<lparr>fi_files_paths = files_paths, fi_id2file = id2file\<rparr>), d)))"

section \<open>StorageFilesRead\<close>

record StorageFilesRead =
  fr_files :: "string list"
  fr_id2file :: "(StorageId, nat) hmap"

definition StorageFilesRead_open :: "(string \<Rightarrow> unit result) \<Rightarrow> StorageFilesSyncInit \<Rightarrow> StorageFilesRead result" where
  "StorageFilesRead_open opened config =
     (case filter (\<lambda>p. \<not> is_ok (opened p)) (fi_files_paths config) of
        [] \<Rightarrow> Inr \<lparr>fr_files = fi_files_paths config, fr_id2file = fi_id2file config\<rparr>
      | p # _ \<Rightarrow> (case opened p of Inl e \<Rightarrow> Inl e | Inr _ \<Rightarrow> Inl (Err ''open'')))"

definition files_read :: "StorageFilesRead \<Rightarrow> StorageId \<Rightarrow> nat \<Rightarrow> nat \<Rightarrow> disk \<Rightarrow> bytes result" where
  "files_read r storage_id offset sz d =
     (case hm_get (fr_id2file r) storage_id of
        None \<Rightarrow> Inl (Err ''failed to get file for id'')
      | Some index \<Rightarrow>
          if index < length (fr_files r) then read_exact_at (fr_files r ! index) offset sz d
          else Inl (Err ''failed to get file for id''))"

end
