(* ===== verification/Alp_Files_Inv.thy ===== *)
theory Alp_Files_Inv
  imports Alp_Files
begin

text \<open>
  The layout of the live blocks in a block file: between tail and head, or from tail to the end
  and from the start to head. Every operation keeps it as long as a push does not fill the last
  free byte (head would meet tail, which the code reads as an empty file); what is stored then
  reads back until it is popped.
\<close>

section \<open>Bytes of a file\<close>

lemma length_write_at: "length (write_at off buf f) = max (length f) (off + length buf)"
  by (auto simp: write_at_def)

lemma write_at_same: "take (length buf) (drop off (write_at off buf f)) = buf"
  by (simp add: write_at_def)

lemma write_at_nth_other:
  assumes "i < length f" "i < off \<or> off + length buf \<le> i"
  shows "write_at off buf f ! i = f ! i"
  using assms by (auto simp: write_at_def nth_append)

lemma read_write_same:
  "read_exact_at path off (length buf) (disk_write path off buf d) = Inr buf"
  by (simp add: read_exact_at_def disk_write_def length_write_at write_at_same)

lemma read_write_disjoint:
  assumes r: "read_exact_at path off sz d = Inr b"
    and dis: "path' \<noteq> path \<or> off + sz \<le> off' \<or> off' + length buf \<le> off"
  shows "read_exact_at path off sz (disk_write path' off' buf d) = Inr b"
proof (cases "path' = path")
  case True
  let ?f = "d path"
  have len: "off + sz \<le> length ?f" and b: "b = take sz (drop off ?f)"
    using r by (auto simp: read_exact_at_def split: if_splits)
  have "take sz (drop off (write_at off' buf ?f)) = take sz (drop off ?f)"
  proof (rule nth_equalityI)
    show "length (take sz (drop off (write_at off' buf ?f))) = length (take sz (drop off ?f))"
      using len by (simp add: length_write_at)
    fix i assume "i < length (take sz (drop off (write_at off' buf ?f)))"
    then have "i < sz" by simp
    then show "take sz (drop off (write_at off' buf ?f)) ! i = take sz (drop off ?f) ! i"
      using len dis True write_at_nth_other [of "off + i" ?f off' buf] by (auto simp: length_write_at)
  qed
  then show ?thesis using True len b by (simp add: read_exact_at_def disk_write_def length_write_at)
qed (use r in \<open>auto simp: read_exact_at_def disk_write_def split: if_splits\<close>)

section \<open>Extents\<close>

type_synonym extents = "(nat \<times> bytes) list"

fun packed :: "nat \<Rightarrow> nat \<Rightarrow> extents \<Rightarrow> bool" where
  "packed lo hi [] \<longleftrightarrow> lo \<le> hi"
| "packed lo hi ((off, buf) # xs) \<longleftrightarrow> lo \<le> off \<and> buf \<noteq> [] \<and> packed (off + length buf) hi xs"

lemma packed_le: "packed lo hi xs \<Longrightarrow> lo \<le> hi"
  by (induction lo hi xs rule: packed.induct) auto

lemma packed_widen: "packed lo hi xs \<Longrightarrow> lo' \<le> lo \<Longrightarrow> hi \<le> hi' \<Longrightarrow> packed lo' hi' xs"
  by (induction lo hi xs arbitrary: lo' rule: packed.induct) auto

lemma packed_snoc [simp]:
  "packed lo hi (xs @ [(off, buf)]) \<longleftrightarrow> packed lo off xs \<and> buf \<noteq> [] \<and> off + length buf \<le> hi"
  by (induction lo hi xs rule: packed.induct) auto

lemma packed_bounds:
  "packed lo hi xs \<Longrightarrow> (off, buf) \<in> set xs \<Longrightarrow> lo \<le> off \<and> off + length buf \<le> hi \<and> buf \<noteq> []"
proof (induction lo hi xs rule: packed.induct)
  case (2 lo hi off' buf' xs)
  then show ?case using packed_le [of "off' + length buf'" hi xs] by auto
qed simp

lemma packed_empty: "packed lo lo xs \<Longrightarrow> xs = []"
proof (cases xs)
  case (Cons x ys)
  assume "packed lo lo xs"
  then have "fst x + length (snd x) \<le> lo \<and> lo \<le> fst x \<and> 0 < length (snd x)"
    using packed_bounds [of lo lo xs "fst x" "snd x"] Cons by simp
  then show ?thesis by linarith
qed

text \<open>The layout of a file with the live extents \<open>xs\<close>, in the order of the blocks.\<close>

definition file_layout :: "StorageFile \<Rightarrow> extents \<Rightarrow> bool" where
  "file_layout f xs \<longleftrightarrow> fl_size f \<le> isize_MAX \<and>
     (fl_tail f \<le> fl_head f \<and> fl_head f \<le> fl_size f \<and> packed (fl_tail f) (fl_head f) xs \<or>
      fl_head f < fl_tail f \<and> fl_tail f \<le> fl_size f \<and>
        (\<exists>ys zs. xs = ys @ zs \<and> packed (fl_tail f) (fl_size f) ys \<and> packed 0 (fl_head f) zs))"

lemma file_layout_cases:
  assumes "file_layout f xs"
  obtains (linear) "fl_tail f \<le> fl_head f" "fl_head f \<le> fl_size f" "packed (fl_tail f) (fl_head f) xs"
  | (wrapped) ys zs where "xs = ys @ zs" "fl_head f < fl_tail f" "fl_tail f \<le> fl_size f"
      "packed (fl_tail f) (fl_size f) ys" "packed 0 (fl_head f) zs"
  using assms by (auto simp: file_layout_def)

lemma file_layout_linear:
  "fl_size f \<le> isize_MAX \<Longrightarrow> fl_tail f \<le> fl_head f \<Longrightarrow> fl_head f \<le> fl_size f \<Longrightarrow>
   packed (fl_tail f) (fl_head f) xs \<Longrightarrow> file_layout f xs"
  by (simp add: file_layout_def)

lemma file_layout_wrapped:
  "fl_size f \<le> isize_MAX \<Longrightarrow> fl_head f < fl_tail f \<Longrightarrow> fl_tail f \<le> fl_size f \<Longrightarrow>
   packed (fl_tail f) (fl_size f) ys \<Longrightarrow> packed 0 (fl_head f) zs \<Longrightarrow> xs = ys @ zs \<Longrightarrow> file_layout f xs"
  by (auto simp: file_layout_def)

lemma file_layout_bounds:
  assumes "file_layout f xs" "(off, buf) \<in> set xs"
  shows "off + length buf \<le> fl_size f \<and> buf \<noteq> []"
  using assms(1)
proof (cases rule: file_layout_cases)
  case linear
  then show ?thesis using packed_bounds [OF linear(3) assms(2)] by simp
next
  case (wrapped ys zs)
  then show ?thesis using assms(2) packed_bounds [OF wrapped(4), of off buf] packed_bounds [OF wrapped(5), of off buf] by auto
qed

section \<open>The operations keep the layout\<close>

lemma free_space_eq:
  "fl_head f \<le> fl_size f \<Longrightarrow> fl_size f \<le> isize_MAX \<Longrightarrow>
   free_space f = (if fl_head f < fl_tail f then fl_tail f - fl_head f else max (fl_tail f) (fl_size f - fl_head f))"
  by (simp add: free_space_def)

lemma file_layout_head: "file_layout f xs \<Longrightarrow> fl_head f \<le> fl_size f \<and> fl_tail f \<le> fl_size f \<and> fl_size f \<le> isize_MAX"
  by (auto simp: file_layout_def)

text \<open>The extent a push writes is disjoint from all live ones.\<close>

definition apart :: "nat \<Rightarrow> bytes \<Rightarrow> extents \<Rightarrow> bool" where
  "apart off buf xs \<longleftrightarrow> (\<forall>(o', b') \<in> set xs. o' + length b' \<le> off \<or> off + length buf \<le> o')"

lemma apart_above: "packed lo hi xs \<Longrightarrow> hi \<le> off \<Longrightarrow> apart off buf xs"
  using packed_bounds by (fastforce simp: apart_def)

lemma apart_below: "packed lo hi xs \<Longrightarrow> off + length buf \<le> lo \<Longrightarrow> apart off buf xs"
  using packed_bounds by (fastforce simp: apart_def)

lemma apart_append [simp]: "apart off buf (xs @ ys) \<longleftrightarrow> apart off buf xs \<and> apart off buf ys"
  by (auto simp: apart_def)

lemma write_front_layout:
  assumes lay: "file_layout f xs" and ne: "buf \<noteq> []"
    and wr: "write_front IoOk buf (f, d) = (Inr off, f', d')" and gap: "fl_head f' \<noteq> fl_tail f'"
  shows "file_layout f' (xs @ [(off, buf)]) \<and> apart off buf xs \<and> d' = disk_write (fl_file f) off buf d \<and>
    f' = f\<lparr>fl_head := off + length buf\<rparr>"
proof -
  let ?len = "length buf"
  define h where "h = (if fl_tail f < fl_head f \<and> fl_size f - fl_head f < ?len then 0 else fl_head f)"
  note b = file_layout_head [OF lay]
  have s: "sub64 (fl_size f) (fl_head f) = fl_size f - fl_head f" using b by simp
  have free: "?len \<le> free_space f" using wr by (auto simp: write_front_def Let_def split: if_splits)
  have len: "?len \<le> fl_size f" using free b by (simp add: free_space_eq split: if_splits)
  have add: "add64 h ?len = h + ?len" using b len by (simp add: h_def)
  have hf: "(if fl_tail f < fl_head f \<and> fl_size f - fl_head f < ?len then f\<lparr>fl_head := 0\<rparr> else f) = f\<lparr>fl_head := h\<rparr>"
    by (simp add: h_def)
  have eq: "off = h" "f' = f\<lparr>fl_head := h + ?len\<rparr>" "d' = disk_write (fl_file f) off buf d" "h + ?len \<le> fl_size f"
    using wr free by (auto simp: write_front_def Let_def s hf write_and_sync_def add split: if_splits)
  show ?thesis using lay
  proof (cases rule: file_layout_cases)
    case linear
    show ?thesis
    proof (cases "h = fl_head f")
      case True
      have "file_layout f' (xs @ [(off, buf)])"
        by (rule file_layout_linear) (use linear b eq True ne in auto)
      then show ?thesis using eq True apart_above [OF linear(3)] by simp
    next
      case False
      then have h0: "h = 0" "fl_size f - fl_head f < ?len" by (auto simp: h_def split: if_splits)
      then have "?len \<le> fl_tail f" using free b linear(1) by (simp add: free_space_eq split: if_splits)
      then have fit: "?len < fl_tail f" using gap eq(2) h0(1) by simp
      have "file_layout f' (xs @ [(off, buf)])"
        by (rule file_layout_wrapped [where ys = xs and zs = "[(off, buf)]"])
          (use linear b eq h0 fit ne packed_widen [OF linear(3)] in auto)
      then show ?thesis using eq h0 fit apart_below [OF linear(3)] by simp
    qed
  next
    case (wrapped ys zs)
    have h: "h = fl_head f" using wrapped by (simp add: h_def)
    have "?len \<le> fl_tail f - fl_head f" using free b wrapped by (simp add: free_space_eq)
    then have fit: "h + ?len < fl_tail f" using gap eq(2) h wrapped(2) by simp
    have "file_layout f' (xs @ [(off, buf)])"
      by (rule file_layout_wrapped [where ys = ys and zs = "zs @ [(off, buf)]"])
        (use wrapped b eq h fit ne in auto)
    then show ?thesis using eq h fit wrapped apart_below [OF wrapped(4)] apart_above [OF wrapped(5)] by simp
  qed
qed

lemma write_back_layout:
  assumes lay: "file_layout f xs" and ne: "buf \<noteq> []"
    and wr: "write_back IoOk buf (f, d) = (Inr off, f', d')" and gap: "fl_head f' \<noteq> fl_tail f'"
  shows "file_layout f' ((off, buf) # xs) \<and> apart off buf xs \<and> d' = disk_write (fl_file f) off buf d \<and>
    f' = f\<lparr>fl_tail := off\<rparr>"
proof -
  let ?len = "length buf"
  note b = file_layout_head [OF lay]
  have free: "?len \<le> free_space f" using wr by (auto simp: write_back_def Let_def split: if_splits)
  have len: "?len \<le> fl_size f" using free b by (simp add: free_space_eq split: if_splits)
  define t where "t = (if ?len \<le> fl_tail f then fl_tail f - ?len else fl_size f - ?len)"
  have "(case checked_sub (fl_tail f) ?len of Some t \<Rightarrow> t | None \<Rightarrow> sub64 (fl_size f) ?len) = t"
    using len b by (simp add: t_def checked_sub_def)
  then have eq: "off = t" "f' = f\<lparr>fl_tail := t\<rparr>" "d' = disk_write (fl_file f) off buf d"
    using wr free by (auto simp: write_back_def Let_def write_and_sync_def)
  show ?thesis using lay
  proof (cases rule: file_layout_cases)
    case linear
    show ?thesis
    proof (cases "?len \<le> fl_tail f")
      case True
      then have tl: "t + ?len = fl_tail f" by (simp add: t_def)
      have "file_layout f' ((off, buf) # xs)"
        by (rule file_layout_linear) (use linear b eq tl ne in auto)
      then show ?thesis using eq tl apart_below [OF linear(3)] by simp
    next
      case False
      then have tl: "t + ?len = fl_size f" using len by (simp add: t_def)
      have "?len \<le> fl_size f - fl_head f" using False free b linear(1) by (simp add: free_space_eq split: if_splits)
      then have "fl_head f \<le> t" using tl b by linarith
      then have fit: "fl_head f < t" using gap eq(2) by simp
      have "file_layout f' ((off, buf) # xs)"
        by (rule file_layout_wrapped [where ys = "[(off, buf)]" and zs = xs])
          (use linear b eq tl fit ne packed_widen [OF linear(3)] in auto)
      then show ?thesis using eq fit apart_above [OF linear(3)] by simp
    qed
  next
    case (wrapped ys zs)
    have room: "?len \<le> fl_tail f - fl_head f" using free b wrapped by (simp add: free_space_eq)
    then have tl: "t + ?len = fl_tail f" using wrapped(2) by (simp add: t_def)
    then have "fl_head f \<le> t" using room wrapped(2) by linarith
    then have fit: "fl_head f < t" using gap eq(2) by simp
    have "file_layout f' ((off, buf) # xs)"
      by (rule file_layout_wrapped [where ys = "(off, buf) # ys" and zs = zs])
        (use wrapped b eq tl fit ne in auto)
    then show ?thesis using eq tl fit wrapped apart_below [OF wrapped(4)] apart_above [OF wrapped(5)] by simp
  qed
qed

lemma file_pop_back_layout:
  assumes lay: "file_layout f ((off, buf) # xs)" and pop: "file_pop Back off (length buf) f = (Inr (), f')"
  shows "file_layout f' xs \<and> (\<exists>t. f' = f\<lparr>fl_tail := t\<rparr>)"
proof -
  let ?e = "off + length buf"
  note b = file_layout_head [OF lay] and e = file_layout_bounds [OF lay, of off buf, simplified]
  have f': "f' = f\<lparr>fl_tail := ?e mod fl_size f\<rparr>" and hs: "fl_head f < fl_size f"
    using pop b e by (auto simp: file_pop_def Let_def split: if_splits)
  have "file_layout f' xs" using lay
  proof (cases rule: file_layout_cases)
    case linear
    then have pk: "packed ?e (fl_head f) xs" by simp
    then have "?e < fl_size f" using packed_le [OF pk] hs by simp
    then show ?thesis by (intro file_layout_linear) (use f' b pk packed_le [OF pk] in auto)
  next
    case (wrapped ys zs)
    show ?thesis
    proof (cases ys)
      case Nil
      then have pk: "packed ?e (fl_head f) xs" using wrapped by (cases zs) auto
      then have "?e < fl_size f" using packed_le [OF pk] hs by simp
      then show ?thesis by (intro file_layout_linear) (use f' b pk packed_le [OF pk] in auto)
    next
      case (Cons y ys')
      then have y: "y = (off, buf)" "xs = ys' @ zs" using wrapped(1) by auto
      have pk: "packed ?e (fl_size f) ys'" "fl_tail f \<le> off" using wrapped(4) Cons y by auto
      show ?thesis
      proof (cases "?e = fl_size f")
        case True
        then have "ys' = []" using pk(1) packed_empty by metis
        then show ?thesis by (intro file_layout_linear) (use f' b True y wrapped(5) in auto)
      next
        case False
        then have "?e < fl_size f" using e by simp
        then show ?thesis
          by (intro file_layout_wrapped [where ys = ys' and zs = zs]) (use f' b y pk wrapped in auto)
      qed
    qed
  qed
  then show ?thesis using f' by blast
qed

lemma file_pop_front_layout:
  assumes lay: "file_layout f (xs @ [(off, buf)])" and pop: "file_pop Front off (length buf) f = (Inr (), f')"
  shows "file_layout f' xs \<and> (\<exists>h. f' = f\<lparr>fl_head := h\<rparr>)"
proof -
  note b = file_layout_head [OF lay] and e = file_layout_bounds [OF lay, of off buf, simplified]
  have f': "f' = f\<lparr>fl_head := off\<rparr>"
    using pop by (auto simp: file_pop_def Let_def split: if_splits)
  have "file_layout f' xs" using lay
  proof (cases rule: file_layout_cases)
    case linear
    then have pk: "packed (fl_tail f) off xs" by simp
    then show ?thesis by (intro file_layout_linear) (use f' b e pk packed_le [OF pk] in auto)
  next
    case (wrapped ys zs)
    show ?thesis
    proof (cases zs rule: rev_cases)
      case Nil
      then have pk: "packed (fl_tail f) off xs" using wrapped by auto
      then show ?thesis by (intro file_layout_linear) (use f' b e pk packed_le [OF pk] in auto)
    next
      case (snoc zs' z)
      then have z: "z = (off, buf)" "xs = ys @ zs'" using wrapped(1) by auto
      then have "packed 0 off zs'" "off + length buf \<le> fl_head f" using wrapped(5) snoc by auto
      then show ?thesis
        by (intro file_layout_wrapped [where ys = ys and zs = zs']) (use f' b z wrapped in auto)
    qed
  qed
  then show ?thesis using f' by blast
qed

section \<open>All files together\<close>

text \<open>
  The live blocks of the store, lowest first: the storage id, the offset and the bytes. Each file
  has its part of them.
\<close>

type_synonym live_blocks = "(StorageId \<times> nat \<times> bytes) list"

definition in_file :: "StorageId \<Rightarrow> live_blocks \<Rightarrow> extents" where
  "in_file sid xs = map snd (filter (\<lambda>x. fst x = sid) xs)"

lemma in_file_simps [simp]:
  "in_file sid [] = []"
  "in_file sid ((sid', e) # xs) = (if sid' = sid then e # in_file sid xs else in_file sid xs)"
  "in_file sid (xs @ ys) = in_file sid xs @ in_file sid ys"
  by (simp_all add: in_file_def)

lemma in_file_mem: "(sid, off, buf) \<in> set xs \<longleftrightarrow> (off, buf) \<in> set (in_file sid xs)"
  by (force simp: in_file_def)

definition files_ok :: "StorageFilesWrite \<Rightarrow> bool" where
  "files_ok w \<longleftrightarrow> fw_next_file w < length (fw_files w) \<and> distinct (map fl_file (fw_files w)) \<and>
     (\<forall>sid i. hm_get (fw_id2file w) sid = Some i \<longleftrightarrow> i < length (fw_files w) \<and> fl_id (fw_files w ! i) = sid)"

definition files_inv :: "StorageFilesWrite \<Rightarrow> disk \<Rightarrow> live_blocks \<Rightarrow> bool" where
  "files_inv w d xs \<longleftrightarrow> files_ok w \<and>
     (\<forall>i < length (fw_files w). file_layout (fw_files w ! i) (in_file (fl_id (fw_files w ! i)) xs)) \<and>
     (\<forall>(sid, off, buf) \<in> set xs. \<exists>i. hm_get (fw_id2file w) sid = Some i \<and>
        read_exact_at (fl_file (fw_files w ! i)) off (length buf) d = Inr buf)"

lemma files_ok_update:
  assumes "files_ok w" "i < length (fw_files w)" "fl_id f = fl_id (fw_files w ! i)" "fl_file f = fl_file (fw_files w ! i)"
  shows "files_ok (w\<lparr>fw_files := (fw_files w)[i := f]\<rparr>)"
proof -
  have same: "map g ((fw_files w)[i := f]) = map g (fw_files w)" if "g f = g (fw_files w ! i)" for g :: "StorageFile \<Rightarrow> 'b"
    using that assms(2) by (simp add: map_update list_update_same_conv)
  have "fl_id ((fw_files w)[i := f] ! j) = fl_id (fw_files w ! j)" if "j < length (fw_files w)" for j
    using that assms(3) by (cases "j = i") simp_all
  then show ?thesis using assms(1) same [of fl_file] assms(4) by (auto simp: files_ok_def)
qed

lemma files_ok_next: "files_ok w \<Longrightarrow> n < length (fw_files w) \<Longrightarrow> files_ok (w\<lparr>fw_next_file := n\<rparr>)"
  by (simp add: files_ok_def)

lemma files_ok_id:
  "files_ok w \<Longrightarrow> i < length (fw_files w) \<Longrightarrow> hm_get (fw_id2file w) (fl_id (fw_files w ! i)) = Some i"
  by (simp add: files_ok_def)

lemma files_ok_inj:
  "files_ok w \<Longrightarrow> i < length (fw_files w) \<Longrightarrow> j < length (fw_files w) \<Longrightarrow>
   fl_id (fw_files w ! i) = fl_id (fw_files w ! j) \<Longrightarrow> i = j"
  using files_ok_id by (metis option.inject)

lemma files_ok_path:
  "files_ok w \<Longrightarrow> i < length (fw_files w) \<Longrightarrow> j < length (fw_files w) \<Longrightarrow>
   fl_file (fw_files w ! i) = fl_file (fw_files w ! j) \<Longrightarrow> i = j"
  by (auto simp: files_ok_def distinct_conv_nth)

text \<open>Replacing file \<open>i\<close> by one with a new layout, and the disk by one that keeps what stays live.\<close>

lemma files_inv_update:
  assumes inv: "files_inv w d xs" and i: "i < length (fw_files w)"
    and f: "fl_id f = fl_id (fw_files w ! i)" "fl_file f = fl_file (fw_files w ! i)"
    and lay: "file_layout f (in_file (fl_id f) ys)"
    and other: "\<And>sid. sid \<noteq> fl_id f \<Longrightarrow> in_file sid ys = in_file sid xs"
    and stored: "\<And>sid off buf j. (sid, off, buf) \<in> set ys \<Longrightarrow> hm_get (fw_id2file w) sid = Some j \<Longrightarrow>
       read_exact_at (fl_file (fw_files w ! j)) off (length buf) d' = Inr buf"
    and known: "\<And>sid off buf. (sid, off, buf) \<in> set ys \<Longrightarrow> \<exists>j. hm_get (fw_id2file w) sid = Some j"
  shows "files_inv (w\<lparr>fw_files := (fw_files w)[i := f]\<rparr>) d' ys"
proof -
  have ok: "files_ok w" using inv by (simp add: files_inv_def)
  have path: "fl_file ((fw_files w)[i := f] ! j) = fl_file (fw_files w ! j)" if "j < length (fw_files w)" for j
    using that f(2) by (cases "j = i") simp_all
  have "file_layout ((fw_files w)[i := f] ! j) (in_file (fl_id ((fw_files w)[i := f] ! j)) ys)"
    if j: "j < length (fw_files w)" for j
  proof (cases "j = i")
    case False
    then have "fl_id (fw_files w ! j) \<noteq> fl_id f" using files_ok_inj [OF ok j i] f(1) by auto
    then show ?thesis using inv j False other by (simp add: files_inv_def)
  qed (use lay j in simp)
  moreover have "\<exists>j. hm_get (fw_id2file w) sid = Some j \<and>
      read_exact_at (fl_file ((fw_files w)[i := f] ! j)) off (length buf) d' = Inr buf"
    if m: "(sid, off, buf) \<in> set ys" for sid off buf
  proof -
    obtain j where j: "hm_get (fw_id2file w) sid = Some j" using known [OF m] by blast
    then have "j < length (fw_files w)" using ok by (simp add: files_ok_def)
    then show ?thesis using stored [OF m j] path j by auto
  qed
  ultimately show ?thesis using files_ok_update [OF ok i f] by (auto simp: files_inv_def)
qed

section \<open>The choice of the file\<close>

definition accepts :: "StorageFilesWrite \<Rightarrow> nat \<Rightarrow> nat \<Rightarrow> bool" where
  "accepts w sz i \<longleftrightarrow> fl_new_blocks (fw_files w ! i) \<and> sz \<le> free_space (fw_files w ! i)"

text \<open>The first file that accepts the block, in cyclic order from \<open>next_file\<close>.\<close>

definition first_accepting :: "StorageFilesWrite \<Rightarrow> nat \<Rightarrow> nat \<Rightarrow> nat option" where
  "first_accepting w sz c = find (accepts w sz) (map (\<lambda>k. (c + k) mod length (fw_files w)) [0..<length (fw_files w)])"

lemma file_index_loop_find:
  assumes c: "c < length (fw_files w)" and k: "k < length (fw_files w)" and fuel: "length (fw_files w) - k < fuel"
    and nxt: "fw_next_file w = (c + k) mod length (fw_files w)"
  shows "\<exists>n. file_index_loop fuel sz c w =
     Some (Inr (find (accepts w sz) (map (\<lambda>j. (c + j) mod length (fw_files w)) [k..<length (fw_files w)])),
           w\<lparr>fw_next_file := n\<rparr>) \<and> n < length (fw_files w)"
  using c k fuel nxt
proof (induction "length (fw_files w) - k" arbitrary: k fuel w)
  case 0
  then show ?case by simp
next
  case (Suc m)
  let ?n = "length (fw_files w)" and ?i = "(c + k) mod length (fw_files w)"
  obtain fl where fl: "fuel = Suc fl" using Suc.prems(3) by (cases fuel) auto
  have n0: "?n \<noteq> 0" "?i < ?n" using Suc.prems(1) mod_less_of_less by (linarith, blast)
  have ups: "[k..<?n] = k # [Suc k..<?n]" using Suc.prems(2) by (rule upt_conv_Cons)
  let ?w = "w\<lparr>fw_next_file := (c + Suc k) mod ?n\<rparr>"
  have nx: "(?i + 1) mod ?n = (c + Suc k) mod ?n" by (simp add: mod_Suc_eq)
  have acc: "accepts (w\<lparr>fw_next_file := n\<rparr>) = accepts w" for n by (simp add: accepts_def fun_eq_iff)
  have step: "file_index_loop fuel sz c w =
      (if accepts w sz ?i then Some (Inr (Some ?i), ?w)
       else if (c + Suc k) mod ?n = c then Some (Inr None, ?w) else file_index_loop fl sz c ?w)"
  proof -
    define i where "i = ?i"
    have "i < ?n" "fw_next_file w = i" "Suc i mod ?n = (c + Suc k) mod ?n"
      using n0(2) Suc.prems(4) nx by (simp_all only: i_def Suc_eq_plus1)
    then show ?thesis unfolding i_def [symmetric] by (auto simp: fl accepts_def Let_def)
  qed
  have ln: "(c + Suc k) mod ?n < ?n" using n0 by simp
  consider "accepts w sz ?i" | "\<not> accepts w sz ?i" "Suc k < ?n" | "\<not> accepts w sz ?i" "Suc k = ?n"
    using Suc.prems(2) by linarith
  then show ?case
  proof cases
    case 1
    then show ?thesis using step ln by (auto simp: ups)
  next
    case 2
    have "(c + Suc k) mod ?n \<noteq> c"
    proof
      assume "(c + Suc k) mod ?n = c"
      then have "(c + Suc k) mod ?n = (c + 0) mod ?n" using Suc.prems(1) by simp
      from ring_pos_inj [OF this] show False using 2 n0 by simp
    qed
    moreover have "\<exists>n. file_index_loop fl sz c ?w =
      Some (Inr (find (accepts ?w sz) (map (\<lambda>j. (c + j) mod length (fw_files ?w)) [Suc k..<length (fw_files ?w)])),
           ?w\<lparr>fw_next_file := n\<rparr>) \<and> n < length (fw_files ?w)"
      by (rule Suc.hyps(1)) (use Suc.hyps(2) Suc.prems fl 2 in auto)
    ultimately show ?thesis using 2 step by (auto simp: acc ups)
  next
    case 3
    have "(c + ?n) mod ?n = c" using Suc.prems(1) by simp
    then show ?thesis using 3 step Suc.prems(1) by (auto simp: ups)
  qed
qed

lemma get_file_index_find:
  assumes "fw_next_file w < length (fw_files w)"
  shows "\<exists>n. get_file_index_for_new_block sz w =
      Some (Inr (first_accepting w sz (fw_next_file w)), w\<lparr>fw_next_file := n\<rparr>) \<and> n < length (fw_files w)"
  unfolding get_file_index_for_new_block_def first_accepting_def
  by (rule file_index_loop_find [OF assms]) (use assms in \<open>auto intro: le_less_trans [OF le0]\<close>)

lemma first_accepting_None:
  assumes "c < length (fw_files w)"
  shows "first_accepting w sz c = None \<longleftrightarrow> (\<forall>i < length (fw_files w). \<not> accepts w sz i)"
proof -
  let ?n = "length (fw_files w)"
  have "(\<exists>k < ?n. (c + k) mod ?n = i) \<longleftrightarrow> i < ?n" for i
    using ring_pos_surj [OF _ assms] mod_less_of_less [OF assms] by metis
  then have "set (map (\<lambda>k. (c + k) mod ?n) [0..<?n]) = {i. i < ?n}" by (auto simp: image_iff Bex_def) metis+
  then show ?thesis unfolding first_accepting_def find_None_iff by blast
qed

lemma first_accepting_Some:
  assumes "c < length (fw_files w)" "first_accepting w sz c = Some i"
  shows "i < length (fw_files w) \<and> accepts w sz i"
  using assms(2) mod_less_of_less [OF assms(1)] by (auto simp: first_accepting_def find_Some_iff)

section \<open>What is stored reads back\<close>

text \<open>
  The runs of the file store: pushes on either side, pops of the lowest and of the highest block.
  A push that leaves head and tail of its file equal is excluded, see
  \<open>files_full_ring_overwrites\<close>.
\<close>

definition file_of :: "StorageFilesWrite \<Rightarrow> StorageId \<Rightarrow> StorageFile" where
  "file_of w sid = (case hm_get (fw_id2file w) sid of Some i \<Rightarrow> fw_files w ! i | None \<Rightarrow> fw_files w ! 0)"

inductive files_trace :: "StorageFilesWrite \<Rightarrow> disk \<Rightarrow> live_blocks \<Rightarrow> bool" where
  ft_start: "files_ok w \<Longrightarrow> \<forall>f \<in> set (fw_files w). fl_tail f = 0 \<and> fl_head f = 0 \<and> fl_size f \<le> isize_MAX \<Longrightarrow>
    files_trace w d []"
| ft_push_front: "files_trace w d xs \<Longrightarrow> buf \<noteq> [] \<Longrightarrow>
    files_push_block_front IoOk buf (w, d) = Some (Inr (Some (sid, off)), w', d') \<Longrightarrow>
    fl_head (file_of w' sid) \<noteq> fl_tail (file_of w' sid) \<Longrightarrow> files_trace w' d' (xs @ [(sid, off, buf)])"
| ft_push_back: "files_trace w d xs \<Longrightarrow> buf \<noteq> [] \<Longrightarrow>
    files_push_block_back IoOk buf (w, d) = Some (Inr (Some (sid, off)), w', d') \<Longrightarrow>
    fl_head (file_of w' sid) \<noteq> fl_tail (file_of w' sid) \<Longrightarrow> files_trace w' d' ((sid, off, buf) # xs)"
| ft_push_none: "files_trace w d xs \<Longrightarrow> files_push_block side io buf (w, d) = Some (Inr None, w', d') \<Longrightarrow>
    files_trace w' d' xs"
| ft_pop_back: "files_trace w d ((sid, off, buf) # xs) \<Longrightarrow> sb_storage_id block = sid \<Longrightarrow> sb_offset block = off \<Longrightarrow>
    sb_size block = length buf \<Longrightarrow> files_pop_block_back block w = (Inr (), w') \<Longrightarrow> files_trace w' d xs"
| ft_pop_front: "files_trace w d (xs @ [(sid, off, buf)]) \<Longrightarrow> sb_storage_id block = sid \<Longrightarrow> sb_offset block = off \<Longrightarrow>
    sb_size block = length buf \<Longrightarrow> files_pop_block_front block w = (Inr (), w') \<Longrightarrow> files_trace w' d xs"

lemma files_inv_stored:
  assumes "files_inv w d xs" "(sid, off, buf) \<in> set xs" "hm_get (fw_id2file w) sid = Some j"
  shows "read_exact_at (fl_file (fw_files w ! j)) off (length buf) d = Inr buf"
  using assms by (force simp: files_inv_def)

lemma files_inv_known:
  assumes "files_inv w d xs" "(sid, off, buf) \<in> set xs"
  shows "\<exists>j. hm_get (fw_id2file w) sid = Some j"
  using assms by (force simp: files_inv_def)

lemma files_inv_pop:
  assumes inv: "files_inv w d xs" and i: "i < length (fw_files w)"
    and f: "fl_id f = fl_id (fw_files w ! i)" "fl_file f = fl_file (fw_files w ! i)"
    and lay: "file_layout f (in_file (fl_id f) ys)"
    and ys: "set ys \<subseteq> set xs" "\<And>sid. sid \<noteq> fl_id f \<Longrightarrow> in_file sid ys = in_file sid xs"
  shows "files_inv (w\<lparr>fw_files := (fw_files w)[i := f]\<rparr>) d ys"
proof (rule files_inv_update [OF inv i f lay ys(2)])
  fix sid off buf j
  assume m: "(sid, off, buf) \<in> set ys"
  then show "\<exists>j. hm_get (fw_id2file w) sid = Some j" using files_inv_known [OF inv] ys(1) by blast
  show "read_exact_at (fl_file (fw_files w ! j)) off (length buf) d = Inr buf" if "hm_get (fw_id2file w) sid = Some j"
    using files_inv_stored [OF inv _ that] m ys(1) by blast
qed simp

lemma files_inv_next: "files_inv w d xs \<Longrightarrow> n < length (fw_files w) \<Longrightarrow> files_inv (w\<lparr>fw_next_file := n\<rparr>) d xs"
  by (simp add: files_inv_def files_ok_next)

text \<open>A write of file \<open>i\<close> apart from its live extents keeps every live block.\<close>

lemma files_inv_push:
  assumes inv: "files_inv w d xs" and i: "i < length (fw_files w)"
    and f: "fl_id f = fl_id (fw_files w ! i)" "fl_file f = fl_file (fw_files w ! i)"
    and ap: "apart off buf (in_file (fl_id f) xs)"
    and lay: "file_layout f (in_file (fl_id f) ys)"
    and ys: "set ys = insert (fl_id f, off, buf) (set xs)" "\<And>sid. sid \<noteq> fl_id f \<Longrightarrow> in_file sid ys = in_file sid xs"
  shows "files_inv (w\<lparr>fw_files := (fw_files w)[i := f]\<rparr>) (disk_write (fl_file f) off buf d) ys"
proof (rule files_inv_update [OF inv i f lay ys(2)])
  have ok: "files_ok w" using inv by (simp add: files_inv_def)
  have idi: "hm_get (fw_id2file w) (fl_id f) = Some i" using files_ok_id [OF ok i] f(1) by simp
  fix sid o' b' j
  assume m: "(sid, o', b') \<in> set ys"
  show "\<exists>j. hm_get (fw_id2file w) sid = Some j"
    using m ys(1) idi files_inv_known [OF inv] by auto
  assume j: "hm_get (fw_id2file w) sid = Some j"
  then have jl: "j < length (fw_files w)" using ok by (simp add: files_ok_def)
  show "read_exact_at (fl_file (fw_files w ! j)) o' (length b') (disk_write (fl_file f) off buf d) = Inr b'"
  proof (cases "(sid, o', b') \<in> set xs")
    case True
    have "fl_file f \<noteq> fl_file (fw_files w ! j) \<or> o' + length b' \<le> off \<or> off + length buf \<le> o'"
    proof (cases "j = i")
      case True2: True
      then have "sid = fl_id f" using j i ok f(1) by (auto simp: files_ok_def)
      then show ?thesis using True ap in_file_mem [of sid o' b' xs] by (auto simp: apart_def)
    next
      case False
      then show ?thesis using files_ok_path [OF ok jl i] f(2) by auto
    qed
    then show ?thesis using read_write_disjoint [OF files_inv_stored [OF inv True j]] by blast
  next
    case False
    then have "sid = fl_id f" "o' = off" "b' = buf" using m ys(1) by auto
    then show ?thesis using j idi f(2) read_write_same by simp
  qed
qed simp

lemma files_ok_nx: "files_ok w \<Longrightarrow> fw_next_file w < length (fw_files w)"
  by (simp add: files_ok_def)

lemma files_push_cases:
  assumes nx: "fw_next_file w < length (fw_files w)" and push: "files_push_block side io buf (w, d) = Some (r, w', d')"
  obtains (none) n where "r = Inr None" "w' = w\<lparr>fw_next_file := n\<rparr>" "d' = d" "n < length (fw_files w)"
  | (stored) n i res f where "n < length (fw_files w)" "i < length (fw_files w)"
      "(case side of Back \<Rightarrow> write_back io buf (fw_files w ! i, d) | Front \<Rightarrow> write_front io buf (fw_files w ! i, d)) = (res, f, d')"
      "w' = w\<lparr>fw_next_file := n, fw_files := (fw_files w)[i := f]\<rparr>"
      "r = (case res of Inl e \<Rightarrow> Inl e | Inr off \<Rightarrow> Inr (Some (fl_id f, off)))"
proof -
  obtain n where n: "get_file_index_for_new_block (length buf) w =
      Some (Inr (first_accepting w (length buf) (fw_next_file w)), w\<lparr>fw_next_file := n\<rparr>)" "n < length (fw_files w)"
    using get_file_index_find [OF nx] by blast
  show thesis
  proof (cases "first_accepting w (length buf) (fw_next_file w)")
    case None
    then have "r = Inr None" "w' = w\<lparr>fw_next_file := n\<rparr>" "d' = d"
      using n(1) push by (auto simp: files_push_block_def)
    then show thesis using none n(2) by blast
  next
    case (Some i)
    have i: "i < length (fw_files w)" using first_accepting_Some [OF nx Some] by simp
    obtain res f d1 where wr: "(case side of Back \<Rightarrow> write_back io buf (fw_files w ! i, d)
        | Front \<Rightarrow> write_front io buf (fw_files w ! i, d)) = (res, f, d1)"
      using prod_cases3 by blast
    then have "d1 = d'" "w' = w\<lparr>fw_next_file := n, fw_files := (fw_files w)[i := f]\<rparr>"
      "r = (case res of Inl e \<Rightarrow> Inl e | Inr off \<Rightarrow> Inr (Some (fl_id f, off)))"
      using push n(1) Some by (cases side; force simp: files_push_block_def)+
    then show thesis using stored [OF n(2) i] wr by blast
  qed
qed

lemma file_of_updated:
  assumes "files_ok w" "i < length (fw_files w)" "sid = fl_id (fw_files w ! i)"
  shows "file_of (w\<lparr>fw_next_file := n, fw_files := (fw_files w)[i := f]\<rparr>) sid = f"
  using assms files_ok_id [OF assms(1,2)] by (simp add: file_of_def)

lemma files_inv_layout:
  "files_inv w d xs \<Longrightarrow> i < length (fw_files w) \<Longrightarrow> file_layout (fw_files w ! i) (in_file (fl_id (fw_files w ! i)) xs)"
  by (simp add: files_inv_def)

lemma fw_update_swap: "w\<lparr>fw_next_file := n, fw_files := fs\<rparr> = (w\<lparr>fw_next_file := n\<rparr>)\<lparr>fw_files := fs\<rparr>"
  by simp

lemma files_pop_cases:
  assumes "files_inv w d xs" "files_pop_block side block w = (Inr (), w')"
  obtains i f where "hm_get (fw_id2file w) (sb_storage_id block) = Some i" "i < length (fw_files w)"
    "fl_id (fw_files w ! i) = sb_storage_id block"
    "file_pop side (sb_offset block) (sb_size block) (fw_files w ! i) = (Inr (), f)"
    "w' = w\<lparr>fw_files := (fw_files w)[i := f]\<rparr>"
proof -
  have ok: "files_ok w" using assms(1) by (simp add: files_inv_def)
  obtain i where i: "hm_get (fw_id2file w) (sb_storage_id block) = Some i"
    using assms(2) by (auto simp: files_pop_block_def split: option.splits)
  then have "i < length (fw_files w)" "fl_id (fw_files w ! i) = sb_storage_id block" using ok by (simp_all add: files_ok_def)
  then show thesis using that [OF i] assms(2) i by (auto simp: files_pop_block_def Let_def split: prod.splits)
qed

text \<open>The steps: a push on either side, a push that finds no file, a pop on either side.\<close>

lemma files_inv_push_front:
  assumes inv: "files_inv w d xs" and ne: "buf \<noteq> []"
    and push: "files_push_block Front IoOk buf (w, d) = Some (Inr (Some (sid, off)), w', d')"
    and gap: "fl_head (file_of w' sid) \<noteq> fl_tail (file_of w' sid)"
  shows "files_inv w' d' (xs @ [(sid, off, buf)])"
proof -
  have ok: "files_ok w" using inv by (simp add: files_inv_def)
  show ?thesis
  proof (rule files_push_cases [OF files_ok_nx [OF ok] push])
    fix n i res f
    assume a: "n < length (fw_files w)" "i < length (fw_files w)"
      "(case Front of Back \<Rightarrow> write_back IoOk buf (fw_files w ! i, d) | Front \<Rightarrow> write_front IoOk buf (fw_files w ! i, d)) = (res, f, d')"
      "w' = w\<lparr>fw_next_file := n, fw_files := (fw_files w)[i := f]\<rparr>"
      "Inr (Some (sid, off)) = (case res of Inl e \<Rightarrow> Inl e | Inr off \<Rightarrow> Inr (Some (fl_id f, off)))"
    have r: "res = Inr off" "sid = fl_id f" using a(5) by (auto split: sum.splits)
    have "fl_id f = fl_id (fw_files w ! i)" using a(3) by (auto simp: write_front_def Let_def split: if_splits sum.splits prod.splits)
    then have "file_of w' sid = f" using file_of_updated [OF ok a(2)] r(2) a(4) by simp
    then have "fl_head f \<noteq> fl_tail f" using gap by simp
    note wr = write_front_layout [OF files_inv_layout [OF inv a(2)] ne _ this, of d off d']
    have "files_inv ((w\<lparr>fw_next_file := n\<rparr>)\<lparr>fw_files := (fw_files (w\<lparr>fw_next_file := n\<rparr>))[i := f]\<rparr>)
        (disk_write (fl_file f) off buf d) (xs @ [(sid, off, buf)])"
      by (rule files_inv_push [OF files_inv_next [OF inv a(1)]]) (use wr a(2,3) r in auto)
    then show ?thesis using wr a(3,4) r by simp
  qed simp
qed

lemma files_inv_push_back:
  assumes inv: "files_inv w d xs" and ne: "buf \<noteq> []"
    and push: "files_push_block Back IoOk buf (w, d) = Some (Inr (Some (sid, off)), w', d')"
    and gap: "fl_head (file_of w' sid) \<noteq> fl_tail (file_of w' sid)"
  shows "files_inv w' d' ((sid, off, buf) # xs)"
proof -
  have ok: "files_ok w" using inv by (simp add: files_inv_def)
  show ?thesis
  proof (rule files_push_cases [OF files_ok_nx [OF ok] push])
    fix n i res f
    assume a: "n < length (fw_files w)" "i < length (fw_files w)"
      "(case Back of Back \<Rightarrow> write_back IoOk buf (fw_files w ! i, d) | Front \<Rightarrow> write_front IoOk buf (fw_files w ! i, d)) = (res, f, d')"
      "w' = w\<lparr>fw_next_file := n, fw_files := (fw_files w)[i := f]\<rparr>"
      "Inr (Some (sid, off)) = (case res of Inl e \<Rightarrow> Inl e | Inr off \<Rightarrow> Inr (Some (fl_id f, off)))"
    have r: "res = Inr off" "sid = fl_id f" using a(5) by (auto split: sum.splits)
    have "fl_id f = fl_id (fw_files w ! i)" using a(3) by (auto simp: write_back_def Let_def split: if_splits sum.splits prod.splits)
    then have "file_of w' sid = f" using file_of_updated [OF ok a(2)] r(2) a(4) by simp
    then have "fl_head f \<noteq> fl_tail f" using gap by simp
    note wr = write_back_layout [OF files_inv_layout [OF inv a(2)] ne _ this, of d off d']
    have "files_inv ((w\<lparr>fw_next_file := n\<rparr>)\<lparr>fw_files := (fw_files (w\<lparr>fw_next_file := n\<rparr>))[i := f]\<rparr>)
        (disk_write (fl_file f) off buf d) ((sid, off, buf) # xs)"
      by (rule files_inv_push [OF files_inv_next [OF inv a(1)]]) (use wr a(2,3) r in auto)
    then show ?thesis using wr a(3,4) r by simp
  qed simp
qed

lemma files_inv_push_none:
  assumes inv: "files_inv w d xs" and push: "files_push_block side io buf (w, d) = Some (Inr None, w', d')"
  shows "files_inv w' d' xs"
proof -
  have ok: "files_ok w" using inv by (simp add: files_inv_def)
  show ?thesis
    by (rule files_push_cases [OF files_ok_nx [OF ok] push]) (use files_inv_next [OF inv] in \<open>auto split: sum.splits\<close>)
qed

lemma files_inv_pop_back:
  assumes inv: "files_inv w d ((sid, off, buf) # xs)"
    and b: "sb_storage_id block = sid" "sb_offset block = off" "sb_size block = length buf"
    and pop: "files_pop_block Back block w = (Inr (), w')"
  shows "files_inv w' d xs"
proof (rule files_pop_cases [OF inv pop])
  fix i f
  assume a: "i < length (fw_files w)" "fl_id (fw_files w ! i) = sb_storage_id block"
    "file_pop Back (sb_offset block) (sb_size block) (fw_files w ! i) = (Inr (), f)"
    "w' = w\<lparr>fw_files := (fw_files w)[i := f]\<rparr>"
  have "file_layout (fw_files w ! i) ((off, buf) # in_file sid xs)"
    using files_inv_layout [OF inv a(1)] a(2) b(1) by simp
  then have lay: "file_layout f (in_file sid xs)" "\<exists>t. f = (fw_files w ! i)\<lparr>fl_tail := t\<rparr>"
    using file_pop_back_layout a(3) b(2,3) by auto
  show ?thesis unfolding a(4) by (rule files_inv_pop [OF inv a(1)]) (use lay a(2) b(1) in auto)
qed

lemma files_inv_pop_front:
  assumes inv: "files_inv w d (xs @ [(sid, off, buf)])"
    and b: "sb_storage_id block = sid" "sb_offset block = off" "sb_size block = length buf"
    and pop: "files_pop_block Front block w = (Inr (), w')"
  shows "files_inv w' d xs"
proof (rule files_pop_cases [OF inv pop])
  fix i f
  assume a: "i < length (fw_files w)" "fl_id (fw_files w ! i) = sb_storage_id block"
    "file_pop Front (sb_offset block) (sb_size block) (fw_files w ! i) = (Inr (), f)"
    "w' = w\<lparr>fw_files := (fw_files w)[i := f]\<rparr>"
  have "file_layout (fw_files w ! i) (in_file sid xs @ [(off, buf)])"
    using files_inv_layout [OF inv a(1)] a(2) b(1) by simp
  then have lay: "file_layout f (in_file sid xs)" "\<exists>t. f = (fw_files w ! i)\<lparr>fl_head := t\<rparr>"
    using file_pop_front_layout a(3) b(2,3) by auto
  show ?thesis unfolding a(4) by (rule files_inv_pop [OF inv a(1)]) (use lay a(2) b(1) in auto)
qed

lemma files_inv_empty:
  "files_ok w \<Longrightarrow> \<forall>f \<in> set (fw_files w). fl_tail f = 0 \<and> fl_head f = 0 \<and> fl_size f \<le> isize_MAX \<Longrightarrow> files_inv w d []"
  by (auto simp: files_inv_def file_layout_def)

lemma files_trace_inv: "files_trace w d xs \<Longrightarrow> files_inv w d xs"
proof (induction rule: files_trace.induct)
  case ft_start
  then show ?case by (rule files_inv_empty)
next
  case ft_push_front
  then show ?case by (auto simp: files_push_block_front_def intro: files_inv_push_front)
next
  case ft_push_back
  then show ?case by (auto simp: files_push_block_back_def intro: files_inv_push_back)
next
  case ft_push_none
  then show ?case by (auto intro: files_inv_push_none)
next
  case ft_pop_back
  then show ?case by (auto simp: files_pop_block_back_def intro: files_inv_pop_back)
next
  case ft_pop_front
  then show ?case by (auto simp: files_pop_block_front_def intro: files_inv_pop_front)
qed

section \<open>Properties\<close>


definition demo_files :: StorageFilesWrite where
  "demo_files = \<lparr>fw_files = [\<lparr>fl_id = 3, fl_file = ''a'', fl_tail = 0, fl_head = 0, fl_size = 10, fl_new_blocks = True\<rparr>],
     fw_id2file = [(3, 0)], fw_next_file = 0\<rparr>"

lemma demo_files_push:
  "files_push_block_front IoOk [7] (demo_files, \<lambda>_. []) =
     Some (Inr (Some (3, 0)), demo_files\<lparr>fw_files := [(fw_files demo_files ! 0)\<lparr>fl_head := 1\<rparr>]\<rparr>, (\<lambda>_. [])(''a'' := [7]))"
  by (simp add: files_push_block_front_def files_push_block_def get_file_index_for_new_block_def demo_files_def
      free_space_def write_front_def write_and_sync_def disk_write_def write_at_def Let_def)

lemma demo_files_trace:
  "files_trace (demo_files\<lparr>fw_files := [(fw_files demo_files ! 0)\<lparr>fl_head := 1\<rparr>]\<rparr>) ((\<lambda>_. [])(''a'' := [7])) [(3, 0, [7])]"
proof -
  have "files_trace demo_files (\<lambda>_. []) []"
    by (rule ft_start) (auto simp: files_ok_def demo_files_def)
  from ft_push_front [OF this _ demo_files_push] show ?thesis by (simp add: file_of_def demo_files_def)
qed


definition full_ring_file :: StorageFile where
  "full_ring_file = \<lparr>fl_id = 0, fl_file = ''a'', fl_tail = 0, fl_head = 0, fl_size = 10, fl_new_blocks = True\<rparr>"


text \<open>
  \<open>get_file_index_for_new_block\<close> always returns: the first file, in cyclic order from
  \<open>next_file\<close>, that takes new blocks and has the space; nothing only when no file does; and
  \<open>next_file\<close> stays in range.
\<close>

lemma get_file_index_round_robin:
  assumes "fw_next_file w < length (fw_files w)"
  shows "\<exists>n < length (fw_files w). get_file_index_for_new_block sz w =
      Some (Inr (first_accepting w sz (fw_next_file w)), w\<lparr>fw_next_file := n\<rparr>) \<and>
    (first_accepting w sz (fw_next_file w) = None \<longleftrightarrow> (\<forall>i < length (fw_files w). \<not> accepts w sz i))"
proof -
  obtain n where "n < length (fw_files w)" "get_file_index_for_new_block sz w =
      Some (Inr (first_accepting w sz (fw_next_file w)), w\<lparr>fw_next_file := n\<rparr>)"
    using get_file_index_find [OF assms] by blast
  with first_accepting_None [OF assms, of sz] show ?thesis by (intro exI [of _ n] conjI)
qed

text \<open>
  A pop on the back fails when the file was filled exactly to its end: \<open>write_front\<close> allows
  head to be the size, \<open>pop_block\<close> does not.
\<close>

lemma pop_after_exact_fill_fails:
  "\<exists>f1 d1 f2. write_front IoOk (replicate 10 1) (full_ring_file, \<lambda>_. []) = (Inr 0, f1, d1) \<and>
     file_pop Back 0 10 f1 = (Inl (Err ''file storage head overflow''), f2)"
  by (simp add: full_ring_file_def write_front_def write_and_sync_def free_space_def file_pop_def Let_def)

definition unsorted_configs :: "ConfigStorageFile list" where
  "unsorted_configs = [\<lparr>cf_id = 2, cf_path = ''b'', cf_size = 4, cf_new_blocks = True\<rparr>,
     \<lparr>cf_id = 1, cf_path = ''a'', cf_size = 4, cf_new_blocks = True\<rparr>]"

definition empty_index :: "unit StoredBlocksWrite" where
  "empty_index = \<lparr>wb_blocks = [new_noexists], wb_tail = 0, wb_head = 0, wb_stored_slots = StoredSlots_default,
     wb_sync_tx = []\<rparr>"

text \<open>
  With the files configured out of the order of their ids, a reader opens the wrong file: the
  writer's map of ids is made for the files sorted by id, the reader's files are in the order of
  the configuration.
\<close>

lemma unsorted_configs_misdirect_reads:
  "\<exists>w fi d r. StorageFilesWrite_open (\<lambda>_. Inr ()) (\<lambda>_. Inr ()) unsorted_configs empty_index (\<lambda>_. []) = (Inr (w, fi), d) \<and>
     StorageFilesRead_open (\<lambda>_. Inr ()) fi = Inr r \<and>
     fl_file (file_of w 1) = ''a'' \<and> fr_files r ! the (hm_get (fr_id2file r) 1) = ''b''"
  by (simp add: unsorted_configs_def empty_index_def StorageFilesWrite_open_def open_file_def get_stored_boundaries_def
      new_noexists_def StorageFilesRead_open_def file_of_def Let_def insort_key_def)

end
