(* ===== verification/Alp_Codec.thy ===== *)
theory Alp_Codec
  imports Alp_Types "HOL-Library.List_Lexorder"
begin

text \<open>
  The keys and values of the database (src/src/storage/rocksdb.rs). The variable-length integers
  of prost, the serialisation of \<open>TransactionError\<close> by bincode, the hash of foldhash and the bit
  vectors of bitvec (\<open>into_vec\<close>, \<open>from_vec\<close>) are parameters, the fields of the record \<open>codec\<close>; \<open>codec_laws\<close> states what the code relies on.
  A decoder reads from the front of a slice: it returns the value with the rest.
\<close>

section \<open>Fixed-width integers of the standard library\<close>

fun be_bytes :: "nat \<Rightarrow> nat \<Rightarrow> bytes" where
  "be_bytes 0 v = []"
| "be_bytes (Suc n) v = word_of_nat (v div 256 ^ n) # be_bytes n v"

definition from_be :: "bytes \<Rightarrow> nat" where
  "from_be bs = foldl (\<lambda>acc b. 256 * acc + unat b) 0 bs"

lemma length_be_bytes [simp]: "length (be_bytes n v) = n"
  by (induction n) simp_all

lemma unat_byte: "unat (word_of_nat v :: u8) = v mod 256"
  by (simp add: unat_of_nat)

lemma mod_byte_split: "v mod 256 ^ Suc n = (v div 256 ^ n) mod 256 * 256 ^ n + v mod (256 ^ n :: nat)"
  using mod_mult2_eq [of v "256 ^ n" 256] by (simp add: mult.commute)

lemma foldl_be: "foldl (\<lambda>acc b. 256 * acc + unat b) a (be_bytes n v) = a * 256 ^ n + v mod 256 ^ n"
proof (induction n arbitrary: a)
  case (Suc n)
  then show ?case using mod_byte_split [of v n] by (simp add: unat_byte algebra_simps)
qed simp

lemma from_be_be_bytes [simp]: "v < 256 ^ n \<Longrightarrow> from_be (be_bytes n v) = v"
  by (simp add: from_be_def foldl_be)

lemma be_bytes_inj: "u < 256 ^ n \<Longrightarrow> v < 256 ^ n \<Longrightarrow> be_bytes n u = be_bytes n v \<longleftrightarrow> u = v"
  by (metis from_be_be_bytes)

lemma digit_less:
  assumes "r < p" "s < (p :: nat)"
  shows "a * p + r < b * p + s \<longleftrightarrow> a < b \<or> a = b \<and> r < s"
proof -
  have lt: "x * p + y < z * p + w" if xz: "x < z" and yp: "y < p" for x y z w
  proof -
    obtain k where "z = Suc (x + k)" using less_imp_Suc_add [OF xz] by blast
    then show ?thesis using yp by (simp add: algebra_simps)
  qed
  consider "a < b" | "a = b" | "b < a" by linarith
  then show ?thesis
  proof cases
    case 3
    then show ?thesis using lt [of b a s r] assms(2) by simp
  qed (use lt [of a b r s] assms(1) in auto)
qed

text \<open>Big-endian keys sort as the numbers they encode.\<close>

lemma be_bytes_less:
  assumes "u < 256 ^ n" "v < 256 ^ n"
  shows "be_bytes n u < be_bytes n v \<longleftrightarrow> u < v"
proof -
  have gen: "be_bytes n u < be_bytes n v \<longleftrightarrow> u mod 256 ^ n < v mod 256 ^ n" for u v
  proof (induction n)
    case (Suc n)
    let ?p = "256 ^ n :: nat"
    let ?a = "u div ?p mod 256" and ?b = "v div ?p mod 256"
    have byte: "x mod 256 ^ Suc n = (x div ?p mod 256) * ?p + x mod ?p" for x
      by (rule mod_byte_split)
    have lt: "x mod ?p < ?p" for x by simp
    have "(word_of_nat (u div ?p) :: u8) < word_of_nat (v div ?p) \<longleftrightarrow> ?a < ?b"
      by (simp add: word_less_nat_alt unat_byte)
    moreover have "(word_of_nat (u div ?p) :: u8) = word_of_nat (v div ?p) \<longleftrightarrow> ?a = ?b"
      by (simp add: word_unat_eq_iff unat_byte)
    moreover have "?a * ?p + u mod ?p < ?b * ?p + v mod ?p \<longleftrightarrow> ?a < ?b \<or> ?a = ?b \<and> u mod ?p < v mod ?p"
      by (rule digit_less [OF lt lt])
    ultimately show ?case using Suc by (simp add: byte del: power_Suc)
  qed simp
  show ?thesis using gen [of u v] assms by simp
qed

definition u64_of_i64 :: "int \<Rightarrow> nat" where
  "u64_of_i64 i = nat (i mod 18446744073709551616)"

definition i64_of_u64 :: "nat \<Rightarrow> int" where
  "i64_of_u64 v = (if v < 9223372036854775808 then int v else int v - 18446744073709551616)"

definition i64_range :: "int \<Rightarrow> bool" where
  "i64_range i \<longleftrightarrow> -9223372036854775808 \<le> i \<and> i < 9223372036854775808"

lemma u64_of_i64_less: "u64_of_i64 i < u64_modulus"
  by (simp add: u64_of_i64_def nat_less_iff)

lemma i64_roundtrip:
  assumes "i64_range i"
  shows "i64_of_u64 (u64_of_i64 i) = i"
proof (cases "0 \<le> i")
  case True
  then have "i mod 18446744073709551616 = i" using assms by (intro mod_pos_pos_trivial) (auto simp: i64_range_def)
  then show ?thesis using True assms by (auto simp: u64_of_i64_def i64_of_u64_def i64_range_def)
next
  case False
  have "i mod 18446744073709551616 = (i + 18446744073709551616) mod 18446744073709551616" by simp
  also have "\<dots> = i + 18446744073709551616"
    using False assms by (intro mod_pos_pos_trivial) (auto simp: i64_range_def)
  finally show ?thesis using False assms by (auto simp: u64_of_i64_def i64_of_u64_def i64_range_def)
qed

section \<open>The parameters\<close>

record 'e codec =
  cd_encode_varint :: "nat \<Rightarrow> bytes"
  cd_decode_varint :: "bytes \<Rightarrow> (nat \<times> bytes) option"
  cd_serialize :: "'e \<Rightarrow> bytes"
  cd_deserialize :: "bytes \<Rightarrow> 'e option"
  cd_hash :: "bytes \<Rightarrow> nat"
  cd_into_vec :: "bool list \<Rightarrow> bytes"
  cd_from_vec :: "bytes \<Rightarrow> bool list"

locale codec_laws =
  fixes c :: "'e codec"
  assumes varint_roundtrip: "v < u64_modulus \<Longrightarrow> cd_decode_varint c (cd_encode_varint c v @ rest) = Some (v, rest)"
    and varint_shrinks: "cd_decode_varint c sl = Some (v, rest) \<Longrightarrow> length rest < length sl"
    and varint_small: "v < 128 \<Longrightarrow> cd_encode_varint c v = [word_of_nat v]"
    and error_roundtrip: "cd_deserialize c (cd_serialize c e) = Some e"
    and error_not_empty: "cd_serialize c e \<noteq> []"
    and error_length: "length (cd_serialize c e) < u64_modulus"
    and bits_roundtrip: "take (length bits) (cd_from_vec c (cd_into_vec c bits)) = bits"
    and bits_length: "length (cd_into_vec c bits) = (length bits + 7) div 8"
    and bits_padding: "length (cd_from_vec c vec) = 8 * length vec"

definition get_varint :: "'e codec \<Rightarrow> string \<Rightarrow> bytes \<Rightarrow> (nat \<times> bytes) result" where
  "get_varint c msg sl = (case cd_decode_varint c sl of Some r \<Rightarrow> Inr r | None \<Rightarrow> Inl (Err msg))"

definition get_u8 :: "string \<Rightarrow> bytes \<Rightarrow> (u8 \<times> bytes) result" where
  "get_u8 msg sl = (case sl of b # rest \<Rightarrow> Inr (b, rest) | [] \<Rightarrow> Inl (Err msg))"

text \<open>\<open>from_bits\<close> and \<open>contains\<close> of bitflags.\<close>

definition from_bits :: "u8 \<Rightarrow> u8 \<Rightarrow> u8 result" where
  "from_bits all bits = (if and bits (not all) = 0 then Inr bits else Inl (Err ''invalid flags''))"

definition contains :: "u8 \<Rightarrow> u8 \<Rightarrow> bool" where
  "contains flags m = (and flags m = m)"

definition flag :: "u8 \<Rightarrow> bool \<Rightarrow> u8" where
  "flag m b = (if b then m else 0)"


section \<open>Column families and keys\<close>

datatype column = SlotBasicIndex | SlotExtraIndex | TransactionIndex | SfaIndex | InflationRewardIndex

definition make_hashed_key :: "'e codec \<Rightarrow> bytes \<Rightarrow> bytes" where
  "make_hashed_key c bs = be_bytes 8 (cd_hash c bs)"

definition slot_key :: "Slot \<Rightarrow> bytes" where
  "slot_key slot = be_bytes 8 slot"

definition slot_decode :: "bytes \<Rightarrow> Slot result" where
  "slot_decode sl = (if length sl = 8 then Inr (from_be sl) else Inl (Err ''invalid slice size''))"

definition TransactionIndex_encode :: "'e codec \<Rightarrow> Signature \<Rightarrow> bytes" where
  "TransactionIndex_encode c signature = make_hashed_key c signature"

definition address_hash :: "'e codec \<Rightarrow> Pubkey \<Rightarrow> bytes" where
  "address_hash c address = make_hashed_key c address"

definition SfaIndex_concat :: "bytes \<Rightarrow> Slot \<Rightarrow> bytes" where
  "SfaIndex_concat hash slot = hash @ be_bytes 8 slot"

definition SfaIndex_encode :: "'e codec \<Rightarrow> Pubkey \<Rightarrow> Slot \<Rightarrow> bytes" where
  "SfaIndex_encode c address slot = SfaIndex_concat (address_hash c address) slot"

definition SfaIndex_decode :: "bytes \<Rightarrow> (bytes \<times> Slot) result" where
  "SfaIndex_decode sl =
     bind_result (ensure (length sl = 16) ''invalid key length'') (\<lambda>_.
       Inr (take 8 sl, from_be (drop 8 sl)))"

definition ir_encode_base :: "nat \<Rightarrow> bytes" where
  "ir_encode_base epoch = be_bytes 8 epoch"

definition ir_encode_reward :: "nat \<Rightarrow> Pubkey \<Rightarrow> bytes" where
  "ir_encode_reward epoch pubkey = be_bytes 8 epoch @ pubkey"

section \<open>SlotBasicIndexValue\<close>

record SlotBasicIndexValue =
  sbv_dead :: bool
  sbv_block_time :: "UnixTimestamp option"
  sbv_block_height :: "Slot option"
  sbv_storage_id :: StorageId
  sbv_offset :: nat
  sbv_size :: nat

definition SlotBasicIndexValue_default :: SlotBasicIndexValue where
  "SlotBasicIndexValue_default = \<lparr>sbv_dead = False, sbv_block_time = None, sbv_block_height = None,
     sbv_storage_id = 0, sbv_offset = 0, sbv_size = 0\<rparr>"

definition SlotBasicIndexValue_encode :: "'e codec \<Rightarrow> SlotBasicIndexValue \<Rightarrow> bytes" where
  "SlotBasicIndexValue_encode c v =
     (if sbv_dead v then cd_encode_varint c (unat (1 :: u8))
      else
        let flags = or (flag 2 (sbv_block_time v \<noteq> None)) (flag 4 (sbv_block_height v \<noteq> None))
        in cd_encode_varint c (unat flags) @
           (case sbv_block_time v of Some bt \<Rightarrow> cd_encode_varint c (u64_of_i64 bt) | None \<Rightarrow> []) @
           (case sbv_block_height v of Some bh \<Rightarrow> cd_encode_varint c bh | None \<Rightarrow> []) @
           cd_encode_varint c (sbv_storage_id v) @ cd_encode_varint c (sbv_offset v) @
           cd_encode_varint c (sbv_size v))"

text \<open>An optional field, read when its flag is set.\<close>

definition get_optional :: "bool \<Rightarrow> (bytes \<Rightarrow> ('a \<times> bytes) result) \<Rightarrow> bytes \<Rightarrow> ('a option \<times> bytes) result" where
  "get_optional present get sl =
     (if present then bind_result (get sl) (\<lambda>(v, rest). Inr (Some v, rest)) else Inr (None, sl))"

definition SlotBasicIndexValue_decode :: "'e codec \<Rightarrow> bytes \<Rightarrow> SlotBasicIndexValue result" where
  "SlotBasicIndexValue_decode c sl =
     bind_result (get_u8 ''failed to read flags'' sl) (\<lambda>(bits, sl).
     bind_result (from_bits 7 bits) (\<lambda>flags.
     if contains flags 1 then Inr (SlotBasicIndexValue_default\<lparr>sbv_dead := True\<rparr>)
     else
       bind_result (get_optional (contains flags 2) (get_varint c ''failed to read block time'') sl) (\<lambda>(bt, sl).
       bind_result (get_optional (contains flags 4) (get_varint c ''failed to read block_height'') sl) (\<lambda>(bh, sl).
       bind_result (get_varint c ''failed to read storage id'' sl) (\<lambda>(storage_id, sl).
       bind_result (ensure (storage_id < 256) ''failed to convert storage id'') (\<lambda>_.
       bind_result (get_varint c ''failed to read offset'' sl) (\<lambda>(offset, sl).
       bind_result (get_varint c ''failed to read size'' sl) (\<lambda>(sz, sl).
       Inr \<lparr>sbv_dead = False, sbv_block_time = map_option i64_of_u64 bt, sbv_block_height = bh,
            sbv_storage_id = storage_id, sbv_offset = offset, sbv_size = sz\<rparr>))))))))"

definition sbv_ok :: "SlotBasicIndexValue \<Rightarrow> bool" where
  "sbv_ok v \<longleftrightarrow> (\<forall>bt. sbv_block_time v = Some bt \<longrightarrow> i64_range bt) \<and>
     (\<forall>bh. sbv_block_height v = Some bh \<longrightarrow> bh < u64_modulus) \<and> sbv_storage_id v < 256 \<and>
     sbv_offset v < u64_modulus \<and> sbv_size v < u64_modulus"

section \<open>SlotExtraIndexValue\<close>

record SlotExtraIndexValue =
  sev_transactions :: "bytes list"
  sev_sfa :: "bytes list"

definition SlotExtraIndexValue_encode :: "'e codec \<Rightarrow> SlotExtraIndexValue \<Rightarrow> bytes" where
  "SlotExtraIndexValue_encode c v =
     cd_encode_varint c (length (sev_transactions v)) @ concat (sev_transactions v) @
     cd_encode_varint c (length (sev_sfa v)) @ concat (sev_sfa v)"

text \<open>
  The loop that copies \<open>n\<close> hashes of 8 bytes; a slice that is too short is an index out of range.
  \<open>Vec::with_capacity(n)\<close> panics when the vector would exceed \<open>isize::MAX\<close> bytes.
\<close>

fun get_hashes :: "nat \<Rightarrow> bytes \<Rightarrow> (bytes list \<times> bytes) result" where
  "get_hashes 0 sl = Inr ([], sl)"
| "get_hashes (Suc n) sl =
     (if length sl < 8 then Inl (Panic ''range end index out of range'')
      else bind_result (get_hashes n (drop 8 sl)) (\<lambda>(hs, rest). Inr (take 8 sl # hs, rest)))"

definition get_hash_vec :: "nat \<Rightarrow> bytes \<Rightarrow> (bytes list \<times> bytes) result" where
  "get_hash_vec n sl =
     (if 9223372036854775807 < 8 * n then Inl (Panic ''capacity overflow'') else get_hashes n sl)"

definition SlotExtraIndexValue_decode :: "'e codec \<Rightarrow> bytes \<Rightarrow> SlotExtraIndexValue result" where
  "SlotExtraIndexValue_decode c sl =
     bind_result (get_varint c ''failed to read transactions size'' sl) (\<lambda>(n, sl).
     bind_result (get_hash_vec n sl) (\<lambda>(transactions, sl).
     bind_result (get_varint c ''failed to read sfa size'' sl) (\<lambda>(m, sl).
     bind_result (get_hash_vec m sl) (\<lambda>(sfa, sl).
     bind_result (ensure (sl = []) ''invalid slice len'') (\<lambda>_.
     Inr \<lparr>sev_transactions = transactions, sev_sfa = sfa\<rparr>)))))"

section \<open>TransactionIndexValue\<close>

record 'e TransactionIndexValue =
  tiv_slot :: Slot
  tiv_offset :: nat
  tiv_size :: nat
  tiv_err :: "'e option"
  tiv_index :: nat

definition put_error :: "'e codec \<Rightarrow> 'e option \<Rightarrow> bytes" where
  "put_error c err = (case err of
       Some e \<Rightarrow> (let data = cd_serialize c e in cd_encode_varint c (length data) @ data)
     | None \<Rightarrow> [])"

definition TransactionIndexValue_encode :: "'e codec \<Rightarrow> 'e TransactionIndexValue \<Rightarrow> bytes" where
  "TransactionIndexValue_encode c v =
     cd_encode_varint c (tiv_slot v) @ cd_encode_varint c (tiv_offset v) @ cd_encode_varint c (tiv_size v) @
     put_error c (tiv_err v) @ cd_encode_varint c (tiv_index v)"

abbreviation u32_modulus :: nat where
  "u32_modulus \<equiv> 4294967296"

definition get_error :: "'e codec \<Rightarrow> bytes \<Rightarrow> 'e result" where
  "get_error c data = (case cd_deserialize c data of Some e \<Rightarrow> Inr e | None \<Rightarrow> Inl (Err ''failed to decode err''))"

definition TransactionIndexValue_decode :: "'e codec \<Rightarrow> bytes \<Rightarrow> bool \<Rightarrow> 'e TransactionIndexValue result" where
  "TransactionIndexValue_decode c sl decode_error =
     bind_result (get_varint c ''failed to decode slot'' sl) (\<lambda>(slot, sl).
     bind_result (get_varint c ''failed to decode offset'' sl) (\<lambda>(offset, sl).
     bind_result (get_varint c ''failed to decode size'' sl) (\<lambda>(sz, sl).
     bind_result
       (if sl = [] then Inr (None, 0)
        else
          bind_result (get_varint c ''failed to decode err size'' sl) (\<lambda>(a, sl).
          if a = 0 \<or> length sl < a then Inr (None, a mod u32_modulus)
          else
            bind_result (if decode_error then bind_result (get_error c (take a sl)) (\<lambda>e. Inr (Some e)) else Inr None) (\<lambda>err.
            let sl = drop a sl
            in if sl = [] then Inr (err, 0)
               else bind_result (get_varint c ''failed to decode index'' sl) (\<lambda>(i, _). Inr (err, i mod u32_modulus)))))
       (\<lambda>(err, index).
     Inr \<lparr>tiv_slot = slot, tiv_offset = offset, tiv_size = sz, tiv_err = err, tiv_index = index\<rparr>))))"

definition tiv_ok :: "'e TransactionIndexValue \<Rightarrow> bool" where
  "tiv_ok v \<longleftrightarrow> tiv_slot v < u64_modulus \<and> tiv_offset v < u64_modulus \<and> tiv_size v < u64_modulus \<and>
     tiv_index v < u32_modulus"

section \<open>SfaIndexValue\<close>

text \<open>\<open>String::from_utf8\<close>: the well-formed byte sequences of UTF-8.\<close>

definition continuation :: "u8 \<Rightarrow> bool" where
  "continuation b \<longleftrightarrow> 0x80 \<le> b \<and> b \<le> 0xBF"

fun valid_utf8 :: "bytes \<Rightarrow> bool" where
  "valid_utf8 [] \<longleftrightarrow> True"
| "valid_utf8 (b # bs) \<longleftrightarrow>
     (if b \<le> 0x7F then valid_utf8 bs
      else if 0xC2 \<le> b \<and> b \<le> 0xDF then (case bs of
          b1 # bs' \<Rightarrow> continuation b1 \<and> valid_utf8 bs' | _ \<Rightarrow> False)
      else if 0xE0 \<le> b \<and> b \<le> 0xEF then (case bs of
          b1 # b2 # bs' \<Rightarrow> continuation b1 \<and> continuation b2 \<and> (b = 0xE0 \<longrightarrow> 0xA0 \<le> b1) \<and>
            (b = 0xED \<longrightarrow> b1 \<le> 0x9F) \<and> valid_utf8 bs' | _ \<Rightarrow> False)
      else if 0xF0 \<le> b \<and> b \<le> 0xF4 then (case bs of
          b1 # b2 # b3 # bs' \<Rightarrow> continuation b1 \<and> continuation b2 \<and> continuation b3 \<and>
            (b = 0xF0 \<longrightarrow> 0x90 \<le> b1) \<and> (b = 0xF4 \<longrightarrow> b1 \<le> 0x8F) \<and> valid_utf8 bs' | _ \<Rightarrow> False)
      else False)"

definition sfa_flags :: "'e SignatureStatus \<Rightarrow> u8" where
  "sfa_flags sig =
     or (or (or (or (flag 1 (sg_err sig \<noteq> None)) (flag 2 (sg_memo sig \<noteq> None))) 4)
       (flag 8 (sg_is_token_owner sig))) (flag 16 (sg_token_balance_changed sig))"

definition SfaIndexValue_encode :: "'e codec \<Rightarrow> 'e SignatureStatus list \<Rightarrow> bytes" where
  "SfaIndexValue_encode c signatures =
     concat (map (\<lambda>sig.
       sfa_flags sig # sg_signature sig @ be_bytes 4 (sg_transaction_index sig) @ put_error c (sg_err sig) @
       (case sg_memo sig of Some memo \<Rightarrow> cd_encode_varint c (length memo) @ memo | None \<Rightarrow> [])) signatures)"

definition copy_to_slice :: "nat \<Rightarrow> string \<Rightarrow> bytes \<Rightarrow> (bytes \<times> bytes) result" where
  "copy_to_slice n msg sl = (if n \<le> length sl then Inr (take n sl, drop n sl) else Inl (Err msg))"

text \<open>A field with its length in front: the error and the memo.\<close>

definition get_sized :: "'e codec \<Rightarrow> string \<Rightarrow> string \<Rightarrow> (bytes \<Rightarrow> 'a result) \<Rightarrow> bytes \<Rightarrow> ('a \<times> bytes) result" where
  "get_sized c msg msg' f sl =
     bind_result (get_varint c msg sl) (\<lambda>(sz, sl).
     bind_result (ensure (sz \<le> length sl) msg') (\<lambda>_.
     bind_result (f (take sz sl)) (\<lambda>v. Inr (v, drop sz sl))))"

definition from_utf8 :: "bytes \<Rightarrow> bytes result" where
  "from_utf8 bs = (if valid_utf8 bs then Inr bs else Inl (Err ''expect utf8 memo''))"

definition SfaIndexValue_decode :: "'e codec \<Rightarrow> bytes \<Rightarrow> ('e SignatureStatus option \<times> bytes) result" where
  "SfaIndexValue_decode c sl =
     (if sl = [] then Inr (None, sl)
      else
        bind_result (get_u8 ''failed to read flags'' sl) (\<lambda>(bits, sl).
        bind_result (from_bits 31 bits) (\<lambda>flags.
        bind_result (copy_to_slice 64 ''failed to read signature'' sl) (\<lambda>(signature, sl).
        bind_result (if contains flags 4
                     then bind_result (copy_to_slice 4 ''failed to read transaction_index'' sl)
                            (\<lambda>(bs, sl). Inr (from_be bs, sl))
                     else Inr (0, sl)) (\<lambda>(transaction_index, sl).
        bind_result (get_optional (contains flags 1) (get_sized c ''failed to decode err size'' ''not enough bytes for err'' (get_error c)) sl) (\<lambda>(err, sl).
        bind_result (get_optional (contains flags 2) (get_sized c ''failed to decode memo size'' ''not enough bytes for memo'' from_utf8) sl) (\<lambda>(memo, sl).
        Inr (Some \<lparr>sg_signature = signature, sg_err = err, sg_memo = memo, sg_transaction_index = transaction_index,
                   sg_is_token_owner = contains flags 8, sg_token_balance_changed = contains flags 16\<rparr>, sl))))))))"

definition sg_ok :: "'e SignatureStatus \<Rightarrow> bool" where
  "sg_ok s \<longleftrightarrow> length (sg_signature s) = 64 \<and> sg_transaction_index s < u32_modulus \<and>
     (\<forall>m. sg_memo s = Some m \<longrightarrow> valid_utf8 m \<and> length m < u64_modulus)"

text \<open>The loop of the readers: decode until the slice is used up (at most one entry per byte).\<close>

fun sfa_decode_all :: "nat \<Rightarrow> 'e codec \<Rightarrow> bytes \<Rightarrow> 'e SignatureStatus list result option" where
  "sfa_decode_all 0 c sl = None"
| "sfa_decode_all (Suc fuel) c sl =
     (case SfaIndexValue_decode c sl of
        Inl e \<Rightarrow> Some (Inl e)
      | Inr (None, _) \<Rightarrow> Some (Inr [])
      | Inr (Some sig, sl) \<Rightarrow>
          (case sfa_decode_all fuel c sl of
             None \<Rightarrow> None
           | Some r \<Rightarrow> Some (bind_result r (\<lambda>sigs. Inr (sig # sigs)))))"

section \<open>Inflation rewards\<close>

record InflationRewardBaseValue =
  irb_slot :: Slot
  irb_block_height :: "Slot option"
  irb_previous_blockhash :: bytes
  irb_num_reward_partitions :: "nat option"
  irb_partitions :: "bool list"

definition InflationRewardBaseValue_new ::
  "Slot \<Rightarrow> Slot option \<Rightarrow> bytes \<Rightarrow> nat option \<Rightarrow> InflationRewardBaseValue" where
  "InflationRewardBaseValue_new slot block_height previous_blockhash num_reward_partitions =
     \<lparr>irb_slot = slot, irb_block_height = block_height, irb_previous_blockhash = previous_blockhash,
      irb_num_reward_partitions = num_reward_partitions,
      irb_partitions = replicate (case num_reward_partitions of Some n \<Rightarrow> n | None \<Rightarrow> 0) False\<rparr>"

definition put_optional :: "'e codec \<Rightarrow> nat option \<Rightarrow> bytes" where
  "put_optional c v = (case v of Some x \<Rightarrow> cd_encode_varint c x | None \<Rightarrow> [])"

definition InflationRewardBaseValue_encode :: "'e codec \<Rightarrow> InflationRewardBaseValue \<Rightarrow> bytes" where
  "InflationRewardBaseValue_encode c v =
     (let flags = or (flag 1 (irb_block_height v \<noteq> None)) (flag 2 (irb_num_reward_partitions v \<noteq> None));
          vec = cd_into_vec c (irb_partitions v)
      in flags # cd_encode_varint c (irb_slot v) @ put_optional c (irb_block_height v) @
         irb_previous_blockhash v @ put_optional c (irb_num_reward_partitions v) @
         cd_encode_varint c (length vec) @ vec)"

definition InflationRewardBaseValue_decode :: "'e codec \<Rightarrow> bytes \<Rightarrow> InflationRewardBaseValue result" where
  "InflationRewardBaseValue_decode c sl =
     bind_result (get_u8 ''not enough bytes for flags'' sl) (\<lambda>(flags, sl).
     bind_result (get_varint c ''failed to decode slot'' sl) (\<lambda>(slot, sl).
     bind_result (get_optional (and flags 1 > 0) (get_varint c ''failed to decode block height'') sl) (\<lambda>(block_height, sl).
     bind_result (copy_to_slice 32 ''not enough bytes for previous blockhash'' sl) (\<lambda>(previous_blockhash, sl).
     bind_result (get_optional (and flags 2 > 0) (get_varint c ''failed to decode num reward partitions'') sl) (\<lambda>(num, sl).
     bind_result (get_sized c ''failed to decode partitions len'' ''not enough bytes for partitions'' Inr sl) (\<lambda>(vec, _).
     Inr \<lparr>irb_slot = slot, irb_block_height = block_height, irb_previous_blockhash = previous_blockhash,
          irb_num_reward_partitions = num, irb_partitions = cd_from_vec c vec\<rparr>))))))"

record RpcInflationReward =
  ir_epoch :: nat
  ir_effective_slot :: Slot
  ir_amount :: nat
  ir_post_balance :: nat
  ir_commission :: "u8 option"
  ir_commission_bps :: "nat option"

definition InflationRewardAddressValue_encode :: "'e codec \<Rightarrow> RpcInflationReward \<Rightarrow> bytes" where
  "InflationRewardAddressValue_encode c r =
     cd_encode_varint c (ir_epoch r) @ cd_encode_varint c (ir_effective_slot r) @
     cd_encode_varint c (ir_amount r) @ cd_encode_varint c (ir_post_balance r) @
     (case ir_commission r of
        Some commission \<Rightarrow> commission #
          (case ir_commission_bps r of Some bps \<Rightarrow> rev (be_bytes 2 bps) | None \<Rightarrow> [])
      | None \<Rightarrow> [])"

definition InflationRewardAddressValue_decode :: "'e codec \<Rightarrow> bytes \<Rightarrow> RpcInflationReward result" where
  "InflationRewardAddressValue_decode c sl =
     bind_result (get_varint c ''failed to decode epoch'' sl) (\<lambda>(epoch, sl).
     bind_result (get_varint c ''failed to decode effective_slot'' sl) (\<lambda>(effective_slot, sl).
     bind_result (get_varint c ''failed to decode amount'' sl) (\<lambda>(amount, sl).
     bind_result (get_varint c ''failed to decode post_balance'' sl) (\<lambda>(post_balance, sl).
     bind_result (case sl of
         [] \<Rightarrow> Inr (None, None)
       | [b] \<Rightarrow> Inr (Some b, None)
       | [_, _] \<Rightarrow> Inl (Panic ''index out of bounds'')
       | b # lo # hi # _ \<Rightarrow> Inr (Some b, Some (from_be [hi, lo]))) (\<lambda>(commission, commission_bps).
     Inr \<lparr>ir_epoch = epoch, ir_effective_slot = effective_slot, ir_amount = amount,
          ir_post_balance = post_balance, ir_commission = commission, ir_commission_bps = commission_bps\<rparr>)))))"

end
