(* ===== verification/Alp_Codec_Laws.thy ===== *)
theory Alp_Codec_Laws
  imports Alp_Codec
begin

text \<open>
  The round trips of the database encodings, proved once in \<open>codec_laws\<close> for every codec that
  keeps its laws; the instance is the LEB128 format of prost, the four-byte variant numbers of
  bincode and the bit order of bitvec.
\<close>

context codec_laws
begin

lemma get_varint_encode [simp]:
  "v < u64_modulus \<Longrightarrow> get_varint c msg (cd_encode_varint c v @ rest) = Inr (v, rest)"
  by (simp add: get_varint_def varint_roundtrip)

lemma get_varint_encode_last [simp]:
  "v < u64_modulus \<Longrightarrow> get_varint c msg (cd_encode_varint c v) = Inr (v, [])"
  using get_varint_encode [of v msg "[]"] by simp

lemma encode_varint_not_Nil [simp]:
  assumes v: "v < u64_modulus"
  shows "cd_encode_varint c v \<noteq> []"
proof
  assume e: "cd_encode_varint c v = []"
  define u :: nat where "u = (if v = 0 then 1 else 0)"
  have "u < u64_modulus" "u \<noteq> v" by (simp_all add: u_def)
  then show False
    using varint_roundtrip [OF v, of "cd_encode_varint c u"] varint_roundtrip [of u "[]"] e by simp
qed

lemma get_u8_Cons [simp]: "get_u8 msg (b # rest) = Inr (b, rest)"
  by (simp add: get_u8_def)

lemma get_optional_simps [simp]:
  "get_optional False get sl = Inr (None, sl)"
  "get_optional True get sl = bind_result (get sl) (\<lambda>(v, rest). Inr (Some v, rest))"
  by (simp_all add: get_optional_def)

lemma slot_basic_roundtrip:
  assumes "sbv_ok v"
  shows "SlotBasicIndexValue_decode c (SlotBasicIndexValue_encode c v) =
    Inr (if sbv_dead v then SlotBasicIndexValue_default\<lparr>sbv_dead := True\<rparr> else v)"
proof (cases "sbv_dead v")
  case True
  then show ?thesis
    using varint_small [of 1]
    by (simp add: SlotBasicIndexValue_encode_def SlotBasicIndexValue_decode_def from_bits_def contains_def)
next
  case False
  have ok: "sbv_storage_id v < 256" "sbv_storage_id v < u64_modulus" "sbv_offset v < u64_modulus" "sbv_size v < u64_modulus"
    using assms by (auto simp: sbv_ok_def)
  have bt: "i64_range bt" if "sbv_block_time v = Some bt" for bt using assms that by (simp add: sbv_ok_def)
  have bh: "bh < u64_modulus" if "sbv_block_height v = Some bh" for bh using assms that by (simp add: sbv_ok_def)
  show ?thesis
    using False ok bt bh varint_small [of 0] varint_small [of 2] varint_small [of 4] varint_small [of 6]
    by (cases v; cases "sbv_block_time v"; cases "sbv_block_height v")
      (simp_all add: SlotBasicIndexValue_encode_def SlotBasicIndexValue_decode_def from_bits_def
        contains_def flag_def ensure_def u64_of_i64_less i64_roundtrip Let_def)
qed

lemma get_hashes_concat:
  "\<forall>h \<in> set hs. length h = 8 \<Longrightarrow> get_hashes (length hs) (concat hs @ rest) = Inr (hs, rest)"
  by (induction hs) auto

lemma slot_extra_roundtrip:
  assumes "\<forall>h \<in> set (sev_transactions v). length h = 8" "\<forall>h \<in> set (sev_sfa v). length h = 8"
    "8 * length (sev_transactions v) \<le> 9223372036854775807" "8 * length (sev_sfa v) \<le> 9223372036854775807"
  shows "SlotExtraIndexValue_decode c (SlotExtraIndexValue_encode c v) = Inr v"
  using assms get_hashes_concat [of "sev_transactions v"] get_hashes_concat [of "sev_sfa v" "[]"]
  by (simp add: SlotExtraIndexValue_decode_def SlotExtraIndexValue_encode_def get_hash_vec_def ensure_def)

lemma transaction_index_roundtrip:
  assumes "tiv_ok v"
  shows "TransactionIndexValue_decode c (TransactionIndexValue_encode c v) dec_err =
    Inr (if dec_err then v else v\<lparr>tiv_err := None\<rparr>)"
proof -
  have ok: "tiv_slot v < u64_modulus" "tiv_offset v < u64_modulus" "tiv_size v < u64_modulus"
    "tiv_index v < u64_modulus" "tiv_index v mod u32_modulus = tiv_index v"
    using assms by (auto simp: tiv_ok_def)
  show ?thesis
  proof (cases "tiv_err v")
    case None
    then show ?thesis using ok
      by (cases v) (auto simp: TransactionIndexValue_decode_def TransactionIndexValue_encode_def put_error_def)
  next
    case (Some e)
    then show ?thesis using ok error_not_empty [of e] error_length [of e] error_roundtrip [of e]
      by (cases v) (simp add: TransactionIndexValue_decode_def TransactionIndexValue_encode_def put_error_def get_error_def Let_def)
  qed
qed

text \<open>The records of older versions: without the index, and without the error and the index.\<close>

lemma transaction_index_old:
  assumes "tiv_ok v" "tiv_index v = 0"
  shows "TransactionIndexValue_decode c (cd_encode_varint c (tiv_slot v) @ cd_encode_varint c (tiv_offset v) @
    cd_encode_varint c (tiv_size v) @ put_error c (tiv_err v)) True = Inr v"
proof -
  have ok: "tiv_slot v < u64_modulus" "tiv_offset v < u64_modulus" "tiv_size v < u64_modulus"
    using assms by (auto simp: tiv_ok_def)
  show ?thesis
  proof (cases "tiv_err v")
    case None
    then show ?thesis using ok assms(2) by (cases v) (simp add: TransactionIndexValue_decode_def put_error_def)
  next
    case (Some e)
    then show ?thesis using ok assms(2) error_not_empty [of e] error_length [of e] error_roundtrip [of e]
      by (cases v) (simp add: TransactionIndexValue_decode_def put_error_def get_error_def Let_def)
  qed
qed

lemma get_sized_put:
  "length data < u64_modulus \<Longrightarrow> f data = Inr v \<Longrightarrow>
   get_sized c msg msg' f (cd_encode_varint c (length data) @ data @ rest) = Inr (v, rest)"
  by (simp add: get_sized_def ensure_def)

lemma sfa_entry_roundtrip:
  assumes "sg_ok s"
  shows "SfaIndexValue_decode c (SfaIndexValue_encode c [s] @ rest) = Inr (Some s, rest)"
proof -
  have sig: "length (sg_signature s) = 64" and ix: "sg_transaction_index s < 256 ^ 4"
    using assms by (simp_all add: sg_ok_def)
  have fl: "from_bits 31 (sfa_flags s) = Inr (sfa_flags s)" "contains (sfa_flags s) 4"
    "contains (sfa_flags s) 1 \<longleftrightarrow> sg_err s \<noteq> None" "contains (sfa_flags s) 2 \<longleftrightarrow> sg_memo s \<noteq> None"
    "contains (sfa_flags s) 8 \<longleftrightarrow> sg_is_token_owner s" "contains (sfa_flags s) 16 \<longleftrightarrow> sg_token_balance_changed s"
    unfolding sfa_flags_def from_bits_def contains_def flag_def
    by (cases "sg_err s = None"; cases "sg_memo s = None"; cases "sg_is_token_owner s";
        cases "sg_token_balance_changed s"; simp)+
  have err: "get_optional (sg_err s \<noteq> None) (get_sized c m m' (get_error c)) (put_error c (sg_err s) @ r) = Inr (sg_err s, r)" for m m' r
    using get_sized_put [OF error_length, of "get_error c"] error_roundtrip
    by (cases "sg_err s") (simp_all add: put_error_def get_error_def Let_def)
  have memo: "get_optional (sg_memo s \<noteq> None) (get_sized c m m' from_utf8)
      ((case sg_memo s of Some memo \<Rightarrow> cd_encode_varint c (length memo) @ memo | None \<Rightarrow> []) @ r) = Inr (sg_memo s, r)" for m m' r
    using assms get_sized_put [where f = from_utf8] by (cases "sg_memo s") (auto simp: sg_ok_def from_utf8_def)
  show ?thesis
    by (cases s) (use sig ix fl err memo in \<open>simp add: SfaIndexValue_decode_def SfaIndexValue_encode_def copy_to_slice_def\<close>)
qed

lemma sfa_encode_Cons: "SfaIndexValue_encode c (s # ss) = SfaIndexValue_encode c [s] @ SfaIndexValue_encode c ss"
  by (simp add: SfaIndexValue_encode_def)

lemma sfa_roundtrip:
  "\<forall>s \<in> set ss. sg_ok s \<Longrightarrow> length ss < fuel \<Longrightarrow> sfa_decode_all fuel c (SfaIndexValue_encode c ss) = Some (Inr ss)"
proof (induction ss arbitrary: fuel)
  case Nil
  then show ?case by (cases fuel) (simp_all add: SfaIndexValue_encode_def SfaIndexValue_decode_def)
next
  case (Cons s ss)
  then obtain f where "fuel = Suc f" by (cases fuel) auto
  then show ?case
    using Cons sfa_entry_roundtrip [of s "SfaIndexValue_encode c ss"] by (subst sfa_encode_Cons) simp
qed

lemma inflation_address_roundtrip:
  assumes "ir_epoch r < u64_modulus" "ir_effective_slot r < u64_modulus" "ir_amount r < u64_modulus"
    "ir_post_balance r < u64_modulus" "\<And>b. ir_commission_bps r = Some b \<Longrightarrow> b < 65536 \<and> ir_commission r \<noteq> None"
  shows "InflationRewardAddressValue_decode c (InflationRewardAddressValue_encode c r) = Inr r"
proof -
  have bps: "from_be [word_of_nat (b div 256), word_of_nat b] = b" if "b < 65536" for b
    using from_be_be_bytes [of b 2] that by (simp add: numeral_2_eq_2)
  show ?thesis
    using assms bps
    by (cases r; cases "ir_commission r"; cases "ir_commission_bps r")
      (auto simp: InflationRewardAddressValue_decode_def InflationRewardAddressValue_encode_def numeral_2_eq_2)
qed

lemma inflation_base_roundtrip:
  assumes "irb_slot v < u64_modulus" "\<And>h. irb_block_height v = Some h \<Longrightarrow> h < u64_modulus"
    "length (irb_previous_blockhash v) = 32" "\<And>n. irb_num_reward_partitions v = Some n \<Longrightarrow> n < u64_modulus"
    "length (irb_partitions v) < u64_modulus"
  shows "\<exists>pad. InflationRewardBaseValue_decode c (InflationRewardBaseValue_encode c v) =
    Inr (v\<lparr>irb_partitions := irb_partitions v @ pad\<rparr>) \<and>
    length (irb_partitions v @ pad) = 8 * ((length (irb_partitions v) + 7) div 8)"
proof -
  let ?vec = "cd_into_vec c (irb_partitions v)"
  have "length ?vec \<le> length (irb_partitions v)" using bits_length [of "irb_partitions v"] by simp
  with assms(5) have len: "length ?vec < u64_modulus" by simp
  have "cd_from_vec c ?vec = irb_partitions v @ drop (length (irb_partitions v)) (cd_from_vec c ?vec)"
    using bits_roundtrip [of "irb_partitions v"] by (metis append_take_drop_id)
  then obtain pad where pad: "cd_from_vec c ?vec = irb_partitions v @ pad" by blast
  have "length (cd_from_vec c ?vec) = 8 * ((length (irb_partitions v) + 7) div 8)"
    by (simp only: bits_padding bits_length)
  note padded = this [unfolded pad]
  have sized: "get_sized c m m' Inr (cd_encode_varint c (length ?vec) @ ?vec) = Inr (?vec, [])" for m m'
    using get_sized_put [OF len, of Inr ?vec m m' "[]"] by simp
  have "InflationRewardBaseValue_decode c (InflationRewardBaseValue_encode c v) =
      Inr (v\<lparr>irb_partitions := cd_from_vec c ?vec\<rparr>)"
    using assms len sized
    by (cases v; cases "irb_block_height v"; cases "irb_num_reward_partitions v")
      (simp_all add: InflationRewardBaseValue_decode_def InflationRewardBaseValue_encode_def put_optional_def
        copy_to_slice_def flag_def Let_def)
  then show ?thesis using pad padded by auto
qed

end

section \<open>An instance\<close>

text \<open>LEB128, with at most ten bytes.\<close>

fun leb_encode :: "nat \<Rightarrow> nat \<Rightarrow> bytes" where
  "leb_encode 0 v = []"
| "leb_encode (Suc n) v = (if v < 128 then [word_of_nat v] else word_of_nat (v mod 128 + 128) # leb_encode n (v div 128))"

fun leb_decode :: "nat \<Rightarrow> bytes \<Rightarrow> (nat \<times> bytes) option" where
  "leb_decode 0 sl = None"
| "leb_decode (Suc n) [] = None"
| "leb_decode (Suc n) (b # sl) =
     (if unat b < 128 then Some (unat b, sl)
      else map_option (\<lambda>(v, rest). (unat b - 128 + 128 * v, rest)) (leb_decode n sl))"

lemma leb_roundtrip: "v < 128 ^ n \<Longrightarrow> 0 < n \<Longrightarrow> leb_decode n (leb_encode n v @ rest) = Some (v, rest)"
proof (induction n arbitrary: v)
  case (Suc n)
  show ?case
  proof (cases "v < 128")
    case True
    then show ?thesis by (simp add: unat_of_nat)
  next
    case False
    then have "v div 128 < 128 ^ n" using Suc.prems(1) by (simp add: less_mult_imp_div_less mult.commute)
    moreover have "0 < n" using False Suc.prems(1) by (cases n) auto
    ultimately have "leb_decode n (leb_encode n (v div 128) @ rest) = Some (v div 128, rest)" by (rule Suc.IH)
    moreover have "unat (word_of_nat (v mod 128 + 128) :: u8) = v mod 128 + 128"
    proof -
      have "v mod 128 < 128" by simp
      then have "v mod 128 + 128 < 256" by linarith
      then show ?thesis by (simp add: unat_of_nat del: of_nat_add)
    qed
    ultimately show ?thesis using False by simp
  qed
qed simp

lemma leb_decode_shrinks: "leb_decode n sl = Some (v, rest) \<Longrightarrow> length rest < length sl"
  by (induction n sl arbitrary: v rest rule: leb_decode.induct) (fastforce split: if_splits)+

text \<open>Bits of a byte from the least significant one on.\<close>

fun bits_of :: "bytes \<Rightarrow> bool list" where
  "bits_of [] = []"
| "bits_of (b # bs) = map (bit b) [0..<8] @ bits_of bs"

definition byte_of :: "bool list \<Rightarrow> u8" where
  "byte_of bs = word_of_nat (foldr (\<lambda>b acc. of_bool b + 2 * acc) (take 8 bs) 0)"

fun bytes_of_fuel :: "nat \<Rightarrow> bool list \<Rightarrow> bytes" where
  "bytes_of_fuel 0 bs = []"
| "bytes_of_fuel (Suc n) bs = (if bs = [] then [] else byte_of bs # bytes_of_fuel n (drop 8 bs))"

definition bytes_of :: "bool list \<Rightarrow> bytes" where
  "bytes_of bs = bytes_of_fuel (length bs) bs"

lemma length_bits_of [simp]: "length (bits_of bs) = 8 * length bs"
  by (induction bs) simp_all

definition leb_codec :: "u8 codec" where
  "leb_codec = \<lparr>cd_encode_varint = leb_encode 10, cd_decode_varint = leb_decode 10,
     cd_serialize = (\<lambda>e. [e, 0, 0, 0]),
     cd_deserialize = (\<lambda>bs. case bs of [e, _, _, _] \<Rightarrow> Some e | _ \<Rightarrow> None),
     cd_hash = from_be \<circ> take 8, cd_into_vec = bytes_of, cd_from_vec = bits_of\<rparr>"

lemma byte_of_bits:
  assumes "k < length bs" "k < 8"
  shows "bit (byte_of bs) k = bs ! k"
proof -
  have gen: "bit (foldr (\<lambda>b acc. of_bool b + 2 * acc) xs 0 :: nat) k \<longleftrightarrow> k < length xs \<and> xs ! k" for xs k
  proof (induction xs arbitrary: k)
    case (Cons x xs)
    then show ?case by (cases k) (auto simp: bit_Suc bit_0)
  qed simp
  show ?thesis using assms gen [of "take 8 bs" k]
    bit_word_of_int_iff [where 'a = 8, of "int (foldr (\<lambda>b acc. of_bool b + 2 * acc) (take 8 bs) 0)" k]
    by (simp add: byte_of_def bit_of_nat_iff_bit del: of_nat_mult of_nat_add)
qed

lemma bits_of_bytes_of_fuel: "length bs \<le> n \<Longrightarrow> take (length bs) (bits_of (bytes_of_fuel n bs)) = bs"
proof (induction n arbitrary: bs)
  case (Suc n)
  show ?case
  proof (cases "bs = []")
    case False
    have "length (drop 8 bs) \<le> n" using False Suc.prems by (cases bs) auto
    then have "take (length (drop 8 bs)) (bits_of (bytes_of_fuel n (drop 8 bs))) = drop 8 bs" by (rule Suc.IH)
    moreover have "take (length bs) (map (bit (byte_of bs)) [0..<8]) = take 8 bs"
      by (rule nth_equalityI) (auto simp: byte_of_bits)
    ultimately show ?thesis using False by simp
  qed simp
qed simp

lemma length_bytes_of_fuel: "length bs \<le> n \<Longrightarrow> length (bytes_of_fuel n bs) = (length bs + 7) div 8"
proof (induction n arbitrary: bs)
  case (Suc n)
  show ?case
  proof (cases "bs = []")
    case False
    then have "length (drop 8 bs) \<le> n" "0 < length bs" using Suc.prems by (cases bs; simp)+
    then show ?thesis using Suc.IH [of "drop 8 bs"] False by (cases "length bs \<le> 8") (auto simp: div_if)
  qed simp
qed simp

interpretation leb: codec_laws leb_codec
proof
  fix v :: nat and rest :: bytes and e :: u8 and bits :: "bool list" and vec :: bytes
  show "v < u64_modulus \<Longrightarrow> cd_decode_varint leb_codec (cd_encode_varint leb_codec v @ rest) = Some (v, rest)"
    using leb_roundtrip [of v 10 rest] by (simp add: leb_codec_def)
  show "cd_decode_varint leb_codec sl = Some (v, rest) \<Longrightarrow> length rest < length sl" for sl
    by (simp add: leb_codec_def leb_decode_shrinks)
  show "v < 128 \<Longrightarrow> cd_encode_varint leb_codec v = [word_of_nat v]"
    by (simp add: leb_codec_def numeral_eq_Suc)
  show "cd_deserialize leb_codec (cd_serialize leb_codec e) = Some e" "cd_serialize leb_codec e \<noteq> []"
    "length (cd_serialize leb_codec e) < u64_modulus"
    by (simp_all add: leb_codec_def)
  show "take (length bits) (cd_from_vec leb_codec (cd_into_vec leb_codec bits)) = bits"
    by (simp add: leb_codec_def bytes_of_def bits_of_bytes_of_fuel)
  show "length (cd_into_vec leb_codec bits) = (length bits + 7) div 8"
    by (simp add: leb_codec_def bytes_of_def length_bytes_of_fuel)
  show "length (cd_from_vec leb_codec vec) = 8 * length vec"
    by (simp add: leb_codec_def)
qed

section \<open>Properties\<close>

text \<open>
  The value of the slot index round-trips: a confirmed block comes back as it was, negative
  block times included, and a dead slot as dead with default fields.
\<close>

lemma slot_basic_index_roundtrip:
  assumes "codec_laws c" and "sbv_ok v"
  shows "SlotBasicIndexValue_decode c (SlotBasicIndexValue_encode c v) =
    Inr (if sbv_dead v then SlotBasicIndexValue_default\<lparr>sbv_dead := True\<rparr> else v)"
  using assms by (rule codec_laws.slot_basic_roundtrip)

text \<open>
  The value of the transaction index round-trips, with and without an error, and without the
  error when the caller does not ask for it; and a record of an older version, written without
  the index, decodes to the same value with index zero. The ambiguity between the length of an
  error and a bare index is never decided wrongly.
\<close>

lemma transaction_index_value_roundtrip:
  assumes "codec_laws c" and "tiv_ok v"
  shows "TransactionIndexValue_decode c (TransactionIndexValue_encode c v) dec_err =
      Inr (if dec_err then v else v\<lparr>tiv_err := None\<rparr>) \<and>
    TransactionIndexValue_decode c (cd_encode_varint c (tiv_slot v) @ cd_encode_varint c (tiv_offset v) @
      cd_encode_varint c (tiv_size v) @ put_error c (tiv_err v)) True = Inr (v\<lparr>tiv_index := 0\<rparr>)"
  using codec_laws.transaction_index_roundtrip [OF assms] codec_laws.transaction_index_old [OF assms(1), of "v\<lparr>tiv_index := 0\<rparr>"] assms(2)
  by (simp add: tiv_ok_def)

text \<open>
  C37. The value of the address index round-trips: decoding entry by entry until the bytes are used
  up gives back the list of signature statuses, and it always ends.
\<close>

theorem sfa_index_value_roundtrip:
  assumes "codec_laws c" and "\<forall>s \<in> set ss. sg_ok s"
  shows "sfa_decode_all (Suc (length ss)) c (SfaIndexValue_encode c ss) = Some (Inr ss)"
  using codec_laws.sfa_roundtrip [OF assms] by blast

definition demo_status :: "u8 SignatureStatus" where
  "demo_status = \<lparr>sg_signature = replicate 64 1, sg_err = Some 3, sg_memo = Some [104, 105], sg_transaction_index = 2,
     sg_is_token_owner = True, sg_token_balance_changed = False\<rparr>"

theorem sfa_index_value_roundtrip_witness:
  "sg_ok demo_status \<and>
   sfa_decode_all 3 leb_codec (SfaIndexValue_encode leb_codec [demo_status, demo_status]) = Some (Inr [demo_status, demo_status])"
proof -
  have ok: "sg_ok demo_status" by (simp add: sg_ok_def demo_status_def)
  then show ?thesis
    using sfa_index_value_roundtrip [OF leb.codec_laws_axioms, of "[demo_status, demo_status]"] by (simp add: numeral_3_eq_3)
qed

text \<open>
  The value of the slot's extra index (the hashes of its transactions and addresses)
  round-trips.
\<close>

lemma slot_extra_index_roundtrip:
  assumes "codec_laws c" and "\<forall>h \<in> set (sev_transactions v @ sev_sfa v). length h = 8"
    and "8 * length (sev_transactions v) \<le> 9223372036854775807" and "8 * length (sev_sfa v) \<le> 9223372036854775807"
  shows "SlotExtraIndexValue_decode c (SlotExtraIndexValue_encode c v) = Inr v"
  using codec_laws.slot_extra_roundtrip [OF assms(1)] assms(2-4) by simp

text \<open>
  Inflation rewards round-trip. The reward of an address comes back as it was when the basis
  points are only set with the commission; the base value comes back with its bits, followed by
  padding up to a whole byte.
\<close>

lemma inflation_reward_roundtrip:
  assumes "codec_laws c" and "ir_epoch r < u64_modulus" and "ir_effective_slot r < u64_modulus"
    and "ir_amount r < u64_modulus" and "ir_post_balance r < u64_modulus"
    and "\<And>b. ir_commission_bps r = Some b \<Longrightarrow> b < 65536 \<and> ir_commission r \<noteq> None"
    and "irb_slot v < u64_modulus" and "\<And>h. irb_block_height v = Some h \<Longrightarrow> h < u64_modulus"
    and "length (irb_previous_blockhash v) = 32" and "\<And>n. irb_num_reward_partitions v = Some n \<Longrightarrow> n < u64_modulus"
    and "length (irb_partitions v) < u64_modulus"
  shows "InflationRewardAddressValue_decode c (InflationRewardAddressValue_encode c r) = Inr r \<and>
    (\<exists>pad. InflationRewardBaseValue_decode c (InflationRewardBaseValue_encode c v) =
       Inr (v\<lparr>irb_partitions := irb_partitions v @ pad\<rparr>))"
  using codec_laws.inflation_address_roundtrip [OF assms(1-6)] codec_laws.inflation_base_roundtrip [OF assms(1,7-11)] by blast

text \<open>
  The keys of the database sort as the slots they encode, and decode back: iterating a column
  visits the slots in increasing order, and the entries of one address by slot.
\<close>

lemma slot_keys_ordered:
  assumes "a < u64_modulus" and "b < u64_modulus" and "length h = 8"
  shows "(slot_key a < slot_key b \<longleftrightarrow> a < b) \<and> slot_decode (slot_key a) = Inr a \<and>
    (SfaIndex_concat h a < SfaIndex_concat h b \<longleftrightarrow> a < b) \<and> SfaIndex_decode (SfaIndex_concat h a) = Inr (h, a)"
proof -
  have ab: "a < 256 ^ 8" "b < 256 ^ 8" using assms by simp_all
  have app: "h @ xs < h @ ys \<longleftrightarrow> xs < ys" for xs ys :: bytes by (induction h) auto
  show ?thesis using be_bytes_less [OF ab] ab assms(3)
    by (simp add: slot_key_def slot_decode_def SfaIndex_concat_def SfaIndex_decode_def app ensure_def)
qed

end
