(* ===== verification/Alp_Rocksdb.thy ===== *)
theory Alp_Rocksdb
  imports Alp_Codec Alp_Files
begin

text \<open>
  The database side of the store (src/src/storage/rocksdb.rs): the requests of the write thread,
  the requests of the read threads, and the three operations of \<open>RocksdbWrite\<close> that keep the block
  files, the database and the block index together.

  RocksDB is a parameter: the record \<open>kv\<close> of the calls the code makes, each with its result; the
  laws are those of \<open>kv_laws\<close>. A request is sent to the thread that owns the database and its
  answer awaited, so a request is a call here; the threads are taken to be alive.
\<close>

section \<open>RocksDB\<close>

datatype batch_op = PutCf column bytes bytes | DeleteCf column bytes

record 'db kv =
  kv_get :: "column \<Rightarrow> bytes \<Rightarrow> 'db \<Rightarrow> bytes option result"
  kv_write :: "batch_op list \<Rightarrow> 'db \<Rightarrow> unit result \<times> 'db"
  kv_iter :: "column \<Rightarrow> 'db \<Rightarrow> (bytes \<times> bytes) result list"
  kv_iter_from :: "column \<Rightarrow> bytes \<Rightarrow> bool \<Rightarrow> 'db \<Rightarrow> (bytes \<times> bytes) result list"

section \<open>Write requests\<close>

datatype 'e WriteRequest =
    AddIndexes Slot "'e BlockWithBinary"
  | SlotAdd Slot "('e BlockWithBinary \<times> StorageId \<times> nat) option"
  | SlotRemove Slot bool
  | InflationRewardBase nat Slot "Slot option" bytes "nat option" "(Pubkey, RpcInflationReward) hmap"
  | InflationRewardPartition nat nat "(Pubkey, RpcInflationReward) hmap"

definition add_indexes_batch :: "'e codec \<Rightarrow> Slot \<Rightarrow> 'e BlockWithBinary \<Rightarrow> batch_op list" where
  "add_indexes_batch c slot block =
     PutCf SlotExtraIndex (slot_key slot)
       (SlotExtraIndexValue_encode c
          \<lparr>sev_transactions = map to_key (bl_txs_offset block),
           sev_sfa = map (sfa_address_hash \<circ> snd) (bl_sfa block)\<rparr>) #
     map (\<lambda>txo. PutCf TransactionIndex (to_key txo)
            (TransactionIndexValue_encode c
               \<lparr>tiv_slot = slot, tiv_offset = to_offset txo, tiv_size = to_size txo,
                tiv_err = to_err txo, tiv_index = to_index txo\<rparr>)) (bl_txs_offset block) @
     map (\<lambda>(_, sfa). PutCf SfaIndex (sfa_key sfa) (SfaIndexValue_encode c (sfa_signatures sfa))) (bl_sfa block)"

definition slot_value :: "('e BlockWithBinary \<times> StorageId \<times> nat) option \<Rightarrow> SlotBasicIndexValue" where
  "slot_value data = (case data of
       Some (block, storage_id, offset) \<Rightarrow>
         \<lparr>sbv_dead = False, sbv_block_time = bl_block_time block, sbv_block_height = bl_block_height block,
          sbv_storage_id = storage_id, sbv_offset = offset, sbv_size = length (bl_protobuf block)\<rparr>
     | None \<Rightarrow> SlotBasicIndexValue_default\<lparr>sbv_dead := True\<rparr>)"

definition spawn_remove_slot :: "'e codec \<Rightarrow> 'db kv \<Rightarrow> Slot \<Rightarrow> bool \<Rightarrow> 'db \<Rightarrow> unit result \<times> 'db" where
  "spawn_remove_slot c kv slot dead db =
     (let batch = [DeleteCf SlotBasicIndex (slot_key slot)]
      in if dead then kv_write kv batch db
         else
           case kv_get kv SlotExtraIndex (slot_key slot) db of
             Inl e \<Rightarrow> (Inl e, db)
           | Inr None \<Rightarrow> (Inl (Err ''existed slot not found''), db)
           | Inr (Some value) \<Rightarrow>
               (case SlotExtraIndexValue_decode c value of
                  Inl e \<Rightarrow> (Inl e, db)
                | Inr block \<Rightarrow>
                    kv_write kv (batch @ [DeleteCf SlotExtraIndex (slot_key slot)] @
                      map (DeleteCf TransactionIndex) (sev_transactions block) @
                      map (\<lambda>hash. DeleteCf SfaIndex (SfaIndex_concat hash slot)) (sev_sfa block)) db))"

definition spawn_push_reward ::
  "'e codec \<Rightarrow> 'db kv \<Rightarrow> nat \<Rightarrow> InflationRewardBaseValue \<Rightarrow> (Pubkey, RpcInflationReward) hmap \<Rightarrow> 'db \<Rightarrow>
     unit result \<times> 'db" where
  "spawn_push_reward c kv epoch base reward_map db =
     kv_write kv
       (PutCf InflationRewardIndex (ir_encode_base epoch) (InflationRewardBaseValue_encode c base) #
        map (\<lambda>(pubkey, reward). PutCf InflationRewardIndex (ir_encode_reward epoch pubkey)
               (InflationRewardAddressValue_encode c reward)) reward_map) db"

text \<open>\<open>BitVec::set\<close> panics when the index is not below the length.\<close>

definition spawn_push_partition_reward ::
  "'e codec \<Rightarrow> 'db kv \<Rightarrow> nat \<Rightarrow> nat \<Rightarrow> (Pubkey, RpcInflationReward) hmap \<Rightarrow> 'db \<Rightarrow> unit result \<times> 'db" where
  "spawn_push_partition_reward c kv epoch partition_index reward_map db =
     (case kv_get kv InflationRewardIndex (ir_encode_base epoch) db of
        Inl e \<Rightarrow> (Inl e, db)
      | Inr None \<Rightarrow> (Inl (Err ''existed epoch not found''), db)
      | Inr (Some value) \<Rightarrow>
          (case InflationRewardBaseValue_decode c value of
             Inl e \<Rightarrow> (Inl e, db)
           | Inr base \<Rightarrow>
               if \<not> partition_index \<le> length (irb_partitions base)
               then (Inl (Err ''not enough partitions''), db)
               else if \<not> partition_index < length (irb_partitions base)
               then (Inl (Panic ''index out of range''), db)
               else spawn_push_reward c kv epoch
                      (base\<lparr>irb_partitions := (irb_partitions base)[partition_index := True]\<rparr>) reward_map db))"

fun handle_write :: "'e codec \<Rightarrow> 'db kv \<Rightarrow> 'e WriteRequest \<Rightarrow> 'db \<Rightarrow> unit result \<times> 'db" where
  "handle_write c kv (AddIndexes slot block) db = kv_write kv (add_indexes_batch c slot block) db"
| "handle_write c kv (SlotAdd slot data) db =
     kv_write kv [PutCf SlotBasicIndex (slot_key slot) (SlotBasicIndexValue_encode c (slot_value data))] db"
| "handle_write c kv (SlotRemove slot dead) db = spawn_remove_slot c kv slot dead db"
| "handle_write c kv (InflationRewardBase epoch slot block_height previous_blockhash num reward_map) db =
     spawn_push_reward c kv epoch
       (InflationRewardBaseValue_new slot block_height previous_blockhash num) reward_map db"
| "handle_write c kv (InflationRewardPartition epoch partition_index reward_map) db =
     spawn_push_partition_reward c kv epoch partition_index reward_map db"

section \<open>RocksdbWrite: the block store\<close>

record ('e, 'db) block_store =
  st_blocks :: "'e StoredBlocksWrite"
  st_files :: StorageFilesWrite
  st_disk :: disk
  st_db :: 'db

definition send_write ::
  "'e codec \<Rightarrow> 'db kv \<Rightarrow> 'e WriteRequest \<Rightarrow> ('e, 'db) block_store \<Rightarrow> unit result \<times> ('e, 'db) block_store" where
  "send_write c kv req st =
     (let (r, db) = handle_write c kv req (st_db st) in (r, st\<lparr>st_db := db\<rparr>))"

definition store_pop_block ::
  "'e codec \<Rightarrow> 'db kv \<Rightarrow> VecSide \<Rightarrow> ('e, 'db) block_store \<Rightarrow> unit result \<times> ('e, 'db) block_store" where
  "store_pop_block c kv side st =
     (case (case side of Back \<Rightarrow> pop_block_back (st_blocks st) | Front \<Rightarrow> pop_block_front (st_blocks st)) of
        (None, blocks) \<Rightarrow> (Inl (Err ''no blocks to remove from front''), st\<lparr>st_blocks := blocks\<rparr>)
      | (Some block, blocks) \<Rightarrow>
          let st = st\<lparr>st_blocks := send_sync
                 (case side of Back \<Rightarrow> ConfirmedBlockPopBack | Front \<Rightarrow> ConfirmedBlockPopFront) blocks\<rparr>
          in (case send_write c kv (SlotRemove (sb_slot block) (sb_dead block)) st of
                (Inl e, st) \<Rightarrow> (Inl e, st)
              | (Inr _, st) \<Rightarrow>
                  if sb_size block = 0 then (Inr (), st)
                  else let (r, files) = files_pop_block side block (st_files st)
                       in (r, st\<lparr>st_files := files\<rparr>)))"

definition store_pop_block_back where "store_pop_block_back c kv = store_pop_block c kv Back"

definition store_pop_block_front where "store_pop_block_front c kv = store_pop_block c kv Front"

definition push_index ::
  "('e StoredBlocksWrite \<Rightarrow> unit result \<times> 'e StoredBlocksWrite) \<Rightarrow> ('e, 'db) block_store \<Rightarrow>
     unit result \<times> ('e, 'db) block_store" where
  "push_index f st = (let (r, blocks) = f (st_blocks st) in (r, st\<lparr>st_blocks := blocks\<rparr>))"

text \<open>The checks of the slot and of the height at the start of the two pushes.\<close>

definition check_slot :: "Slot option \<Rightarrow> Slot \<Rightarrow> string \<Rightarrow> unit result" where
  "check_slot next_slot slot msg =
     (case next_slot of Some s \<Rightarrow> ensure (s = slot) msg | None \<Rightarrow> Inr ())"

definition check_height ::
  "(Slot \<times> Slot) option result \<Rightarrow> 'e BlockWithBinary option \<Rightarrow> (Slot \<Rightarrow> Slot \<Rightarrow> bool) \<Rightarrow> string \<Rightarrow> unit result" where
  "check_height height block ok msg =
     bind_result height (\<lambda>h. case (h, block) of
         (Some (_, edge_height), Some b) \<Rightarrow>
           (case bl_block_height b of
              None \<Rightarrow> Inl (Panic ''should have height'')
            | Some block_height \<Rightarrow> ensure (ok block_height edge_height) msg)
       | _ \<Rightarrow> Inr ())"

text \<open>
  \<open>push_block_back\<close>. The result is whether there was room. The block file and the indexes are
  written concurrently; they touch different state, and the first error wins.
\<close>

definition store_push_block_back ::
  "'e codec \<Rightarrow> 'db kv \<Rightarrow> io_outcome \<Rightarrow> Slot \<Rightarrow> 'e BlockWithBinary option \<Rightarrow> ('e, 'db) block_store \<Rightarrow>
     (bool result \<times> ('e, 'db) block_store) option" where
  "store_push_block_back c kv io slot block st =
     (case bind_result
             (check_slot (map_option (\<lambda>s. sub64 s 1) (get_back_slot (st_blocks st))) slot ''trying to push back invalid slot'')
             (\<lambda>_. check_height (get_back_height (st_blocks st)) block
                    (\<lambda>height back_height. add64 height 1 = back_height)
                    ''trying to push back block with invalid height'') of
        Inl e \<Rightarrow> Some (Inl e, st)
      | Inr _ \<Rightarrow>
          if is_full (st_blocks st) then Some (Inr False, st)
          else
            case block of
              None \<Rightarrow>
                (case send_write c kv (SlotAdd slot None) st of
                   (Inl e, st) \<Rightarrow> Some (Inl e, st)
                 | (Inr _, st) \<Rightarrow>
                     let (r, st) = push_index (push_block_back_dead slot) st
                     in Some (bind_result r (\<lambda>_. Inr True), st))
            | Some b \<Rightarrow>
                (case files_push_block_back io (bl_protobuf b) (st_files st, st_disk st) of
                   None \<Rightarrow> None
                 | Some (rf, files, d) \<Rightarrow>
                     let (ri, st) = send_write c kv (AddIndexes slot b) (st\<lparr>st_files := files, st_disk := d\<rparr>)
                     in (case bind_result rf (\<lambda>loc. bind_result ri (\<lambda>_. Inr loc)) of
                           Inl e \<Rightarrow> Some (Inl e, st)
                         | Inr None \<Rightarrow> Some (Inr False, st)
                         | Inr (Some (storage_id, offset)) \<Rightarrow>
                             (case send_write c kv (SlotAdd slot (Some (b, storage_id, offset))) st of
                                (Inl e, st) \<Rightarrow> Some (Inl e, st)
                              | (Inr _, st) \<Rightarrow>
                                  let (r, st) = push_index (push_block_back_confirmed slot (bl_block_time b)
                                        (bl_block_height b) storage_id offset (length (bl_protobuf b))) st
                                  in Some (bind_result r (\<lambda>_. Inr True), st)))))"

text \<open>
  The concurrent part of \<open>push_block_front\<close>: blocks are popped until a file takes the new block,
  and the indexes are added at some moment: \<open>Some k\<close> says after \<open>k\<close> more pops, or when the block
  is stored if that is earlier; \<open>None\<close> says that they have been added.
\<close>

fun front_store_loop ::
  "nat \<Rightarrow> nat option \<Rightarrow> 'e codec \<Rightarrow> 'db kv \<Rightarrow> io_outcome \<Rightarrow> Slot \<Rightarrow> 'e BlockWithBinary \<Rightarrow> ('e, 'db) block_store \<Rightarrow>
     ((StorageId \<times> nat) result \<times> ('e, 'db) block_store) option" where
  "front_store_loop 0 k c kv io slot b st = None"
| "front_store_loop (Suc fuel) k c kv io slot b st =
     (case (if k = Some 0 then send_write c kv (AddIndexes slot b) st else (Inr (), st)) of
        (Inl e, st) \<Rightarrow> Some (Inl e, st)
      | (Inr _, st) \<Rightarrow>
          let k = (if k = Some 0 then None else k)
          in case files_push_block_front io (bl_protobuf b) (st_files st, st_disk st) of
             None \<Rightarrow> None
           | Some (Inl e, files, d) \<Rightarrow> Some (Inl e, st\<lparr>st_files := files, st_disk := d\<rparr>)
           | Some (Inr (Some loc), files, d) \<Rightarrow>
               (let st = st\<lparr>st_files := files, st_disk := d\<rparr>
                in if k = None then Some (Inr loc, st)
                   else (case send_write c kv (AddIndexes slot b) st of
                           (Inl e, st) \<Rightarrow> Some (Inl e, st)
                         | (Inr _, st) \<Rightarrow> Some (Inr loc, st)))
           | Some (Inr None, files, d) \<Rightarrow>
               (case store_pop_block_back c kv (st\<lparr>st_files := files, st_disk := d\<rparr>) of
                  (Inl e, st) \<Rightarrow> Some (Inl e, st)
                | (Inr _, st) \<Rightarrow> front_store_loop fuel (map_option (\<lambda>n. n - 1) k) c kv io slot b st))"

definition store_push_block_front ::
  "nat \<Rightarrow> 'e codec \<Rightarrow> 'db kv \<Rightarrow> io_outcome \<Rightarrow> Slot \<Rightarrow> 'e BlockWithBinary option \<Rightarrow> ('e, 'db) block_store \<Rightarrow>
     (unit result \<times> ('e, 'db) block_store) option" where
  "store_push_block_front k c kv io slot block st =
     (case get_front_height (st_blocks st) of
        None \<Rightarrow> None
      | Some front_height \<Rightarrow>
     (case bind_result
             (check_slot (map_option (\<lambda>s. add64 s 1) (get_front_slot (st_blocks st))) slot ''trying to push front invalid slot'')
             (\<lambda>_. check_height front_height block
                    (\<lambda>height front_height. add64 front_height 1 = height)
                    ''trying to push front block with invalid height'') of
        Inl e \<Rightarrow> Some (Inl e, st)
      | Inr _ \<Rightarrow>
     (case (if is_full (st_blocks st) then store_pop_block_back c kv st else (Inr (), st)) of
        (Inl e, st) \<Rightarrow> Some (Inl e, st)
      | (Inr _, st) \<Rightarrow>
          (case block of
             None \<Rightarrow>
               (case send_write c kv (SlotAdd slot None) st of
                  (Inl e, st) \<Rightarrow> Some (Inl e, st)
                | (Inr _, st) \<Rightarrow> Some (push_index (push_block_front_dead slot) st))
           | Some b \<Rightarrow>
               (case front_store_loop (length (wb_blocks (st_blocks st)) + 2) (Some k) c kv io slot b st of
                  None \<Rightarrow> None
                | Some (Inl e, st) \<Rightarrow> Some (Inl e, st)
                | Some (Inr (storage_id, offset), st) \<Rightarrow>
                    (case send_write c kv (SlotAdd slot (Some (b, storage_id, offset))) st of
                       (Inl e, st) \<Rightarrow> Some (Inl e, st)
                     | (Inr _, st) \<Rightarrow>
                         Some (push_index (push_block_front_confirmed slot (bl_block_time b)
                           (bl_block_height b) storage_id offset (length (bl_protobuf b))) st)))))))"

section \<open>Read requests\<close>

definition stored_block_of :: "Slot \<Rightarrow> SlotBasicIndexValue \<Rightarrow> StoredBlock" where
  "stored_block_of slot value =
     \<lparr>sb_exists = True, sb_dead = sbv_dead value, sb_slot = slot, sb_block_time = sbv_block_time value,
      sb_block_height = sbv_block_height value, sb_storage_id = sbv_storage_id value,
      sb_offset = sbv_offset value, sb_size = sbv_size value\<rparr>"

fun slots_loop ::
  "'e codec \<Rightarrow> (bytes \<times> bytes) result list \<Rightarrow> Slot option \<Rightarrow> StoredBlock list \<Rightarrow> StoredBlock list result" where
  "slots_loop c [] current_slot slots = Inr slots"
| "slots_loop c (item # items) current_slot slots =
     bind_result item (\<lambda>(key, value).
     bind_result (slot_decode key) (\<lambda>slot.
     bind_result (SlotBasicIndexValue_decode c value) (\<lambda>value.
     bind_result (check_slot (map_option (\<lambda>s. add64 s 1) current_slot) slot
         ''failed to load slots from index, found a hole'') (\<lambda>_.
     slots_loop c items (Some slot) (slots @ [stored_block_of slot value])))))"

definition spawn_slots :: "'e codec \<Rightarrow> 'db kv \<Rightarrow> 'db \<Rightarrow> StoredBlock list result" where
  "spawn_slots c kv db = slots_loop c (kv_iter kv SlotBasicIndex db) None []"

definition read_transaction :: "'e codec \<Rightarrow> 'db kv \<Rightarrow> Signature \<Rightarrow> 'db \<Rightarrow> 'e TransactionIndexValue option result" where
  "read_transaction c kv signature db =
     (case kv_get kv TransactionIndex (TransactionIndex_encode c signature) db of
        Inr (Some sl) \<Rightarrow> bind_result (TransactionIndexValue_decode c sl False) (\<lambda>v. Inr (Some v))
      | Inr None \<Rightarrow> Inr None
      | Inl e \<Rightarrow> Inl (Err ''failed to get tx location''))"

text \<open>The loop over the entries of one value, with the bytes left; at most one entry per byte.\<close>

fun sfa_position_loop :: "nat \<Rightarrow> 'e codec \<Rightarrow> Signature \<Rightarrow> bytes \<Rightarrow> nat option result option" where
  "sfa_position_loop 0 c signature sl = None"
| "sfa_position_loop (Suc fuel) c signature sl =
     (case SfaIndexValue_decode c sl of
        Inl e \<Rightarrow> Some (Inl e)
      | Inr (None, _) \<Rightarrow> Some (Inr None)
      | Inr (Some sigstatus, sl) \<Rightarrow>
          if sg_signature sigstatus = signature then Some (Inr (Some (sg_transaction_index sigstatus)))
          else sfa_position_loop fuel c signature sl)"

definition spawn_sfa_position :: "'e codec \<Rightarrow> 'db kv \<Rightarrow> Pubkey \<Rightarrow> Slot \<Rightarrow> Signature \<Rightarrow> 'db \<Rightarrow> nat option result option" where
  "spawn_sfa_position c kv address slot signature db =
     (case kv_get kv SfaIndex (SfaIndex_encode c address slot) db of
        Inl e \<Rightarrow> Some (Inl e)
      | Inr None \<Rightarrow> Some (Inr None)
      | Inr (Some value) \<Rightarrow> sfa_position_loop (Suc (length value)) c signature value)"

text \<open>
  \<open>RpcConfirmedTransactionStatusWithSignature\<close>; the signature is kept as bytes, the code prints it
  in base 58.
\<close>

record 'e RpcConfirmedTransactionStatusWithSignature =
  rc_signature :: Signature
  rc_slot :: Slot
  rc_err :: "'e option"
  rc_memo :: "bytes option"
  rc_block_time :: "UnixTimestamp option"
  rc_confirmation_status :: "TransactionConfirmationStatus option"
  rc_transaction_index :: "nat option"

definition rc_of :: "Slot \<Rightarrow> 'e SignatureStatus \<Rightarrow> 'e RpcConfirmedTransactionStatusWithSignature" where
  "rc_of slot s = \<lparr>rc_signature = sg_signature s, rc_slot = slot, rc_err = sg_err s, rc_memo = sg_memo s,
     rc_block_time = None, rc_confirmation_status = None, rc_transaction_index = Some (sg_transaction_index s)\<rparr>"

record 'e sfa_scan =
  sc_before :: "Signature option"
  sc_signatures :: "'e RpcConfirmedTransactionStatusWithSignature list"
  sc_finished :: bool

text \<open>
  The two nested loops of \<open>spawn_signatires_for_address\<close>: the inner one stops both (\<open>True\<close>) at
  \<open>until\<close> and when the vector of \<open>cap\<close> entries is full.
\<close>

fun sfa_inner ::
  "nat \<Rightarrow> 'e codec \<Rightarrow> nat \<Rightarrow> Signature \<Rightarrow> Slot \<Rightarrow> bytes \<Rightarrow> 'e sfa_scan \<Rightarrow> (bool \<times> 'e sfa_scan) result option" where
  "sfa_inner 0 c cap until slot sl s = None"
| "sfa_inner (Suc fuel) c cap until slot sl s =
     (case SfaIndexValue_decode c sl of
        Inl e \<Rightarrow> Some (Inl e)
      | Inr (None, _) \<Rightarrow> Some (Inr (False, s))
      | Inr (Some sigstatus, sl) \<Rightarrow>
          (case sc_before s of
             Some sigbefore \<Rightarrow>
               sfa_inner fuel c cap until slot sl
                 (if sg_signature sigstatus = sigbefore then s\<lparr>sc_before := None\<rparr> else s)
           | None \<Rightarrow>
               if sg_signature sigstatus = until then Some (Inr (True, s\<lparr>sc_finished := True\<rparr>))
               else
                 let s = s\<lparr>sc_signatures := sc_signatures s @ [rc_of slot sigstatus]\<rparr>
                 in if length (sc_signatures s) = cap then Some (Inr (True, s\<lparr>sc_finished := True\<rparr>))
                    else sfa_inner fuel c cap until slot sl s))"

fun sfa_outer ::
  "'e codec \<Rightarrow> nat \<Rightarrow> Signature \<Rightarrow> bytes \<Rightarrow> (bytes \<times> bytes) result list \<Rightarrow> 'e sfa_scan \<Rightarrow> 'e sfa_scan result option" where
  "sfa_outer c cap until hash [] s = Some (Inr s)"
| "sfa_outer c cap until hash (item # items) s =
     (case item of
        Inl e \<Rightarrow> Some (Inl e)
      | Inr (key, value) \<Rightarrow>
          (case SfaIndex_decode key of
             Inl e \<Rightarrow> Some (Inl e)
           | Inr (item_hash, slot) \<Rightarrow>
               if item_hash \<noteq> hash then Some (Inr s)
               else (case sfa_inner (Suc (length value)) c cap until slot value s of
                       None \<Rightarrow> None
                     | Some (Inl e) \<Rightarrow> Some (Inl e)
                     | Some (Inr (True, s)) \<Rightarrow> Some (Inr s)
                     | Some (Inr (False, s)) \<Rightarrow> sfa_outer c cap until hash items s)))"

definition spawn_signatires_for_address ::
  "'e codec \<Rightarrow> 'db kv \<Rightarrow> Pubkey \<Rightarrow> Slot \<Rightarrow> Signature option \<Rightarrow> Signature \<Rightarrow> nat \<Rightarrow>
     'e RpcConfirmedTransactionStatusWithSignature list \<Rightarrow> 'db \<Rightarrow>
     ('e RpcConfirmedTransactionStatusWithSignature list \<times> bool) result option" where
  "spawn_signatires_for_address c kv address slot before until cap signatures db =
     (let hash = address_hash c address; key = SfaIndex_concat hash slot
      in map_option (\<lambda>r. bind_result r (\<lambda>s. Inr (sc_signatures s, sc_finished s)))
           (sfa_outer c cap until hash (kv_iter_from kv SfaIndex key True db)
             \<lparr>sc_before = before, sc_signatures = signatures, sc_finished = False\<rparr>))"

text \<open>\<open>spawn_transactions_for_address\<close>.\<close>

record 'e tfa_scan =
  tc_cursor :: "nat option"
  tc_signatures :: "'e RpcConfirmedTransactionStatusWithSignature list"
  tc_indices :: "nat list"
  tc_flags :: "u8 list"
  tc_finished :: bool

definition token_flags :: "'e SignatureStatus \<Rightarrow> u8" where
  "token_flags s = or (flag 1 (sg_is_token_owner s)) (flag 2 (sg_token_balance_changed s))"

fun tfa_inner ::
  "nat \<Rightarrow> bool \<Rightarrow> Slot \<Rightarrow> 'e SignatureStatus list \<Rightarrow> 'e tfa_scan \<Rightarrow> bool \<times> 'e tfa_scan" where
  "tfa_inner cap desc slot [] s = (False, s)"
| "tfa_inner cap desc slot (sigstatus # rest) s =
     (let txidx = sg_transaction_index sigstatus;
          skip = (case tc_cursor s of
              Some cursor \<Rightarrow> if desc then cursor \<le> txidx else txidx \<le> cursor
            | None \<Rightarrow> False)
      in if skip then tfa_inner cap desc slot rest (if tc_cursor s = Some txidx then s\<lparr>tc_cursor := None\<rparr> else s)
         else
           let s = s\<lparr>tc_signatures := tc_signatures s @ [rc_of slot sigstatus],
                      tc_indices := tc_indices s @ [txidx],
                      tc_flags := tc_flags s @ [token_flags sigstatus]\<rparr>
           in if length (tc_signatures s) = cap then (True, s\<lparr>tc_finished := False\<rparr>)
              else tfa_inner cap desc slot rest s)"

fun tfa_outer ::
  "'e codec \<Rightarrow> nat \<Rightarrow> bool \<Rightarrow> Slot option \<Rightarrow> bytes \<Rightarrow> (bytes \<times> bytes) result list \<Rightarrow> 'e tfa_scan \<Rightarrow> 'e tfa_scan result option" where
  "tfa_outer c cap desc stop_slot hash [] s = Some (Inr s)"
| "tfa_outer c cap desc stop_slot hash (item # items) s =
     (case item of
        Inl e \<Rightarrow> Some (Inl e)
      | Inr (key, value) \<Rightarrow>
          (case SfaIndex_decode key of
             Inl e \<Rightarrow> Some (Inl e)
           | Inr (item_hash, item_slot) \<Rightarrow>
               if item_hash \<noteq> hash then Some (Inr s)
               else if (case stop_slot of
                     Some stop \<Rightarrow> if desc then item_slot < stop else stop < item_slot
                   | None \<Rightarrow> False) then Some (Inr s)
               else (case sfa_decode_all (Suc (length value)) c value of
                       None \<Rightarrow> None
                     | Some (Inl e) \<Rightarrow> Some (Inl e)
                     | Some (Inr entries) \<Rightarrow>
                         (case tfa_inner cap desc item_slot (if desc then entries else rev entries) s of
                            (True, s) \<Rightarrow> Some (Inr s)
                          | (False, s) \<Rightarrow> tfa_outer c cap desc stop_slot hash items s))))"

definition spawn_transactions_for_address ::
  "'e codec \<Rightarrow> 'db kv \<Rightarrow> Pubkey \<Rightarrow> Slot \<Rightarrow> bool \<Rightarrow> nat option \<Rightarrow> Slot option \<Rightarrow> nat \<Rightarrow>
     'e RpcConfirmedTransactionStatusWithSignature list \<Rightarrow> nat list \<Rightarrow> u8 list \<Rightarrow> 'db \<Rightarrow> 'e tfa_scan result option" where
  "spawn_transactions_for_address c kv address slot desc cursor stop_slot cap signatures indices flags db =
     (let hash = address_hash c address; key = SfaIndex_concat hash slot
      in tfa_outer c cap desc stop_slot hash (kv_iter_from kv SfaIndex key desc db)
           \<lparr>tc_cursor = cursor, tc_signatures = signatures, tc_indices = indices, tc_flags = flags, tc_finished = True\<rparr>)"

fun spawn_signature_statuses ::
  "'e codec \<Rightarrow> 'db kv \<Rightarrow> Signature list \<Rightarrow> 'db \<Rightarrow> (Signature \<times> 'e TransactionIndexValue) list result" where
  "spawn_signature_statuses c kv [] db = Inr []"
| "spawn_signature_statuses c kv (signature # signatures) db =
     bind_result (kv_get kv TransactionIndex (TransactionIndex_encode c signature) db) (\<lambda>sl.
     case sl of
       None \<Rightarrow> spawn_signature_statuses c kv signatures db
     | Some sl \<Rightarrow>
         bind_result (TransactionIndexValue_decode c sl True) (\<lambda>value.
         bind_result (spawn_signature_statuses c kv signatures db) (\<lambda>values. Inr ((signature, value) # values))))"

text \<open>
  \<open>spawn_inflation_reward\<close>; \<open>hasher n blockhash address\<close> stands for \<open>EpochRewardsHasher\<close> of the
  Solana crates, the partition of an address. The base value is fetched at most once, for the first
  address without a stored reward.
\<close>

record reward_scan =
  rs_rewards :: "RpcInflationReward option list"
  rs_missed :: "nat list"
  rs_base :: "InflationRewardBaseValue option"
  rs_base_fetched :: bool

definition reward_complete :: "(nat \<Rightarrow> bytes \<Rightarrow> Pubkey \<Rightarrow> nat) \<Rightarrow> InflationRewardBaseValue \<Rightarrow> Pubkey \<Rightarrow> bool" where
  "reward_complete hasher base address =
     (case irb_num_reward_partitions base of
        Some num_partitions \<Rightarrow>
          let partition_index = hasher num_partitions (irb_previous_blockhash base) address
          in partition_index < num_partitions \<and> partition_index < length (irb_partitions base) \<and>
             irb_partitions base ! partition_index
      | None \<Rightarrow> True)"

fun reward_loop ::
  "(nat \<Rightarrow> bytes \<Rightarrow> Pubkey \<Rightarrow> nat) \<Rightarrow> 'e codec \<Rightarrow> 'db kv \<Rightarrow> nat \<Rightarrow> 'db \<Rightarrow> (nat \<times> Pubkey) list \<Rightarrow> reward_scan \<Rightarrow> reward_scan result" where
  "reward_loop hasher c kv epoch db [] s = Inr s"
| "reward_loop hasher c kv epoch db ((index, address) # rest) s =
     bind_result (kv_get kv InflationRewardIndex (ir_encode_reward epoch address) db) (\<lambda>sl.
     case sl of
       Some sl \<Rightarrow>
         bind_result (InflationRewardAddressValue_decode c sl) (\<lambda>reward.
         reward_loop hasher c kv epoch db rest (s\<lparr>rs_rewards := (rs_rewards s)[index := Some reward]\<rparr>))
     | None \<Rightarrow>
         bind_result
           (if rs_base s = None \<and> \<not> rs_base_fetched s
            then bind_result (kv_get kv InflationRewardIndex (ir_encode_base epoch) db) (\<lambda>sl.
                 case sl of
                   None \<Rightarrow> Inr (s\<lparr>rs_base_fetched := True\<rparr>)
                 | Some sl \<Rightarrow> bind_result (InflationRewardBaseValue_decode c sl) (\<lambda>base.
                     Inr (s\<lparr>rs_base_fetched := True, rs_base := Some base\<rparr>)))
            else Inr s) (\<lambda>s.
         reward_loop hasher c kv epoch db rest
           (case rs_base s of
              Some base \<Rightarrow>
                if reward_complete hasher base address then s else s\<lparr>rs_missed := rs_missed s @ [index]\<rparr>
            | None \<Rightarrow> s\<lparr>rs_missed := rs_missed s @ [index]\<rparr>)))"

definition spawn_inflation_reward ::
  "(nat \<Rightarrow> bytes \<Rightarrow> Pubkey \<Rightarrow> nat) \<Rightarrow> 'e codec \<Rightarrow> 'db kv \<Rightarrow> nat \<Rightarrow> Pubkey list \<Rightarrow> 'db \<Rightarrow> reward_scan result" where
  "spawn_inflation_reward hasher c kv epoch addresses db =
     reward_loop hasher c kv epoch db (enumerate 0 addresses)
       \<lparr>rs_rewards = replicate (length addresses) None, rs_missed = [], rs_base = None, rs_base_fetched = False\<rparr>"

end
