(* ===== verification/Alp_Store.thy ===== *)
theory Alp_Store
  imports Alp_Rocksdb Alp_Codec_Laws Alp_Index_Read Alp_Files_Inv
begin

text \<open>
  The block store as a whole: the slot index in the database is, after every operation that
  succeeds, the list of blocks of the in-memory index, so that a restart rebuilds the same index.

  \<open>kv_laws\<close> is the contract of RocksDB: a view of each column as a sorted map, reads that either
  fail or answer by it, batches that are applied as a whole or not at all. \<open>store_laws\<close> joins it
  with the contract of the encodings.
\<close>

section \<open>The contract of the database\<close>

type_synonym kv_view = "column \<Rightarrow> (bytes, bytes) btree"

fun apply_op :: "batch_op \<Rightarrow> kv_view \<Rightarrow> kv_view" where
  "apply_op (PutCf col k v) m = m(col := bt_insert k v (m col))"
| "apply_op (DeleteCf col k) m = m(col := bt_remove k (m col))"

definition apply_batch :: "batch_op list \<Rightarrow> kv_view \<Rightarrow> kv_view" where
  "apply_batch ops m = foldl (\<lambda>m op. apply_op op m) m ops"

fun op_column :: "batch_op \<Rightarrow> column" where
  "op_column (PutCf col _ _) = col"
| "op_column (DeleteCf col _) = col"

locale kv_laws =
  fixes kv :: "'db kv"
    and view :: "'db \<Rightarrow> kv_view"
    and healthy :: "'db \<Rightarrow> bool"
  assumes view_sorted: "healthy db \<Longrightarrow> bt_ok (view db col)"
    and get_view: "healthy db \<Longrightarrow> kv_get kv col k db = Inr v \<Longrightarrow> v = bt_get (view db col) k"
    and iter_view: "healthy db \<Longrightarrow> kv_iter kv col db = map Inr (view db col)"
    and iter_from_view: "healthy db \<Longrightarrow> kv_iter_from kv col k desc db =
      map Inr (if desc then rev (filter (\<lambda>e. fst e \<le> k) (view db col)) else filter (\<lambda>e. k \<le> fst e) (view db col))"
    and write_atomic: "healthy db \<Longrightarrow> kv_write kv batch db = (r, db') \<Longrightarrow>
      healthy db' \<and> view db' = (if is_ok r then apply_batch batch (view db) else view db)"

locale store_laws = codec_laws c + kv_laws kv view healthy
  for c :: "'e codec" and kv :: "'db kv" and view :: "'db \<Rightarrow> kv_view" and healthy :: "'db \<Rightarrow> bool"

lemma apply_batch_simps [simp]:
  "apply_batch [] m = m"
  "apply_batch (op # ops) m = apply_batch ops (apply_op op m)"
  by (simp_all add: apply_batch_def)

lemma apply_op_other [simp]: "op_column op \<noteq> col \<Longrightarrow> apply_op op m col = m col"
  by (cases op) auto

lemma apply_batch_other: "\<forall>op \<in> set ops. op_column op \<noteq> col \<Longrightarrow> apply_batch ops m col = m col"
  by (induction ops arbitrary: m) auto

lemma bt_insert_last: "\<forall>e \<in> set m. fst e < k \<Longrightarrow> bt_insert k v m = m @ [(k, v)]"
  by (induction k v m rule: bt_insert.induct) auto

lemma bt_insert_first: "\<forall>e \<in> set m. k < fst e \<Longrightarrow> bt_insert k v m = (k, v) # m"
  by (cases m) auto

section \<open>The slot index on disk\<close>

definition index_value :: "StoredBlock \<Rightarrow> SlotBasicIndexValue" where
  "index_value b = \<lparr>sbv_dead = sb_dead b, sbv_block_time = sb_block_time b, sbv_block_height = sb_block_height b,
     sbv_storage_id = sb_storage_id b, sbv_offset = sb_offset b, sbv_size = sb_size b\<rparr>"

definition disk_index :: "'e codec \<Rightarrow> StoredBlock list \<Rightarrow> (bytes, bytes) btree" where
  "disk_index c xs = map (\<lambda>b. (slot_key (sb_slot b), SlotBasicIndexValue_encode c (index_value b))) xs"

definition stored_ok :: "StoredBlock \<Rightarrow> bool" where
  "stored_ok b \<longleftrightarrow> sb_exists b \<and> sb_slot b < u64_MAX \<and> sbv_ok (index_value b) \<and>
     (sb_dead b \<longrightarrow> b = new_dead (sb_slot b))"

definition store_inv ::
  "'e codec \<Rightarrow> ('db \<Rightarrow> kv_view) \<Rightarrow> ('db \<Rightarrow> bool) \<Rightarrow> ('e, 'db) block_store \<Rightarrow> StoredBlock list \<Rightarrow> bool" where
  "store_inv c view healthy st xs \<longleftrightarrow> wb_rep (st_blocks st) xs \<and> slots_consecutive xs \<and>
     (\<forall>b \<in> set xs. stored_ok b) \<and> healthy (st_db st) \<and> view (st_db st) SlotBasicIndex = disk_index c xs"

lemma slot_key_less: "a < u64_modulus \<Longrightarrow> b < u64_modulus \<Longrightarrow> slot_key a < slot_key b \<longleftrightarrow> a < b"
  unfolding slot_key_def by (rule be_bytes_less) simp_all

lemma slot_key_eq: "a < u64_modulus \<Longrightarrow> b < u64_modulus \<Longrightarrow> slot_key a = slot_key b \<longleftrightarrow> a = b"
  unfolding slot_key_def by (rule be_bytes_inj) simp_all

lemma slot_decode_key: "a < u64_modulus \<Longrightarrow> slot_decode (slot_key a) = Inr a"
  by (simp add: slot_decode_def slot_key_def)

lemma stored_ok_slot: "stored_ok b \<Longrightarrow> sb_slot b < u64_modulus"
  by (simp add: stored_ok_def)

lemma disk_index_snoc:
  assumes "slots_consecutive (xs @ [b])" "\<forall>x \<in> set (xs @ [b]). stored_ok x"
  shows "bt_insert (slot_key (sb_slot b)) (SlotBasicIndexValue_encode c (index_value b)) (disk_index c xs) =
    disk_index c (xs @ [b])"
proof -
  have "sb_slot x < sb_slot b" if "x \<in> set xs" for x
  proof -
    have "sb_slot x < sb_slot (hd xs) + length xs" using slots_consecutive_bounds(2) [OF _ that] assms(1)
      by (simp add: slots_consecutive_snoc)
    moreover have "sb_slot ((xs @ [b]) ! length xs) = sb_slot (hd (xs @ [b])) + length xs"
      by (rule slots_consecutive_nth [OF assms(1)]) simp
    moreover have "hd (xs @ [b]) = hd xs" using that by (cases xs) auto
    ultimately show ?thesis by simp
  qed
  then have "\<forall>e \<in> set (disk_index c xs). fst e < slot_key (sb_slot b)"
    using assms(2) by (auto simp: disk_index_def slot_key_less stored_ok_def)
  then show ?thesis by (simp add: bt_insert_last) (simp add: disk_index_def)
qed

lemma disk_index_Cons:
  assumes "slots_consecutive (b # xs)" "\<forall>x \<in> set (b # xs). stored_ok x"
  shows "bt_insert (slot_key (sb_slot b)) (SlotBasicIndexValue_encode c (index_value b)) (disk_index c xs) =
    disk_index c (b # xs)"
proof -
  have "sb_slot b < sb_slot x" if "x \<in> set xs" for x
  proof -
    have "sb_slot (hd xs) \<le> sb_slot x" "sb_slot (hd xs) = Suc (sb_slot b)"
      using slots_consecutive_bounds(1) [OF _ that] assms(1) that by (auto simp: slots_consecutive_Cons)
    then show ?thesis by simp
  qed
  then have "\<forall>e \<in> set (disk_index c xs). slot_key (sb_slot b) < fst e"
    using assms(2) by (auto simp: disk_index_def slot_key_less stored_ok_def)
  then show ?thesis by (simp add: bt_insert_first) (simp add: disk_index_def)
qed

lemma disk_index_remove:
  assumes "distinct (map sb_slot (xs @ b # ys))" "\<forall>x \<in> set (xs @ b # ys). stored_ok x"
  shows "bt_remove (slot_key (sb_slot b)) (disk_index c (xs @ b # ys)) = disk_index c (xs @ ys)"
proof -
  have "slot_key (sb_slot x) \<noteq> slot_key (sb_slot b)" if "x \<in> set xs \<union> set ys" for x
  proof -
    have "sb_slot x < u64_modulus" "sb_slot b < u64_modulus" using that assms(2) stored_ok_slot by auto
    moreover have "sb_slot x \<noteq> sb_slot b" using that assms(1) by (fastforce simp: image_iff)
    ultimately show ?thesis by (simp add: slot_key_eq)
  qed
  then show ?thesis by (auto simp: bt_remove_def disk_index_def filter_empty_conv intro!: filter_True)
qed

context kv_laws
begin

lemma write_ok:
  assumes "healthy db" "kv_write kv batch db = (Inr (), db')"
  shows "healthy db'" "view db' = apply_batch batch (view db)"
  using write_atomic [OF assms] by simp_all

lemma write_basic:
  assumes "healthy db" "kv_write kv (op # ops) db = (Inr (), db')" "\<forall>o' \<in> set ops. op_column o' \<noteq> SlotBasicIndex"
  shows "healthy db'" "view db' SlotBasicIndex = apply_op op (view db) SlotBasicIndex"
  using write_ok [OF assms(1,2)] assms(3) by (simp_all add: apply_batch_other)

end

context store_laws
begin

lemma send_add_indexes:
  assumes inv: "store_inv c view healthy st xs" and w: "send_write c kv (AddIndexes slot b) st = (Inr (), st')"
  shows "store_inv c view healthy st' xs \<and> st_blocks st' = st_blocks st \<and> st_files st' = st_files st \<and> st_disk st' = st_disk st"
proof -
  obtain db' where db': "kv_write kv (add_indexes_batch c slot b) (st_db st) = (Inr (), db')" "st' = st\<lparr>st_db := db'\<rparr>"
    using w by (auto simp: send_write_def split: prod.splits)
  have "\<forall>op \<in> set (add_indexes_batch c slot b). op_column op \<noteq> SlotBasicIndex"
    by (auto simp: add_indexes_batch_def)
  then have "view db' SlotBasicIndex = view (st_db st) SlotBasicIndex"
    using write_ok [OF _ db'(1)] inv by (simp add: store_inv_def apply_batch_other)
  then show ?thesis using db'(2) write_ok(1) [OF _ db'(1)] inv by (simp add: store_inv_def)
qed

lemma send_slot_add:
  assumes h: "healthy (st_db st)" and w: "send_write c kv (SlotAdd slot data) st = (Inr (), st')"
  shows "healthy (st_db st')" "view (st_db st') SlotBasicIndex =
      bt_insert (slot_key slot) (SlotBasicIndexValue_encode c (slot_value data)) (view (st_db st) SlotBasicIndex)"
    "\<exists>db'. st' = st\<lparr>st_db := db'\<rparr>"
proof -
  obtain db' where db': "kv_write kv [PutCf SlotBasicIndex (slot_key slot) (SlotBasicIndexValue_encode c (slot_value data))] (st_db st) = (Inr (), db')"
    "st' = st\<lparr>st_db := db'\<rparr>"
    using w by (auto simp: send_write_def split: prod.splits)
  show "healthy (st_db st')" "view (st_db st') SlotBasicIndex =
      bt_insert (slot_key slot) (SlotBasicIndexValue_encode c (slot_value data)) (view (st_db st) SlotBasicIndex)"
    "\<exists>db'. st' = st\<lparr>st_db := db'\<rparr>"
    using write_basic [OF h db'(1)] db'(2) by auto
qed

lemma spawn_remove_ops:
  assumes "spawn_remove_slot c kv slot dead db = (Inr (), db')"
  shows "\<exists>ops. kv_write kv (DeleteCf SlotBasicIndex (slot_key slot) # ops) db = (Inr (), db') \<and>
    (\<forall>o' \<in> set ops. op_column o' \<noteq> SlotBasicIndex)"
proof (cases dead)
  case True
  then show ?thesis using assms by (intro exI [of _ "[]"]) (simp add: spawn_remove_slot_def)
next
  case False
  then obtain block :: SlotExtraIndexValue where "kv_write kv (DeleteCf SlotBasicIndex (slot_key slot) # DeleteCf SlotExtraIndex (slot_key slot) #
      map (DeleteCf TransactionIndex) (sev_transactions block) @
      map (\<lambda>hash. DeleteCf SfaIndex (SfaIndex_concat hash slot)) (sev_sfa block)) db = (Inr (), db')"
    using assms by (auto simp: spawn_remove_slot_def Let_def split: sum.splits option.splits)
  then show ?thesis by (intro exI conjI, assumption) auto
qed

lemma send_slot_remove:
  assumes h: "healthy (st_db st)" and w: "send_write c kv (SlotRemove slot dead) st = (Inr (), st')"
  shows "healthy (st_db st')" "view (st_db st') SlotBasicIndex = bt_remove (slot_key slot) (view (st_db st) SlotBasicIndex)"
    "\<exists>db'. st' = st\<lparr>st_db := db'\<rparr>"
proof -
  obtain db' where r: "spawn_remove_slot c kv slot dead (st_db st) = (Inr (), db')" and st': "st' = st\<lparr>st_db := db'\<rparr>"
    using w by (auto simp: send_write_def split: prod.splits)
  then obtain ops where ops: "kv_write kv (DeleteCf SlotBasicIndex (slot_key slot) # ops) (st_db st) = (Inr (), db')"
    "\<forall>o' \<in> set ops. op_column o' \<noteq> SlotBasicIndex"
    using spawn_remove_ops by blast
  show "healthy (st_db st')" "view (st_db st') SlotBasicIndex = bt_remove (slot_key slot) (view (st_db st) SlotBasicIndex)"
    "\<exists>db'. st' = st\<lparr>st_db := db'\<rparr>"
    using write_basic [OF h ops] st' by auto
qed

text \<open>A pop that succeeds removes the block from the index and from the database.\<close>

lemma store_pop_inv:
  assumes inv: "store_inv c view healthy st xs" and pop: "store_pop_block c kv side st = (Inr (), st')"
  shows "xs \<noteq> [] \<and> store_inv c view healthy st' (case side of Back \<Rightarrow> tl xs | Front \<Rightarrow> butlast xs) \<and>
    length (wb_blocks (st_blocks st')) = length (wb_blocks (st_blocks st)) \<and> st_disk st' = st_disk st \<and>
    wb_sync_tx (st_blocks st') = wb_sync_tx (st_blocks st) @
      [case side of Back \<Rightarrow> ConfirmedBlockPopBack | Front \<Rightarrow> ConfirmedBlockPopFront]"
proof -
  have rep: "wb_rep (st_blocks st) xs" and h: "healthy (st_db st)" and sc: "slots_consecutive xs"
    and ok: "\<forall>b \<in> set xs. stored_ok b" and ix: "view (st_db st) SlotBasicIndex = disk_index c xs"
    using inv by (simp_all add: store_inv_def)
  let ?pop = "case side of Back \<Rightarrow> pop_block_back (st_blocks st) | Front \<Rightarrow> pop_block_front (st_blocks st)"
  have ne: "xs \<noteq> []"
  proof
    assume "xs = []"
    then have "?pop = (None, st_blocks st)"
      using rep pop_block_back_empty pop_block_front_empty by (cases side) auto
    then show False using pop by (simp add: store_pop_block_def)
  qed
  define b where "b = (case side of Back \<Rightarrow> hd xs | Front \<Rightarrow> last xs)"
  define ys where "ys = (case side of Back \<Rightarrow> tl xs | Front \<Rightarrow> butlast xs)"
  obtain w' where w': "?pop = (Some b, w')" "wb_rep w' ys" "length (wb_blocks w') = length (wb_blocks (st_blocks st))"
    "wb_sync_tx w' = wb_sync_tx (st_blocks st)"
  proof (cases side)
    case Back
    obtain y zs where "xs = y # zs" using ne by (cases xs) auto
    then show thesis using that Back pop_block_back_rep [of "st_blocks st" y zs] rep by (auto simp: b_def ys_def)
  next
    case Front
    then show thesis using that pop_block_front_rep [OF rep ne] by (auto simp: b_def ys_def)
  qed
  define m :: "'e ReadWriteSyncMessage" where "m = (case side of Back \<Rightarrow> ConfirmedBlockPopBack | Front \<Rightarrow> ConfirmedBlockPopFront)"
  define st1 where "st1 = st\<lparr>st_blocks := send_sync m w'\<rparr>"
  obtain st2 where s2: "send_write c kv (SlotRemove (sb_slot b) (sb_dead b)) st1 = (Inr (), st2)"
    and st': "st_blocks st' = st_blocks st2" "st_db st' = st_db st2" "st_disk st' = st_disk st2"
    using pop w'(1) by (auto simp: store_pop_block_def Let_def st1_def m_def split: sum.splits prod.splits if_splits)
  have h1: "healthy (st_db st1)" using h by (simp add: st1_def)
  note rm = send_slot_remove [OF h1 s2]
  have "view (st_db st2) SlotBasicIndex = bt_remove (slot_key (sb_slot b)) (disk_index c xs)"
    using rm(2) ix by (simp add: st1_def)
  also have "\<dots> = disk_index c ys"
    using disk_index_remove [of "[]" b "tl xs" c] disk_index_remove [of "butlast xs" b "[]" c]
      slots_consecutive_distinct [OF sc] ok ne
    by (cases side) (simp_all add: b_def ys_def)
  finally have ix': "view (st_db st') SlotBasicIndex = disk_index c ys" using st' by simp
  have bl: "st_blocks st' = send_sync m w'" "st_disk st' = st_disk st"
    using rm(3) st' by (auto simp: st1_def)
  have "wb_rep (st_blocks st') ys" using bl(1) w'(2) by (simp add: wb_rep_def)
  moreover have "slots_consecutive ys"
    using slots_consecutive_tl [OF sc] slots_consecutive_butlast [OF sc] by (cases side) (simp_all add: ys_def)
  moreover have "set ys \<subseteq> set xs"
    using ne by (cases side; cases xs) (auto simp: ys_def dest: in_set_butlastD split: if_splits)
  ultimately have "store_inv c view healthy st' ys" using ix' rm(1) st'(2) ok by (auto simp: store_inv_def)
  moreover have "length (wb_blocks (st_blocks st')) = length (wb_blocks (st_blocks st))"
    "wb_sync_tx (st_blocks st') = wb_sync_tx (st_blocks st) @ [m]"
    using bl(1) w'(3,4) by simp_all
  ultimately show ?thesis using ne bl(2) by (simp add: ys_def m_def)
qed

text \<open>Writing the slot value and pushing on the index, the last two steps of both pushes.\<close>

lemma push_tail:
  assumes inv: "store_inv c view healthy st xs" and room: "length xs < length (wb_blocks (st_blocks st))"
    and w: "send_write c kv (SlotAdd slot data) st = (Inr (), st1)"
    and v: "slot_value data = index_value b" "sb_slot b = slot" "stored_ok b" and sc: "slots_consecutive (b # xs)"
    and p: "push_index (push_block_back2 b) st1 = (r, st')"
  shows "r = Inr () \<and> store_inv c view healthy st' (b # xs) \<and> st_files st' = st_files st \<and> st_disk st' = st_disk st \<and>
    length (wb_blocks (st_blocks st')) = length (wb_blocks (st_blocks st)) \<and>
    wb_sync_tx (st_blocks st') = wb_sync_tx (st_blocks st) @ [ConfirmedBlockPushBack b]"
proof -
  have i: "wb_rep (st_blocks st) xs" "\<forall>x \<in> set xs. stored_ok x" "healthy (st_db st)" "view (st_db st) SlotBasicIndex = disk_index c xs"
    using inv by (simp_all add: store_inv_def)
  note add = send_slot_add [OF i(3) w]
  obtain db' where st1: "st1 = st\<lparr>st_db := db'\<rparr>" using add(3) by blast
  have ex: "sb_exists b" using v(3) by (simp add: stored_ok_def)
  obtain w' where w': "push_block_back2 b (st_blocks st) = (Inr (), w')" "wb_rep w' (b # xs)"
    "length (wb_blocks w') = length (wb_blocks (st_blocks st))" "wb_sync_tx w' = wb_sync_tx (st_blocks st) @ [ConfirmedBlockPushBack b]"
    using push_block_back2_rep [OF i(1) ex room] by metis
  have "view db' SlotBasicIndex = disk_index c (b # xs)"
    using add(2) st1 i(2,4) v disk_index_Cons [OF sc] by simp
  then show ?thesis using p st1 w' add(1) i(2) v(3) sc by (auto simp: push_index_def store_inv_def)
qed

lemma push_head:
  assumes inv: "store_inv c view healthy st xs" and room: "length xs < length (wb_blocks (st_blocks st))"
    and w: "send_write c kv (SlotAdd slot data) st = (Inr (), st1)"
    and v: "slot_value data = index_value b" "sb_slot b = slot" "stored_ok b" and sc: "slots_consecutive (xs @ [b])"
    and p: "push_index (push_block_front2 b) st1 = (r, st')"
  shows "r = Inr () \<and> store_inv c view healthy st' (xs @ [b]) \<and> st_files st' = st_files st \<and> st_disk st' = st_disk st \<and>
    length (wb_blocks (st_blocks st')) = length (wb_blocks (st_blocks st)) \<and>
    wb_sync_tx (st_blocks st') = wb_sync_tx (st_blocks st) @ [ConfirmedBlockPushFront b]"
proof -
  have i: "wb_rep (st_blocks st) xs" "\<forall>x \<in> set xs. stored_ok x" "healthy (st_db st)" "view (st_db st) SlotBasicIndex = disk_index c xs"
    using inv by (simp_all add: store_inv_def)
  note add = send_slot_add [OF i(3) w]
  obtain db' where st1: "st1 = st\<lparr>st_db := db'\<rparr>" using add(3) by blast
  have ex: "sb_exists b" using v(3) by (simp add: stored_ok_def)
  obtain w' where w': "push_block_front2 b (st_blocks st) = (Inr (), w')" "wb_rep w' (xs @ [b])"
    "length (wb_blocks w') = length (wb_blocks (st_blocks st))" "wb_sync_tx w' = wb_sync_tx (st_blocks st) @ [ConfirmedBlockPushFront b]"
    using push_block_front2_rep [OF i(1) ex room] by metis
  have "view db' SlotBasicIndex = disk_index c (xs @ [b])"
    using add(2) st1 i(2,4) v disk_index_snoc [OF sc] by simp
  then show ?thesis using p st1 w' add(1) i(2) v(3) sc by (auto simp: push_index_def store_inv_def)
qed

end

text \<open>The block that a push stores, by where the file store put it.\<close>

definition pushed_block :: "Slot \<Rightarrow> 'e BlockWithBinary option \<Rightarrow> StorageId \<times> nat \<Rightarrow> StoredBlock" where
  "pushed_block slot block loc = (case block of
       None \<Rightarrow> new_dead slot
     | Some b \<Rightarrow> new_confirmed slot (bl_block_time b) (bl_block_height b) (fst loc) (snd loc) (length (bl_protobuf b)))"

definition pushable :: "Slot \<Rightarrow> 'e BlockWithBinary option \<Rightarrow> bool" where
  "pushable slot block \<longleftrightarrow> slot < u64_MAX \<and> (\<forall>b. block = Some b \<longrightarrow>
     (\<forall>bt. bl_block_time b = Some bt \<longrightarrow> i64_range bt) \<and>
     (\<forall>bh. bl_block_height b = Some bh \<longrightarrow> bh < u64_modulus) \<and> length (bl_protobuf b) < u64_modulus)"

definition loc_ok :: "StorageId \<times> nat \<Rightarrow> bool" where
  "loc_ok loc \<longleftrightarrow> fst loc < 256 \<and> snd loc < u64_modulus"

lemma pushed_block_sel [simp]: "sb_slot (pushed_block slot block loc) = slot" "sb_exists (pushed_block slot block loc)"
  by (simp_all add: pushed_block_def StoredBlock_new_defs split: option.splits)

lemma pushed_block_ok: "pushable slot block \<Longrightarrow> (block \<noteq> None \<Longrightarrow> loc_ok loc) \<Longrightarrow> stored_ok (pushed_block slot block loc)"
  by (auto simp: pushed_block_def pushable_def stored_ok_def sbv_ok_def index_value_def loc_ok_def StoredBlock_new_defs split: option.splits)

lemma slot_value_pushed:
  "slot_value (map_option (\<lambda>b. (b, fst loc, snd loc)) block) = index_value (pushed_block slot block loc)"
  by (cases block; cases loc) (simp_all add: slot_value_def pushed_block_def index_value_def SlotBasicIndexValue_default_def StoredBlock_new_defs)

section \<open>The files, as far as the index needs them\<close>

text \<open>The fields of the files are of their Rust types, and \<open>next_file\<close> is in range.\<close>

definition files_typed :: "StorageFilesWrite \<Rightarrow> bool" where
  "files_typed w \<longleftrightarrow> fw_next_file w < length (fw_files w) \<and>
     (\<forall>f \<in> set (fw_files w). fl_id f < 256 \<and> fl_tail f < u64_modulus \<and> fl_head f < u64_modulus \<and> fl_size f < u64_modulus)"

lemma write_typed:
  assumes "write_back io buf (f, d) = (r, f', d') \<or> write_front io buf (f, d) = (r, f', d')"
    and "fl_id f < 256" "fl_tail f < u64_modulus" "fl_head f < u64_modulus" "fl_size f < u64_modulus"
  shows "fl_id f' < 256 \<and> fl_tail f' < u64_modulus \<and> fl_head f' < u64_modulus \<and> fl_size f' < u64_modulus \<and>
    (\<forall>off. r = Inr off \<longrightarrow> off < u64_modulus)"
  using assms(1)
proof
  assume "write_back io buf (f, d) = (r, f', d')"
  then show ?thesis using assms(2-) sub64_less
    by (auto simp: write_back_def Let_def checked_sub_def split: if_splits prod.splits sum.splits)
next
  assume "write_front io buf (f, d) = (r, f', d')"
  then show ?thesis using assms(2-) add64_less
    by (auto simp: write_front_def Let_def split: if_splits prod.splits sum.splits)
qed

lemma files_push_total:
  assumes "files_typed w"
  shows "\<exists>r w' d'. files_push_block side io buf (w, d) = Some (r, w', d')"
proof -
  obtain n where "get_file_index_for_new_block (length buf) w =
      Some (Inr (first_accepting w (length buf) (fw_next_file w)), w\<lparr>fw_next_file := n\<rparr>)"
    using get_file_index_find [of w "length buf"] assms by (auto simp: files_typed_def)
  then show ?thesis by (auto simp: files_push_block_def Let_def split: option.splits prod.splits)
qed

lemma files_push_typed:
  assumes t: "files_typed w" and push: "files_push_block side io buf (w, d) = Some (r, w', d')"
  shows "files_typed w' \<and> (\<forall>loc. r = Inr (Some loc) \<longrightarrow> loc_ok loc)"
proof (rule files_push_cases [OF _ push])
  show "fw_next_file w < length (fw_files w)" using t by (simp add: files_typed_def)
next
  fix n assume "r = Inr None" "w' = w\<lparr>fw_next_file := n\<rparr>" "n < length (fw_files w)"
  then show ?thesis using t by (simp add: files_typed_def)
next
  fix n i res f
  assume a: "n < length (fw_files w)" "i < length (fw_files w)"
    "(case side of Back \<Rightarrow> write_back io buf (fw_files w ! i, d) | Front \<Rightarrow> write_front io buf (fw_files w ! i, d)) = (res, f, d')"
    "w' = w\<lparr>fw_next_file := n, fw_files := (fw_files w)[i := f]\<rparr>"
    "r = (case res of Inl e \<Rightarrow> Inl e | Inr off \<Rightarrow> Inr (Some (fl_id f, off)))"
  have "fw_files w ! i \<in> set (fw_files w)" using a(2) by simp
  then have ft: "fl_id f < 256 \<and> fl_tail f < u64_modulus \<and> fl_head f < u64_modulus \<and> fl_size f < u64_modulus \<and>
      (\<forall>off. res = Inr off \<longrightarrow> off < u64_modulus)"
    using write_typed [of io buf "fw_files w ! i" d res f d'] a(3) t by (cases side) (auto simp: files_typed_def)
  have "set ((fw_files w)[i := f]) \<subseteq> insert f (set (fw_files w))" by (rule set_update_subset_insert)
  then have "files_typed w'" using a(1,4) ft t by (auto simp: files_typed_def)
  moreover have "\<forall>loc. r = Inr (Some loc) \<longrightarrow> loc_ok loc" using a(5) ft by (auto simp: loc_ok_def split: sum.splits)
  ultimately show ?thesis by blast
qed

lemma files_pop_typed:
  assumes t: "files_typed w" and b: "sb_offset b < u64_modulus" and pop: "files_pop_block side b w = (r, w')"
  shows "files_typed w'"
proof -
  have "w' = w \<or> (\<exists>i f res. i < length (fw_files w) \<and> w' = w\<lparr>fw_files := (fw_files w)[i := f]\<rparr> \<and>
      file_pop side (sb_offset b) (sb_size b) (fw_files w ! i) = (res, f))"
  proof (cases "hm_get (fw_id2file w) (sb_storage_id b)")
    case None
    then show ?thesis using pop by (simp add: files_pop_block_def)
  next
    case (Some i)
    obtain res f where "file_pop side (sb_offset b) (sb_size b) (fw_files w ! i) = (res, f)" by (rule prod.exhaust)
    then show ?thesis using pop Some by (cases "length (fw_files w) \<le> i") (auto simp: files_pop_block_def not_le)
  qed
  then consider "w' = w" | i f res where "i < length (fw_files w)" "w' = w\<lparr>fw_files := (fw_files w)[i := f]\<rparr>"
      "file_pop side (sb_offset b) (sb_size b) (fw_files w ! i) = (res, f)"
    by blast
  then show ?thesis
  proof cases
    case 2
    have m: "fw_files w ! i \<in> set (fw_files w)" using 2(1) by simp
    have "x mod fl_size (fw_files w ! i) < u64_modulus" if "0 < fl_size (fw_files w ! i)" for x
      using mod_less_divisor [OF that, of x] t m by (auto simp: files_typed_def intro: less_trans)
    then have "fl_id f < 256 \<and> fl_tail f < u64_modulus \<and> fl_head f < u64_modulus \<and> fl_size f < u64_modulus"
      using 2(3) t m b by (cases side) (auto simp: file_pop_def files_typed_def Let_def split: if_splits)
    then show ?thesis
      using 2(2) t set_update_subset_insert [of "fw_files w" i f] by (auto simp: files_typed_def)
  qed (use t in simp)
qed

section \<open>The files hold the stored blocks\<close>

text \<open>
  \<open>B\<close> gives the bytes of the block of each slot. The blocks with bytes are live in the files, in the order of
  the index, each at the place that the index has for it.
\<close>

definition live_of :: "(Slot \<Rightarrow> bytes) \<Rightarrow> StoredBlock list \<Rightarrow> live_blocks" where
  "live_of B xs = map (\<lambda>b. (sb_storage_id b, sb_offset b, B (sb_slot b))) (filter (\<lambda>b. sb_size b \<noteq> 0) xs)"

definition files_hold :: "StorageFilesWrite \<Rightarrow> disk \<Rightarrow> (Slot \<Rightarrow> bytes) \<Rightarrow> StoredBlock list \<Rightarrow> bool" where
  "files_hold w d B xs \<longleftrightarrow> files_inv w d (live_of B xs) \<and>
     (\<forall>b \<in> set xs. sb_size b \<noteq> 0 \<longrightarrow> length (B (sb_slot b)) = sb_size b)"

text \<open>The file that took a block was not filled to the last byte.\<close>

definition gap_left :: "StorageFilesWrite \<Rightarrow> StorageId \<Rightarrow> bool" where
  "gap_left w sid \<longleftrightarrow> fl_head (file_of w sid) \<noteq> fl_tail (file_of w sid)"

text \<open>What a push of a block does to \<open>B\<close>, and what is asked of it.\<close>

definition pushed_bytes :: "Slot \<Rightarrow> 'e BlockWithBinary option \<Rightarrow> (Slot \<Rightarrow> bytes) \<Rightarrow> Slot \<Rightarrow> bytes" where
  "pushed_bytes slot block B = (case block of None \<Rightarrow> B | Some b \<Rightarrow> B(slot := bl_protobuf b))"

definition push_keeps_gap :: "'e BlockWithBinary option \<Rightarrow> StorageFilesWrite \<Rightarrow> StorageId \<times> nat \<Rightarrow> bool" where
  "push_keeps_gap block w loc \<longleftrightarrow> (\<forall>b. block = Some b \<longrightarrow> bl_protobuf b \<noteq> [] \<and> gap_left w (fst loc))"

lemma live_of_simps [simp]:
  "live_of B [] = []"
  "live_of B (b # xs) = (if sb_size b = 0 then live_of B xs else (sb_storage_id b, sb_offset b, B (sb_slot b)) # live_of B xs)"
  "live_of B (xs @ ys) = live_of B xs @ live_of B ys"
  by (simp_all add: live_of_def)

lemma live_of_upd: "slot \<notin> sb_slot ` set xs \<Longrightarrow> live_of (B(slot := buf)) xs = live_of B xs"
  by (auto simp: live_of_def)

lemma hold_none:
  "files_hold w d B xs \<Longrightarrow> files_push_block side io buf (w, d) = Some (Inr None, w', d') \<Longrightarrow> files_hold w' d' B xs"
  by (auto simp: files_hold_def intro: files_inv_push_none)

lemma hold_pop_back:
  assumes "files_hold w d B (b # xs)" and "sb_size b \<noteq> 0 \<Longrightarrow> files_pop_block Back b w = (Inr (), w')" and "sb_size b = 0 \<Longrightarrow> w' = w"
  shows "files_hold w' d B xs"
  using assms files_inv_pop_back [of w d "sb_storage_id b" "sb_offset b" "B (sb_slot b)" "live_of B xs" b w']
  by (cases "sb_size b = 0") (auto simp: files_hold_def)

lemma hold_pop_front:
  assumes "files_hold w d B (xs @ [b])" and "sb_size b \<noteq> 0 \<Longrightarrow> files_pop_block Front b w = (Inr (), w')" and "sb_size b = 0 \<Longrightarrow> w' = w"
  shows "files_hold w' d B xs"
  using assms files_inv_pop_front [of w d "live_of B xs" "sb_storage_id b" "sb_offset b" "B (sb_slot b)" b w']
  by (cases "sb_size b = 0") (auto simp: files_hold_def)

lemma write_io_ok:
  "write_back io buf (f, d) = (Inr off, x) \<Longrightarrow> io = IoOk" "write_front io buf (f, d) = (Inr off, x) \<Longrightarrow> io = IoOk"
  by (cases io; auto simp: write_back_def write_front_def write_and_sync_def Let_def split: if_splits)+

lemma push_io_ok:
  assumes "files_push_block side io buf (w, d) = Some (Inr (Some loc), w', d')"
  shows "io = IoOk"
  using assms
  by (cases side) (auto simp: files_push_block_def Let_def dest: write_io_ok split: option.splits prod.splits sum.splits)

lemma hold_push_front:
  assumes "files_hold w d B xs" and "bl_protobuf b \<noteq> []"
    and "files_push_block Front io (bl_protobuf b) (w, d) = Some (Inr (Some loc), w', d')"
    and "gap_left w' (fst loc)" and "slot \<notin> sb_slot ` set xs"
  shows "files_hold w' d' (B(slot := bl_protobuf b)) (xs @ [pushed_block slot (Some b) loc])"
  using assms push_io_ok [OF assms(3)] files_inv_push_front [of w d "live_of B xs" "bl_protobuf b" "fst loc" "snd loc" w' d']
  by (auto simp: files_hold_def gap_left_def live_of_upd pushed_block_def new_confirmed_def)

lemma hold_push_back:
  assumes "files_hold w d B xs" and "bl_protobuf b \<noteq> []"
    and "files_push_block Back io (bl_protobuf b) (w, d) = Some (Inr (Some loc), w', d')"
    and "gap_left w' (fst loc)" and "slot \<notin> sb_slot ` set xs"
  shows "files_hold w' d' (B(slot := bl_protobuf b)) (pushed_block slot (Some b) loc # xs)"
  using assms push_io_ok [OF assms(3)] files_inv_push_back [of w d "live_of B xs" "bl_protobuf b" "fst loc" "snd loc" w' d']
  by (auto simp: files_hold_def gap_left_def live_of_upd pushed_block_def new_confirmed_def)

lemma hold_dead:
  "files_hold w d B xs \<Longrightarrow> files_hold w d B (xs @ [new_dead slot])" "files_hold w d B xs \<Longrightarrow> files_hold w d B (new_dead slot # xs)"
  by (auto simp: files_hold_def StoredBlock_new_defs)

lemma hold_read:
  assumes "files_hold w d B xs" "b \<in> set xs" "sb_size b \<noteq> 0"
  shows "\<exists>i < length (fw_files w). hm_get (fw_id2file w) (sb_storage_id b) = Some i \<and>
    read_exact_at (fl_file (fw_files w ! i)) (sb_offset b) (sb_size b) d = Inr (B (sb_slot b))"
proof -
  have m: "(sb_storage_id b, sb_offset b, B (sb_slot b)) \<in> set (live_of B xs)" using assms(2,3) by (auto simp: live_of_def)
  have inv: "files_inv w d (live_of B xs)" and l: "length (B (sb_slot b)) = sb_size b" using assms by (auto simp: files_hold_def)
  obtain i where i: "hm_get (fw_id2file w) (sb_storage_id b) = Some i" using files_inv_known [OF inv m] by blast
  then have "i < length (fw_files w)" using inv by (simp add: files_inv_def files_ok_def)
  then show ?thesis using i files_inv_stored [OF inv m i] l by auto
qed

section \<open>The operations keep the index on disk\<close>

lemma check_slot_back:
  assumes "check_slot (map_option (\<lambda>s. sub64 s 1) (case xs of [] \<Rightarrow> None | b # _ \<Rightarrow> Some (sb_slot b))) slot msg = Inr ()"
    and "\<forall>x \<in> set xs. stored_ok x" "slot < u64_MAX" "slots_consecutive xs" "sb_slot b = slot"
  shows "slots_consecutive (b # xs)"
proof (cases xs)
  case (Cons y ys)
  have y: "sub64 (sb_slot y) 1 = slot" "sb_slot y < u64_modulus"
    using assms(1,2) Cons stored_ok_slot by (auto simp: check_slot_def ensure_def split: if_splits)
  have "sb_slot y \<noteq> 0"
  proof
    assume "sb_slot y = 0"
    then have "slot = u64_MAX" using y(1) by (simp add: sub64_def)
    then show False using assms(3) by simp
  qed
  then have "sb_slot y = Suc slot" using y by simp
  then show ?thesis using assms(4,5) Cons by (simp add: slots_consecutive_Cons)
qed (simp add: slots_consecutive_def)

lemma check_slot_front:
  assumes "check_slot (map_option (\<lambda>s. add64 s 1) (if xs = [] then None else Some (sb_slot (last xs)))) slot msg = Inr ()"
    and "\<forall>x \<in> set xs. stored_ok x" "slots_consecutive xs" "sb_slot b = slot"
  shows "slots_consecutive (drop n xs @ [b])"
proof (cases "drop n xs = []")
  case False
  then have ne: "xs \<noteq> []" and n: "n < length xs" by auto
  have "stored_ok (last xs)" using assms(2) ne by simp
  then have "sb_slot (last xs) < u64_MAX" by (simp add: stored_ok_def)
  then have "slot = Suc (sb_slot (last xs))"
    using assms(1) ne by (auto simp: check_slot_def ensure_def split: if_splits)
  moreover have "slots_consecutive (drop n xs)"
    using assms(3) by (induction n) (auto simp: drop_Suc tl_drop [symmetric] slots_consecutive_tl)
  ultimately show ?thesis using assms(4) False n by (simp add: slots_consecutive_snoc)
qed (simp add: slots_consecutive_def)

context store_laws
begin

lemma send_write_cases:
  obtains (err) e st1 where "send_write c kv req st = (Inl e, st1)"
  | (ok) st1 where "send_write c kv req st = (Inr (), st1)"
proof -
  obtain r st1 where "send_write c kv req st = (r, st1)" by (rule prod.exhaust)
  then show thesis using that by (cases r) auto
qed

lemma store_inv_files: "store_inv c view healthy (st\<lparr>st_files := f, st_disk := d\<rparr>) xs \<longleftrightarrow> store_inv c view healthy st xs"
  by (simp add: store_inv_def)

lemma store_push_back_inv:
  assumes inv: "store_inv c view healthy st xs" and ft: "files_typed (st_files st)" and pb: "pushable slot block"
    and run: "store_push_block_back c kv io slot block st = Some (Inr r, st')"
  shows "files_typed (st_files st') \<and> length (wb_blocks (st_blocks st')) = length (wb_blocks (st_blocks st)) \<and>
    (if r then \<exists>loc. store_inv c view healthy st' (pushed_block slot block loc # xs) \<and>
        wb_sync_tx (st_blocks st') = wb_sync_tx (st_blocks st) @ [ConfirmedBlockPushBack (pushed_block slot block loc)] \<and>
        (\<forall>B. files_hold (st_files st) (st_disk st) B xs \<longrightarrow> push_keeps_gap block (st_files st') loc \<longrightarrow>
          files_hold (st_files st') (st_disk st') (pushed_bytes slot block B) (pushed_block slot block loc # xs))
     else store_inv c view healthy st' xs \<and> wb_sync_tx (st_blocks st') = wb_sync_tx (st_blocks st) \<and>
        (\<forall>B. files_hold (st_files st) (st_disk st) B xs \<longrightarrow> files_hold (st_files st') (st_disk st') B xs))"
proof -
  have rep: "wb_rep (st_blocks st) xs" and sc: "slots_consecutive xs" and ok: "\<forall>x \<in> set xs. stored_ok x"
    using inv by (simp_all add: store_inv_def)
  let ?cs = "check_slot (map_option (\<lambda>s. sub64 s 1) (get_back_slot (st_blocks st))) slot ''trying to push back invalid slot''"
  let ?ch = "check_height (get_back_height (st_blocks st)) block (\<lambda>height back_height. add64 height 1 = back_height)
      ''trying to push back block with invalid height''"
  have chk: "?cs = Inr ()" "bind_result ?cs (\<lambda>_. ?ch) = Inr ()"
    using run by (cases ?cs; cases ?ch; simp add: store_push_block_back_def)+
  have con: "slots_consecutive (pushed_block slot block loc # xs)" for loc
    using check_slot_back [OF _ ok _ sc] chk(1) pb get_back_slot_rep [OF rep] by (simp add: pushable_def)
  show ?thesis
  proof (cases "is_full (st_blocks st)")
    case True
    then show ?thesis using run chk(2) inv ft by (simp add: store_push_block_back_def)
  next
    case False
    then have room: "length xs < length (wb_blocks (st_blocks st))"
      using is_full_rep [OF rep] ring_repD(3) [OF rep [unfolded wb_rep_def]] by simp
    note run1 = run [unfolded store_push_block_back_def, simplified chk(2) sum.case if_not_P [OF False]]
    show ?thesis
    proof (cases block)
      case None
      obtain st1 where s1: "send_write c kv (SlotAdd slot None) st = (Inr (), st1)"
        by (rule send_write_cases [of "SlotAdd slot None" st]) (use run1 None in auto)
      obtain q st2 where p: "push_index (push_block_back2 (new_dead slot)) st1 = (q, st2)" by (rule prod.exhaust)
      have "slot_value (None :: ('e BlockWithBinary \<times> StorageId \<times> nat) option) = index_value (new_dead slot)"
        "stored_ok (new_dead slot)"
        using slot_value_pushed [of _ "None :: 'e BlockWithBinary option" slot] pushed_block_ok [OF pb] None
        by (simp_all add: pushed_block_def)
      then have "q = Inr ()" "store_inv c view healthy st2 (new_dead slot # xs)" "st_files st2 = st_files st" "st_disk st2 = st_disk st"
          "length (wb_blocks (st_blocks st2)) = length (wb_blocks (st_blocks st))"
          "wb_sync_tx (st_blocks st2) = wb_sync_tx (st_blocks st) @ [ConfirmedBlockPushBack (new_dead slot)]"
        using push_tail [OF inv room s1 _ _ _ _ p] con [of undefined] None by (simp_all add: pushed_block_def new_dead_def)
      then show ?thesis using run1 None s1 p ft
        by (auto simp: push_block_back_dead_def pushed_block_def pushed_bytes_def hold_dead(2))
    next
      case (Some b)
      obtain rf files d where f: "files_push_block Back io (bl_protobuf b) (st_files st, st_disk st) = Some (rf, files, d)"
        using files_push_total [OF ft] by blast
      note ft' = files_push_typed [OF ft f]
      let ?st = "st\<lparr>st_files := files, st_disk := d\<rparr>"
      obtain st1 where s1: "send_write c kv (AddIndexes slot b) ?st = (Inr (), st1)"
        by (rule send_write_cases [of "AddIndexes slot b" ?st])
          (use run1 Some f in \<open>cases rf; auto simp: files_push_block_back_def Let_def\<close>)+
      have i1: "store_inv c view healthy st1 xs" "st_files st1 = files" "st_blocks st1 = st_blocks st" "st_disk st1 = d"
        using send_add_indexes [OF _ s1, of xs] inv by (simp_all add: store_inv_files)
      show ?thesis
      proof (cases rf)
        case (Inl e)
        then show ?thesis using run1 Some f s1 by (simp add: files_push_block_back_def Let_def)
      next
        case (Inr loc)
        show ?thesis
        proof (cases loc)
          case None
          then show ?thesis using run1 Some f s1 Inr i1 ft' hold_none [of "st_files st" "st_disk st" _ xs Back io "bl_protobuf b" files d]
            by (auto simp: files_push_block_back_def Let_def)
        next
          case (Some l)
          obtain sid off where l: "l = (sid, off)" by (rule prod.exhaust)
          have lk: "loc_ok (sid, off)" using ft' Inr Some l by simp
          note run2 = run1 [simplified \<open>block = Some b\<close> f files_push_block_back_def Let_def s1 prod.case option.case Inr Some l bind_result.simps sum.case]
          obtain st2 where s2: "send_write c kv (SlotAdd slot (Some (b, sid, off))) st1 = (Inr (), st2)"
            by (rule send_write_cases [of "SlotAdd slot (Some (b, sid, off))" st1]) (use run2 in auto)
          let ?b = "pushed_block slot block (sid, off)"
          obtain q st3 where p: "push_index (push_block_back2 ?b) st2 = (q, st3)" by (rule prod.exhaust)
          have "slot_value (Some (b, sid, off)) = index_value ?b"
            using slot_value_pushed [of "(sid, off)" block slot] \<open>block = Some b\<close> by simp
          then have j: "q = Inr ()" "store_inv c view healthy st3 (?b # xs)" "st_files st3 = files" "st_disk st3 = d"
              "length (wb_blocks (st_blocks st3)) = length (wb_blocks (st_blocks st))"
              "wb_sync_tx (st_blocks st3) = wb_sync_tx (st_blocks st) @ [ConfirmedBlockPushBack ?b]"
            using push_tail [OF i1(1) _ s2 _ _ pushed_block_ok [OF pb lk] con p] room i1(2-4) by simp_all
          have e: "st' = st3" "r"
            using run2 s2 p j(1) \<open>block = Some b\<close> by (auto simp: push_block_back_confirmed_def pushed_block_def)
          have "slot \<notin> sb_slot ` set xs" using slots_consecutive_distinct [OF con] by simp
          then have "files_hold files d (pushed_bytes slot block B) (?b # xs)"
            if "files_hold (st_files st) (st_disk st) B xs" "push_keeps_gap block files (sid, off)" for B
            using hold_push_back [OF that(1), of b io "(sid, off)" files d slot] f Inr Some l that(2) \<open>block = Some b\<close>
            by (simp add: pushed_bytes_def push_keeps_gap_def)
          then show ?thesis using j e ft' by auto
        qed
      qed
    qed
  qed
qed

lemma pop_member:
  assumes rep: "wb_rep w xs" and pop: "(case side of Back \<Rightarrow> pop_block_back w | Front \<Rightarrow> pop_block_front w) = (Some b, w')"
  shows "b \<in> set xs"
proof (cases "xs = []")
  case True
  then have "pop_block_back w = (None, w)" "pop_block_front w = (None, w)"
    using rep pop_block_back_empty pop_block_front_empty by blast+
  then show ?thesis using pop by (cases side) simp_all
next
  case False
  then obtain y ys where y: "xs = y # ys" by (cases xs) auto
  show ?thesis
  proof (cases side)
    case Back
    then show ?thesis using pop_block_back_rep [of w y ys] rep pop y by (metis VecSide.simps(3) fst_conv list.set_intros(1) option.inject)
  next
    case Front
    then show ?thesis using pop_block_front_rep [OF rep False] pop False by (metis VecSide.simps(4) fst_conv last_in_set option.inject)
  qed
qed

lemma store_pop_typed:
  assumes inv: "store_inv c view healthy st xs" and ft: "files_typed (st_files st)"
    and pop: "store_pop_block c kv side st = (Inr (), st')"
  shows "files_typed (st_files st')"
proof -
  obtain ob w' where w': "(case side of Back \<Rightarrow> pop_block_back (st_blocks st) | Front \<Rightarrow> pop_block_front (st_blocks st)) = (ob, w')"
    by (rule prod.exhaust)
  obtain b where b: "ob = Some b" using pop w' by (cases ob) (auto simp: store_pop_block_def)
  have "b \<in> set xs" using pop_member w' b inv by (auto simp: store_inv_def)
  then have off: "sb_offset b < u64_modulus" using inv by (auto simp: store_inv_def stored_ok_def sbv_ok_def index_value_def)
  define st1 where "st1 = st\<lparr>st_blocks := send_sync (case side of Back \<Rightarrow> ConfirmedBlockPopBack | Front \<Rightarrow> ConfirmedBlockPopFront) w'\<rparr>"
  have "healthy (st_db st1)" using inv by (simp add: store_inv_def st1_def)
  obtain st2 where s2: "send_write c kv (SlotRemove (sb_slot b) (sb_dead b)) st1 = (Inr (), st2)"
    by (rule send_write_cases [of "SlotRemove (sb_slot b) (sb_dead b)" st1])
      (use pop w' b in \<open>auto simp: store_pop_block_def st1_def\<close>)
  have "st_files st2 = st_files st" using send_slot_remove(3) [OF \<open>healthy (st_db st1)\<close> s2] by (auto simp: st1_def)
  moreover obtain r f where rf: "files_pop_block side b (st_files st2) = (r, f)" by (rule prod.exhaust)
  ultimately show ?thesis
    using pop w' b s2 ft files_pop_typed [OF ft off, of side r f]
    by (auto simp: store_pop_block_def st1_def Let_def split: if_splits)
qed

lemma store_pop_hold:
  assumes inv: "store_inv c view healthy st xs" and pop: "store_pop_block c kv side st = (Inr (), st')"
    and hold: "files_hold (st_files st) (st_disk st) B xs"
  shows "files_hold (st_files st') (st_disk st') B (case side of Back \<Rightarrow> tl xs | Front \<Rightarrow> butlast xs)"
proof -
  have rep: "wb_rep (st_blocks st) xs" and h: "healthy (st_db st)" using inv by (simp_all add: store_inv_def)
  have ne: "xs \<noteq> []" and d: "st_disk st' = st_disk st" using store_pop_inv [OF inv pop] by simp_all
  define b where "b = (case side of Back \<Rightarrow> hd xs | Front \<Rightarrow> last xs)"
  obtain w' where w': "(case side of Back \<Rightarrow> pop_block_back (st_blocks st) | Front \<Rightarrow> pop_block_front (st_blocks st)) = (Some b, w')"
  proof (cases side)
    case Back
    obtain y zs where "xs = y # zs" using ne by (cases xs) auto
    then show thesis using that Back pop_block_back_rep [of "st_blocks st" y zs] rep by (auto simp: b_def)
  next
    case Front
    then show thesis using that pop_block_front_rep [OF rep ne] by (auto simp: b_def)
  qed
  define st1 where "st1 = st\<lparr>st_blocks := send_sync (case side of Back \<Rightarrow> ConfirmedBlockPopBack | Front \<Rightarrow> ConfirmedBlockPopFront) w'\<rparr>"
  obtain st2 where s2: "send_write c kv (SlotRemove (sb_slot b) (sb_dead b)) st1 = (Inr (), st2)"
    by (rule send_write_cases [of "SlotRemove (sb_slot b) (sb_dead b)" st1])
      (use pop w' in \<open>auto simp: store_pop_block_def st1_def\<close>)
  have "healthy (st_db st1)" using h by (simp add: st1_def)
  then have f2: "st_files st2 = st_files st" using send_slot_remove(3) [OF _ s2] by (auto simp: st1_def)
  have p: "sb_size b \<noteq> 0 \<Longrightarrow> files_pop_block side b (st_files st) = (Inr (), st_files st')" "sb_size b = 0 \<Longrightarrow> st_files st' = st_files st"
    using pop w' s2 f2 by (auto simp: store_pop_block_def st1_def Let_def split: if_splits prod.splits)
  show ?thesis
  proof (cases side)
    case Back
    then have "xs = b # tl xs" using ne by (simp add: b_def)
    then show ?thesis using hold_pop_back [of "st_files st" "st_disk st" B b "tl xs" "st_files st'"] hold p Back d by simp
  next
    case Front
    then have "xs = butlast xs @ [b]" using ne by (simp add: b_def)
    then show ?thesis using hold_pop_front [of "st_files st" "st_disk st" B "butlast xs" b "st_files st'"] hold p Front d by simp
  qed
qed

text \<open>The loop of \<open>push_block_front\<close>: some number of blocks are popped; it always ends.\<close>

lemma front_loop_total:
  assumes "store_inv c view healthy st xs" "files_typed (st_files st)" "length xs < fuel"
  shows "\<exists>r st'. front_store_loop fuel k c kv io slot b st = Some (r, st')"
  using assms
proof (induction fuel arbitrary: k st xs)
  case (Suc fuel)
  let ?s0 = "if k = Some 0 then send_write c kv (AddIndexes slot b) st else (Inr (), st)"
  obtain r0 st0 where s0: "?s0 = (r0, st0)" by (rule prod.exhaust)
  show ?case
  proof (cases r0)
    case (Inl e)
    then show ?thesis using s0 by simp
  next
    case (Inr u)
    have i0: "store_inv c view healthy st0 xs" "st_files st0 = st_files st"
      using s0 Inr Suc.prems(1) send_add_indexes by (auto split: if_splits)
    obtain rf files d where f: "files_push_block_front io (bl_protobuf b) (st_files st0, st_disk st0) = Some (rf, files, d)"
      using files_push_total [of "st_files st0" Front io] Suc.prems(2) i0(2) unfolding files_push_block_front_def by metis
    have ft: "files_typed files" using files_push_typed [OF _ f [unfolded files_push_block_front_def]] Suc.prems(2) i0(2) by simp
    let ?st = "st0\<lparr>st_files := files, st_disk := d\<rparr>"
    obtain rp st2 where p: "store_pop_block_back c kv ?st = (rp, st2)" by (rule prod.exhaust)
    show ?thesis
    proof (cases "rf = Inr None \<and> (\<exists>u. rp = Inr u)")
      case True
      have "store_inv c view healthy ?st xs" using i0(1) by (simp add: store_inv_files)
      then have i2: "xs \<noteq> []" "store_inv c view healthy st2 (tl xs)"
        using store_pop_inv [of ?st xs Back st2] p True by (auto simp: store_pop_block_back_def)
      have "files_typed (st_files st2)"
        using store_pop_typed [of ?st xs Back st2] \<open>store_inv c view healthy ?st xs\<close> ft p True
        by (auto simp: store_pop_block_back_def)
      moreover have "length (tl xs) < fuel" using Suc.prems(3) i2(1) by (cases xs) auto
      ultimately show ?thesis using Suc.IH [OF i2(2)] s0 Inr f p True by (auto simp: Let_def)
    next
      case False
      then show ?thesis using s0 Inr f p by (auto simp: Let_def split: sum.splits option.splits prod.splits)
    qed
  qed
qed simp

lemma front_loop_inv:
  assumes "store_inv c view healthy st xs" "files_typed (st_files st)"
    and "front_store_loop fuel k c kv io slot b st = Some (Inr loc, st')"
  shows "\<exists>n \<le> length xs. store_inv c view healthy st' (drop n xs) \<and> files_typed (st_files st') \<and> loc_ok loc \<and>
    length (wb_blocks (st_blocks st')) = length (wb_blocks (st_blocks st)) \<and>
    wb_sync_tx (st_blocks st') = wb_sync_tx (st_blocks st) @ replicate n ConfirmedBlockPopBack \<and>
    (\<forall>B. files_hold (st_files st) (st_disk st) B xs \<longrightarrow> bl_protobuf b \<noteq> [] \<longrightarrow> gap_left (st_files st') (fst loc) \<longrightarrow>
      slot \<notin> sb_slot ` set xs \<longrightarrow>
      files_hold (st_files st') (st_disk st') (B(slot := bl_protobuf b)) (drop n xs @ [pushed_block slot (Some b) loc]))"
  using assms
proof (induction fuel arbitrary: k st xs)
  case (Suc fuel)
  let ?s0 = "if k = Some 0 then send_write c kv (AddIndexes slot b) st else (Inr (), st)"
  let ?k = "if k = Some 0 then None else k"
  obtain r0 st0 where s0: "?s0 = (r0, st0)" by (rule prod.exhaust)
  have r0: "r0 = Inr ()" using Suc.prems(3) s0 by (cases r0) auto
  have i0: "store_inv c view healthy st0 xs" "st_files st0 = st_files st" "st_blocks st0 = st_blocks st" "st_disk st0 = st_disk st"
    using s0 r0 Suc.prems(1) send_add_indexes by (auto split: if_splits)
  obtain rf files d where f: "files_push_block_front io (bl_protobuf b) (st_files st0, st_disk st0) = Some (rf, files, d)"
    using files_push_total [of "st_files st0" Front io] Suc.prems(2) i0(2) unfolding files_push_block_front_def by metis
  note ft = files_push_typed [OF _ f [unfolded files_push_block_front_def], simplified i0(2), OF Suc.prems(2)]
  let ?st = "st0\<lparr>st_files := files, st_disk := d\<rparr>"
  have ist: "store_inv c view healthy ?st xs" using i0(1) by (simp add: store_inv_files)
  note run = Suc.prems(3) [unfolded front_store_loop.simps s0 r0 prod.case sum.case Let_def f option.case]
  obtain l where l: "rf = Inr l" using run by (cases rf) auto
  show ?case
  proof (cases l)
    case (Some loc')
    have hold: "files_hold files d (B(slot := bl_protobuf b)) (xs @ [pushed_block slot (Some b) loc'])"
      if "files_hold (st_files st) (st_disk st) B xs" "bl_protobuf b \<noteq> []" "gap_left files (fst loc')" "slot \<notin> sb_slot ` set xs" for B
      using hold_push_front [OF that(1,2) _ that(3,4), of io d] f l Some i0(2,4) by (simp add: files_push_block_front_def)
    have "loc' = loc \<and> store_inv c view healthy st' xs \<and> st_files st' = files \<and> st_disk st' = d \<and> st_blocks st' = st_blocks st"
    proof (cases "?k = None")
      case True
      then have "loc' = loc" "st' = ?st" using run l Some by auto
      then show ?thesis using ist i0(3) by simp
    next
      case False
      obtain r1 st1 where s1: "send_write c kv (AddIndexes slot b) ?st = (r1, st1)" by (rule prod.exhaust)
      have "r1 = Inr ()" "loc' = loc" "st1 = st'" using run l Some False s1 by (cases r1; auto)+
      then show ?thesis using send_add_indexes [OF ist] s1 i0(3) by simp
    qed
    then show ?thesis using l Some ft hold by (intro exI [of _ 0] conjI allI impI) (simp_all del: fun_upd_apply)
  next
    case None
    obtain rp st2 where p: "store_pop_block_back c kv ?st = (rp, st2)" by (rule prod.exhaust)
    have rp: "rp = Inr ()" using run l None p by (cases rp) auto
    have pop: "store_pop_block c kv Back ?st = (Inr (), st2)" using p rp by (simp add: store_pop_block_back_def)
    have i2: "store_inv c view healthy st2 (tl xs)" "length (wb_blocks (st_blocks st2)) = length (wb_blocks (st_blocks st))"
      "xs \<noteq> []" "wb_sync_tx (st_blocks st2) = wb_sync_tx (st_blocks st) @ [ConfirmedBlockPopBack]"
      using store_pop_inv [OF ist pop] i0(3) by simp_all
    have t2: "files_typed (st_files st2)" using store_pop_typed [OF ist _ pop] ft by simp
    have run2: "front_store_loop fuel (map_option (\<lambda>n. n - 1) ?k) c kv io slot b st2 = Some (Inr loc, st')"
      using run l None p rp by simp
    obtain n where n: "n \<le> length (tl xs)" "store_inv c view healthy st' (drop n (tl xs))" "files_typed (st_files st')" "loc_ok loc"
        "length (wb_blocks (st_blocks st')) = length (wb_blocks (st_blocks st2))"
        "wb_sync_tx (st_blocks st') = wb_sync_tx (st_blocks st2) @ replicate n ConfirmedBlockPopBack"
        "\<forall>B. files_hold (st_files st2) (st_disk st2) B (tl xs) \<longrightarrow> bl_protobuf b \<noteq> [] \<longrightarrow> gap_left (st_files st') (fst loc) \<longrightarrow>
          slot \<notin> sb_slot ` set (tl xs) \<longrightarrow>
          files_hold (st_files st') (st_disk st') (B(slot := bl_protobuf b)) (drop n (tl xs) @ [pushed_block slot (Some b) loc])"
      using Suc.IH [OF i2(1) t2 run2] by blast
    have h2: "files_hold (st_files st2) (st_disk st2) B (tl xs)" if "files_hold (st_files st) (st_disk st) B xs" for B
      using store_pop_hold [OF ist pop, of B] hold_none [OF that] f l None i0(2,4) by (simp add: files_push_block_front_def)
    have "set (tl xs) \<subseteq> set xs" by (cases xs) auto
    then have "files_hold (st_files st') (st_disk st') (B(slot := bl_protobuf b)) (drop n (tl xs) @ [pushed_block slot (Some b) loc])"
      if "files_hold (st_files st) (st_disk st) B xs" "bl_protobuf b \<noteq> []" "gap_left (st_files st') (fst loc)" "slot \<notin> sb_slot ` set xs" for B
      using n(7) h2 [OF that(1)] that(2-4) by blast
    moreover have "Suc n \<le> length xs" using n(1) i2(3) by (cases xs) simp_all
    ultimately show ?thesis using i2(2,4) n(2-6)
      by (intro exI [of _ "Suc n"] conjI allI impI) (simp_all add: drop_Suc del: fun_upd_apply)
  qed
qed simp

lemma store_push_front_inv:
  assumes inv: "store_inv c view healthy st xs" and ft: "files_typed (st_files st)" and pb: "pushable slot block"
    and run: "store_push_block_front k c kv io slot block st = Some (Inr (), st')"
  shows "files_typed (st_files st') \<and> length (wb_blocks (st_blocks st')) = length (wb_blocks (st_blocks st)) \<and>
    (\<exists>n loc. n \<le> length xs \<and> store_inv c view healthy st' (drop n xs @ [pushed_block slot block loc]) \<and>
      wb_sync_tx (st_blocks st') = wb_sync_tx (st_blocks st) @ replicate n ConfirmedBlockPopBack @
        [ConfirmedBlockPushFront (pushed_block slot block loc)] \<and>
      (\<forall>B. files_hold (st_files st) (st_disk st) B xs \<longrightarrow> push_keeps_gap block (st_files st') loc \<longrightarrow>
        files_hold (st_files st') (st_disk st') (pushed_bytes slot block B) (drop n xs @ [pushed_block slot block loc])))"
proof -
  have rep: "wb_rep (st_blocks st) xs" and sc: "slots_consecutive xs" and ok: "\<forall>x \<in> set xs. stored_ok x"
    using inv by (simp_all add: store_inv_def)
  let ?cs = "check_slot (map_option (\<lambda>s. add64 s 1) (get_front_slot (st_blocks st))) slot ''trying to push front invalid slot''"
  obtain fh where fh: "get_front_height (st_blocks st) = Some fh" using get_front_height_rep [OF rep] by blast
  let ?ch = "check_height fh block (\<lambda>height front_height. add64 front_height 1 = height)
      ''trying to push front block with invalid height''"
  have chk: "?cs = Inr ()" "bind_result ?cs (\<lambda>_. ?ch) = Inr ()"
    using run fh by (cases ?cs; cases ?ch; simp add: store_push_block_front_def)+
  have con: "slots_consecutive (drop n xs @ [pushed_block slot block loc])" for n loc
    using check_slot_front [OF _ ok sc] chk(1) get_front_slot_rep [OF rep] by simp
  let ?p = "if is_full (st_blocks st) then store_pop_block_back c kv st else (Inr (), st)"
  obtain rp st0 where p: "?p = (rp, st0)" by (rule prod.exhaust)
  note run0 = run [unfolded store_push_block_front_def fh option.case chk(2) sum.case p prod.case]
  have rp: "rp = Inr ()" using run0 by (cases rp) auto
  have nin: "slot \<notin> sb_slot ` set xs" using con [of 0] slots_consecutive_distinct [of "xs @ [pushed_block slot block undefined]"] by simp
  obtain n where i0: "n \<le> length xs" "store_inv c view healthy st0 (drop n xs)" "files_typed (st_files st0)"
      "length (drop n xs) < length (wb_blocks (st_blocks st0))" "length (wb_blocks (st_blocks st0)) = length (wb_blocks (st_blocks st))"
      "wb_sync_tx (st_blocks st0) = wb_sync_tx (st_blocks st) @ replicate n ConfirmedBlockPopBack"
      "\<And>B. files_hold (st_files st) (st_disk st) B xs \<Longrightarrow> files_hold (st_files st0) (st_disk st0) B (drop n xs)"
  proof (cases "is_full (st_blocks st)")
    case True
    then have pop: "store_pop_block c kv Back st = (Inr (), st0)" using p rp by (simp add: store_pop_block_back_def)
    note i0 = store_pop_inv [OF inv pop]
    have "length (tl xs) < length xs" using i0 by (cases xs) auto
    moreover have "length xs \<le> length (wb_blocks (st_blocks st))" using ring_repD(3) [OF rep [unfolded wb_rep_def]] .
    ultimately have "length (tl xs) < length (wb_blocks (st_blocks st0))" "1 \<le> length xs" using i0 by linarith+
    then show thesis using that [of 1] i0 store_pop_typed [OF inv ft pop] store_pop_hold [OF inv pop] by (simp add: drop_Suc)
  next
    case False
    then show thesis
      using that [of 0] p inv ft is_full_rep [OF rep] ring_repD(3) [OF rep [unfolded wb_rep_def]] by simp
  qed
  note run1 = run0 [unfolded rp sum.case]
  show ?thesis
  proof (cases block)
    case None
    obtain st1 where s1: "send_write c kv (SlotAdd slot None) st0 = (Inr (), st1)"
      by (rule send_write_cases [of "SlotAdd slot None" st0]) (use run1 None in auto)
    have p: "push_index (push_block_front2 (new_dead slot)) st1 = (Inr (), st')"
      using run1 None s1 by (simp add: push_block_front_dead_def)
    have "slot_value (None :: ('e BlockWithBinary \<times> StorageId \<times> nat) option) = index_value (new_dead slot)"
      "stored_ok (new_dead slot)"
      using slot_value_pushed [of _ "None :: 'e BlockWithBinary option" slot] pushed_block_ok [OF pb] None
      by (simp_all add: pushed_block_def)
    then have "store_inv c view healthy st' (drop n xs @ [new_dead slot])" "st_files st' = st_files st0" "st_disk st' = st_disk st0"
      "length (wb_blocks (st_blocks st')) = length (wb_blocks (st_blocks st0))"
      "wb_sync_tx (st_blocks st') = wb_sync_tx (st_blocks st0) @ [ConfirmedBlockPushFront (new_dead slot)]"
      using push_head [OF i0(2,4) s1 _ _ _ _ p] con [of n undefined] None by (simp_all add: pushed_block_def new_dead_def)
    then show ?thesis using i0 None by (auto simp: pushed_block_def pushed_bytes_def hold_dead(1))
  next
    case (Some b)
    obtain rl st1 where l: "front_store_loop (length (wb_blocks (st_blocks st0)) + 2) (Some k) c kv io slot b st0 = Some (rl, st1)"
      using run1 Some by (auto split: option.splits)
    obtain loc where loc: "rl = Inr loc" using run1 Some l by (cases rl) auto
    obtain m where i1: "m \<le> length (drop n xs)" "store_inv c view healthy st1 (drop m (drop n xs))" "files_typed (st_files st1)" "loc_ok loc"
      "length (wb_blocks (st_blocks st1)) = length (wb_blocks (st_blocks st0))"
      "wb_sync_tx (st_blocks st1) = wb_sync_tx (st_blocks st0) @ replicate m ConfirmedBlockPopBack"
      "\<forall>B. files_hold (st_files st0) (st_disk st0) B (drop n xs) \<longrightarrow> bl_protobuf b \<noteq> [] \<longrightarrow> gap_left (st_files st1) (fst loc) \<longrightarrow>
        slot \<notin> sb_slot ` set (drop n xs) \<longrightarrow>
        files_hold (st_files st1) (st_disk st1) (B(slot := bl_protobuf b)) (drop m (drop n xs) @ [pushed_block slot (Some b) loc])"
      using front_loop_inv [OF i0(2,3)] l loc by blast
    obtain sid off where so: "loc = (sid, off)" by (rule prod.exhaust)
    note run2 = run1 [unfolded Some option.case l loc so prod.case sum.case]
    obtain st2 where s2: "send_write c kv (SlotAdd slot (Some (b, sid, off))) st1 = (Inr (), st2)"
      by (rule send_write_cases [of "SlotAdd slot (Some (b, sid, off))" st1]) (use run2 in auto)
    let ?b = "pushed_block slot block loc"
    have pi: "push_index (push_block_front2 ?b) st2 = (Inr (), st')"
      using run2 s2 Some so by (simp add: push_block_front_confirmed_def pushed_block_def)
    have sv: "slot_value (Some (b, sid, off)) = index_value ?b"
      using slot_value_pushed [of loc block slot] Some so by simp
    have "length (drop m (drop n xs)) < length (wb_blocks (st_blocks st1))" using i0(4) i1(5) by simp
    then have j: "store_inv c view healthy st' (drop (m + n) xs @ [?b])" "st_files st' = st_files st1" "st_disk st' = st_disk st1"
      "length (wb_blocks (st_blocks st')) = length (wb_blocks (st_blocks st1))"
      "wb_sync_tx (st_blocks st') = wb_sync_tx (st_blocks st1) @ [ConfirmedBlockPushFront ?b]"
      using push_head [OF i1(2) _ s2 sv _ pushed_block_ok [OF pb i1(4)] _ pi] con [of "m + n" loc] by simp_all
    have "slot \<notin> sb_slot ` set (drop n xs)" using nin in_set_dropD by fastforce
    then have "files_hold (st_files st') (st_disk st') (pushed_bytes slot block B) (drop (m + n) xs @ [?b])"
      if "files_hold (st_files st) (st_disk st) B xs" "push_keeps_gap block (st_files st') loc" for B
      using i1(7) i0(7) [OF that(1)] that(2) j(2,3) Some by (simp add: pushed_bytes_def push_keeps_gap_def)
    moreover have "m + n \<le> length xs" using i0(1) i1(1) by simp
    moreover have "wb_sync_tx (st_blocks st') = wb_sync_tx (st_blocks st) @ replicate (m + n) ConfirmedBlockPopBack @ [ConfirmedBlockPushFront ?b]"
      using j(5) i1(6) i0(6) by (simp add: replicate_add [symmetric] add.commute)
    ultimately show ?thesis using j i1(3,5) i0(5) by (intro conjI exI [of _ "m + n"] exI [of _ loc]) simp_all
  qed
qed

text \<open>\<open>push_block_back\<close> and \<open>push_block_front\<close> always return.\<close>

lemma store_push_total:
  assumes inv: "store_inv c view healthy st xs" and ft: "files_typed (st_files st)"
  shows "\<exists>r st'. store_push_block_back c kv io slot block st = Some (r, st')"
    "\<exists>r st'. store_push_block_front k c kv io slot block st = Some (r, st')"
proof -
  have rep: "wb_rep (st_blocks st) xs" using inv by (simp add: store_inv_def)
  have len: "length xs \<le> length (wb_blocks (st_blocks st))" using ring_repD(3) [OF rep [unfolded wb_rep_def]] .
  show "\<exists>r st'. store_push_block_back c kv io slot block st = Some (r, st')"
  proof (cases block)
    case (Some b)
    obtain rf files d where "files_push_block Back io (bl_protobuf b) (st_files st, st_disk st) = Some (rf, files, d)"
      using files_push_total [OF ft] by blast
    then show ?thesis using Some
      by (auto simp: store_push_block_back_def files_push_block_back_def Let_def split: sum.splits prod.splits option.splits)
  qed (auto simp: store_push_block_back_def Let_def split: sum.splits prod.splits)
  obtain fh where fh: "get_front_height (st_blocks st) = Some fh" using get_front_height_rep [OF rep] by blast
  let ?p = "if is_full (st_blocks st) then store_pop_block_back c kv st else (Inr (), st)"
  obtain rp st0 where p: "?p = (rp, st0)" by (rule prod.exhaust)
  have "\<exists>q. front_store_loop (length (wb_blocks (st_blocks st0)) + 2) (Some k) c kv io slot b st0 = Some q" if "rp = Inr ()" for b
  proof (cases "is_full (st_blocks st)")
    case True
    then have pop: "store_pop_block c kv Back st = (Inr (), st0)" using p that by (simp add: store_pop_block_back_def)
    have i0: "store_inv c view healthy st0 (tl xs)" using store_pop_inv [OF inv pop] by simp
    have "length (tl xs) < length (wb_blocks (st_blocks st0)) + 2" using store_pop_inv [OF inv pop] len by simp
    from front_loop_total [OF i0 store_pop_typed [OF inv ft pop] this] show ?thesis by blast
  next
    case False
    then have st0: "st0 = st" using p by simp
    have "length xs < length (wb_blocks (st_blocks st)) + 2" using len by simp
    from front_loop_total [OF inv ft this] show ?thesis unfolding st0 by blast
  qed
  then have "rp = Inr () \<Longrightarrow> front_store_loop (length (wb_blocks (st_blocks st0)) + 2) (Some k) c kv io slot b st0 \<noteq> None" for b
    by blast
  then have "store_push_block_front k c kv io slot block st \<noteq> None"
    unfolding store_push_block_front_def fh option.case p
    by (cases rp; cases block)
      (auto simp del: front_store_loop.simps split: sum.splits prod.splits option.splits, metis option.distinct(1))
  then show "\<exists>r st'. store_push_block_front k c kv io slot block st = Some (r, st')" by auto
qed

lemma decode_index_value:
  assumes "stored_ok b"
  shows "\<exists>v. SlotBasicIndexValue_decode c (SlotBasicIndexValue_encode c (index_value b)) = Inr v \<and> stored_block_of (sb_slot b) v = b"
proof (cases "sb_dead b")
  case True
  then have "b = new_dead (sb_slot b)" using assms by (simp add: stored_ok_def)
  then show ?thesis using slot_basic_roundtrip [of "index_value b"] assms True
    by (auto simp: stored_ok_def index_value_def stored_block_of_def SlotBasicIndexValue_default_def StoredBlock_new_defs)
next
  case False
  then show ?thesis using slot_basic_roundtrip [of "index_value b"] assms
    by (cases b) (auto simp: stored_ok_def index_value_def stored_block_of_def)
qed

lemma slots_loop_index:
  assumes "\<forall>b \<in> set xs. stored_ok b" "slots_consecutive xs"
    "\<And>s. cur = Some s \<Longrightarrow> s < u64_MAX \<and> (xs \<noteq> [] \<longrightarrow> sb_slot (hd xs) = Suc s)"
  shows "slots_loop c (map Inr (disk_index c xs)) cur acc = Inr (acc @ xs)"
  using assms
proof (induction xs arbitrary: cur acc)
  case Nil
  then show ?case by (simp add: disk_index_def)
next
  case (Cons b xs)
  obtain v where v: "SlotBasicIndexValue_decode c (SlotBasicIndexValue_encode c (index_value b)) = Inr v"
    "stored_block_of (sb_slot b) v = b"
    using decode_index_value Cons.prems(1) by auto
  have b: "sb_slot b < u64_MAX" using Cons.prems(1) by (simp add: stored_ok_def)
  have chk: "check_slot (map_option (\<lambda>s. add64 s 1) cur) (sb_slot b) m = Inr ()" for m
    using Cons.prems(3) by (cases cur) (auto simp: check_slot_def ensure_def)
  have "slots_loop c (map Inr (disk_index c xs)) (Some (sb_slot b)) (acc @ [b]) = Inr ((acc @ [b]) @ xs)"
    by (rule Cons.IH) (use Cons.prems b in \<open>auto simp: slots_consecutive_Cons\<close>)
  then show ?case using v chk b slot_decode_key [of "sb_slot b"] by (simp add: disk_index_def)
qed

lemma restart_reads_index:
  assumes "store_inv c view healthy st xs"
  shows "spawn_slots c kv (st_db st) = Inr xs"
  using assms slots_loop_index [of xs None "[]"] by (simp add: store_inv_def spawn_slots_def iter_view)

end

section \<open>Runs\<close>

inductive store_run ::
  "'e codec \<Rightarrow> 'db kv \<Rightarrow> ('e, 'db) block_store \<Rightarrow> ('e, 'db) block_store \<Rightarrow> bool"
  for c kv where
  sr_start: "store_run c kv st st"
| sr_back: "store_run c kv st st1 \<Longrightarrow> pushable slot block \<Longrightarrow>
    store_push_block_back c kv io slot block st1 = Some (Inr r, st') \<Longrightarrow> store_run c kv st st'"
| sr_front: "store_run c kv st st1 \<Longrightarrow> pushable slot block \<Longrightarrow>
    store_push_block_front k c kv io slot block st1 = Some (Inr (), st') \<Longrightarrow> store_run c kv st st'"
| sr_pop: "store_run c kv st st1 \<Longrightarrow> store_pop_block c kv side st1 = (Inr (), st') \<Longrightarrow> store_run c kv st st'"

lemma store_run_inv:
  assumes laws: "store_laws c kv view healthy" and "store_run c kv st st'"
    and "store_inv c view healthy st xs" "files_typed (st_files st)"
  shows "files_typed (st_files st') \<and> (\<exists>ys. store_inv c view healthy st' ys)"
  using assms(2-)
proof (induction rule: store_run.induct)
  case (sr_start st)
  then show ?case by blast
next
  case (sr_back st st1 slot block io r st')
  then obtain ys where "files_typed (st_files st1)" "store_inv c view healthy st1 ys" by blast
  then show ?case
    using store_laws.store_push_back_inv [OF laws _ _ sr_back.hyps(2,3)] by (cases r) fastforce+
next
  case (sr_front st st1 slot block k io st')
  then obtain ys where "files_typed (st_files st1)" "store_inv c view healthy st1 ys" by blast
  then show ?case using store_laws.store_push_front_inv [OF laws _ _ sr_front.hyps(2,3)] by blast
next
  case (sr_pop st st1 side st')
  then obtain ys where "files_typed (st_files st1)" "store_inv c view healthy st1 ys" by blast
  then show ?case
    using store_laws.store_pop_inv [OF laws _ sr_pop.hyps(2)] store_laws.store_pop_typed [OF laws _ _ sr_pop.hyps(2)] by blast
qed

section \<open>An instance\<close>

definition mem_kv :: "kv_view kv" where
  "mem_kv = \<lparr>kv_get = (\<lambda>col k db. Inr (bt_get (db col) k)),
     kv_write = (\<lambda>batch db. (Inr (), apply_batch batch db)),
     kv_iter = (\<lambda>col db. map Inr (db col)),
     kv_iter_from = (\<lambda>col k desc db. map Inr
       (if desc then rev (filter (\<lambda>e. fst e \<le> k) (db col)) else filter (\<lambda>e. k \<le> fst e) (db col)))\<rparr>"

definition mem_healthy :: "kv_view \<Rightarrow> bool" where
  "mem_healthy db \<longleftrightarrow> (\<forall>col. bt_ok (db col))"

lemma mem_healthy_op: "mem_healthy db \<Longrightarrow> mem_healthy (apply_op op db)"
  by (cases op) (auto simp: mem_healthy_def)

lemma mem_healthy_batch: "mem_healthy db \<Longrightarrow> mem_healthy (apply_batch batch db)"
  by (induction batch arbitrary: db) (simp_all add: mem_healthy_op)

interpretation leb_mem: store_laws leb_codec mem_kv "\<lambda>db. db" mem_healthy
  by unfold_locales (auto simp: mem_kv_def mem_healthy_batch, simp add: mem_healthy_def)

section \<open>Properties\<close>

text \<open>
  C2. A restart rebuilds the index: after any run of pushes on either side and pops that
  succeed, with the indexes added at any moment of a push, the slots that the database gives are exactly the
  blocks of the in-memory index, and \<open>StoredBlocksWrite::new\<close> on them gives a valid index with the
  same blocks.
\<close>

theorem restart_rebuilds_index:
  assumes "store_laws c kv view healthy" and "store_inv c view healthy st xs" and "files_typed (st_files st)"
    and "store_run c kv st st'"
  shows "spawn_slots c kv (st_db st') = Inr (wb_list (st_blocks st')) \<and>
    (\<exists>w. StoredBlocksWrite_new (wb_list (st_blocks st')) (length (wb_blocks (st_blocks st'))) slots tx = Inr w \<and>
      wb_valid w \<and> wb_list w = wb_list (st_blocks st'))"
proof -
  obtain ys where inv: "store_inv c view healthy st' ys" using store_run_inv [OF assms(1,4,2,3)] by blast
  have rep: "wb_rep (st_blocks st') ys" using inv by (simp add: store_inv_def)
  have l: "wb_list (st_blocks st') = ys" using wb_list_eq [OF rep] .
  have n: "length ys \<le> length (wb_blocks (st_blocks st'))" "0 < length (wb_blocks (st_blocks st'))"
    using ring_repD(1,3) [OF rep [unfolded wb_rep_def]] by linarith+
  obtain w where "StoredBlocksWrite_new ys (length (wb_blocks (st_blocks st'))) slots tx = Inr w" "wb_rep w ys"
    using StoredBlocksWrite_new_rep [OF n, of slots tx] inv by (auto simp: store_inv_def stored_ok_def)
  then show ?thesis using store_laws.restart_reads_index [OF assms(1) inv] l wb_validI by auto
qed

definition demo_store :: "(u8, kv_view) block_store" where
  "demo_store = \<lparr>st_blocks = \<lparr>wb_blocks = [new_noexists, new_noexists], wb_tail = 0, wb_head = 1,
       wb_stored_slots = StoredSlots_default, wb_sync_tx = []\<rparr>,
     st_files = demo_files, st_disk = (\<lambda>_. []), st_db = (\<lambda>_. [])\<rparr>"

lemma demo_store_ok: "store_inv leb_codec (\<lambda>db. db) mem_healthy demo_store []" "files_typed (st_files demo_store)"
proof -
  have "wb_rep (st_blocks demo_store) []"
    unfolding wb_rep_def demo_store_def
    by (rule ring_repI) (auto simp: ring_at_def ring_next_def less_Suc_eq mod_Suc)
  then show "store_inv leb_codec (\<lambda>db. db) mem_healthy demo_store []"
    by (simp add: store_inv_def disk_index_def mem_healthy_def) (simp add: demo_store_def)
  show "files_typed (st_files demo_store)" by (simp add: files_typed_def demo_store_def demo_files_def)
qed

theorem restart_rebuilds_index_witness:
  "\<exists>st'. store_push_block_front 0 leb_codec mem_kv IoOk 7 None demo_store = Some (Inr (), st') \<and>
     spawn_slots leb_codec mem_kv (st_db st') = Inr (wb_list (st_blocks st'))"
proof -
  have "wb_rep (st_blocks demo_store) []" using demo_store_ok(1) by (simp add: store_inv_def)
  then have q: "get_front_height (st_blocks demo_store) = Some (Inr None)" "get_front_slot (st_blocks demo_store) = None"
    "\<not> is_full (st_blocks demo_store)"
    using get_front_height_rep get_front_slot_rep is_full_rep by (fastforce simp: demo_store_def)+
  have "\<exists>st'. store_push_block_front 0 leb_codec mem_kv IoOk 7 None demo_store = Some (Inr (), st')"
    by (simp add: store_push_block_front_def q check_slot_def check_height_def send_write_def mem_kv_def)
      (simp add: push_index_def push_block_front_dead_def push_block_front2_def demo_store_def ring_next_def new_noexists_def Let_def)
  then obtain st' where st': "store_push_block_front 0 leb_codec mem_kv IoOk 7 None demo_store = Some (Inr (), st')" by blast
  have "store_run leb_codec mem_kv demo_store st'"
    by (rule sr_front [OF sr_start _ st']) (simp add: pushable_def)
  from restart_rebuilds_index [OF leb_mem.store_laws_axioms demo_store_ok this] st' show ?thesis by blast
qed

text \<open>
  The pushes always return: whatever the database answers, \<open>push_block_back\<close> and
  \<open>push_block_front\<close> give a value or an error, the loop that pops old blocks until the new one fits
  ends.
\<close>

lemma store_pushes_return:
  assumes "store_laws c kv view healthy" and "store_inv c view healthy st xs" and "files_typed (st_files st)"
  shows "(\<exists>r st'. store_push_block_back c kv io slot block st = Some (r, st')) \<and>
    (\<exists>r st'. store_push_block_front k c kv io slot block st = Some (r, st'))"
  using store_laws.store_push_total [OF assms] by blast

end
