(* ===== verification/Alp_Reward_Cache.thy ===== *)
theory Alp_Reward_Cache
  imports Alp_Store
begin

text \<open>
  The cache of inflation rewards in the database (src/src/storage/rocksdb.rs). An abstract cache has for each epoch the known
  rewards, and which of the partitions that the rewards are distributed in have been seen; the requests of the
  database thread implement its steps, and reading the rewards of an epoch gives the known ones and the places for which the
  cache cannot tell.
\<close>

section \<open>The abstract cache\<close>

record reward_base =
  rk_hash :: bytes
  rk_partitions :: "nat option"
  rk_seen :: "nat list"

record reward_cache =
  rk_known :: "Pubkey \<Rightarrow> RpcInflationReward option"
  rk_base :: "reward_base option"

definition no_cache :: "nat \<Rightarrow> reward_cache" where
  "no_cache epoch = \<lparr>rk_known = \<lambda>_. None, rk_base = None\<rparr>"

definition add_known :: "(Pubkey, RpcInflationReward) hmap \<Rightarrow> reward_cache \<Rightarrow> Pubkey \<Rightarrow> RpcInflationReward option" where
  "add_known m cache address = (case hm_get m address of Some r \<Rightarrow> Some r | None \<Rightarrow> rk_known cache address)"

fun cache_step :: "'e WriteRequest \<Rightarrow> (nat \<Rightarrow> reward_cache) \<Rightarrow> nat \<Rightarrow> reward_cache" where
  "cache_step (InflationRewardBase epoch slot height hash num m) caches =
     caches(epoch := \<lparr>rk_known = add_known m (caches epoch),
       rk_base = Some \<lparr>rk_hash = hash, rk_partitions = num, rk_seen = []\<rparr>\<rparr>)"
| "cache_step (InflationRewardPartition epoch p m) caches =
     caches(epoch := \<lparr>rk_known = add_known m (caches epoch),
       rk_base = map_option (\<lambda>b. b\<lparr>rk_seen := p # rk_seen b\<rparr>) (rk_base (caches epoch))\<rparr>)"
| "cache_step _ caches = caches"

text \<open>Whether the cache knows that an address without a reward has none.\<close>

definition covers :: "(nat \<Rightarrow> bytes \<Rightarrow> Pubkey \<Rightarrow> nat) \<Rightarrow> reward_cache \<Rightarrow> Pubkey \<Rightarrow> bool" where
  "covers hasher cache address =
     (case rk_base cache of
        None \<Rightarrow> False
      | Some b \<Rightarrow>
          (case rk_partitions b of
             None \<Rightarrow> True
           | Some n \<Rightarrow> hasher n (rk_hash b) address < n \<and> hasher n (rk_hash b) address \<in> set (rk_seen b)))"

definition missing :: "(nat \<Rightarrow> bytes \<Rightarrow> Pubkey \<Rightarrow> nat) \<Rightarrow> reward_cache \<Rightarrow> Pubkey \<Rightarrow> bool" where
  "missing hasher cache address \<longleftrightarrow> rk_known cache address = None \<and> \<not> covers hasher cache address"

section \<open>The requests of the database thread\<close>

text \<open>A run of the database thread: the requests in their order, with their results.\<close>

fun db_run :: "'e codec \<Rightarrow> 'db kv \<Rightarrow> 'e WriteRequest list \<Rightarrow> 'db \<Rightarrow> unit result list \<times> 'db" where
  "db_run c kv [] db = ([], db)"
| "db_run c kv (w # ws) db =
     (let (r, db) = handle_write c kv w db; (rs, db) = db_run c kv ws db in (r # rs, db))"

fun cache_run :: "('e WriteRequest \<times> unit result) list \<Rightarrow> (nat \<Rightarrow> reward_cache) \<Rightarrow> nat \<Rightarrow> reward_cache" where
  "cache_run [] caches = caches"
| "cache_run ((w, r) # wrs) caches = cache_run wrs (if is_ok r then cache_step w caches else caches)"

definition reward_ok :: "RpcInflationReward \<Rightarrow> bool" where
  "reward_ok r \<longleftrightarrow> ir_epoch r < u64_modulus \<and> ir_effective_slot r < u64_modulus \<and> ir_amount r < u64_modulus \<and>
     ir_post_balance r < u64_modulus \<and> (case ir_commission_bps r of None \<Rightarrow> True | Some b \<Rightarrow> b < 65536 \<and> ir_commission r \<noteq> None)"

definition rewards_ok :: "(Pubkey, RpcInflationReward) hmap \<Rightarrow> bool" where
  "rewards_ok m \<longleftrightarrow> hm_ok m \<and> list_all (\<lambda>(address, r). length address = 32 \<and> reward_ok r) m"

text \<open>The values that the types of the requests have in the program.\<close>

fun request_fits :: "'e WriteRequest \<Rightarrow> bool" where
  "request_fits (InflationRewardBase epoch slot height hash num m) \<longleftrightarrow>
     epoch < u64_modulus \<and> slot < u64_modulus \<and> (case height of None \<Rightarrow> True | Some h \<Rightarrow> h < u64_modulus) \<and> length hash = 32 \<and>
     (case num of None \<Rightarrow> True | Some n \<Rightarrow> n + 8 < u64_modulus) \<and> rewards_ok m"
| "request_fits (InflationRewardPartition epoch p m) \<longleftrightarrow> epoch < u64_modulus \<and> rewards_ok m"
| "request_fits _ \<longleftrightarrow> True"

definition base_fits :: "InflationRewardBaseValue \<Rightarrow> bool" where
  "base_fits v \<longleftrightarrow> irb_slot v < u64_modulus \<and> (case irb_block_height v of None \<Rightarrow> True | Some h \<Rightarrow> h < u64_modulus) \<and>
     length (irb_previous_blockhash v) = 32 \<and>
     (case irb_num_reward_partitions v of None \<Rightarrow> True | Some n \<Rightarrow> n < u64_modulus \<and> n \<le> length (irb_partitions v)) \<and>
     8 * ((length (irb_partitions v) + 7) div 8) < u64_modulus"

text \<open>The stored value of an epoch has the hash, the number of partitions and the seen ones of the abstract base.\<close>

definition base_rep :: "reward_base \<Rightarrow> InflationRewardBaseValue \<Rightarrow> bool" where
  "base_rep b v \<longleftrightarrow> base_fits v \<and> irb_previous_blockhash v = rk_hash b \<and> irb_num_reward_partitions v = rk_partitions b \<and>
     (\<forall>n i. rk_partitions b = Some n \<longrightarrow> i < n \<longrightarrow> (irb_partitions v ! i \<longleftrightarrow> i \<in> set (rk_seen b)))"

definition cache_rep :: "'e codec \<Rightarrow> (bytes, bytes) btree \<Rightarrow> (nat \<Rightarrow> reward_cache) \<Rightarrow> bool" where
  "cache_rep c m caches \<longleftrightarrow> (\<forall>epoch < u64_modulus.
     (case rk_base (caches epoch) of
        None \<Rightarrow> bt_get m (ir_encode_base epoch) = None
      | Some b \<Rightarrow> \<exists>sl v. bt_get m (ir_encode_base epoch) = Some sl \<and> InflationRewardBaseValue_decode c sl = Inr v \<and> base_rep b v) \<and>
     (\<forall>address. length address = 32 \<longrightarrow>
       (case rk_known (caches epoch) address of
          None \<Rightarrow> bt_get m (ir_encode_reward epoch address) = None
        | Some r \<Rightarrow> \<exists>sl. bt_get m (ir_encode_reward epoch address) = Some sl \<and> InflationRewardAddressValue_decode c sl = Inr r)))"

lemma cache_rep_base:
  "cache_rep c m caches \<Longrightarrow> epoch < u64_modulus \<Longrightarrow>
     (case rk_base (caches epoch) of
        None \<Rightarrow> bt_get m (ir_encode_base epoch) = None
      | Some b \<Rightarrow> \<exists>sl v. bt_get m (ir_encode_base epoch) = Some sl \<and> InflationRewardBaseValue_decode c sl = Inr v \<and> base_rep b v)"
  unfolding cache_rep_def by blast

lemma cache_rep_known:
  "cache_rep c m caches \<Longrightarrow> epoch < u64_modulus \<Longrightarrow> length address = 32 \<Longrightarrow>
     (case rk_known (caches epoch) address of
        None \<Rightarrow> bt_get m (ir_encode_reward epoch address) = None
      | Some r \<Rightarrow> \<exists>sl. bt_get m (ir_encode_reward epoch address) = Some sl \<and> InflationRewardAddressValue_decode c sl = Inr r)"
  unfolding cache_rep_def by blast

section \<open>Keys and batches\<close>

lemma reward_keys:
  assumes "epoch < u64_modulus" "epoch' < u64_modulus"
  shows "ir_encode_base epoch = ir_encode_base epoch' \<longleftrightarrow> epoch = epoch'"
    and "ir_encode_reward epoch a = ir_encode_reward epoch' a' \<longleftrightarrow> epoch = epoch' \<and> a = a'"
    and "length a = 32 \<Longrightarrow> ir_encode_reward epoch a \<noteq> ir_encode_base epoch'"
proof -
  have e: "be_bytes 8 epoch = be_bytes 8 epoch' \<longleftrightarrow> epoch = epoch'" using assms be_bytes_inj [of epoch 8 epoch'] by simp
  show "ir_encode_base epoch = ir_encode_base epoch' \<longleftrightarrow> epoch = epoch'" using e by (simp add: ir_encode_base_def)
  show "ir_encode_reward epoch a = ir_encode_reward epoch' a' \<longleftrightarrow> epoch = epoch' \<and> a = a'"
    using e by (simp add: ir_encode_reward_def length_be_bytes)
  show "ir_encode_reward epoch a \<noteq> ir_encode_base epoch'" if "length a = 32"
  proof
    assume "ir_encode_reward epoch a = ir_encode_base epoch'"
    then have "length (ir_encode_reward epoch a) = length (ir_encode_base epoch')" by simp
    with that show False by (simp add: ir_encode_reward_def ir_encode_base_def length_be_bytes)
  qed
qed

text \<open>The column after the batch of \<open>spawn_push_reward\<close>.\<close>

lemma apply_puts:
  assumes "distinct (map f (map fst m))"
  shows "bt_get (apply_batch (map (\<lambda>(k, v). PutCf col (f k) (g v)) m) V col) key =
    (case map_of (map (\<lambda>(k, v). (f k, g v)) m) key of Some w \<Rightarrow> Some w | None \<Rightarrow> bt_get (V col) key)"
  using assms
proof (induction m arbitrary: V)
  case (Cons e m)
  obtain k v where e: "e = (k, v)" by force
  have "f k \<notin> fst ` set (map (\<lambda>(k, v). (f k, g v)) m)" using Cons.prems e by force
  then have "map_of (map (\<lambda>(k, v). (f k, g v)) m) (f k) = None" by (simp add: map_of_eq_None_iff)
  with Cons e show ?case by (auto split: option.splits)
qed simp

definition pushed_column ::
  "'e codec \<Rightarrow> nat \<Rightarrow> InflationRewardBaseValue \<Rightarrow> (Pubkey, RpcInflationReward) hmap \<Rightarrow> (bytes, bytes) btree \<Rightarrow> (bytes, bytes) btree \<Rightarrow> bool" where
  "pushed_column c epoch base m col col' \<longleftrightarrow>
     (\<forall>epoch' < u64_modulus. bt_get col' (ir_encode_base epoch') =
        (if epoch' = epoch then Some (InflationRewardBaseValue_encode c base) else bt_get col (ir_encode_base epoch'))) \<and>
     (\<forall>epoch' < u64_modulus. \<forall>a. length a = 32 \<longrightarrow> bt_get col' (ir_encode_reward epoch' a) =
        (case (if epoch' = epoch then hm_get m a else None) of
           Some r \<Rightarrow> Some (InflationRewardAddressValue_encode c r)
         | None \<Rightarrow> bt_get col (ir_encode_reward epoch' a)))"

lemma reward_key_inj: "ir_encode_reward epoch a = ir_encode_reward epoch b \<longleftrightarrow> a = b"
  by (simp add: ir_encode_reward_def)

lemma map_of_reward_keys:
  "map_of (map (\<lambda>(a, r). (ir_encode_reward epoch a, g r)) m) (ir_encode_reward epoch a) = map_option g (hm_get m a)"
  by (induction m) (auto simp: reward_key_inj)

lemma map_of_other_key:
  assumes "\<And>a. a \<in> fst ` set m \<Longrightarrow> ir_encode_reward epoch a \<noteq> key"
  shows "map_of (map (\<lambda>(a, r). (ir_encode_reward epoch a, g r)) m) key = None"
  using assms by (force simp: map_of_eq_None_iff)

lemma batch_pushed_column:
  assumes "rewards_ok m" "epoch < u64_modulus"
  shows "pushed_column c epoch base m (V InflationRewardIndex) (apply_batch
    (PutCf InflationRewardIndex (ir_encode_base epoch) (InflationRewardBaseValue_encode c base) #
     map (\<lambda>(a, r). PutCf InflationRewardIndex (ir_encode_reward epoch a) (InflationRewardAddressValue_encode c r)) m) V InflationRewardIndex)"
proof -
  have d: "distinct (map (ir_encode_reward epoch) (map fst m))"
    using assms(1) by (auto simp: rewards_ok_def hm_ok_def distinct_map inj_on_def reward_key_inj)
  have len: "length a = 32" if "a \<in> fst ` set m" for a
    using assms(1) that by (auto simp: rewards_ok_def list_all_iff)
  note get = apply_puts [OF d, where g = "InflationRewardAddressValue_encode c" and col = InflationRewardIndex]
  have base: "map_of (map (\<lambda>(a, r). (ir_encode_reward epoch a, g r)) m) (ir_encode_base e) = None" if "e < u64_modulus" for e g
    using that assms(2) len reward_keys(3) by (intro map_of_other_key) blast
  have other: "map_of (map (\<lambda>(a, r). (ir_encode_reward epoch a, g r)) m) (ir_encode_reward e a) = None"
    if "e < u64_modulus" "e \<noteq> epoch" for e g a
    using that assms(2) reward_keys(2) by (intro map_of_other_key) blast
  show ?thesis
    unfolding pushed_column_def apply_batch_simps(2) get
    using assms(2) reward_keys(1,3) by (auto simp: base other map_of_reward_keys split: option.splits)
qed

section \<open>Values\<close>

context codec_laws
begin

lemma reward_value_roundtrip:
  "reward_ok r \<Longrightarrow> InflationRewardAddressValue_decode c (InflationRewardAddressValue_encode c r) = Inr r"
  by (rule inflation_address_roundtrip) (auto simp: reward_ok_def split: option.splits)

lemma base_value_rep:
  assumes "base_rep b v"
  shows "\<exists>v'. InflationRewardBaseValue_decode c (InflationRewardBaseValue_encode c v) = Inr v' \<and> base_rep b v'"
proof -
  have f: "base_fits v" using assms by (simp add: base_rep_def)
  have "length (irb_partitions v) \<le> 8 * ((length (irb_partitions v) + 7) div 8)" by simp
  with f have "length (irb_partitions v) < u64_modulus" by (simp add: base_fits_def)
  then obtain pad where pad: "InflationRewardBaseValue_decode c (InflationRewardBaseValue_encode c v) =
      Inr (v\<lparr>irb_partitions := irb_partitions v @ pad\<rparr>)"
    "length (irb_partitions v @ pad) = 8 * ((length (irb_partitions v) + 7) div 8)"
    using inflation_base_roundtrip [of v] f by (auto simp: base_fits_def split: option.splits)
  have "(8 * ((n + 7) div 8) + 7) div 8 = (n + 7) div 8" for n :: nat by simp
  then have "base_rep b (v\<lparr>irb_partitions := irb_partitions v @ pad\<rparr>)"
    using assms pad(2) unfolding base_rep_def base_fits_def
    by (auto simp: nth_append split: option.splits)
  with pad(1) show ?thesis by blast
qed

lemma pushed_rep:
  assumes rep: "cache_rep c col caches" and push: "pushed_column c epoch base m col col'"
    and m: "rewards_ok m" and b: "base_rep b base"
  shows "cache_rep c col' (caches(epoch := \<lparr>rk_known = add_known m (caches epoch), rk_base = Some b\<rparr>))"
  unfolding cache_rep_def
proof (intro allI impI conjI)
  let ?caches = "caches(epoch := \<lparr>rk_known = add_known m (caches epoch), rk_base = Some b\<rparr>)"
  fix e assume e: "e < u64_modulus"
  have get: "bt_get col' (ir_encode_base e) =
      (if e = epoch then Some (InflationRewardBaseValue_encode c base) else bt_get col (ir_encode_base e))"
    using push e by (simp add: pushed_column_def)
  show "case rk_base (?caches e) of
      None \<Rightarrow> bt_get col' (ir_encode_base e) = None
    | Some b \<Rightarrow> \<exists>sl v. bt_get col' (ir_encode_base e) = Some sl \<and> InflationRewardBaseValue_decode c sl = Inr v \<and> base_rep b v"
    using base_value_rep [OF b] cache_rep_base [OF rep e] unfolding get by simp
  fix a :: Pubkey assume a: "length a = 32"
  have get: "bt_get col' (ir_encode_reward e a) = (case (if e = epoch then hm_get m a else None) of
      Some r \<Rightarrow> Some (InflationRewardAddressValue_encode c r) | None \<Rightarrow> bt_get col (ir_encode_reward e a))"
    using push e a by (simp add: pushed_column_def)
  have ok: "reward_ok r" if "hm_get m a = Some r" for r
    using m that by (auto simp: rewards_ok_def list_all_iff hm_get_def dest: map_of_SomeD)
  show "case rk_known (?caches e) a of
      None \<Rightarrow> bt_get col' (ir_encode_reward e a) = None
    | Some r \<Rightarrow> \<exists>sl. bt_get col' (ir_encode_reward e a) = Some sl \<and> InflationRewardAddressValue_decode c sl = Inr r"
  proof (cases "if e = epoch then hm_get m a else None")
    case None
    then have "rk_known (?caches e) a = rk_known (caches e) a" by (auto simp: add_known_def split: if_splits)
    moreover have "bt_get col' (ir_encode_reward e a) = bt_get col (ir_encode_reward e a)" using get None by simp
    ultimately show ?thesis using cache_rep_known [OF rep e a] by presburger
  next
    case (Some r)
    then have r: "hm_get m a = Some r" "e = epoch" by (auto split: if_splits)
    then have "bt_get col' (ir_encode_reward e a) = Some (InflationRewardAddressValue_encode c r)" using get by simp
    with r reward_value_roundtrip [OF ok [OF r(1)]] show ?thesis by (simp add: add_known_def)
  qed
qed

end

section \<open>The database thread implements the cache\<close>

lemma new_base_rep:
  assumes "request_fits (InflationRewardBase epoch slot height hash num m)"
  shows "base_rep \<lparr>rk_hash = hash, rk_partitions = num, rk_seen = []\<rparr> (InflationRewardBaseValue_new slot height hash num)"
proof -
  have "8 * ((n + 7) div 8) < u64_modulus" if "n + 8 < u64_modulus" for n :: nat
    using that by (rule le_less_trans [rotated]) simp
  then show ?thesis
    using assms by (auto simp: base_rep_def base_fits_def InflationRewardBaseValue_new_def split: option.splits)
qed

lemma seen_base_rep:
  assumes "base_rep b v" "p < length (irb_partitions v)"
  shows "base_rep (b\<lparr>rk_seen := p # rk_seen b\<rparr>) (v\<lparr>irb_partitions := (irb_partitions v)[p := True]\<rparr>)"
  using assms unfolding base_rep_def base_fits_def by (auto simp: nth_list_update split: option.splits)

context store_laws
begin

lemma push_reward_view:
  assumes "healthy db" "spawn_push_reward c kv epoch base m db = (r, db')" "rewards_ok m" "epoch < u64_modulus"
  shows "healthy db' \<and> (if is_ok r
    then pushed_column c epoch base m (view db InflationRewardIndex) (view db' InflationRewardIndex)
    else view db' = view db)"
  using write_atomic [OF assms(1) assms(2) [unfolded spawn_push_reward_def]] batch_pushed_column [OF assms(3,4), of c base "view db"]
  by simp

lemma push_reward_rep:
  assumes "healthy db" "cache_rep c (view db InflationRewardIndex) caches" "rewards_ok m" "epoch < u64_modulus"
    and "spawn_push_reward c kv epoch base m db = (r, db')" "base_rep b base"
  shows "healthy db' \<and> cache_rep c (view db' InflationRewardIndex)
    (if is_ok r then caches(epoch := \<lparr>rk_known = add_known m (caches epoch), rk_base = Some b\<rparr>) else caches)"
  using push_reward_view [OF assms(1,5,3,4)] pushed_rep [OF assms(2) _ assms(3,6)] assms(2)
  by (auto split: if_splits)

lemma partition_rep:
  assumes "healthy db" "cache_rep c (view db InflationRewardIndex) caches" "rewards_ok m" "epoch < u64_modulus"
    and "spawn_push_partition_reward c kv epoch p m db = (r, db')"
  shows "healthy db' \<and> cache_rep c (view db' InflationRewardIndex)
    (if is_ok r then cache_step (InflationRewardPartition epoch p m) caches else caches)"
proof (cases "kv_get kv InflationRewardIndex (ir_encode_base epoch) db")
  case (Inl e)
  with assms show ?thesis by (auto simp: spawn_push_partition_reward_def)
next
  case (Inr v)
  note v = get_view [OF assms(1) Inr]
  show ?thesis
  proof (cases "\<exists>sl base. v = Some sl \<and> InflationRewardBaseValue_decode c sl = Inr base \<and> p < length (irb_partitions base)")
    case True
    then obtain sl base where sl: "v = Some sl" "InflationRewardBaseValue_decode c sl = Inr base" "p < length (irb_partitions base)"
      by blast
    obtain b where b: "rk_base (caches epoch) = Some b" "base_rep b base"
      using cache_rep_base [OF assms(2,4)] v sl by (auto split: option.splits)
    have "spawn_push_reward c kv epoch (base\<lparr>irb_partitions := (irb_partitions base)[p := True]\<rparr>) m db = (r, db')"
      using assms(5) Inr sl by (simp add: spawn_push_partition_reward_def)
    from push_reward_rep [OF assms(1-4) this seen_base_rep [OF b(2) sl(3)]] b(1) show ?thesis
      by (cases "is_ok r") simp_all
  next
    case False
    then have "\<not> is_ok r \<and> db' = db"
      using assms(5) Inr by (auto simp: spawn_push_partition_reward_def split: option.splits sum.splits if_splits)
    with assms show ?thesis by simp
  qed
qed

lemma other_batch_rep:
  assumes "healthy db" "cache_rep c (view db InflationRewardIndex) caches" "kv_write kv batch db = (r, db')"
    and "\<forall>op \<in> set batch. op_column op \<noteq> InflationRewardIndex"
  shows "healthy db' \<and> cache_rep c (view db' InflationRewardIndex) caches"
  using write_atomic [OF assms(1,3)] apply_batch_other [OF assms(4)] assms(2) by (auto split: if_splits)

lemma remove_slot_rep:
  assumes "healthy db" "cache_rep c (view db InflationRewardIndex) caches" "spawn_remove_slot c kv slot dead db = (r, db')"
  shows "healthy db' \<and> cache_rep c (view db' InflationRewardIndex) caches"
proof -
  have "db' = db \<or> (\<exists>batch. kv_write kv batch db = (r, db') \<and> (\<forall>op \<in> set batch. op_column op \<noteq> InflationRewardIndex))"
    using assms(3) by (auto simp: spawn_remove_slot_def Let_def split: if_splits sum.splits option.splits) fastforce+
  then show ?thesis using other_batch_rep [OF assms(1,2)] assms(1,2) by blast
qed

lemma handle_write_rep:
  assumes "healthy db" "cache_rep c (view db InflationRewardIndex) caches" "request_fits w" "handle_write c kv w db = (r, db')"
  shows "healthy db' \<and> cache_rep c (view db' InflationRewardIndex) (if is_ok r then cache_step w caches else caches)"
proof (cases w)
  case (AddIndexes slot block)
  have "\<forall>op \<in> set (add_indexes_batch c slot block). op_column op \<noteq> InflationRewardIndex"
    by (auto simp: add_indexes_batch_def)
  then show ?thesis using other_batch_rep [OF assms(1,2)] assms(4) AddIndexes by auto
next
  case (SlotAdd slot data)
  then show ?thesis using other_batch_rep [OF assms(1,2)] assms(4) by auto
next
  case (SlotRemove slot dead)
  then show ?thesis using remove_slot_rep [OF assms(1,2)] assms(4) by auto
next
  case (InflationRewardBase epoch slot height hash num m)
  then show ?thesis
    using push_reward_rep [OF assms(1,2) _ _ _ new_base_rep, of m epoch slot height hash num r db' slot m] assms(3,4)
    by (auto simp: InflationRewardBase)
next
  case (InflationRewardPartition epoch p m)
  then show ?thesis
    using partition_rep [OF assms(1,2), of m epoch p r db'] assms(3,4)
    by (cases "is_ok r") (simp_all del: cache_step.simps)
qed

lemma db_run_rep:
  assumes "healthy db" "cache_rep c (view db InflationRewardIndex) caches" "list_all request_fits ws" "db_run c kv ws db = (rs, db')"
  shows "healthy db' \<and> cache_rep c (view db' InflationRewardIndex) (cache_run (zip ws rs) caches)"
  using assms
proof (induction ws arbitrary: db caches rs)
  case (Cons w ws)
  obtain r db1 rs1 db2 where *: "handle_write c kv w db = (r, db1)" "db_run c kv ws db1 = (rs1, db2)" by (metis surj_pair)
  with Cons.prems(4) have rs: "rs = r # rs1" "db_run c kv ws db1 = (rs1, db')" by auto
  have "healthy db1 \<and> cache_rep c (view db1 InflationRewardIndex) (if is_ok r then cache_step w caches else caches)"
    using handle_write_rep [OF Cons.prems(1,2) _ *(1)] Cons.prems(3) by simp
  with Cons.IH [OF _ _ _ rs(2), of "if is_ok r then cache_step w caches else caches"] Cons.prems(3) show ?case
    by (simp add: rs(1))
qed simp

end

section \<open>Reading\<close>

lemma reward_complete_covers:
  assumes "base_rep b v" "rk_base cache = Some b"
  shows "reward_complete hasher v address \<longleftrightarrow> covers hasher cache address"
  using assms by (auto simp: reward_complete_def covers_def base_rep_def base_fits_def Let_def split: option.splits)

text \<open>What the loop knows of the base when it goes on, and after the base was needed.\<close>

definition scan_knows :: "reward_cache \<Rightarrow> reward_scan \<Rightarrow> bool" where
  "scan_knows cache s \<longleftrightarrow> (case rs_base s of
      None \<Rightarrow> rs_base_fetched s \<longrightarrow> rk_base cache = None
    | Some v \<Rightarrow> \<exists>b. rk_base cache = Some b \<and> base_rep b v)"

lemma scan_knows_update [simp]:
  "scan_knows cache (s\<lparr>rs_rewards := rewards\<rparr>) \<longleftrightarrow> scan_knows cache s"
  "scan_knows cache (s\<lparr>rs_missed := missed\<rparr>) \<longleftrightarrow> scan_knows cache s"
  by (auto simp: scan_knows_def split: option.splits)

context store_laws
begin

lemma fetch_base:
  assumes "healthy db" "cache_rep c (view db InflationRewardIndex) caches" "epoch < u64_modulus" "scan_knows (caches epoch) s"
    and reads: "\<And>k. \<exists>v. kv_get kv InflationRewardIndex k db = Inr v"
  obtains s' where
    "(if rs_base s = None \<and> \<not> rs_base_fetched s
      then bind_result (kv_get kv InflationRewardIndex (ir_encode_base epoch) db) (\<lambda>sl.
           case sl of
             None \<Rightarrow> Inr (s\<lparr>rs_base_fetched := True\<rparr>)
           | Some sl \<Rightarrow> bind_result (InflationRewardBaseValue_decode c sl) (\<lambda>base.
               Inr (s\<lparr>rs_base_fetched := True, rs_base := Some base\<rparr>)))
      else Inr s) = Inr s'"
    "rs_rewards s' = rs_rewards s" "rs_missed s' = rs_missed s" "scan_knows (caches epoch) s'"
    "rs_base s' = None \<Longrightarrow> rk_base (caches epoch) = None"
proof (cases "rs_base s = None \<and> \<not> rs_base_fetched s")
  case True
  obtain v where v: "kv_get kv InflationRewardIndex (ir_encode_base epoch) db = Inr v" using reads by blast
  show thesis
  proof (cases "rk_base (caches epoch)")
    case None
    then have "v = None" using cache_rep_base [OF assms(2,3)] get_view [OF assms(1) v] by simp
    with True v None that [of "s\<lparr>rs_base_fetched := True\<rparr>"] show thesis by (simp add: scan_knows_def)
  next
    case (Some b)
    then obtain sl base where "v = Some sl" "InflationRewardBaseValue_decode c sl = Inr base" "base_rep b base"
      using cache_rep_base [OF assms(2,3)] get_view [OF assms(1) v] by auto
    with True v Some that [of "s\<lparr>rs_base_fetched := True, rs_base := Some base\<rparr>"] show thesis by (simp add: scan_knows_def)
  qed
next
  case False
  then show thesis using that [of s] assms(4) by (auto simp: scan_knows_def split: option.splits)
qed

text \<open>The places of the addresses for which the cache cannot tell.\<close>

lemma reward_loop_cache:
  assumes "healthy db" "cache_rep c (view db InflationRewardIndex) caches" "epoch < u64_modulus"
    and reads: "\<And>k. \<exists>v. kv_get kv InflationRewardIndex k db = Inr v"
    and "list_all (\<lambda>a. length a = 32) as" "scan_knows (caches epoch) s"
    and "rs_rewards s = pre @ replicate (length as) None"
  shows "\<exists>s'. reward_loop hasher c kv epoch db (enumerate (length pre) as) s = Inr s' \<and>
    rs_rewards s' = pre @ map (rk_known (caches epoch)) as \<and>
    rs_missed s' = rs_missed s @ map fst (filter (missing hasher (caches epoch) \<circ> snd) (enumerate (length pre) as))"
  using assms(5-)
proof (induction as arbitrary: s pre)
  case (Cons a as)
  note known = cache_rep_known [OF assms(2,3), of a]
  note IH = Cons.IH [of _ "pre @ [rk_known (caches epoch) a]"]
  obtain v where v: "kv_get kv InflationRewardIndex (ir_encode_reward epoch a) db = Inr v" using reads by blast
  show ?case
  proof (cases "rk_known (caches epoch) a")
    case (Some r)
    then obtain sl where "v = Some sl" "InflationRewardAddressValue_decode c sl = Inr r"
      using known get_view [OF assms(1) v] Cons.prems(1) by auto
    with IH [of "s\<lparr>rs_rewards := (rs_rewards s)[length pre := Some r]\<rparr>"] Cons.prems v Some show ?thesis
      by (simp add: missing_def list_update_append)
  next
    case None
    then have none: "v = None" using known get_view [OF assms(1) v] Cons.prems(1) by auto
    obtain s1 where s1: "reward_loop hasher c kv epoch db (enumerate (length pre) (a # as)) s =
        reward_loop hasher c kv epoch db (enumerate (Suc (length pre)) as) (case rs_base s1 of
          Some base \<Rightarrow> if reward_complete hasher base a then s1 else s1\<lparr>rs_missed := rs_missed s1 @ [length pre]\<rparr>
        | None \<Rightarrow> s1\<lparr>rs_missed := rs_missed s1 @ [length pre]\<rparr>)"
      "rs_rewards s1 = rs_rewards s" "rs_missed s1 = rs_missed s" "scan_knows (caches epoch) s1"
      "rs_base s1 = None \<Longrightarrow> rk_base (caches epoch) = None"
      by (rule fetch_base [OF assms(1-3) Cons.prems(2) reads]) (simp add: v none)
    define s2 where "s2 = (if missing hasher (caches epoch) a then s1\<lparr>rs_missed := rs_missed s1 @ [length pre]\<rparr> else s1)"
    have "(case rs_base s1 of
          Some base \<Rightarrow> if reward_complete hasher base a then s1 else s1\<lparr>rs_missed := rs_missed s1 @ [length pre]\<rparr>
        | None \<Rightarrow> s1\<lparr>rs_missed := rs_missed s1 @ [length pre]\<rparr>) = s2"
    proof (cases "rs_base s1")
      case None
      with s1(5) \<open>rk_known (caches epoch) a = None\<close> show ?thesis by (simp add: s2_def missing_def covers_def)
    next
      case (Some base)
      then obtain b where "rk_base (caches epoch) = Some b" "base_rep b base" using s1(4) by (auto simp: scan_knows_def)
      from reward_complete_covers [OF this(2,1)] Some None show ?thesis by (simp add: s2_def missing_def)
    qed
    moreover have "scan_knows (caches epoch) s2" "rs_rewards s2 = rs_rewards s"
      "rs_missed s2 = rs_missed s @ (if missing hasher (caches epoch) a then [length pre] else [])"
      using s1 by (simp_all add: s2_def)
    ultimately show ?thesis using IH [of s2] Cons.prems s1(1) None by auto
  qed
qed simp

end

lemma no_cache_rep: "cache_rep c [] no_cache"
  by (simp add: cache_rep_def no_cache_def)

definition missing_places :: "(nat \<Rightarrow> bytes \<Rightarrow> Pubkey \<Rightarrow> nat) \<Rightarrow> reward_cache \<Rightarrow> Pubkey list \<Rightarrow> nat list" where
  "missing_places hasher cache addresses = map fst (filter (\<lambda>(_, address). missing hasher cache address) (enumerate 0 addresses))"

section \<open>Properties\<close>

text \<open>
  C6. The database implements the cache of inflation rewards. After any run of requests on an empty column, of which some may have
  failed, reading an epoch gives for each address the reward that the successful requests made known, and as missed exactly the
  places of the addresses without a known reward for which no base was written, or whose partition was not seen since the
  last base of the epoch.
\<close>

theorem reward_cache_refined:
  assumes "store_laws c kv view healthy" "healthy db" "view db InflationRewardIndex = []"
    and "list_all request_fits ws" "db_run c kv ws db = (rs, db')"
    and "\<forall>k. \<exists>v. kv_get kv InflationRewardIndex k db' = Inr v"
    and "epoch < u64_modulus" "list_all (\<lambda>a. length a = 32) addresses"
  shows "\<exists>s. spawn_inflation_reward hasher c kv epoch addresses db' = Inr s \<and>
    rs_rewards s = map (rk_known (cache_run (zip ws rs) no_cache epoch)) addresses \<and>
    rs_missed s = missing_places hasher (cache_run (zip ws rs) no_cache epoch) addresses"
proof -
  note store = store_laws.db_run_rep [OF assms(1)] store_laws.reward_loop_cache [OF assms(1), where pre = "[]", simplified]
  have rep: "healthy db' \<and> cache_rep c (view db' InflationRewardIndex) (cache_run (zip ws rs) no_cache)"
    using store(1) [OF assms(2) _ assms(4,5), of no_cache] assms(3) by (simp add: no_cache_rep)
  show ?thesis
    using store(2) [of db' "cache_run (zip ws rs) no_cache" epoch addresses
        "\<lparr>rs_rewards = replicate (length addresses) None, rs_missed = [], rs_base = None, rs_base_fetched = False\<rparr>" hasher]
      rep assms(6-8)
    by (simp add: spawn_inflation_reward_def missing_places_def scan_knows_def comp_def case_prod_unfold)
qed

definition cached_reward :: RpcInflationReward where
  "cached_reward = \<lparr>ir_epoch = 5, ir_effective_slot = 9, ir_amount = 3, ir_post_balance = 8, ir_commission = None, ir_commission_bps = None\<rparr>"

definition demo_key :: "u8 \<Rightarrow> Pubkey" where
  "demo_key b = replicate 32 b"

definition demo_requests :: "u8 WriteRequest list" where
  "demo_requests = [InflationRewardPartition 5 0 [(demo_key 3, cached_reward)],
     InflationRewardBase 5 9 None (demo_key 0) (Some 2) [], InflationRewardPartition 5 0 [(demo_key 1, cached_reward)]]"

definition demo_hasher :: "nat \<Rightarrow> bytes \<Rightarrow> Pubkey \<Rightarrow> nat" where
  "demo_hasher n hash address = unat (hd address) div 3"

lemma mem_write [simp]: "kv_write mem_kv batch db = (Inr (), apply_batch batch db)"
  and mem_get [simp]: "kv_get mem_kv col k db = Inr (bt_get (db col) k)"
  by (simp_all add: mem_kv_def)

lemma demo_requests_fit: "list_all request_fits demo_requests"
  by (simp add: demo_requests_def demo_key_def cached_reward_def rewards_ok_def hm_ok_def reward_ok_def)

lemma demo_run:
  "\<exists>e db. db_run leb_codec mem_kv demo_requests (\<lambda>_. []) = ([Inl e, Inr (), Inr ()], db)"
proof -
  let ?base = "InflationRewardBaseValue_new 9 None (demo_key 0) (Some 2)"
  obtain pad where pad: "InflationRewardBaseValue_decode leb_codec (InflationRewardBaseValue_encode leb_codec ?base) =
      Inr (?base\<lparr>irb_partitions := irb_partitions ?base @ pad\<rparr>)"
    using leb.inflation_base_roundtrip [of ?base] by (auto simp: InflationRewardBaseValue_new_def demo_key_def)
  then show ?thesis
    by (simp add: demo_requests_def spawn_push_partition_reward_def spawn_push_reward_def InflationRewardBaseValue_new_def)
qed

theorem reward_cache_refined_witness:
  "\<exists>db s. snd (db_run leb_codec mem_kv demo_requests (\<lambda>_. [])) = db \<and>
     spawn_inflation_reward demo_hasher leb_codec mem_kv 5 [demo_key 1, demo_key 2, demo_key 3] db = Inr s \<and>
     rs_rewards s = [Some cached_reward, None, None] \<and> rs_missed s = [2]"
proof -
  obtain e db where run: "db_run leb_codec mem_kv demo_requests (\<lambda>_. []) = ([Inl e, Inr (), Inr ()], db)"
    using demo_run by blast
  have ok: "mem_healthy (\<lambda>_. [])" "(5 :: nat) < u64_modulus" "list_all (\<lambda>a. length a = 32) [demo_key 1, demo_key 2, demo_key 3]"
    by (simp_all add: mem_healthy_def demo_key_def)
  have keys: "demo_key 1 \<noteq> demo_key 2" "demo_key 1 \<noteq> demo_key 3" "demo_key 2 \<noteq> demo_key 3" "\<And>b. hd (demo_key b) = b"
    by (simp_all add: demo_key_def)
  have cache: "map (rk_known (cache_run (zip demo_requests [Inl e, Inr (), Inr ()]) no_cache 5)) [demo_key 1, demo_key 2, demo_key 3] =
      [Some cached_reward, None, None]"
    "missing_places demo_hasher (cache_run (zip demo_requests [Inl e, Inr (), Inr ()]) no_cache 5) [demo_key 1, demo_key 2, demo_key 3] = [2]"
    using keys by (simp_all add: demo_requests_def no_cache_def add_known_def missing_places_def missing_def covers_def demo_hasher_def)
  from reward_cache_refined [OF leb_mem.store_laws_axioms ok(1) _ demo_requests_fit run _ ok(2,3), of demo_hasher] show ?thesis
    unfolding cache run by simp
qed

end
