(* ===== verification/Alp_Source.thy ===== *)
theory Alp_Source
  imports Alp_Codec
begin

text \<open>
  Blocks and transactions as the source delivers them (src/src/source/{sfa,fees,transaction,block}.rs):
  the entries of the address index, the prioritization fees, and the binary form of a block with
  the offset of each of its transactions.

  The Solana crates are parameters. A \<open>TransactionWithStatusMeta\<close> is the record of what the code
  reads of it (account keys, error, memo, token balances, instructions, the keys that may be
  writable, whether an instruction parses as a vote, its protobuf bytes); the record \<open>solana\<close> has the
  program ids, the compute-budget constants and the parsers the code calls; the record \<open>proto\<close> has
  the field encoders of prost.
\<close>

section \<open>Address index entries (sfa.rs)\<close>

definition SignatureForAddress_new ::
  "'e codec \<Rightarrow> Slot \<Rightarrow> Pubkey \<Rightarrow> Signature \<Rightarrow> 'e option \<Rightarrow> bytes option \<Rightarrow> nat \<Rightarrow> 'e SignatureForAddress" where
  "SignatureForAddress_new c slot address signature err memo transaction_index =
     \<lparr>sf_key = SfaIndex_encode c address slot, sf_address_hash = address_hash c address, sf_address = address,
      sf_signature = signature, sf_err = err, sf_memo = memo, sf_transaction_index = transaction_index,
      sf_is_token_owner = False, sf_token_balance_changed = False\<rparr>"

definition SignatureForAddress_new_token_owner ::
  "'e codec \<Rightarrow> Slot \<Rightarrow> Pubkey \<Rightarrow> Signature \<Rightarrow> 'e option \<Rightarrow> bytes option \<Rightarrow> nat \<Rightarrow> bool \<Rightarrow> 'e SignatureForAddress" where
  "SignatureForAddress_new_token_owner c slot address signature err memo transaction_index token_balance_changed =
     \<lparr>sf_key = SfaIndex_encode c address slot, sf_address_hash = address_hash c address, sf_address = address,
      sf_signature = signature, sf_err = err, sf_memo = memo, sf_transaction_index = transaction_index,
      sf_is_token_owner = True, sf_token_balance_changed = token_balance_changed\<rparr>"

definition status_of :: "'e SignatureForAddress \<Rightarrow> 'e SignatureStatus" where
  "status_of s = \<lparr>sg_signature = sf_signature s, sg_err = sf_err s, sg_memo = sf_memo s,
     sg_transaction_index = sf_transaction_index s, sg_is_token_owner = sf_is_token_owner s,
     sg_token_balance_changed = sf_token_balance_changed s\<rparr>"

definition SignaturesForAddress_new :: "'e SignatureForAddress \<Rightarrow> 'e SignaturesForAddress" where
  "SignaturesForAddress_new s =
     \<lparr>sfa_key = sf_key s, sfa_address_hash = sf_address_hash s, sfa_signatures = [status_of s]\<rparr>"

definition SignaturesForAddress_merge :: "'e SignatureForAddress \<Rightarrow> 'e SignaturesForAddress \<Rightarrow> 'e SignaturesForAddress" where
  "SignaturesForAddress_merge s m = m\<lparr>sfa_signatures := sfa_signatures m @ [status_of s]\<rparr>"

section \<open>What the code reads of a transaction\<close>

record TokenBalance =
  tb_account_index :: nat
  tb_owner :: string
  tb_amount :: string

record 'e TransactionMeta =
  tm_account_keys :: "Pubkey list"
  tm_err :: "'e option"
  tm_memo :: "bytes option"
  tm_pre_token_balances :: "TokenBalance list option"
  tm_post_token_balances :: "TokenBalance list option"
  tm_instructions :: "(nat \<times> bytes) list"
  tm_static_account_keys :: "Pubkey list"
  tm_maybe_writable :: "nat \<Rightarrow> bool"
  tm_parses_as_vote :: "nat \<times> bytes \<Rightarrow> bool"

record 'e TransactionWithStatusMeta =
  tw_signature :: Signature
  tw_complete :: "'e TransactionMeta option"
  tw_protobuf :: bytes

datatype ComputeBudgetInstruction =
    RequestHeapFrame nat
  | SetComputeUnitLimit nat
  | SetComputeUnitPrice nat
  | SetLoadedAccountsDataSizeLimit nat
  | OtherBudgetInstruction

record solana =
  so_is_vote_program :: "Pubkey \<Rightarrow> bool"
  so_is_budget_program :: "Pubkey \<Rightarrow> bool"
  so_parse_budget :: "bytes \<Rightarrow> ComputeBudgetInstruction option"
  so_parse_pubkey :: "string \<Rightarrow> Pubkey option"
  so_DEFAULT_INSTRUCTION_COMPUTE_UNIT_LIMIT :: nat
  so_MAX_COMPUTE_UNIT_LIMIT :: nat
  so_MIN_HEAP_FRAME_BYTES :: nat
  so_MAX_HEAP_FRAME_BYTES :: nat

definition nth_opt :: "'a list \<Rightarrow> nat \<Rightarrow> 'a option" where
  "nth_opt xs i = (if i < length xs then Some (xs ! i) else None)"

section \<open>Fees (fees.rs)\<close>

datatype budget_error = InvalidInstructionData nat | DuplicateInstruction nat

record budget_state =
  bs_count :: nat
  bs_limit :: "nat option"
  bs_price :: "nat option"
  bs_heap :: "nat option"
  bs_loaded :: "nat option"

definition sanitize_requested_heap_size :: "solana \<Rightarrow> nat \<Rightarrow> bool" where
  "sanitize_requested_heap_size so bs \<longleftrightarrow>
     so_MIN_HEAP_FRAME_BYTES so \<le> bs \<and> bs \<le> so_MAX_HEAP_FRAME_BYTES so \<and> bs mod 1024 = 0"

fun budget_loop ::
  "solana \<Rightarrow> nat \<Rightarrow> (Pubkey \<times> bytes) list \<Rightarrow> budget_state \<Rightarrow> budget_error + budget_state" where
  "budget_loop so i [] s = Inr s"
| "budget_loop so i ((program_id, data) # rest) s =
     (if so_is_budget_program so program_id
      then
        let invalid = Inl (InvalidInstructionData (i mod 256)); duplicate = Inl (DuplicateInstruction (i mod 256))
        in case so_parse_budget so data of
             Some (RequestHeapFrame bs) \<Rightarrow>
               if bs_heap s \<noteq> None then duplicate
               else if sanitize_requested_heap_size so bs then budget_loop so (i + 1) rest (s\<lparr>bs_heap := Some bs\<rparr>)
               else invalid
           | Some (SetComputeUnitLimit limit) \<Rightarrow>
               if bs_limit s \<noteq> None then duplicate else budget_loop so (i + 1) rest (s\<lparr>bs_limit := Some limit\<rparr>)
           | Some (SetComputeUnitPrice price) \<Rightarrow>
               if bs_price s \<noteq> None then duplicate else budget_loop so (i + 1) rest (s\<lparr>bs_price := Some price\<rparr>)
           | Some (SetLoadedAccountsDataSizeLimit bs) \<Rightarrow>
               if bs_loaded s \<noteq> None then duplicate else budget_loop so (i + 1) rest (s\<lparr>bs_loaded := Some bs\<rparr>)
           | _ \<Rightarrow> invalid
      else budget_loop so (i + 1) rest (s\<lparr>bs_count := min (bs_count s + 1) 4294967295\<rparr>))"

record ComputeBudgetLimits =
  cb_compute_unit_limit :: nat
  cb_compute_unit_price :: nat

definition process_compute_budget_instructions ::
  "solana \<Rightarrow> (Pubkey \<times> bytes) list \<Rightarrow> budget_error + ComputeBudgetLimits" where
  "process_compute_budget_instructions so instructions =
     (case budget_loop so 0 instructions
             \<lparr>bs_count = 0, bs_limit = None, bs_price = None, bs_heap = None, bs_loaded = None\<rparr> of
        Inl e \<Rightarrow> Inl e
      | Inr s \<Rightarrow> Inr \<lparr>
          cb_compute_unit_limit = min (case bs_limit s of Some l \<Rightarrow> l
            | None \<Rightarrow> min (bs_count s * so_DEFAULT_INSTRUCTION_COMPUTE_UNIT_LIMIT so) 4294967295)
            (so_MAX_COMPUTE_UNIT_LIMIT so),
          cb_compute_unit_price = (case bs_price s of Some p \<Rightarrow> p | None \<Rightarrow> 0)\<rparr>)"

definition is_vote :: "solana \<Rightarrow> 'e TransactionMeta \<Rightarrow> bool" where
  "is_vote so tx = list_ex (\<lambda>ix.
     (case nth_opt (tm_account_keys tx) (fst ix) of Some program_id \<Rightarrow> so_is_vote_program so program_id | None \<Rightarrow> False) \<and>
     tm_parses_as_vote tx ix) (tm_instructions tx)"

fun collect_programs :: "Pubkey list \<Rightarrow> (nat \<times> bytes) list \<Rightarrow> (Pubkey \<times> bytes) list option" where
  "collect_programs keys [] = Some []"
| "collect_programs keys ((i, data) # ixs) =
     (case nth_opt keys i of
        None \<Rightarrow> None
      | Some program_id \<Rightarrow> map_option (\<lambda>ps. (program_id, data) # ps) (collect_programs keys ixs))"

definition set_insert :: "'a \<Rightarrow> 'a list \<Rightarrow> 'a list" where
  "set_insert x xs = (if x \<in> set xs then xs else xs @ [x])"

definition TransactionFees_create ::
  "solana \<Rightarrow> 'e TransactionWithStatusMeta \<Rightarrow> bool option \<Rightarrow> TransactionFees option" where
  "TransactionFees_create so tw is_vote_arg =
     (case tw_complete tw of
        None \<Rightarrow> None
      | Some tx \<Rightarrow>
          if is_vote_arg = Some True \<or> is_vote so tx then None
          else
            case collect_programs (tm_account_keys tx) (tm_instructions tx) of
              None \<Rightarrow> None
            | Some instructions \<Rightarrow>
                (case process_compute_budget_instructions so instructions of
                   Inl e \<Rightarrow> None
                 | Inr limits \<Rightarrow>
                     if cb_compute_unit_limit limits = 0 then None
                     else Some \<lparr>tf_unit_price = cb_compute_unit_price limits,
                       tf_account_keys = foldl (\<lambda>ks (index, pubkey).
                          if tm_maybe_writable tx index then set_insert pubkey ks else ks) []
                          (enumerate 0 (tm_static_account_keys tx))\<rparr>))"

definition fees_push :: "nat \<Rightarrow> (Pubkey, nat list) hmap \<Rightarrow> Pubkey \<Rightarrow> (Pubkey, nat list) hmap" where
  "fees_push price m account =
     hm_insert account ((case hm_get m account of Some fs \<Rightarrow> fs | None \<Rightarrow> []) @ [price]) m"

definition TransactionsFees_new :: "'e TransactionWithBinary list \<Rightarrow> TransactionsFees" where
  "TransactionsFees_new txs =
     (let txfees = List.map_filter tx_fees txs;
          fees = map tf_unit_price txfees;
          writable = foldl (\<lambda>m txfee. foldl (fees_push (tf_unit_price txfee)) m (tf_account_keys txfee)) [] txfees
      in \<lparr>fs_fees = sort fees, fs_writable_account_fees = map (\<lambda>(k, v). (k, sort v)) writable\<rparr>)"

definition get_percentile :: "nat list \<Rightarrow> nat \<Rightarrow> nat option" where
  "get_percentile fees percentile = nth_opt fees (min percentile 9999 * length fees div 10000)"

definition get_with_percentile :: "nat list \<Rightarrow> nat option \<Rightarrow> nat" where
  "get_with_percentile fees percentile =
     (case (case percentile of Some p \<Rightarrow> get_percentile fees p | None \<Rightarrow> nth_opt fees 0) of
        Some fee \<Rightarrow> fee | None \<Rightarrow> 0)"

definition get_fee :: "TransactionsFees \<Rightarrow> Pubkey list \<Rightarrow> nat option \<Rightarrow> nat" where
  "get_fee f accounts percentile =
     (let fee = get_with_percentile (fs_fees f) percentile;
          afees = List.map_filter (\<lambda>account.
            map_option (\<lambda>fees. get_with_percentile fees percentile) (hm_get (fs_writable_account_fees f) account)) accounts
      in case afees of [] \<Rightarrow> fee | a # as \<Rightarrow> max fee (foldl max a as))"

section \<open>Transactions (transaction.rs)\<close>

definition token_balances :: "TokenBalance list option \<Rightarrow> TokenBalance list" where
  "token_balances bs = (case bs of Some bs \<Rightarrow> bs | None \<Rightarrow> [])"

definition amounts_of :: "TokenBalance list \<Rightarrow> nat \<Rightarrow> string option" where
  "amounts_of bs = map_of (rev (map (\<lambda>b. (tb_account_index b, tb_amount b)) bs))"

definition owner_balance_changed :: "TokenBalance list \<Rightarrow> TokenBalance list \<Rightarrow> string \<Rightarrow> bool" where
  "owner_balance_changed pre post owner = list_ex (\<lambda>b. tb_owner b = owner \<and>
     amounts_of pre (tb_account_index b) \<noteq> amounts_of post (tb_account_index b)) (pre @ post)"

definition token_owner_step ::
  "solana \<Rightarrow> 'e codec \<Rightarrow> Slot \<Rightarrow> Signature \<Rightarrow> nat \<Rightarrow> 'e TransactionMeta \<Rightarrow> string list \<times> 'e SignatureForAddress list \<Rightarrow>
    TokenBalance \<Rightarrow> string list \<times> 'e SignatureForAddress list" where
  "token_owner_step so c slot signature transaction_index tx acc b =
     (let (seen_owners, sfa) = acc;
          pre = token_balances (tm_pre_token_balances tx);
          post = token_balances (tm_post_token_balances tx)
      in if tb_owner b \<in> set seen_owners then (seen_owners, sfa)
         else
           (tb_owner b # seen_owners,
            case so_parse_pubkey so (tb_owner b) of
              None \<Rightarrow> sfa
            | Some owner_pubkey \<Rightarrow>
                if owner_pubkey \<in> set (tm_account_keys tx) then sfa
                else sfa @ [SignatureForAddress_new_token_owner c slot owner_pubkey signature (tm_err tx) (tm_memo tx)
                              transaction_index (owner_balance_changed pre post (tb_owner b))]))"

definition token_owner_entries ::
  "solana \<Rightarrow> 'e codec \<Rightarrow> Slot \<Rightarrow> Signature \<Rightarrow> nat \<Rightarrow> 'e TransactionMeta \<Rightarrow> 'e SignatureForAddress list" where
  "token_owner_entries so c slot signature transaction_index tx =
     snd (foldl (token_owner_step so c slot signature transaction_index tx) ([], [])
       (token_balances (tm_pre_token_balances tx) @ token_balances (tm_post_token_balances tx)))"

definition TransactionWithBinary_new ::
  "solana \<Rightarrow> 'e codec \<Rightarrow> Slot \<Rightarrow> 'e TransactionWithStatusMeta \<Rightarrow> bool option \<Rightarrow> nat \<Rightarrow> 'e TransactionWithBinary" where
  "TransactionWithBinary_new so c slot tw is_vote_arg transaction_index =
     (let signature = tw_signature tw;
          (err, sfa) = (case tw_complete tw of
              None \<Rightarrow> (None, [])
            | Some tx \<Rightarrow>
                (tm_err tx,
                 map (\<lambda>pubkey. SignatureForAddress_new c slot pubkey signature (tm_err tx) (tm_memo tx) transaction_index)
                   (tm_account_keys tx) @
                 token_owner_entries so c slot signature transaction_index tx));
          vote = (case is_vote_arg of
              Some v \<Rightarrow> v
            | None \<Rightarrow> (case tw_complete tw of Some tx \<Rightarrow> is_vote so tx | None \<Rightarrow> False))
      in \<lparr>tx_key = TransactionIndex_encode c signature, tx_signature = signature, tx_is_vote = vote, tx_err = err,
          tx_sfa = sfa, tx_fees = TransactionFees_create so tw (Some vote), tx_protobuf = tw_protobuf tw,
          tx_index = transaction_index\<rparr>)"

section \<open>Blocks (block.rs)\<close>

datatype RewardType = Fee | Rent | Staking | Voting | DeactivatedStake | VATDebit

record Reward =
  rw_pubkey :: string
  rw_lamports :: int
  rw_post_balance :: nat
  rw_reward_type :: "RewardType option"
  rw_commission :: "u8 option"
  rw_commission_bps :: "nat option"

text \<open>
  The encoders of prost: of a field key (with the wire type of a length-delimited field), of a
  varint, of the scalar fields and of a message field, which is given the length the message
  reports and the bytes it writes; the three messages of the generated code (\<open>UnixTimestamp\<close>,
  \<open>BlockHeight\<close>, \<open>NumPartitions\<close>) are their bytes and their reported length.
\<close>

record proto =
  pr_encode_key :: "nat \<Rightarrow> bytes"
  pr_key_len :: "nat \<Rightarrow> nat"
  pr_encode_varint :: "nat \<Rightarrow> bytes"
  pr_encoded_len_varint :: "nat \<Rightarrow> nat"
  pr_uint64 :: "nat \<Rightarrow> nat \<Rightarrow> bytes"
  pr_uint64_len :: "nat \<Rightarrow> nat \<Rightarrow> nat"
  pr_int64 :: "nat \<Rightarrow> int \<Rightarrow> bytes"
  pr_int64_len :: "nat \<Rightarrow> int \<Rightarrow> nat"
  pr_int32 :: "nat \<Rightarrow> int \<Rightarrow> bytes"
  pr_int32_len :: "nat \<Rightarrow> int \<Rightarrow> nat"
  pr_string :: "nat \<Rightarrow> string \<Rightarrow> bytes"
  pr_string_len :: "nat \<Rightarrow> string \<Rightarrow> nat"
  pr_message :: "nat \<Rightarrow> nat \<Rightarrow> bytes \<Rightarrow> bytes"
  pr_message_len :: "nat \<Rightarrow> nat \<Rightarrow> nat"
  pr_UnixTimestamp :: "int \<Rightarrow> bytes"
  pr_UnixTimestamp_len :: "int \<Rightarrow> nat"
  pr_BlockHeight :: "nat \<Rightarrow> bytes"
  pr_BlockHeight_len :: "nat \<Rightarrow> nat"
  pr_NumPartitions :: "nat \<Rightarrow> bytes"
  pr_NumPartitions_len :: "nat \<Rightarrow> nat"

text \<open>The bytes of a string, and \<open>to_string\<close> of an unsigned integer.\<close>

definition string_bytes :: "string \<Rightarrow> bytes" where
  "string_bytes s = map of_char s"

fun to_string :: "nat \<Rightarrow> string" where
  "to_string n = (if n < 10 then [char_of (48 + n)] else to_string (n div 10) @ [char_of (48 + n mod 10)])"

declare to_string.simps [simp del]

definition reward_type_as_i32 :: "RewardType option \<Rightarrow> int" where
  "reward_type_as_i32 t = (case t of
       None \<Rightarrow> 0
     | Some Fee \<Rightarrow> 1
     | Some Rent \<Rightarrow> 2
     | Some Staking \<Rightarrow> 3
     | Some Voting \<Rightarrow> 4
     | Some DeactivatedStake \<Rightarrow> 5
     | Some VATDebit \<Rightarrow> 6)"

definition NUM_STRINGS :: "string list" where
  "NUM_STRINGS =
    [''0'', ''1'', ''2'', ''3'', ''4'', ''5'', ''6'', ''7'', ''8'', ''9'', ''10'', ''11'', ''12'', ''13'', ''14'', ''15'',
     ''16'', ''17'', ''18'', ''19'', ''20'', ''21'', ''22'', ''23'', ''24'', ''25'', ''26'', ''27'', ''28'', ''29'', ''30'', ''31'',
     ''32'', ''33'', ''34'', ''35'', ''36'', ''37'', ''38'', ''39'', ''40'', ''41'', ''42'', ''43'', ''44'', ''45'', ''46'', ''47'',
     ''48'', ''49'', ''50'', ''51'', ''52'', ''53'', ''54'', ''55'', ''56'', ''57'', ''58'', ''59'', ''60'', ''61'', ''62'', ''63'',
     ''64'', ''65'', ''66'', ''67'', ''68'', ''69'', ''70'', ''71'', ''72'', ''73'', ''74'', ''75'', ''76'', ''77'', ''78'', ''79'',
     ''80'', ''81'', ''82'', ''83'', ''84'', ''85'', ''86'', ''87'', ''88'', ''89'', ''90'', ''91'', ''92'', ''93'', ''94'', ''95'',
     ''96'', ''97'', ''98'', ''99'', ''100'', ''101'', ''102'', ''103'', ''104'', ''105'', ''106'', ''107'', ''108'', ''109'', ''110'', ''111'',
     ''112'', ''113'', ''114'', ''115'', ''116'', ''117'', ''118'', ''119'', ''120'', ''121'', ''122'', ''123'', ''124'', ''125'', ''126'', ''127'',
     ''128'', ''129'', ''130'', ''131'', ''132'', ''133'', ''134'', ''135'', ''136'', ''137'', ''138'', ''139'', ''140'', ''141'', ''142'', ''143'',
     ''144'', ''145'', ''146'', ''147'', ''148'', ''149'', ''150'', ''151'', ''152'', ''153'', ''154'', ''155'', ''156'', ''157'', ''158'', ''159'',
     ''160'', ''161'', ''162'', ''163'', ''164'', ''165'', ''166'', ''167'', ''168'', ''169'', ''170'', ''171'', ''172'', ''173'', ''174'', ''175'',
     ''176'', ''177'', ''178'', ''179'', ''180'', ''181'', ''182'', ''183'', ''184'', ''185'', ''186'', ''187'', ''188'', ''189'', ''190'', ''191'',
     ''192'', ''193'', ''194'', ''195'', ''196'', ''197'', ''198'', ''199'', ''200'', ''201'', ''202'', ''203'', ''204'', ''205'', ''206'', ''207'',
     ''208'', ''209'', ''210'', ''211'', ''212'', ''213'', ''214'', ''215'', ''216'', ''217'', ''218'', ''219'', ''220'', ''221'', ''222'', ''223'',
     ''224'', ''225'', ''226'', ''227'', ''228'', ''229'', ''230'', ''231'', ''232'', ''233'', ''234'', ''235'', ''236'', ''237'', ''238'', ''239'',
     ''240'', ''241'', ''242'', ''243'', ''244'', ''245'', ''246'', ''247'', ''248'', ''249'', ''250'', ''251'', ''252'', ''253'', ''254'', ''255'']"

definition u8_to_static_str :: "u8 \<Rightarrow> string" where
  "u8_to_static_str num = NUM_STRINGS ! unat num"

definition bytes_encode :: "proto \<Rightarrow> nat \<Rightarrow> bytes \<Rightarrow> bytes" where
  "bytes_encode p tag val = pr_encode_key p tag @ pr_encode_varint p (length val) @ val"

definition bytes_encoded_len :: "proto \<Rightarrow> nat \<Rightarrow> bytes \<Rightarrow> nat" where
  "bytes_encoded_len p tag val = pr_key_len p tag + pr_encoded_len_varint p (length val) + length val"

definition reward_encode_raw :: "proto \<Rightarrow> Reward \<Rightarrow> bytes" where
  "reward_encode_raw p r =
     (if rw_pubkey r \<noteq> [] then pr_string p 1 (rw_pubkey r) else []) @
     (if rw_lamports r \<noteq> 0 then pr_int64 p 2 (rw_lamports r) else []) @
     (if rw_post_balance r \<noteq> 0 then pr_uint64 p 3 (rw_post_balance r) else []) @
     (if rw_reward_type r \<noteq> None then pr_int32 p 4 (reward_type_as_i32 (rw_reward_type r)) else []) @
     (case rw_commission r of Some v \<Rightarrow> bytes_encode p 5 (string_bytes (u8_to_static_str v)) | None \<Rightarrow> []) @
     (case rw_commission_bps r of Some v \<Rightarrow> bytes_encode p 6 (string_bytes (to_string v)) | None \<Rightarrow> [])"

definition reward_encoded_len :: "proto \<Rightarrow> Reward \<Rightarrow> nat" where
  "reward_encoded_len p r =
     (if rw_pubkey r \<noteq> [] then pr_string_len p 1 (rw_pubkey r) else 0) +
     (if rw_lamports r \<noteq> 0 then pr_int64_len p 2 (rw_lamports r) else 0) +
     (if rw_post_balance r \<noteq> 0 then pr_uint64_len p 3 (rw_post_balance r) else 0) +
     (if rw_reward_type r \<noteq> None then pr_int32_len p 4 (reward_type_as_i32 (rw_reward_type r)) else 0) +
     (case rw_commission r of Some v \<Rightarrow> bytes_encoded_len p 5 (string_bytes (u8_to_static_str v)) | None \<Rightarrow> 0) +
     (case rw_commission_bps r of Some v \<Rightarrow> bytes_encoded_len p 6 (string_bytes (to_string v)) | None \<Rightarrow> 0)"

record 'e ConfirmedBlockProtoRef =
  pb_previous_blockhash :: string
  pb_blockhash :: string
  pb_parent_slot :: Slot
  pb_transactions :: "'e TransactionWithBinary list"
  pb_rewards :: "Reward list"
  pb_block_time :: "UnixTimestamp option"
  pb_block_height :: "Slot option"
  pb_num_partitions :: "nat option"

definition encode_tx ::
  "proto \<Rightarrow> bytes \<times> 'e BlockTransactionOffset list \<Rightarrow> 'e TransactionWithBinary \<Rightarrow> bytes \<times> 'e BlockTransactionOffset list" where
  "encode_tx p acc tx =
     (let (buf, offsets) = acc;
          buf = buf @ pr_encode_key p 4 @ pr_encode_varint p (length (tx_protobuf tx));
          offset = length buf
      in (buf @ tx_protobuf tx,
          offsets @ [\<lparr>to_key = tx_key tx, to_offset = offset, to_size = length (tx_protobuf tx),
            to_err = tx_err tx, to_index = tx_index tx\<rparr>]))"

definition encode_with_tx_offsets :: "proto \<Rightarrow> 'e ConfirmedBlockProtoRef \<Rightarrow> bytes \<times> 'e BlockTransactionOffset list" where
  "encode_with_tx_offsets p b =
     (let buf = (if pb_previous_blockhash b \<noteq> [] then bytes_encode p 1 (string_bytes (pb_previous_blockhash b)) else []);
          buf = buf @ (if pb_blockhash b \<noteq> [] then bytes_encode p 2 (string_bytes (pb_blockhash b)) else []);
          buf = buf @ (if pb_parent_slot b \<noteq> 0 then pr_uint64 p 3 (pb_parent_slot b) else []);
          (buf, offsets) = foldl (encode_tx p) (buf, []) (pb_transactions b);
          buf = foldl (\<lambda>buf r. buf @ pr_message p 5 (reward_encoded_len p r) (reward_encode_raw p r)) buf (pb_rewards b);
          buf = buf @ (case pb_block_time b of
            Some t \<Rightarrow> pr_message p 6 (pr_UnixTimestamp_len p t) (pr_UnixTimestamp p t) | None \<Rightarrow> []);
          buf = buf @ (case pb_block_height b of
            Some h \<Rightarrow> pr_message p 7 (pr_BlockHeight_len p h) (pr_BlockHeight p h) | None \<Rightarrow> []);
          buf = buf @ (case pb_num_partitions b of
            Some n \<Rightarrow> pr_message p 8 (pr_NumPartitions_len p n) (pr_NumPartitions p n) | None \<Rightarrow> [])
      in (buf, offsets))"

definition encoded_len :: "proto \<Rightarrow> 'e ConfirmedBlockProtoRef \<Rightarrow> nat" where
  "encoded_len p b =
     (if pb_previous_blockhash b \<noteq> [] then bytes_encoded_len p 1 (string_bytes (pb_previous_blockhash b)) else 0) +
     (if pb_blockhash b \<noteq> [] then bytes_encoded_len p 2 (string_bytes (pb_blockhash b)) else 0) +
     (if pb_parent_slot b \<noteq> 0 then pr_uint64_len p 3 (pb_parent_slot b) else 0) +
     (pr_key_len p 4 * length (pb_transactions b) +
        sum_list (map (\<lambda>tx. length (tx_protobuf tx) + pr_encoded_len_varint p (length (tx_protobuf tx))) (pb_transactions b))) +
     (pr_key_len p 5 * length (pb_rewards b) +
        sum_list (map (\<lambda>r. reward_encoded_len p r + pr_encoded_len_varint p (reward_encoded_len p r)) (pb_rewards b))) +
     (case pb_block_time b of Some t \<Rightarrow> pr_message_len p 6 (pr_UnixTimestamp_len p t) | None \<Rightarrow> 0) +
     (case pb_block_height b of Some h \<Rightarrow> pr_message_len p 7 (pr_BlockHeight_len p h) | None \<Rightarrow> 0) +
     (case pb_num_partitions b of Some n \<Rightarrow> pr_message_len p 8 (pr_NumPartitions_len p n) | None \<Rightarrow> 0)"

text \<open>The loop of \<open>BlockWithBinary::new\<close> that groups the entries of the address index.\<close>

definition add_sfa ::
  "(Pubkey, 'e SignaturesForAddress) hmap \<Rightarrow> 'e SignatureForAddress \<Rightarrow> (Pubkey, 'e SignaturesForAddress) hmap" where
  "add_sfa sfa s =
     (case hm_get sfa (sf_address s) of
        Some entry \<Rightarrow> hm_insert (sf_address s) (SignaturesForAddress_merge s entry) sfa
      | None \<Rightarrow> hm_insert (sf_address s) (SignaturesForAddress_new s) sfa)"

definition BlockWithBinary_new ::
  "proto \<Rightarrow> string \<Rightarrow> string \<Rightarrow> Slot \<Rightarrow> 'e TransactionWithBinary list \<Rightarrow> Reward list \<Rightarrow> nat option \<Rightarrow>
    UnixTimestamp option \<Rightarrow> Slot option \<Rightarrow> bool \<Rightarrow> 'e BlockWithBinary" where
  "BlockWithBinary_new p previous_blockhash blockhash parent_slot transactions rewards num_partitions
       block_time block_height index_vote =
     (let transactions = (if \<not> index_vote then filter (\<lambda>tx. \<not> tx_is_vote tx) transactions else transactions);
          (protobuf, txs_offset) = encode_with_tx_offsets p \<lparr>pb_previous_blockhash = previous_blockhash,
            pb_blockhash = blockhash, pb_parent_slot = parent_slot, pb_transactions = transactions,
            pb_rewards = rewards, pb_block_time = block_time, pb_block_height = block_height,
            pb_num_partitions = num_partitions\<rparr>;
          sfa = foldl (\<lambda>sfa tx. foldl add_sfa sfa (tx_sfa tx)) [] (rev transactions);
          transactions = map (\<lambda>tx. tx\<lparr>tx_sfa := []\<rparr>) transactions;
          fees = TransactionsFees_new transactions;
          transactions = foldl (\<lambda>m tx. hm_insert (tx_signature tx) tx m) [] transactions
      in \<lparr>bl_blockhash = blockhash, bl_parent_slot = parent_slot, bl_block_time = block_time,
          bl_block_height = block_height, bl_protobuf = protobuf, bl_txs_offset = txs_offset,
          bl_transactions = transactions, bl_sfa = sfa, bl_fees = fees\<rparr>)"

text \<open>\<open>ConfirmedBlock\<close> of the Solana crates.\<close>

record 'e ConfirmedBlock =
  cf_previous_blockhash :: string
  cf_blockhash :: string
  cf_parent_slot :: Slot
  cf_transactions :: "'e TransactionWithStatusMeta list"
  cf_rewards :: "Reward list"
  cf_num_partitions :: "nat option"
  cf_block_time :: "UnixTimestamp option"
  cf_block_height :: "Slot option"

definition new_from_confirmed_block_and_slot ::
  "solana \<Rightarrow> 'e codec \<Rightarrow> proto \<Rightarrow> 'e ConfirmedBlock \<Rightarrow> Slot \<Rightarrow> bool \<Rightarrow> 'e BlockWithBinary" where
  "new_from_confirmed_block_and_slot so c p block slot index_vote =
     BlockWithBinary_new p (cf_previous_blockhash block) (cf_blockhash block) (cf_parent_slot block)
       (map (\<lambda>(index, tx). TransactionWithBinary_new so c slot tx None (index mod 4294967296))
          (enumerate 0 (cf_transactions block)))
       (cf_rewards block) (cf_num_partitions block) (cf_block_time block) (cf_block_height block) index_vote"

end
