(* ===== verification/Alp_Source_Laws.thy ===== *)
theory Alp_Source_Laws
  imports Alp_Source Alp_Codec_Laws
begin

text \<open>
  Properties of the binary form of blocks and transactions: the recorded offsets, the announced
  lengths, the grouping of the address index, the accounts a transaction is indexed under, the
  compute budget and the fee percentiles. The locale \<open>proto_laws\<close> states what the code relies on of
  prost: that every encoder writes as many bytes as its length function announces.
\<close>

locale proto_laws =
  fixes p :: proto
  assumes key_length: "length (pr_encode_key p tag) = pr_key_len p tag"
    and varint_length: "length (pr_encode_varint p n) = pr_encoded_len_varint p n"
    and uint64_length: "length (pr_uint64 p tag n) = pr_uint64_len p tag n"
    and int64_length: "length (pr_int64 p tag i) = pr_int64_len p tag i"
    and int32_length: "length (pr_int32 p tag i) = pr_int32_len p tag i"
    and string_length: "length (pr_string p tag s) = pr_string_len p tag s"
    and message_encode: "pr_message p tag len raw = pr_encode_key p tag @ pr_encode_varint p len @ raw"
    and message_length: "pr_message_len p tag len = pr_key_len p tag + pr_encoded_len_varint p len + len"
    and UnixTimestamp_length: "length (pr_UnixTimestamp p t) = pr_UnixTimestamp_len p t"
    and BlockHeight_length: "length (pr_BlockHeight p h) = pr_BlockHeight_len p h"
    and NumPartitions_length: "length (pr_NumPartitions p n) = pr_NumPartitions_len p n"
begin

lemmas lengths = key_length varint_length uint64_length int64_length int32_length string_length
  UnixTimestamp_length BlockHeight_length NumPartitions_length

lemma length_message: "length raw = len \<Longrightarrow> length (pr_message p tag len raw) = pr_message_len p tag len"
  by (simp add: message_encode message_length lengths)

lemma length_bytes_encode: "length (bytes_encode p tag val) = bytes_encoded_len p tag val"
  by (simp add: bytes_encode_def bytes_encoded_len_def lengths)

lemma length_reward: "length (reward_encode_raw p r) = reward_encoded_len p r"
  by (simp add: reward_encode_raw_def reward_encoded_len_def lengths length_bytes_encode split: option.split)

lemma length_encode_txs:
  "length (fst (foldl (encode_tx p) (buf, offs) txs)) =
     length buf + (pr_key_len p 4 * length txs +
       sum_list (map (\<lambda>tx. length (tx_protobuf tx) + pr_encoded_len_varint p (length (tx_protobuf tx))) txs))"
  by (induction txs arbitrary: buf offs) (simp_all add: encode_tx_def Let_def lengths)

lemma length_encode_rewards:
  "length (foldl (\<lambda>buf r. buf @ pr_message p 5 (reward_encoded_len p r) (reward_encode_raw p r)) buf rs) =
     length buf + (pr_key_len p 5 * length rs +
       sum_list (map (\<lambda>r. reward_encoded_len p r + pr_encoded_len_varint p (reward_encoded_len p r)) rs))"
  by (induction rs arbitrary: buf) (simp_all add: length_message length_reward message_length)

lemma length_encode_block: "length (fst (encode_with_tx_offsets p b)) = encoded_len p b"
  by (simp add: encode_with_tx_offsets_def Let_def length_encode_txs length_encode_rewards
      encoded_len_def lengths length_bytes_encode length_message split_beta split: option.split)

end

section \<open>Protobuf as an instance\<close>

text \<open>The protobuf wire format: a key is the varint of the tag and the wire type.\<close>

definition wire_key :: "nat \<Rightarrow> nat \<Rightarrow> bytes" where
  "wire_key tag wire = leb_encode 10 (8 * tag + wire)"

definition wire_message :: "nat \<Rightarrow> nat \<Rightarrow> bytes \<Rightarrow> bytes" where
  "wire_message tag len raw = wire_key tag 2 @ leb_encode 10 len @ raw"

definition wire_uint64 :: "nat \<Rightarrow> nat \<Rightarrow> bytes" where
  "wire_uint64 tag n = wire_key tag 0 @ leb_encode 10 n"

definition wire_int64 :: "nat \<Rightarrow> int \<Rightarrow> bytes" where
  "wire_int64 tag i = wire_uint64 tag (u64_of_i64 i)"

definition wire_string :: "nat \<Rightarrow> string \<Rightarrow> bytes" where
  "wire_string tag s = wire_message tag (length s) (string_bytes s)"

definition nonzero :: "'a :: zero \<Rightarrow> bytes \<Rightarrow> bytes" where
  "nonzero v bs = (if v = 0 then [] else bs)"

definition wire_proto :: proto where
  "wire_proto = \<lparr>pr_encode_key = \<lambda>tag. wire_key tag 2, pr_key_len = \<lambda>tag. length (wire_key tag 2),
     pr_encode_varint = leb_encode 10, pr_encoded_len_varint = length \<circ> leb_encode 10,
     pr_uint64 = wire_uint64, pr_uint64_len = \<lambda>tag n. length (wire_uint64 tag n),
     pr_int64 = wire_int64, pr_int64_len = \<lambda>tag i. length (wire_int64 tag i),
     pr_int32 = wire_int64, pr_int32_len = \<lambda>tag i. length (wire_int64 tag i),
     pr_string = wire_string, pr_string_len = \<lambda>tag s. length (wire_string tag s),
     pr_message = wire_message, pr_message_len = \<lambda>tag len. length (wire_key tag 2) + length (leb_encode 10 len) + len,
     pr_UnixTimestamp = \<lambda>t. nonzero t (wire_int64 1 t), pr_UnixTimestamp_len = \<lambda>t. length (nonzero t (wire_int64 1 t)),
     pr_BlockHeight = \<lambda>h. nonzero h (wire_uint64 1 h), pr_BlockHeight_len = \<lambda>h. length (nonzero h (wire_uint64 1 h)),
     pr_NumPartitions = \<lambda>n. nonzero n (wire_uint64 1 n), pr_NumPartitions_len = \<lambda>n. length (nonzero n (wire_uint64 1 n))\<rparr>"

interpretation wire: proto_laws wire_proto
  by unfold_locales (simp_all add: wire_proto_def wire_message_def)

section \<open>Offsets and lengths\<close>

lemma encode_txs_prefix: "\<exists>bs. fst (foldl (encode_tx p) (buf, offs) txs) = buf @ bs"
proof (induction txs arbitrary: buf offs)
  case (Cons tx txs)
  obtain b o' where e: "encode_tx p (buf, offs) tx = (b, o')" by (cases "encode_tx p (buf, offs) tx")
  then have "\<exists>bs. b = buf @ bs" by (auto simp: encode_tx_def Let_def)
  then show ?case using Cons.IH [of b o'] by (auto simp: e)
qed simp

definition tx_bytes_at :: "bytes \<Rightarrow> 'e BlockTransactionOffset \<Rightarrow> bytes" where
  "tx_bytes_at buf o' = take (to_size o') (drop (to_offset o') buf)"

definition offset_meta :: "'e BlockTransactionOffset \<Rightarrow> bytes \<times> 'e option \<times> nat" where
  "offset_meta o' = (to_key o', to_err o', to_index o')"

lemma encode_txs_offsets:
  "snd (foldl (encode_tx p) (buf, offs) txs) = offs @ os \<Longrightarrow>
   map (tx_bytes_at (fst (foldl (encode_tx p) (buf, offs) txs) @ rest)) os = map tx_protobuf txs \<and>
   map offset_meta os = map (\<lambda>tx. (tx_key tx, tx_err tx, tx_index tx)) txs"
proof (induction txs arbitrary: buf offs os)
  case (Cons tx txs)
  have ext: "\<exists>os. snd (foldl (encode_tx p) (b, offs) txs) = offs @ os" for b and offs :: "'a BlockTransactionOffset list"
  proof (induction txs arbitrary: b offs)
    case (Cons t ts)
    obtain b' x where "encode_tx p (b, offs) t = (b', offs @ [x])" by (auto simp: encode_tx_def Let_def)
    then show ?case using Cons [of b' "offs @ [x]"] by auto
  qed simp
  obtain hd x where step: "encode_tx p (buf, offs) tx = (hd @ tx_protobuf tx, offs @ [x])"
    and x: "to_offset x = length hd" "to_size x = length (tx_protobuf tx)" "offset_meta x = (tx_key tx, tx_err tx, tx_index tx)"
    by (auto simp: encode_tx_def Let_def offset_meta_def)
  let ?run = "foldl (encode_tx p) (hd @ tx_protobuf tx, offs @ [x]) txs"
  obtain os' where os': "snd ?run = (offs @ [x]) @ os'" using ext by blast
  then have os: "os = x # os'" using Cons.prems by (simp add: step)
  obtain bs where bs: "fst ?run = (hd @ tx_protobuf tx) @ bs" using encode_txs_prefix by blast
  have "tx_bytes_at (fst ?run @ rest) x = tx_protobuf tx" by (simp add: tx_bytes_at_def bs x)
  then show ?case using Cons.IH [OF os'] by (simp add: os step x)
qed simp

lemma encode_block_offsets:
  "map (tx_bytes_at (fst (encode_with_tx_offsets p b))) (snd (encode_with_tx_offsets p b)) =
     map tx_protobuf (pb_transactions b) \<and>
   map offset_meta (snd (encode_with_tx_offsets p b)) =
     map (\<lambda>tx. (tx_key tx, tx_err tx, tx_index tx)) (pb_transactions b)"
proof -
  have rewards: "\<exists>bs. foldl (\<lambda>buf r. buf @ pr_message p 5 (reward_encoded_len p r) (reward_encode_raw p r)) buf rs = buf @ bs"
    for buf and rs
  proof (induction rs arbitrary: buf)
    case (Cons r rs)
    show ?case using Cons.IH [of "buf @ pr_message p 5 (reward_encoded_len p r) (reward_encode_raw p r)"] by auto
  qed simp
  let ?init = "(if pb_previous_blockhash b \<noteq> [] then bytes_encode p 1 (string_bytes (pb_previous_blockhash b)) else []) @
    (if pb_blockhash b \<noteq> [] then bytes_encode p 2 (string_bytes (pb_blockhash b)) else []) @
    (if pb_parent_slot b \<noteq> 0 then pr_uint64 p 3 (pb_parent_slot b) else [])"
  let ?run = "foldl (encode_tx p) (?init, []) (pb_transactions b)"
  have "\<exists>rest. encode_with_tx_offsets p b = (fst ?run @ rest, snd ?run)"
    using rewards [of "fst ?run" "pb_rewards b"]
    by (auto simp: encode_with_tx_offsets_def Let_def split_beta)
  then show ?thesis using encode_txs_offsets [of p ?init "[]" "pb_transactions b" "snd ?run"] by auto
qed

text \<open>
  C36. The length announced for a block before it is encoded is the number of bytes written, and so
  is the length announced for each reward.
\<close>

theorem block_encoded_len_exact:
  assumes "proto_laws p"
  shows "length (fst (encode_with_tx_offsets p b)) = encoded_len p b \<and>
    length (reward_encode_raw p r) = reward_encoded_len p r"
  using proto_laws.length_encode_block [OF assms] proto_laws.length_reward [OF assms] by blast


text \<open>A transaction, a block and what the parsers answer, for the concrete runs below.\<close>

definition demo_solana :: solana where
  "demo_solana = \<lparr>so_is_vote_program = \<lambda>k. k = [9], so_is_budget_program = \<lambda>k. k = [8],
     so_parse_budget = \<lambda>d. if length d \<noteq> 2 then None
       else if hd d = 2 then Some (SetComputeUnitLimit (unat (d ! 1)))
       else if hd d = 3 then Some (SetComputeUnitPrice (unat (d ! 1))) else None,
     so_parse_pubkey = \<lambda>s. if s = [] then None else Some (string_bytes s),
     so_DEFAULT_INSTRUCTION_COMPUTE_UNIT_LIMIT = 200000, so_MAX_COMPUTE_UNIT_LIMIT = 1400000,
     so_MIN_HEAP_FRAME_BYTES = 32768, so_MAX_HEAP_FRAME_BYTES = 262144\<rparr>"

definition demo_tx :: "nat \<Rightarrow> u8 TransactionWithBinary" where
  "demo_tx i = \<lparr>tx_key = [word_of_nat i], tx_signature = [word_of_nat i], tx_is_vote = False, tx_err = None,
     tx_sfa = [], tx_fees = None, tx_protobuf = [1, 2, word_of_nat i], tx_index = i\<rparr>"

definition demo_reward :: Reward where
  "demo_reward = \<lparr>rw_pubkey = ''ab'', rw_lamports = -1, rw_post_balance = 300, rw_reward_type = Some Voting,
     rw_commission = Some 7, rw_commission_bps = Some 700\<rparr>"

definition demo_proto_block :: "u8 ConfirmedBlockProtoRef" where
  "demo_proto_block = \<lparr>pb_previous_blockhash = ''p'', pb_blockhash = ''h'', pb_parent_slot = 4,
     pb_transactions = [demo_tx 0, demo_tx 1], pb_rewards = [demo_reward], pb_block_time = Some 5,
     pb_block_height = Some 3, pb_num_partitions = None\<rparr>"

theorem block_encoded_len_exact_witness:
  "length (fst (encode_with_tx_offsets wire_proto demo_proto_block)) = encoded_len wire_proto demo_proto_block \<and>
   length (reward_encode_raw wire_proto demo_reward) = reward_encoded_len wire_proto demo_reward"
  using block_encoded_len_exact [OF wire.proto_laws_axioms] .

section \<open>Decimal strings\<close>

text \<open>
  The table of static strings prints every \<open>u8\<close> as the standard library does.
\<close>

lemma to_string_digit:
  "to_string 0 = ''0''" "to_string (Suc 0) = ''1''" "to_string 2 = ''2''" "to_string 3 = ''3''" "to_string 4 = ''4''"
  "to_string 5 = ''5''" "to_string 6 = ''6''" "to_string 7 = ''7''" "to_string 8 = ''8''" "to_string 9 = ''9''"
  by (simp_all add: to_string.simps char_of_def bit_0)

lemma to_string_digits: "10 \<le> n \<Longrightarrow> to_string n = to_string (n div 10) @ to_string (n mod 10)"
  by (simp add: to_string.simps [of n] to_string.simps [of "n mod 10"])

lemma map_to_string: "map to_string [0..<256] = NUM_STRINGS"
  unfolding NUM_STRINGS_def
  by (simp add: to_string_digits to_string_digit upt_rec [of 0 256] upt_rec [of "Suc 0" 256] numeral_2_eq_2 [symmetric])

lemma u8_to_static_str_decimal: "u8_to_static_str num = to_string (unat num)"
proof -
  have "NUM_STRINGS ! i = to_string i" if "i < 256" for i
    using that by (simp add: map_to_string [symmetric] del: upt_rec_numeral)
  moreover have "unat num < 256" using unsigned_less [of num, where ?'a = nat] by simp
  ultimately show ?thesis by (simp add: u8_to_static_str_def)
qed

section \<open>The accounts of a transaction\<close>

fun first_occurrences :: "string list \<Rightarrow> string list \<Rightarrow> string list" where
  "first_occurrences seen [] = []"
| "first_occurrences seen (x # xs) =
     (if x \<in> set seen then first_occurrences seen xs else x # first_occurrences (x # seen) xs)"

lemma set_first_occurrences: "set (first_occurrences seen xs) = set xs - set seen"
  by (induction seen xs rule: first_occurrences.induct) auto

lemma distinct_first_occurrences: "distinct (first_occurrences seen xs)"
  by (induction seen xs rule: first_occurrences.induct) (auto simp: set_first_occurrences)

definition owner_entry ::
  "solana \<Rightarrow> 'e codec \<Rightarrow> Slot \<Rightarrow> Signature \<Rightarrow> nat \<Rightarrow> 'e TransactionMeta \<Rightarrow> string \<Rightarrow> 'e SignatureForAddress option" where
  "owner_entry so c slot signature i tx owner =
     (case so_parse_pubkey so owner of
        Some k \<Rightarrow> if k \<in> set (tm_account_keys tx) then None
          else Some (SignatureForAddress_new_token_owner c slot k signature (tm_err tx) (tm_memo tx) i
            (owner_balance_changed (token_balances (tm_pre_token_balances tx)) (token_balances (tm_post_token_balances tx)) owner))
      | None \<Rightarrow> None)"

lemma token_owner_fold:
  "snd (foldl (token_owner_step so c slot signature i tx) (seen, acc) bs) =
     acc @ List.map_filter (owner_entry so c slot signature i tx) (first_occurrences seen (map tb_owner bs))"
  by (induction bs arbitrary: seen acc)
    (auto simp: token_owner_step_def owner_entry_def Let_def List.map_filter_simps split: option.split)

lemma token_owner_entries_eq:
  "token_owner_entries so c slot signature i tx = List.map_filter (owner_entry so c slot signature i tx)
     (first_occurrences [] (map tb_owner
       (token_balances (tm_pre_token_balances tx) @ token_balances (tm_post_token_balances tx))))"
  unfolding token_owner_entries_def token_owner_fold by simp

text \<open>
  C33. A transaction is indexed under each of its account keys and, once for each different owner
  string of its token balances that parses and is not an account key, under that owner, marked as
  a token owner and with whether one of the owner's balances differs before and after.
\<close>

theorem transaction_indexed_accounts:
  "\<exists>owners. distinct owners \<and>
     set owners = tb_owner ` set (token_balances (tm_pre_token_balances tx) @ token_balances (tm_post_token_balances tx)) \<and>
     tx_sfa (TransactionWithBinary_new so c slot \<lparr>tw_signature = signature, tw_complete = Some tx, tw_protobuf = bs\<rparr> v i) =
       map (\<lambda>k. SignatureForAddress_new c slot k signature (tm_err tx) (tm_memo tx) i) (tm_account_keys tx) @
       List.map_filter (owner_entry so c slot signature i tx) owners"
proof -
  let ?bs = "token_balances (tm_pre_token_balances tx) @ token_balances (tm_post_token_balances tx)"
  let ?owners = "first_occurrences [] (map tb_owner ?bs)"
  have "distinct ?owners \<and> set ?owners = tb_owner ` set ?bs"
    by (simp only: distinct_first_occurrences set_first_occurrences) (simp add: image_Un)
  then show ?thesis
    by (intro exI [of _ ?owners]) (simp add: TransactionWithBinary_new_def token_owner_entries_eq Let_def del: map_append)
qed

section \<open>Address index of a block\<close>

definition entries_of :: "Pubkey \<Rightarrow> 'e TransactionWithBinary list \<Rightarrow> 'e SignatureForAddress list" where
  "entries_of a txs = filter (\<lambda>s. sf_address s = a) (concat (map tx_sfa txs))"

definition group_of :: "'e SignaturesForAddress option \<Rightarrow> 'e SignatureForAddress list \<Rightarrow> 'e SignaturesForAddress option" where
  "group_of g ss = (case g of
     Some m \<Rightarrow> Some (m\<lparr>sfa_signatures := sfa_signatures m @ map status_of ss\<rparr>)
   | None \<Rightarrow> (case ss of [] \<Rightarrow> None | s # _ \<Rightarrow>
       Some \<lparr>sfa_key = sf_key s, sfa_address_hash = sf_address_hash s, sfa_signatures = map status_of ss\<rparr>))"

lemma add_sfa_group:
  "hm_get (foldl add_sfa m ss) a = group_of (hm_get m a) (filter (\<lambda>s. sf_address s = a) ss)"
proof (induction ss arbitrary: m)
  case (Cons s ss)
  then show ?case
    by (auto simp: add_sfa_def group_of_def SignaturesForAddress_new_def SignaturesForAddress_merge_def split: option.splits)
qed (simp add: group_of_def split: option.split)

lemma add_sfa_txs: "foldl (\<lambda>sfa tx. foldl add_sfa sfa (tx_sfa tx)) m txs = foldl add_sfa m (concat (map tx_sfa txs))"
  by (induction txs arbitrary: m) simp_all

lemma sfa_keys_of_new:
  "s \<in> set (tx_sfa (TransactionWithBinary_new so c slot tw v i)) \<Longrightarrow>
     sf_key s = SfaIndex_encode c (sf_address s) slot \<and> sf_address_hash s = address_hash c (sf_address s)"
proof -
  assume s: "s \<in> set (tx_sfa (TransactionWithBinary_new so c slot tw v i))"
  show ?thesis
  proof (cases "tw_complete tw")
    case (Some tx)
    have "s \<in> set (token_owner_entries so c slot (tw_signature tw) i tx) \<or>
        (\<exists>k. s = SignatureForAddress_new c slot k (tw_signature tw) (tm_err tx) (tm_memo tx) i)"
      using s Some by (auto simp: TransactionWithBinary_new_def Let_def)
    then show ?thesis
      by (auto simp: token_owner_entries_eq owner_entry_def List.map_filter_def
          SignatureForAddress_new_def SignatureForAddress_new_token_owner_def split: option.splits if_splits)
  qed (use s in \<open>simp add: TransactionWithBinary_new_def Let_def\<close>)
qed

definition kept_txs :: "solana \<Rightarrow> 'e codec \<Rightarrow> 'e ConfirmedBlock \<Rightarrow> Slot \<Rightarrow> bool \<Rightarrow> 'e TransactionWithBinary list" where
  "kept_txs so c block slot index_vote =
     filter (\<lambda>tx. index_vote \<or> \<not> tx_is_vote tx)
       (map (\<lambda>(i, tw). TransactionWithBinary_new so c slot tw None (i mod 4294967296)) (enumerate 0 (cf_transactions block)))"

text \<open>
  The address index of a confirmed block has an entry for exactly the addresses of its indexed
  transactions, under the key of the address and the slot, and the entry lists the signatures of
  the transactions of that address from the last transaction of the block to the first.
\<close>

lemma block_sfa_newest_first:
  "hm_get (bl_sfa (new_from_confirmed_block_and_slot so c p block slot index_vote)) a =
     (let ss = entries_of a (rev (kept_txs so c block slot index_vote))
      in if ss = [] then None
         else Some \<lparr>sfa_key = SfaIndex_encode c a slot, sfa_address_hash = address_hash c a,
                    sfa_signatures = map status_of ss\<rparr>)"
proof -
  let ?txs = "kept_txs so c block slot index_vote"
  let ?ss = "entries_of a (rev ?txs)"
  have "bl_sfa (new_from_confirmed_block_and_slot so c p block slot index_vote) =
      foldl (\<lambda>sfa tx. foldl add_sfa sfa (tx_sfa tx)) [] (rev ?txs)"
    by (simp add: new_from_confirmed_block_and_slot_def BlockWithBinary_new_def kept_txs_def Let_def split_beta)
  then have get: "hm_get (bl_sfa (new_from_confirmed_block_and_slot so c p block slot index_vote)) a = group_of None ?ss"
    by (simp add: add_sfa_txs add_sfa_group entries_of_def)
  have "sf_key s = SfaIndex_encode c a slot \<and> sf_address_hash s = address_hash c a" if "s \<in> set ?ss" for s
    using that by (auto simp: entries_of_def kept_txs_def dest!: sfa_keys_of_new)
  then show ?thesis by (cases ?ss) (auto simp: get group_of_def)
qed

text \<open>
  C32. Without vote indexing a block keeps exactly its non-vote transactions: in its bytes, in its
  offsets (each with the index the transaction had in the confirmed block) and in its map of
  transactions.
\<close>

theorem block_keeps_indexed_transactions:
  "map (tx_bytes_at (bl_protobuf (new_from_confirmed_block_and_slot so c p block slot index_vote)))
       (bl_txs_offset (new_from_confirmed_block_and_slot so c p block slot index_vote)) =
     map tx_protobuf (kept_txs so c block slot index_vote) \<and>
   map offset_meta (bl_txs_offset (new_from_confirmed_block_and_slot so c p block slot index_vote)) =
     map (\<lambda>tx. (tx_key tx, tx_err tx, tx_index tx)) (kept_txs so c block slot index_vote) \<and>
   fst ` set (bl_transactions (new_from_confirmed_block_and_slot so c p block slot index_vote)) =
     tx_signature ` set (kept_txs so c block slot index_vote)"
proof -
  let ?b = "new_from_confirmed_block_and_slot so c p block slot index_vote"
  let ?txs = "kept_txs so c block slot index_vote"
  let ?pb = "\<lparr>pb_previous_blockhash = cf_previous_blockhash block, pb_blockhash = cf_blockhash block,
    pb_parent_slot = cf_parent_slot block, pb_transactions = ?txs, pb_rewards = cf_rewards block,
    pb_block_time = cf_block_time block, pb_block_height = cf_block_height block,
    pb_num_partitions = cf_num_partitions block\<rparr>"
  have new: "bl_protobuf ?b = fst (encode_with_tx_offsets p ?pb)" "bl_txs_offset ?b = snd (encode_with_tx_offsets p ?pb)"
    "bl_transactions ?b = foldl (\<lambda>m tx. hm_insert (tx_signature tx) tx m) [] (map (\<lambda>tx. tx\<lparr>tx_sfa := []\<rparr>) ?txs)"
    by (simp_all add: new_from_confirmed_block_and_slot_def BlockWithBinary_new_def kept_txs_def Let_def split_beta)
  have "fst ` set (foldl (\<lambda>m tx. hm_insert (tx_signature tx) tx m) m txs) = fst ` set m \<union> tx_signature ` set txs"
    for m and txs :: "'a TransactionWithBinary list" by (induction txs arbitrary: m) auto
  then show ?thesis using encode_block_offsets [of p ?pb] by (simp add: new image_image)
qed

section \<open>Compute budget\<close>

definition budget_instructions :: "solana \<Rightarrow> (Pubkey \<times> bytes) list \<Rightarrow> ComputeBudgetInstruction option list" where
  "budget_instructions so xs = map (so_parse_budget so \<circ> snd) (filter (so_is_budget_program so \<circ> fst) xs)"

definition heaps_of :: "ComputeBudgetInstruction option list \<Rightarrow> nat list" where
  "heaps_of xs = List.map_filter (\<lambda>x. case x of Some (RequestHeapFrame v) \<Rightarrow> Some v | _ \<Rightarrow> None) xs"

definition limits_of :: "ComputeBudgetInstruction option list \<Rightarrow> nat list" where
  "limits_of xs = List.map_filter (\<lambda>x. case x of Some (SetComputeUnitLimit v) \<Rightarrow> Some v | _ \<Rightarrow> None) xs"

definition prices_of :: "ComputeBudgetInstruction option list \<Rightarrow> nat list" where
  "prices_of xs = List.map_filter (\<lambda>x. case x of Some (SetComputeUnitPrice v) \<Rightarrow> Some v | _ \<Rightarrow> None) xs"

definition loaded_of :: "ComputeBudgetInstruction option list \<Rightarrow> nat list" where
  "loaded_of xs = List.map_filter (\<lambda>x. case x of Some (SetLoadedAccountsDataSizeLimit v) \<Rightarrow> Some v | _ \<Rightarrow> None) xs"

text \<open>What the processor accepts: known instructions only, one of each kind, a legal heap size.\<close>

definition budget_valid :: "solana \<Rightarrow> ComputeBudgetInstruction option list \<Rightarrow> bool" where
  "budget_valid so xs \<longleftrightarrow> None \<notin> set xs \<and> Some OtherBudgetInstruction \<notin> set xs \<and>
     length (heaps_of xs) \<le> 1 \<and> length (limits_of xs) \<le> 1 \<and> length (prices_of xs) \<le> 1 \<and> length (loaded_of xs) \<le> 1 \<and>
     list_all (sanitize_requested_heap_size so) (heaps_of xs)"

definition opt_list :: "'a option \<Rightarrow> 'a list" where
  "opt_list x = (case x of Some v \<Rightarrow> [v] | None \<Rightarrow> [])"

definition opt_hd :: "'a list \<Rightarrow> 'a option" where
  "opt_hd xs = (case xs of [] \<Rightarrow> None | x # _ \<Rightarrow> Some x)"

lemmas kinds_of_defs = heaps_of_def limits_of_def prices_of_def loaded_of_def List.map_filter_simps

lemma opt_hd_opt_list [simp]: "opt_hd (opt_list x) = x" "length (opt_list x) \<le> Suc 0" "opt_hd [] = None" "opt_hd (y # ys) = Some y" "opt_list None = []" "opt_list (Some y) = [y]"
  by (simp_all add: opt_hd_def opt_list_def split: option.split)

lemma budget_loop_spec:
  assumes "bs_count s \<le> 4294967295"
  shows "budget_loop so i xs s = Inr s' \<longleftrightarrow>
    (let bi = budget_instructions so xs; heaps = opt_list (bs_heap s) @ heaps_of bi; limits = opt_list (bs_limit s) @ limits_of bi;
         prices = opt_list (bs_price s) @ prices_of bi; loaded = opt_list (bs_loaded s) @ loaded_of bi
     in None \<notin> set bi \<and> Some OtherBudgetInstruction \<notin> set bi \<and> length heaps \<le> 1 \<and> length limits \<le> 1 \<and>
        length prices \<le> 1 \<and> length loaded \<le> 1 \<and> list_all (sanitize_requested_heap_size so) (heaps_of bi) \<and>
        s' = \<lparr>bs_count = min (bs_count s + length (filter (\<lambda>x. \<not> so_is_budget_program so (fst x)) xs)) 4294967295,
          bs_limit = opt_hd limits, bs_price = opt_hd prices, bs_heap = opt_hd heaps, bs_loaded = opt_hd loaded\<rparr>)"
  using assms
proof (induction so i xs s rule: budget_loop.induct)
  case (1 so i s)
  then show ?case
    by (cases s) (auto simp: budget_instructions_def kinds_of_defs Let_def min_def)
next
  case (2 so i program_id data rest s)
  show ?case
  proof (cases "so_is_budget_program so program_id")
    case False
    have "min (min (Suc (bs_count s)) 4294967295 + n) 4294967295 = min (Suc (bs_count s + n)) 4294967295" for n :: nat
      by (simp add: min_def)
    then show ?thesis using 2 False by (simp add: budget_instructions_def Let_def)
  next
    case True
    have bi: "budget_instructions so ((program_id, data) # rest) = so_parse_budget so data # budget_instructions so rest"
      using True by (simp add: budget_instructions_def)
    show ?thesis
    proof (cases "so_parse_budget so data")
      case None
      then show ?thesis using True by (simp add: bi Let_def)
    next
      case (Some ins)
      note step = True Some bi kinds_of_defs Let_def
      show ?thesis
      proof (cases ins)
        case (RequestHeapFrame v)
        then show ?thesis using "2.IH"(1) [OF True refl refl Some RequestHeapFrame] "2.prems" by (cases "bs_heap s") (simp_all add: step)
      next
        case (SetComputeUnitLimit v)
        then show ?thesis using "2.IH"(2) [OF True refl refl Some SetComputeUnitLimit] "2.prems" by (cases "bs_limit s") (simp_all add: step)
      next
        case (SetComputeUnitPrice v)
        then show ?thesis using "2.IH"(3) [OF True refl refl Some SetComputeUnitPrice] "2.prems" by (cases "bs_price s") (simp_all add: step)
      next
        case (SetLoadedAccountsDataSizeLimit v)
        then show ?thesis using "2.IH"(4) [OF True refl refl Some SetLoadedAccountsDataSizeLimit] "2.prems" by (cases "bs_loaded s") (simp_all add: step)
      next
        case OtherBudgetInstruction
        then show ?thesis by (simp add: step)
      qed
    qed
  qed
qed

text \<open>
  C34. Processing the compute-budget instructions of a transaction succeeds exactly when they are
  all known, no kind occurs twice and a requested heap size is legal; then the price is the
  requested one, or 0, and the unit limit is the requested one, or the default for each other
  instruction, and never above the maximum.
\<close>

theorem compute_budget_correct:
  "process_compute_budget_instructions so xs = Inr lim \<longleftrightarrow>
     budget_valid so (budget_instructions so xs) \<and>
     cb_compute_unit_price lim = (case opt_hd (prices_of (budget_instructions so xs)) of Some v \<Rightarrow> v | None \<Rightarrow> 0) \<and>
     cb_compute_unit_limit lim = min (so_MAX_COMPUTE_UNIT_LIMIT so)
       (case opt_hd (limits_of (budget_instructions so xs)) of
          Some v \<Rightarrow> v
        | None \<Rightarrow> min 4294967295 (min 4294967295 (length (filter (\<lambda>x. \<not> so_is_budget_program so (fst x)) xs)) *
            so_DEFAULT_INSTRUCTION_COMPUTE_UNIT_LIMIT so))"
proof -
  let ?s0 = "\<lparr>bs_count = 0, bs_limit = None, bs_price = None, bs_heap = None, bs_loaded = None\<rparr>"
  have ok: "budget_loop so 0 xs ?s0 = Inr s \<longleftrightarrow> budget_valid so (budget_instructions so xs) \<and>
      s = \<lparr>bs_count = min (length (filter (\<lambda>x. \<not> so_is_budget_program so (fst x)) xs)) 4294967295,
          bs_limit = opt_hd (limits_of (budget_instructions so xs)), bs_price = opt_hd (prices_of (budget_instructions so xs)),
          bs_heap = opt_hd (heaps_of (budget_instructions so xs)), bs_loaded = opt_hd (loaded_of (budget_instructions so xs))\<rparr>" for s
    by (simp add: budget_loop_spec Let_def budget_valid_def)
  show ?thesis
  proof (cases "budget_loop so 0 xs ?s0")
    case (Inl e)
    then have "\<not> budget_valid so (budget_instructions so xs)" using ok by fastforce
    then show ?thesis using Inl by (simp add: process_compute_budget_instructions_def)
  next
    case (Inr s)
    then show ?thesis using ok [of s]
      by (cases lim) (auto simp: process_compute_budget_instructions_def min.commute split: option.splits)
  qed
qed

section \<open>Fee percentiles\<close>

definition rank_of :: "nat list \<Rightarrow> nat \<Rightarrow> nat" where
  "rank_of fees percentile = min percentile 9999 * length fees div 10000"

lemma rank_less: "fees \<noteq> [] \<Longrightarrow> rank_of fees percentile < length fees"
proof -
  assume "fees \<noteq> []"
  moreover have "min percentile 9999 * length fees \<le> 9999 * length fees" by (intro mult_le_mono1) simp
  ultimately have "min percentile 9999 * length fees < 10000 * length fees" by (cases fees) auto
  then show ?thesis by (simp add: rank_of_def less_mult_imp_div_less mult.commute)
qed

lemma get_percentile_rank: "fees \<noteq> [] \<Longrightarrow> get_percentile fees percentile = Some (fees ! rank_of fees percentile)"
  using rank_less [of fees percentile] by (simp add: get_percentile_def nth_opt_def rank_of_def)

lemma sorted_rank_counts:
  assumes "sorted fees" "i < length fees"
  shows "i < length (filter (\<lambda>f. f \<le> fees ! i) fees)" "length (filter (\<lambda>f. f < fees ! i) fees) \<le> i"
proof -
  have split: "fees = take (Suc i) fees @ drop (Suc i) fees" by simp
  have "f \<le> fees ! i" if "f \<in> set (take (Suc i) fees)" for f
    using that assms by (auto simp: in_set_conv_nth sorted_iff_nth_mono)
  then have "filter (\<lambda>f. f \<le> fees ! i) (take (Suc i) fees) = take (Suc i) fees" by (intro filter_True) simp
  then have "length (take (Suc i) fees) \<le> length (filter (\<lambda>f. f \<le> fees ! i) fees)"
    by (subst (3) split) (simp only: filter_append length_append)
  then show "i < length (filter (\<lambda>f. f \<le> fees ! i) fees)" using assms(2) by simp
  have "\<not> f < fees ! i" if "f \<in> set (drop i fees)" for f
    using that assms by (auto simp: in_set_conv_nth sorted_iff_nth_mono not_less)
  then have "filter (\<lambda>f. f < fees ! i) (drop i fees) = []" by (simp add: filter_empty_conv)
  then have "filter (\<lambda>f. f < fees ! i) fees = filter (\<lambda>f. f < fees ! i) (take i fees)"
    by (metis append_Nil2 append_take_drop_id filter_append)
  then show "length (filter (\<lambda>f. f < fees ! i) fees) \<le> i"
    using length_filter_le [of "\<lambda>f. f < fees ! i" "take i fees"] assms(2) by simp
qed

definition all_prices :: "'e TransactionWithBinary list \<Rightarrow> nat list" where
  "all_prices txs = map tf_unit_price (List.map_filter tx_fees txs)"

definition account_prices :: "Pubkey \<Rightarrow> 'e TransactionWithBinary list \<Rightarrow> nat list" where
  "account_prices a txs = map tf_unit_price (filter (\<lambda>f. a \<in> set (tf_account_keys f)) (List.map_filter tx_fees txs))"



lemma hm_get_map_values: "hm_get (map (\<lambda>(k, v). (k, f v)) m) a = map_option f (hm_get m a)"
  by (induction m) auto

lemma fees_push_accounts:
  "distinct ks \<Longrightarrow> hm_get (foldl (fees_push price) m ks) a =
     (if a \<in> set ks then Some ((case hm_get m a of Some fs \<Rightarrow> fs | None \<Rightarrow> []) @ [price]) else hm_get m a)"
  by (induction ks arbitrary: m) (auto simp: fees_push_def)

lemma fees_push_txs:
  "list_all (\<lambda>f. distinct (tf_account_keys f)) fs \<Longrightarrow>
   hm_get (foldl (\<lambda>m f. foldl (fees_push (tf_unit_price f)) m (tf_account_keys f)) m fs) a =
     (let new = map tf_unit_price (filter (\<lambda>f. a \<in> set (tf_account_keys f)) fs)
      in case hm_get m a of Some old \<Rightarrow> Some (old @ new) | None \<Rightarrow> if new = [] then None else Some new)"
  by (induction fs arbitrary: m) (auto simp: fees_push_accounts Let_def split: option.split)

lemma account_fees:
  assumes "list_all (\<lambda>f. distinct (tf_account_keys f)) (List.map_filter tx_fees txs)"
  shows "hm_get (fs_writable_account_fees (TransactionsFees_new txs)) a =
    (if account_prices a txs = [] then None else Some (sort (account_prices a txs)))"
  by (simp add: TransactionsFees_new_def Let_def hm_get_map_values fees_push_txs [OF assms] account_prices_def)

lemma fees_sorted: "fs_fees (TransactionsFees_new txs) = sort (all_prices txs)"
  by (simp add: TransactionsFees_new_def all_prices_def Let_def)

lemma foldl_max_Max: "foldl max a as = Max (set (a # as))" for a :: nat
proof (induction as arbitrary: a)
  case (Cons b bs)
  then show ?case by (cases "bs = []") (simp_all add: max.assoc)
qed simp

lemma get_fee_max:
  assumes "list_all (\<lambda>f. distinct (tf_account_keys f)) (List.map_filter tx_fees txs)"
  shows "get_fee (TransactionsFees_new txs) accounts percentile =
    Max (insert (get_with_percentile (sort (all_prices txs)) percentile)
      ((\<lambda>a. get_with_percentile (sort (account_prices a txs)) percentile) ` set accounts))"
proof -
  let ?pct = "\<lambda>fees. get_with_percentile fees percentile"
  let ?g = "\<lambda>a. ?pct (sort (account_prices a txs))"
  let ?base = "?pct (sort (all_prices txs))"
  have zero: "?pct [] = 0" by (simp add: get_with_percentile_def get_percentile_def nth_opt_def split: option.split)
  define afees where "afees = List.map_filter (\<lambda>a. map_option ?pct (hm_get (fs_writable_account_fees (TransactionsFees_new txs)) a)) accounts"
  have set_afees: "set afees = ?g ` {a \<in> set accounts. account_prices a txs \<noteq> []}"
    by (auto simp: afees_def List.map_filter_def account_fees [OF assms])
  have "get_fee (TransactionsFees_new txs) accounts percentile =
      (case afees of [] \<Rightarrow> ?base | a # as \<Rightarrow> max ?base (foldl max a as))"
    by (simp add: get_fee_def afees_def Let_def fees_sorted)
  also have "\<dots> = Max (insert ?base (set afees))"
    by (cases afees) (simp_all add: foldl_max_Max)
  also have "\<dots> = Max (insert ?base (?g ` set accounts))"
  proof (rule antisym)
    show "Max (insert ?base (set afees)) \<le> Max (insert ?base (?g ` set accounts))"
      by (intro Max_mono) (auto simp: set_afees)
    have "x \<le> Max (insert ?base (set afees))" if x: "x \<in> insert ?base (?g ` set accounts)" for x
    proof (cases "x = 0")
      case False
      then have "x \<in> insert ?base (set afees)" using x zero by (auto simp: set_afees)
      then show ?thesis by simp
    qed simp
    then show "Max (insert ?base (?g ` set accounts)) \<le> Max (insert ?base (set afees))" by simp
  qed
  finally show ?thesis .
qed

lemma distinct_writable:
  "distinct ks \<Longrightarrow> distinct (foldl (\<lambda>ks (i, k). if w i then set_insert k ks else ks) ks xs)"
  by (induction xs arbitrary: ks) (auto simp: set_insert_def)

lemma created_fees_distinct: "TransactionFees_create so tw v = Some f \<Longrightarrow> distinct (tf_account_keys f)"
  by (auto simp: TransactionFees_create_def distinct_writable split: option.splits if_splits sum.splits)

lemma fees_of_new:
  "tx_fees (TransactionWithBinary_new so c slot tw v i) =
     TransactionFees_create so tw (Some (tx_is_vote (TransactionWithBinary_new so c slot tw v i)))"
  by (simp add: TransactionWithBinary_new_def Let_def split_beta)

lemma prices_without_sfa:
  "all_prices (map (\<lambda>tx. tx\<lparr>tx_sfa := []\<rparr>) txs) = all_prices txs"
  "account_prices a (map (\<lambda>tx. tx\<lparr>tx_sfa := []\<rparr>) txs) = account_prices a txs"
  "List.map_filter tx_fees (map (\<lambda>tx. tx\<lparr>tx_sfa := []\<rparr>) txs) = List.map_filter tx_fees txs"
  by (simp_all add: all_prices_def account_prices_def List.map_filter_def filter_map comp_def)

text \<open>
  The fee reported for a set of accounts is the largest of the percentile of all prices of the
  block and the percentiles of the prices of the transactions that write each account.
\<close>

lemma block_fee_of_accounts:
  "get_fee (bl_fees (new_from_confirmed_block_and_slot so c p block slot index_vote)) accounts percentile =
    Max (insert (get_with_percentile (sort (all_prices (kept_txs so c block slot index_vote))) percentile)
      ((\<lambda>a. get_with_percentile (sort (account_prices a (kept_txs so c block slot index_vote))) percentile) ` set accounts))"
proof -
  let ?txs = "kept_txs so c block slot index_vote"
  have fees: "bl_fees (new_from_confirmed_block_and_slot so c p block slot index_vote) =
      TransactionsFees_new (map (\<lambda>tx. tx\<lparr>tx_sfa := []\<rparr>) ?txs)"
    by (simp add: new_from_confirmed_block_and_slot_def BlockWithBinary_new_def kept_txs_def Let_def split_beta)
  have "distinct (tf_account_keys f)" if "tx \<in> set ?txs" "tx_fees tx = Some f" for tx f
    using that by (auto simp: kept_txs_def fees_of_new dest: created_fees_distinct)
  then have "list_all (\<lambda>f. distinct (tf_account_keys f)) (List.map_filter tx_fees ?txs)"
    by (auto simp: list_all_iff List.map_filter_def)
  then show ?thesis
    using get_fee_max [of "map (\<lambda>tx. tx\<lparr>tx_sfa := []\<rparr>) ?txs" accounts percentile] by (simp add: fees prices_without_sfa)
qed

end
