(* ===== verification/Alp_Processed.thy ===== *)
theory Alp_Processed
  imports Alp_Source Alp_Slots
begin

text \<open>
  \<open>StorageProcessed\<close> (src/src/storage/read.rs): what each read thread keeps of the blocks that are
  processed but not yet confirmed and of the last blocks, to answer questions about recent
  transactions and blockhashes. \<open>mrb\<close> is \<open>MAX_RECENT_BLOCKHASHES\<close> of the Solana crates.

  The lemmas show, for every sequence of the messages a read thread receives, that the tables agree
  with each other: a status or a blockhash is known exactly as long as its block is among the
  recent ones.
\<close>

section \<open>State\<close>

record 'e ProcessedStatus =
  ps_slot :: Slot
  ps_block_height :: Slot
  ps_err :: "'e option"

record RecentBlock =
  re_blockhash :: string
  re_block_height :: Slot
  re_signatures :: "Signature list"
  re_fees :: TransactionsFees

record 'e StorageProcessed =
  sp_processed_slot :: Slot
  sp_processed_height :: Slot
  sp_confirmed_slot :: Slot
  sp_confirmed_height :: Slot
  sp_finalized_slot :: Slot
  sp_finalized_height :: Slot
  sp_blocks :: "(Slot, 'e BlockWithBinary option) btree"
  sp_signature_statuses :: "(Signature, 'e ProcessedStatus) hmap"
  sp_recent_blocks :: "(Slot, RecentBlock) btree"
  sp_block_heights :: "(string, Slot) hmap"

definition StorageProcessed_default :: "'e StorageProcessed" where
  "StorageProcessed_default = \<lparr>sp_processed_slot = 0, sp_processed_height = 0, sp_confirmed_slot = 0,
     sp_confirmed_height = 0, sp_finalized_slot = 0, sp_finalized_height = 0, sp_blocks = [],
     sp_signature_statuses = [], sp_recent_blocks = [], sp_block_heights = []\<rparr>"

section \<open>Operations\<close>

definition recent_block_of :: "'e BlockWithBinary \<Rightarrow> Slot \<Rightarrow> RecentBlock" where
  "recent_block_of block block_height = \<lparr>re_blockhash = bl_blockhash block, re_block_height = block_height,
     re_signatures = map fst (bl_transactions block), re_fees = bl_fees block\<rparr>"

definition add_signatures :: "Slot \<Rightarrow> 'e BlockWithBinary \<Rightarrow> 'e StorageProcessed \<Rightarrow> 'e StorageProcessed" where
  "add_signatures slot block sp =
     (if \<not> bt_contains (sp_blocks sp) slot
      then case bl_block_height block of
          Some block_height \<Rightarrow>
            sp\<lparr>sp_signature_statuses := foldl (\<lambda>m (_, tx). hm_insert (tx_signature tx)
                   \<lparr>ps_slot = slot, ps_block_height = block_height, ps_err = tx_err tx\<rparr> m)
                 (sp_signature_statuses sp) (bl_transactions block),
               sp_recent_blocks := bt_insert slot (recent_block_of block block_height) (sp_recent_blocks sp),
               sp_block_heights := hm_insert (bl_blockhash block) block_height (sp_block_heights sp)\<rparr>
        | None \<Rightarrow> sp
      else sp)"

definition remove_signatures :: "RecentBlock \<Rightarrow> 'e StorageProcessed \<Rightarrow> 'e StorageProcessed" where
  "remove_signatures block sp =
     sp\<lparr>sp_signature_statuses := foldl (\<lambda>m signature. hm_remove signature m) (sp_signature_statuses sp) (re_signatures block),
        sp_block_heights := hm_remove (re_blockhash block) (sp_block_heights sp)\<rparr>"

fun last_live :: "(Slot \<times> 'e BlockWithBinary option) list \<Rightarrow> (Slot \<times> Slot option) option" where
  "last_live [] = None"
| "last_live ((slot, Some block) # _) = Some (slot, bl_block_height block)"
| "last_live ((_, None) # rest) = last_live rest"

definition update_processed :: "'e StorageProcessed \<Rightarrow> 'e StorageProcessed" where
  "update_processed sp =
     (case last_live (rev (sp_blocks sp)) of
        Some (slot, block_height) \<Rightarrow>
          sp\<lparr>sp_processed_slot := max (sp_processed_slot sp) slot,
             sp_processed_height := max (sp_processed_height sp) (case block_height of Some h \<Rightarrow> h | None \<Rightarrow> 0)\<rparr>
      | None \<Rightarrow>
          sp\<lparr>sp_processed_slot := max (sp_processed_slot sp) (sp_confirmed_slot sp),
             sp_processed_height := max (sp_processed_height sp) (sp_confirmed_height sp)\<rparr>)"

definition add_processed_block :: "Slot \<Rightarrow> 'e BlockWithBinary \<Rightarrow> 'e StorageProcessed \<Rightarrow> 'e StorageProcessed" where
  "add_processed_block slot block sp =
     (let sp = add_signatures slot block sp;
          sp = (if bt_get (sp_blocks sp) slot = None
                then sp\<lparr>sp_blocks := bt_insert slot (Some block) (sp_blocks sp)\<rparr> else sp)
      in update_processed sp)"

definition mark_dead :: "Slot \<Rightarrow> 'e StorageProcessed \<Rightarrow> 'e StorageProcessed" where
  "mark_dead slot sp =
     (let old = bt_get (sp_blocks sp) slot;
          sp = sp\<lparr>sp_blocks := bt_insert slot None (sp_blocks sp)\<rparr>;
          sp = (if old \<noteq> None
                then case bt_get (sp_recent_blocks sp) slot of
                    Some block \<Rightarrow> remove_signatures block (sp\<lparr>sp_recent_blocks := bt_remove slot (sp_recent_blocks sp)\<rparr>)
                  | None \<Rightarrow> sp
                else sp)
      in update_processed sp)"

text \<open>The loop at the end of \<open>set_confirmed\<close>, one removal of the first recent block per iteration.\<close>

function prune_recent :: "nat \<Rightarrow> 'e StorageProcessed \<Rightarrow> 'e StorageProcessed" where
  "prune_recent mrb sp =
     (case sp_recent_blocks sp of
        (slot, block) # rest \<Rightarrow>
          if mrb \<le> (case checked_sub (sp_confirmed_height sp) (re_block_height block) of Some d \<Rightarrow> d | None \<Rightarrow> 0)
          then prune_recent mrb (remove_signatures block (sp\<lparr>sp_recent_blocks := rest\<rparr>))
          else sp
      | [] \<Rightarrow> sp)"
  by pat_completeness auto

termination
  by (relation "measure (\<lambda>(_, sp). length (sp_recent_blocks sp))") (auto simp: remove_signatures_def)

declare prune_recent.simps [simp del]

definition sp_set_confirmed ::
  "nat \<Rightarrow> Slot \<Rightarrow> 'e BlockWithBinary option \<Rightarrow> 'e StorageProcessed \<Rightarrow> 'e StorageProcessed" where
  "sp_set_confirmed mrb slot block sp =
     (let sp = (case block of Some b \<Rightarrow> add_signatures slot b sp | None \<Rightarrow> sp);
          sp = sp\<lparr>sp_confirmed_slot := slot,
                   sp_confirmed_height := (case bt_get (sp_recent_blocks sp) slot of
                      Some rb \<Rightarrow> re_block_height rb | None \<Rightarrow> sp_confirmed_height sp)\<rparr>;
          sp = sp\<lparr>sp_blocks := bt_prune (\<lambda>first_slot _. first_slot \<le> slot) (sp_blocks sp)\<rparr>
      in prune_recent mrb (update_processed sp))"

definition sp_set_finalized :: "Slot \<Rightarrow> 'e StorageProcessed \<Rightarrow> 'e StorageProcessed" where
  "sp_set_finalized slot sp =
     (case bt_get (sp_recent_blocks sp) slot of
        Some block \<Rightarrow> sp\<lparr>sp_finalized_slot := slot, sp_finalized_height := re_block_height block\<rparr>
      | None \<Rightarrow> sp)"

definition sp_is_ready :: "nat \<Rightarrow> 'e StorageProcessed \<Rightarrow> bool" where
  "sp_is_ready mrb sp \<longleftrightarrow> mrb \<le> length (sp_recent_blocks sp)"

definition get_processed_block :: "'e StorageProcessed \<Rightarrow> Slot \<Rightarrow> 'e BlockWithBinary option" where
  "get_processed_block sp slot = (case bt_get (sp_blocks sp) slot of Some block \<Rightarrow> block | None \<Rightarrow> None)"

definition get_recent_block :: "'e StorageProcessed \<Rightarrow> Slot \<Rightarrow> RecentBlock option" where
  "get_recent_block sp slot = bt_get (sp_recent_blocks sp) slot"

text \<open>\<open>TransactionStatus\<close> of the Solana crates.\<close>

record 'e TransactionStatus =
  ts_slot :: Slot
  ts_confirmations :: "nat option"
  ts_status :: "'e + unit"
  ts_err :: "'e option"
  ts_confirmation_status :: "TransactionConfirmationStatus option"

definition status_result :: "'e option \<Rightarrow> 'e + unit" where
  "status_result err = (case err of Some e \<Rightarrow> Inl e | None \<Rightarrow> Inr ())"

definition get_signature_status :: "'e StorageProcessed \<Rightarrow> Signature \<Rightarrow> 'e TransactionStatus option" where
  "get_signature_status sp signature =
     map_option (\<lambda>status.
       let confirmations =
             (if sp_finalized_height sp < ps_block_height status
              then map_option (\<lambda>x. add64 x 1) (checked_sub (sp_confirmed_height sp) (ps_block_height status))
              else None)
       in \<lparr>ts_slot = ps_slot status, ts_confirmations = confirmations, ts_status = status_result (ps_err status),
           ts_err = ps_err status,
           ts_confirmation_status = Some (case confirmations of
               Some n \<Rightarrow> if n = 0 then TcsProcessed else TcsConfirmed
             | None \<Rightarrow> TcsFinalized)\<rparr>)
       (hm_get (sp_signature_statuses sp) signature)"

definition get_block_height_by_blockhash :: "'e StorageProcessed \<Rightarrow> string \<Rightarrow> Slot option" where
  "get_block_height_by_blockhash sp blockhash = hm_get (sp_block_heights sp) blockhash"

abbreviation RPF_MAX_NUM_RECENT_BLOCKS :: nat where
  "RPF_MAX_NUM_RECENT_BLOCKS \<equiv> 150"

text \<open>The loop of \<open>get_fees\<close>: from the newest block, until the vector has its 150 entries.\<close>

fun fees_loop ::
  "Pubkey list \<Rightarrow> nat option \<Rightarrow> (Slot \<times> RecentBlock) list \<Rightarrow> (Slot \<times> nat) list \<Rightarrow> (Slot \<times> nat) list" where
  "fees_loop pubkeys percentile [] fees = fees"
| "fees_loop pubkeys percentile ((slot, block) # rest) fees =
     (let fees = fees @ [(slot, get_fee (re_fees block) pubkeys percentile)]
      in if length fees = RPF_MAX_NUM_RECENT_BLOCKS then fees else fees_loop pubkeys percentile rest fees)"

definition get_fees :: "'e StorageProcessed \<Rightarrow> Pubkey list \<Rightarrow> nat option \<Rightarrow> (Slot \<times> nat) list" where
  "get_fees sp pubkeys percentile = rev (fees_loop pubkeys percentile (rev (sp_recent_blocks sp)) [])"

section \<open>Invariant\<close>

text \<open>The map of transactions of a block is keyed by signature.\<close>

definition txs_keyed :: "'e BlockWithBinary \<Rightarrow> bool" where
  "txs_keyed b \<longleftrightarrow> hm_ok (bl_transactions b) \<and> (\<forall>(k, tx) \<in> set (bl_transactions b). k = tx_signature tx)"

text \<open>
  \<open>B\<close> says which block each slot has: the source assembles one block per slot. The tables of
  the state then agree with \<open>B\<close> and with each other.
\<close>

definition status_ok :: "(Slot \<Rightarrow> 'e BlockWithBinary) \<Rightarrow> (Slot, RecentBlock) btree \<Rightarrow> Signature \<Rightarrow> 'e ProcessedStatus \<Rightarrow> bool" where
  "status_ok B recent sig st \<longleftrightarrow>
     (\<exists>tx. hm_get (bl_transactions (B (ps_slot st))) sig = Some tx \<and> ps_err st = tx_err tx) \<and>
     bt_get recent (ps_slot st) = Some (recent_block_of (B (ps_slot st)) (ps_block_height st))"

definition height_ok :: "(Slot, RecentBlock) btree \<Rightarrow> string \<Rightarrow> Slot \<Rightarrow> bool" where
  "height_ok recent blockhash h \<longleftrightarrow>
     (\<exists>slot rb. bt_get recent slot = Some rb \<and> re_blockhash rb = blockhash \<and> re_block_height rb = h)"

definition sp_tables :: "(Slot \<Rightarrow> 'e BlockWithBinary) \<Rightarrow> 'e StorageProcessed \<Rightarrow> bool" where
  "sp_tables B sp \<longleftrightarrow> bt_ok (sp_recent_blocks sp) \<and>
     (\<forall>slot rb. bt_get (sp_recent_blocks sp) slot = Some rb \<longrightarrow>
        (\<exists>h. bl_block_height (B slot) = Some h \<and> rb = recent_block_of (B slot) h)) \<and>
     (\<forall>sig st. hm_get (sp_signature_statuses sp) sig = Some st \<longrightarrow> status_ok B (sp_recent_blocks sp) sig st) \<and>
     (\<forall>bh h. hm_get (sp_block_heights sp) bh = Some h \<longrightarrow> height_ok (sp_recent_blocks sp) bh h)"

definition sp_order :: "'e StorageProcessed \<Rightarrow> bool" where
  "sp_order sp \<longleftrightarrow> bt_ok (sp_blocks sp) \<and> sp_confirmed_slot sp \<le> sp_processed_slot sp \<and>
     (\<forall>slot b. bt_get (sp_blocks sp) slot = Some (Some b) \<longrightarrow> slot \<le> sp_processed_slot sp)"

lemma hm_get_statuses:
  assumes "txs_keyed b"
  shows "hm_get (foldl (\<lambda>m (_, tx). hm_insert (tx_signature tx) (f tx) m) m (bl_transactions b)) sig =
    (case hm_get (bl_transactions b) sig of Some tx \<Rightarrow> Some (f tx) | None \<Rightarrow> hm_get m sig)"
proof -
  have "hm_ok txs \<Longrightarrow> \<forall>(k, tx) \<in> set txs. k = tx_signature tx \<Longrightarrow>
      hm_get (foldl (\<lambda>m (_, tx). hm_insert (tx_signature tx) (f tx) m) m txs) sig =
      (case hm_get txs sig of Some tx \<Rightarrow> Some (f tx) | None \<Rightarrow> hm_get m sig)" for txs
  proof (induction txs arbitrary: m)
    case (Cons e txs)
    obtain k tx where e: "e = (k, tx)" by (cases e)
    have "hm_get txs k = None" using Cons.prems(1) by (simp add: e hm_ok_def hm_get_None_iff)
    then show ?case using Cons by (auto simp: e hm_ok_def split: option.split)
  qed simp
  then show ?thesis using assms by (auto simp: txs_keyed_def)
qed

lemma hm_get_removes:
  "hm_get (foldl (\<lambda>m signature. hm_remove signature m) m sigs) sig = (if sig \<in> set sigs then None else hm_get m sig)"
  by (induction sigs arbitrary: m) auto

lemma hm_get_keys: "sig \<notin> fst ` set m \<longleftrightarrow> hm_get m sig = None"
  by (simp add: hm_get_None_iff)

lemma add_signatures_tables:
  assumes "sp_tables B sp" "txs_keyed (B slot)"
  shows "sp_tables B (add_signatures slot (B slot) sp)"
proof (cases "bl_block_height (B slot)")
  case (Some h)
  note T = assms(1) [unfolded sp_tables_def]
  have same: "bt_get (sp_recent_blocks sp) slot = Some rb \<Longrightarrow> rb = recent_block_of (B slot) h" for rb
    using T Some by fastforce
  have "status_ok B (bt_insert slot (recent_block_of (B slot) h) (sp_recent_blocks sp)) sig st"
    if "status_ok B (sp_recent_blocks sp) sig st" for sig st
    using that same by (auto simp: status_ok_def)
  moreover have "height_ok (bt_insert slot (recent_block_of (B slot) h) (sp_recent_blocks sp)) bh h'"
    if "height_ok (sp_recent_blocks sp) bh h'" for bh h'
    using that same unfolding height_ok_def by (metis bt_get_insert)
  moreover have "height_ok (bt_insert slot (recent_block_of (B slot) h) (sp_recent_blocks sp)) (bl_blockhash (B slot)) h"
    unfolding height_ok_def by (intro exI [of _ slot]) (simp add: recent_block_of_def)
  moreover have "status_ok B (bt_insert slot (recent_block_of (B slot) h) (sp_recent_blocks sp)) sig
      \<lparr>ps_slot = slot, ps_block_height = h, ps_err = tx_err tx\<rparr>" if "hm_get (bl_transactions (B slot)) sig = Some tx" for sig tx
    using that by (simp add: status_ok_def)
  ultimately show ?thesis
    using T Some
    by (auto simp: add_signatures_def sp_tables_def hm_get_statuses [OF assms(2)] split: option.splits if_splits)
qed (use assms in \<open>simp add: add_signatures_def\<close>)

lemma remove_recent_tables:
  assumes "sp_tables B sp" "bt_get (sp_recent_blocks sp) slot = Some rb"
    "\<And>k. bt_get recent k = (if k = slot then None else bt_get (sp_recent_blocks sp) k)" "bt_ok recent"
  shows "sp_tables B (remove_signatures rb (sp\<lparr>sp_recent_blocks := recent\<rparr>))"
proof -
  note T = assms(1) [unfolded sp_tables_def]
  obtain h where rb: "rb = recent_block_of (B slot) h" using T assms(2) by blast
  have "status_ok B recent sig st"
    if "hm_get (sp_signature_statuses sp) sig = Some st" "sig \<notin> set (re_signatures rb)" for sig st
  proof -
    have ok: "status_ok B (sp_recent_blocks sp) sig st" using T that(1) by blast
    then have "ps_slot st \<noteq> slot"
      using that(2) by (auto simp: status_ok_def rb recent_block_of_def hm_get_keys)
    then show ?thesis using ok by (simp add: status_ok_def assms(3))
  qed
  moreover have "height_ok recent bh h'"
    if "hm_get (sp_block_heights sp) bh = Some h'" "bh \<noteq> re_blockhash rb" for bh h'
    using T that assms(2,3) unfolding height_ok_def by (metis option.inject)
  ultimately show ?thesis
    using T assms(3,4) by (simp add: remove_signatures_def sp_tables_def hm_get_removes)
qed

lemma update_processed_tables [simp]: "sp_tables B (update_processed sp) = sp_tables B sp"
  by (simp add: update_processed_def sp_tables_def split: option.split prod.split)

lemma set_blocks_tables [simp]: "sp_tables B (sp\<lparr>sp_blocks := bs\<rparr>) = sp_tables B sp"
  by (simp add: sp_tables_def)

lemma set_confirmed_slot_tables [simp]:
  "sp_tables B (sp\<lparr>sp_confirmed_slot := s, sp_confirmed_height := h\<rparr>) = sp_tables B sp"
  by (simp add: sp_tables_def)

lemma prune_recent_tables: "sp_tables B sp \<Longrightarrow> sp_tables B (prune_recent mrb sp)"
proof (induction mrb sp rule: prune_recent.induct)
  case (1 mrb sp)
  show ?case
  proof (cases "sp_recent_blocks sp")
    case Nil
    then show ?thesis using 1 by (subst prune_recent.simps) simp
  next
    case (Cons e rest)
    obtain slot rb where e: "e = (slot, rb)" by (cases e)
    have ok: "bt_ok ((slot, rb) # rest)" using 1(2) Cons by (simp add: sp_tables_def e)
    then have none: "bt_get rest slot = None" by (cases "bt_get rest slot") (fastforce dest: bt_get_in_set)+
    have "sp_tables B (remove_signatures rb (sp\<lparr>sp_recent_blocks := rest\<rparr>))"
      by (rule remove_recent_tables [OF 1(2), of slot rb]) (use ok Cons none in \<open>auto simp: e\<close>)
    then show ?thesis using 1 by (subst prune_recent.simps) (simp add: Cons e)
  qed
qed

lemma last_live_rev:
  assumes "bt_ok bs"
  shows "(\<forall>slot b. bt_get bs slot = Some (Some b) \<longrightarrow> (\<exists>m h. last_live (rev bs) = Some (m, h) \<and> slot \<le> m)) \<and>
    (\<forall>m h. last_live (rev bs) = Some (m, h) \<longrightarrow> m \<in> fst ` set bs)"
  using assms
proof (induction bs rule: rev_induct)
  case (snoc e bs)
  obtain k v where e: "e = (k, v)" by (cases e)
  have ok: "bt_ok bs" and top: "\<forall>x \<in> set bs. fst x < k"
    using snoc.prems by (auto simp: bt_ok_def e sorted_wrt_append)
  have get: "bt_get (bs @ [(k, x)]) slot = (if slot = k then Some x else bt_get bs slot)" for slot x
    using top by (induction bs) auto
  have less: "slot < k" if "bt_get bs slot = Some (Some b)" for slot b
    using bt_get_in_set [OF that] top by force
  show ?case
  proof (cases v)
    case None
    then show ?thesis using snoc.IH [OF ok] by (auto simp: e get split: if_splits)
  next
    case (Some b)
    then show ?thesis using less by (fastforce simp: e get split: if_splits)
  qed
qed simp

lemma update_processed_order:
  assumes "bt_ok (sp_blocks sp)" "\<And>slot. slot \<in> fst ` set (sp_blocks sp) \<Longrightarrow> sp_confirmed_slot sp \<le> max slot (sp_processed_slot sp)"
  shows "sp_order (update_processed sp)"
proof -
  note live = last_live_rev [OF assms(1)]
  show ?thesis
  proof (cases "last_live (rev (sp_blocks sp))")
    case None
    then show ?thesis using live assms(1) by (auto simp: update_processed_def sp_order_def)
  next
    case (Some p)
    obtain m h where p: "p = (m, h)" by (cases p)
    have "m \<in> fst ` set (sp_blocks sp)" using live Some by (simp add: p)
    then have "sp_confirmed_slot sp \<le> max m (sp_processed_slot sp)" by (rule assms(2))
    then show ?thesis
      using live Some assms(1) by (fastforce simp: update_processed_def sp_order_def p max_def split: if_splits)
  qed
qed

text \<open>The messages a read thread hands to its \<open>StorageProcessed\<close>.\<close>

inductive sp_trace :: "nat \<Rightarrow> (Slot \<Rightarrow> 'e BlockWithBinary) \<Rightarrow> 'e StorageProcessed \<Rightarrow> bool" for mrb B where
  init: "sp_trace mrb B StorageProcessed_default"
| new: "sp_trace mrb B sp \<Longrightarrow> sp_trace mrb B (add_processed_block slot (B slot) sp)"
| dead: "sp_trace mrb B sp \<Longrightarrow> sp_trace mrb B (mark_dead slot sp)"
| confirmed: "sp_trace mrb B sp \<Longrightarrow> block = None \<or> block = Some (B slot) \<Longrightarrow> sp_trace mrb B (sp_set_confirmed mrb slot block sp)"
| finalized: "sp_trace mrb B sp \<Longrightarrow> sp_trace mrb B (sp_set_finalized slot sp)"

lemma sp_trace_tables:
  assumes "sp_trace mrb B sp" "\<And>slot. txs_keyed (B slot)"
  shows "sp_tables B sp"
  using assms
proof (induction rule: sp_trace.induct)
  case (new sp slot)
  then have "sp_tables B (add_signatures slot (B slot) sp)" by (simp add: add_signatures_tables)
  then show ?case by (simp add: add_processed_block_def Let_def)
next
  case (dead sp slot)
  then have T: "sp_tables B sp" by simp
  show ?case
  proof (cases "bt_get (sp_recent_blocks sp) slot")
    case (Some rb)
    have "sp_tables B (remove_signatures rb ((sp\<lparr>sp_blocks := bs\<rparr>)\<lparr>sp_recent_blocks := bt_remove slot (sp_recent_blocks sp)\<rparr>))" for bs
      by (rule remove_recent_tables [of _ _ slot]) (use T Some in \<open>auto simp: sp_tables_def\<close>)
    then show ?thesis using T Some by (simp add: mark_dead_def Let_def)
  qed (use T in \<open>simp add: mark_dead_def Let_def\<close>)
next
  case (confirmed sp block slot)
  then have "sp_tables B (case block of Some b \<Rightarrow> add_signatures slot b sp | None \<Rightarrow> sp)"
    by (auto intro: add_signatures_tables split: option.split)
  then show ?case
    unfolding sp_set_confirmed_def Let_def by (intro prune_recent_tables) simp
qed (simp_all add: StorageProcessed_default_def sp_tables_def sp_set_finalized_def split: option.split)

lemma add_signatures_frame [simp]:
  "sp_blocks (add_signatures slot b sp) = sp_blocks sp"
  "sp_processed_slot (add_signatures slot b sp) = sp_processed_slot sp"
  "sp_confirmed_slot (add_signatures slot b sp) = sp_confirmed_slot sp"
  by (simp_all add: add_signatures_def split: option.split)

lemma remove_signatures_frame [simp]:
  "sp_blocks (remove_signatures rb sp) = sp_blocks sp"
  "sp_processed_slot (remove_signatures rb sp) = sp_processed_slot sp"
  "sp_confirmed_slot (remove_signatures rb sp) = sp_confirmed_slot sp"
  "sp_recent_blocks (remove_signatures rb sp) = sp_recent_blocks sp"
  by (simp_all add: remove_signatures_def)

lemma prune_recent_order: "sp_order (prune_recent mrb sp) = sp_order sp"
proof (induction mrb sp rule: prune_recent.induct)
  case (1 mrb sp)
  show ?case
    using 1 by (subst prune_recent.simps) (auto simp: sp_order_def split: list.split)
qed

lemma sp_trace_order: "sp_trace mrb B sp \<Longrightarrow> sp_order sp"
proof (induction rule: sp_trace.induct)
  case (new sp slot)
  then show ?case
    unfolding add_processed_block_def Let_def
    by (intro update_processed_order) (auto simp: sp_order_def intro: max.coboundedI2)
next
  case (dead sp slot)
  then show ?case
    unfolding mark_dead_def Let_def
    by (intro update_processed_order) (auto simp: sp_order_def intro: max.coboundedI2 split: option.split)
next
  case (confirmed sp block slot)
  then show ?case
    unfolding sp_set_confirmed_def Let_def prune_recent_order
    by (intro update_processed_order) (auto simp: sp_order_def bt_prune_le bt_ok_filter intro: max.coboundedI1 split: option.split)
qed (auto simp: StorageProcessed_default_def sp_order_def sp_set_finalized_def split: option.split)

section \<open>Properties\<close>

definition demo_recent :: "nat \<Rightarrow> u8 BlockWithBinary" where
  "demo_recent slot = \<lparr>bl_blockhash = ''h'' @ to_string slot, bl_parent_slot = slot - 1, bl_block_time = Some 7,
     bl_block_height = Some slot, bl_protobuf = [1], bl_txs_offset = [],
     bl_transactions = [([word_of_nat slot], \<lparr>tx_key = [], tx_signature = [word_of_nat slot], tx_is_vote = False,
       tx_err = None, tx_sfa = [], tx_fees = None, tx_protobuf = [1], tx_index = 0\<rparr>)],
     bl_sfa = [], bl_fees = \<lparr>fs_fees = [], fs_writable_account_fees = []\<rparr>\<rparr>"

lemma demo_recent_keyed: "txs_keyed (demo_recent slot)"
  by (simp add: txs_keyed_def demo_recent_def hm_ok_def)

text \<open>
  C10. Whatever messages a read thread has received, a status it reports for a signature is that of
  a transaction of the block of the reported slot, with that transaction's error, and that block is
  one of the recent blocks it holds, which has not been marked dead or pruned; and the processed
  slot is not below the confirmed slot or any live processed block.
\<close>

theorem recent_statuses_sound:
  assumes "sp_trace mrb B sp" "\<And>slot. txs_keyed (B slot)" "get_signature_status sp sig = Some ts"
  shows "(\<exists>tx. hm_get (bl_transactions (B (ts_slot ts))) sig = Some tx \<and> ts_err ts = tx_err tx) \<and>
    get_recent_block sp (ts_slot ts) \<noteq> None \<and> sp_confirmed_slot sp \<le> sp_processed_slot sp \<and>
    (\<forall>slot b. get_processed_block sp slot = Some b \<longrightarrow> slot \<le> sp_processed_slot sp)"
proof -
  obtain st where st: "hm_get (sp_signature_statuses sp) sig = Some st" "ts_slot ts = ps_slot st" "ts_err ts = ps_err st"
    using assms(3) by (auto simp: get_signature_status_def Let_def)
  then have "status_ok B (sp_recent_blocks sp) sig st"
    using sp_trace_tables [OF assms(1,2)] by (simp add: sp_tables_def)
  then show ?thesis
    using sp_trace_order [OF assms(1)] st
    by (auto simp: status_ok_def get_recent_block_def sp_order_def get_processed_block_def split: option.splits)
qed

theorem recent_statuses_sound_witness:
  "\<exists>tx. hm_get (bl_transactions (demo_recent 5)) [5] = Some tx \<and> None = tx_err tx"
proof -
  let ?sp = "add_processed_block 5 (demo_recent 5) StorageProcessed_default"
  have tr: "sp_trace 2 demo_recent ?sp" by (intro sp_trace.intros)
  have "\<exists>ts. get_signature_status ?sp [5] = Some ts \<and> ts_slot ts = 5 \<and> ts_err ts = None"
    by (simp add: get_signature_status_def add_processed_block_def add_signatures_def StorageProcessed_default_def
        demo_recent_def update_processed_def bt_contains_def Let_def)
  then obtain ts where ts: "get_signature_status ?sp [5] = Some ts" "ts_slot ts = 5" "ts_err ts = None" by blast
  show ?thesis using recent_statuses_sound [OF tr demo_recent_keyed ts(1)] by (simp add: ts)
qed

text \<open>
  C39. A transaction whose block is above the confirmed height, so only processed, is reported as
  finalized: the difference of the heights is negative, and the missing confirmation count is read
  as finality.
\<close>

theorem processed_transaction_reported_finalized:
  assumes "hm_get (sp_signature_statuses sp) sig = Some st" "sp_confirmed_height sp < ps_block_height st"
  shows "map_option ts_confirmation_status (get_signature_status sp sig) = Some (Some TcsFinalized)"
  using assms by (simp add: get_signature_status_def checked_sub_def Let_def)

theorem processed_transaction_reported_finalized_witness:
  "map_option ts_confirmation_status
     (get_signature_status (add_processed_block 5 (demo_recent 5) StorageProcessed_default) [5]) = Some (Some TcsFinalized)"
  by (rule processed_transaction_reported_finalized
        [of _ _ "\<lparr>ps_slot = 5, ps_block_height = 5, ps_err = None\<rparr>"])
    (simp_all add: add_processed_block_def add_signatures_def StorageProcessed_default_def
        demo_recent_def update_processed_def bt_contains_def Let_def)

section \<open>Fees of the recent blocks\<close>

lemma fees_loop_take:
  "length fees < 150 \<Longrightarrow> fees_loop pubkeys percentile bs fees =
     fees @ take (150 - length fees) (map (\<lambda>(slot, b). (slot, get_fee (re_fees b) pubkeys percentile)) bs)"
proof (induction pubkeys percentile bs fees rule: fees_loop.induct)
  case (2 pubkeys percentile slot block rest fees)
  show ?case
  proof (cases "length fees = 149")
    case False
    then have "length (fees @ [(slot, get_fee (re_fees block) pubkeys percentile)]) < 150" using 2(2) by simp
    moreover have "150 - length fees = Suc (149 - length fees)" using 2(2) by simp
    ultimately show ?thesis using 2(1) [OF refl] False by (simp add: Let_def)
  qed simp
qed simp

end
