(* ===== verification/Alp_Read.thy ===== *)
theory Alp_Read
  imports Alp_Processed Alp_Rocksdb
begin

text \<open>
  The read threads (src/src/storage/read.rs): the requests of the RPC side, their answers, and how a
  thread processes a request and the messages of the write thread.

  \<open>ReadRequest::process\<close> either answers at once (\<open>Replied\<close>) or returns a future (\<open>Pending\<close>). A future is
  the function from what happens while it is awaited (whether the deadline passes first, the
  database and the disk at the moment of the read) to its value: an answer it sends itself, or
  the request of the next round. A request carries no deadline here: whether it has expired is an
  argument of each round. The channel back to the caller is the value returned; the subscription id
  is only a label of metrics, and the semaphore of file reads delays but changes nothing. \<open>None\<close> in a
  result means that the code does not return.

  The record \<open>ext\<close> has the parameters: the codec and database of \<open>Alp_Rocksdb\<close>, the rewards hasher
  and the two constants of the Solana crates.
\<close>

section \<open>Answers\<close>

datatype ReadResultBlock =
    RB_Timeout | RB_Removed | RB_Dead | RB_NotAvailable | RB_Block bytes | RB_ReadError rust_error

datatype ReadResultBlockHeight = RH_Timeout | RH_BlockHeight Slot Slot | RH_ReadError rust_error

datatype ReadResultBlocks = RS_Timeout | RS_Blocks "Slot list" | RS_Removed | RS_ReadError rust_error

datatype ReadResultBlockTime =
    RT_Timeout | RT_Removed | RT_Dead | RT_NotAvailable | RT_BlockTime "UnixTimestamp option" | RT_ReadError rust_error

datatype ReadResultInflationReward = RI_Timeout | RI_Reward "Pubkey list" reward_scan | RI_ReadError rust_error

datatype ReadResultLatestBlockhash = RL_Timeout | RL_LatestBlockhash Slot string Slot | RL_ReadError rust_error

datatype ReadResultRecentPrioritizationFees = RF_Timeout | RF_Fees "(Slot \<times> nat) list"

datatype 'e ReadResultSignaturesForAddress =
    RA_Timeout
  | RA_Signatures "'e RpcConfirmedTransactionStatusWithSignature list" bool "Signature option"
  | RA_ReadError rust_error

datatype 'e ReadResultTransactionsForAddress =
    RX_Timeout
  | RX_Transactions "'e RpcConfirmedTransactionStatusWithSignature list" "nat list" "u8 list" bool
  | RX_ReadError rust_error

datatype 'e ReadResultSignatureStatuses =
    RU_Timeout | RU_Signatures "'e TransactionStatus option list" | RU_ReadError rust_error

datatype ReadResultTransaction =
    RN_Timeout | RN_NotFound | RN_Transaction Slot "UnixTimestamp option" bytes nat | RN_ReadError rust_error

datatype ReadResultSignaturePosition = RP_Timeout | RP_Position "(Slot \<times> nat) option" | RP_ReadError rust_error

datatype ReadResultBlockhashValid = RV_Timeout | RV_Blockhash Slot bool | RV_ReadError rust_error

datatype 'e ReadResult =
    ResBlock ReadResultBlock
  | ResBlockHeight ReadResultBlockHeight
  | ResBlocks ReadResultBlocks
  | ResBlockTime ReadResultBlockTime
  | ResInflationReward ReadResultInflationReward
  | ResLatestBlockhash ReadResultLatestBlockhash
  | ResRecentPrioritizationFees ReadResultRecentPrioritizationFees
  | ResSignaturesForAddress "'e ReadResultSignaturesForAddress"
  | ResTransactionsForAddress "'e ReadResultTransactionsForAddress"
  | ResSignatureStatuses "'e ReadResultSignatureStatuses"
  | ResTransaction ReadResultTransaction
  | ResSignaturePosition ReadResultSignaturePosition
  | ResBlockhashValid ReadResultBlockhashValid

section \<open>Requests\<close>

text \<open>
  The vectors of the address requests come with the capacity they were created with, by which the
  code bounds their length.
\<close>

datatype 'e ReadRequest =
    ReqBlock Slot
  | ReqBlockHeight CommitmentLevel
  | ReqBlocks Slot RpcRequestBlocksUntil CommitmentLevel
  | ReqBlockTime Slot
  | ReqInflationReward nat "Pubkey list"
  | ReqLatestBlockhash CommitmentLevel
  | ReqRecentPrioritizationFees "Pubkey list" "nat option"
  | ReqSignaturesForAddress CommitmentLevel Pubkey "Signature option" "Signature option" nat
  | ReqSignaturesForAddress2 Pubkey Slot "Signature option" Signature nat "'e RpcConfirmedTransactionStatusWithSignature list"
  | ReqSignaturesForAddress3 "'e RpcConfirmedTransactionStatusWithSignature list" bool
  | ReqTransactionsForAddress CommitmentLevel Pubkey bool "(Slot \<times> nat) option" "Slot option" "Slot option"
      "UnixTimestamp option" "UnixTimestamp option" nat
  | ReqTransactionsForAddress2 Pubkey bool Slot "nat option" "Slot option" nat
      "'e RpcConfirmedTransactionStatusWithSignature list" "nat list" "u8 list"
  | ReqTransactionsForAddress3 "'e RpcConfirmedTransactionStatusWithSignature list" "nat list" "u8 list" bool
  | ReqSignatureStatuses "Signature list" bool
  | ReqTransaction Signature
  | ReqTransaction2 "'e TransactionIndexValue"
  | ReqSignaturePosition Pubkey Signature
  | ReqSignaturePosition2 Pubkey Slot Signature
  | ReqBlockhashValid string CommitmentLevel

type_synonym ('e, 'db) future = "bool \<Rightarrow> 'db \<Rightarrow> disk \<Rightarrow> ('e ReadResult + 'e ReadRequest) option"

datatype ('e, 'db) read_step = Replied "'e ReadResult" | Pending "('e, 'db) future"

record ('e, 'db) ext =
  ex_codec :: "'e codec"
  ex_kv :: "'db kv"
  ex_hasher :: "nat \<Rightarrow> bytes \<Rightarrow> Pubkey \<Rightarrow> nat"
  ex_MAX_RECENT_BLOCKHASHES :: nat
  ex_MAX_PROCESSING_AGE :: nat

text \<open>What a read thread keeps.\<close>

record 'e reader =
  rd_blocks :: StoredBlocksRead
  rd_files :: StorageFilesRead
  rd_confirmed_in_process :: "(Slot \<times> 'e BlockWithBinary option) option"
  rd_processed :: "'e StorageProcessed"

text \<open>
  A future that reads from the database or a file: \<open>Timeout\<close> when the deadline passes first, \<open>ReadError\<close>
  when the read fails, otherwise what \<open>k\<close> makes of the value.
\<close>

definition await ::
  "'e ReadResult \<Rightarrow> (rust_error \<Rightarrow> 'e ReadResult) \<Rightarrow> ('db \<Rightarrow> disk \<Rightarrow> 'a result option) \<Rightarrow>
    ('a \<Rightarrow> 'e ReadResult + 'e ReadRequest) \<Rightarrow> ('e, 'db) future" where
  "await timeout err rd k timed_out db d =
     (if timed_out then Some (Inl timeout)
      else map_option (\<lambda>r. case r of Inl e \<Rightarrow> Inl (err e) | Inr v \<Rightarrow> k v) (rd db d))"

text \<open>Sending the request to the database thread fails when that thread has gone.\<close>

definition send_read ::
  "unit result \<Rightarrow> (rust_error \<Rightarrow> 'e ReadResult) \<Rightarrow> ('e, 'db) future \<Rightarrow> ('e, 'db) read_step" where
  "send_read sent err fut = (case sent of Inl e \<Rightarrow> Replied (err e) | Inr _ \<Rightarrow> Pending fut)"

definition commitment_slot_of :: "CommitmentLevel \<Rightarrow> 'e StorageProcessed \<Rightarrow> Slot" where
  "commitment_slot_of l sp = (case l of
       LevelProcessed \<Rightarrow> sp_processed_slot sp
     | LevelConfirmed \<Rightarrow> sp_confirmed_slot sp
     | LevelFinalized \<Rightarrow> sp_finalized_slot sp)"

definition commitment_height_of :: "CommitmentLevel \<Rightarrow> 'e StorageProcessed \<Rightarrow> Slot" where
  "commitment_height_of l sp = (case l of
       LevelProcessed \<Rightarrow> sp_processed_height sp
     | LevelConfirmed \<Rightarrow> sp_confirmed_height sp
     | LevelFinalized \<Rightarrow> sp_finalized_height sp)"

definition mismatch :: rust_error where
  "mismatch = Err ''item/slot mismatch''"

section \<open>Blocks\<close>

definition process_Block :: "bool \<Rightarrow> 'e reader \<Rightarrow> Slot \<Rightarrow> ('e, 'db) read_step" where
  "process_Block expired st slot =
     (if expired then Replied (ResBlock RB_Timeout)
      else
        case (case rd_confirmed_in_process st of
                Some (s, block) \<Rightarrow> if s = slot then Some block else None
              | None \<Rightarrow> None) of
          Some (Some block) \<Rightarrow> Replied (ResBlock (RB_Block (bl_protobuf block)))
        | Some None \<Rightarrow> Replied (ResBlock RB_Dead)
        | None \<Rightarrow>
            (case get_block_location (rd_blocks st) slot of
               Removed \<Rightarrow> Replied (ResBlock RB_Removed)
             | Dead \<Rightarrow> Replied (ResBlock RB_Dead)
             | NotAvailable \<Rightarrow> Replied (ResBlock RB_NotAvailable)
             | SlotMismatch \<Rightarrow> Replied (ResBlock (RB_ReadError mismatch))
             | Found location \<Rightarrow>
                 Pending (await (ResBlock RB_Timeout) (ResBlock \<circ> RB_ReadError)
                   (\<lambda>db d. Some (files_read (rd_files st) (sb_storage_id location) (sb_offset location) (sb_size location) d))
                   (Inl \<circ> ResBlock \<circ> RB_Block))))"

text \<open>
  The loop of \<open>BlockHeight\<close>, with fuel: it goes down over dead slots, and it does not end at a block
  without a height.
\<close>

fun height_loop :: "nat \<Rightarrow> StoredBlocksRead \<Rightarrow> Slot \<Rightarrow> Slot result option" where
  "height_loop 0 blocks slot = None"
| "height_loop (Suc fuel) blocks slot =
     (case get_block_location blocks slot of
        Dead \<Rightarrow> height_loop fuel blocks (sub64 slot 1)
      | SlotMismatch \<Rightarrow> Some (Inl mismatch)
      | Found location \<Rightarrow>
          (case sb_block_height location of
             Some height \<Rightarrow> Some (Inr height)
           | None \<Rightarrow> height_loop fuel blocks slot)
      | _ \<Rightarrow> Some (Inl (Err ''failed to find commitment slot'')))"

definition process_BlockHeight :: "nat \<Rightarrow> bool \<Rightarrow> 'e reader \<Rightarrow> CommitmentLevel \<Rightarrow> ('e, 'db) read_step option" where
  "process_BlockHeight fuel expired st commitment =
     (if expired then Some (Replied (ResBlockHeight RH_Timeout))
      else
        let sp = rd_processed st;
            slot = commitment_slot_of commitment sp;
            block_height = (case commitment of
                LevelProcessed \<Rightarrow> Some (sp_processed_height sp)
              | LevelConfirmed \<Rightarrow> (case rd_confirmed_in_process st of
                    Some (_, Some block) \<Rightarrow> bl_block_height block
                  | _ \<Rightarrow> None)
              | LevelFinalized \<Rightarrow> None)
        in case block_height of
             Some height \<Rightarrow> Some (Replied (ResBlockHeight (RH_BlockHeight height slot)))
           | None \<Rightarrow>
               map_option (\<lambda>r. case r of
                   Inl e \<Rightarrow> Replied (ResBlockHeight (RH_ReadError e))
                 | Inr height \<Rightarrow> Replied (ResBlockHeight (RH_BlockHeight height slot)))
                 (height_loop fuel (rd_blocks st) slot))"

text \<open>\<open>get_blocks\<close> may panic, and then so does the handler.\<close>

definition process_Blocks ::
  "bool \<Rightarrow> 'e reader \<Rightarrow> Slot \<Rightarrow> RpcRequestBlocksUntil \<Rightarrow> CommitmentLevel \<Rightarrow> ('e, 'db) read_step result option" where
  "process_Blocks expired st start_slot until commitment =
     (if expired then Some (Inr (Replied (ResBlocks RS_Timeout)))
      else if (case read_get_back_slot (rd_blocks st) of None \<Rightarrow> True | Some tail_slot \<Rightarrow> start_slot < tail_slot)
      then Some (Inr (Replied (ResBlocks RS_Removed)))
      else
        let sp = rd_processed st;
            end_slot = (if commitment = LevelConfirmed
              then if rd_confirmed_in_process st \<noteq> None then sub64 (sp_confirmed_slot sp) 1 else sp_confirmed_slot sp
              else sp_finalized_slot sp)
        in map_option (\<lambda>r. case r of
               Inl (Panic m) \<Rightarrow> Inl (Panic m)
             | Inl e \<Rightarrow> Inr (Replied (ResBlocks (RS_ReadError e)))
             | Inr blocks \<Rightarrow>
                 let blocks = (case rd_confirmed_in_process st of
                       Some (slot, Some _) \<Rightarrow>
                         if commitment = LevelConfirmed \<and> start_slot \<le> slot \<and>
                            (case until of EndSlot e \<Rightarrow> slot \<le> e | Limit limit \<Rightarrow> length blocks < limit)
                         then blocks @ [slot] else blocks
                     | _ \<Rightarrow> blocks)
                 in Inr (Replied (ResBlocks (RS_Blocks blocks))))
             (get_blocks (rd_blocks st) start_slot end_slot until))"

definition process_BlockTime :: "bool \<Rightarrow> 'e reader \<Rightarrow> Slot \<Rightarrow> ('e, 'db) read_step" where
  "process_BlockTime expired st slot =
     (if expired then Replied (ResBlockTime RT_Timeout)
      else Replied (ResBlockTime
        (case (case rd_confirmed_in_process st of
                 Some (s, block) \<Rightarrow> if slot = s then Some block else None
               | None \<Rightarrow> None) of
           Some (Some block) \<Rightarrow> RT_BlockTime (bl_block_time block)
         | Some None \<Rightarrow> RT_Dead
         | None \<Rightarrow>
             if slot \<le> sp_confirmed_slot (rd_processed st)
             then (case get_block_location (rd_blocks st) slot of
                     Removed \<Rightarrow> RT_Removed
                   | Dead \<Rightarrow> RT_Dead
                   | SlotMismatch \<Rightarrow> RT_ReadError mismatch
                   | Found location \<Rightarrow> RT_BlockTime (sb_block_time location)
                   | NotAvailable \<Rightarrow> RT_ReadError (Err ''failed to find slot''))
             else (case get_processed_block (rd_processed st) slot of
                     Some block \<Rightarrow> RT_BlockTime (bl_block_time block)
                   | None \<Rightarrow> RT_NotAvailable))))"

definition process_InflationReward ::
  "('e, 'db) ext \<Rightarrow> bool \<Rightarrow> unit result \<Rightarrow> nat \<Rightarrow> Pubkey list \<Rightarrow> ('e, 'db) read_step" where
  "process_InflationReward ex expired sent epoch addresses =
     (if expired then Replied (ResInflationReward RI_Timeout)
      else send_read sent (ResInflationReward \<circ> RI_ReadError)
        (await (ResInflationReward RI_Timeout) (ResInflationReward \<circ> RI_ReadError)
          (\<lambda>db d. Some (spawn_inflation_reward (ex_hasher ex) (ex_codec ex) (ex_kv ex) epoch addresses db))
          (Inl \<circ> ResInflationReward \<circ> RI_Reward addresses)))"

definition process_LatestBlockhash ::
  "('e, 'db) ext \<Rightarrow> bool \<Rightarrow> 'e reader \<Rightarrow> CommitmentLevel \<Rightarrow> ('e, 'db) read_step" where
  "process_LatestBlockhash ex expired st commitment =
     (if expired then Replied (ResLatestBlockhash RL_Timeout)
      else
        let slot = commitment_slot_of commitment (rd_processed st)
        in case get_recent_block (rd_processed st) slot of
             Some block \<Rightarrow> Replied (ResLatestBlockhash (RL_LatestBlockhash slot (re_blockhash block)
               (add64 (re_block_height block) (ex_MAX_PROCESSING_AGE ex))))
           | None \<Rightarrow> Replied (ResLatestBlockhash (RL_ReadError (Err ''failed to get block''))))"

definition process_RecentPrioritizationFees ::
  "bool \<Rightarrow> 'e reader \<Rightarrow> Pubkey list \<Rightarrow> nat option \<Rightarrow> ('e, 'db) read_step" where
  "process_RecentPrioritizationFees expired st pubkeys percentile =
     Replied (ResRecentPrioritizationFees
       (if expired then RF_Timeout else RF_Fees (get_fees (rd_processed st) pubkeys percentile)))"

definition process_BlockhashValid ::
  "('e, 'db) ext \<Rightarrow> bool \<Rightarrow> 'e reader \<Rightarrow> string \<Rightarrow> CommitmentLevel \<Rightarrow> ('e, 'db) read_step" where
  "process_BlockhashValid ex expired st blockhash commitment =
     (if expired then Replied (ResBlockhashValid RV_Timeout)
      else
        case get_block_height_by_blockhash (rd_processed st) blockhash of
          None \<Rightarrow> Replied (ResBlockhashValid (RV_ReadError (Err ''failed to get block height'')))
        | Some block_height \<Rightarrow>
            Replied (ResBlockhashValid (RV_Blockhash (commitment_slot_of commitment (rd_processed st))
              (commitment_height_of commitment (rd_processed st) < add64 block_height (ex_MAX_PROCESSING_AGE ex)))))"

section \<open>Signatures for an address\<close>

text \<open>
  \<open>Vec::with_capacity(limit)\<close> has room for exactly \<open>limit\<close> entries; an empty vector without room
  grows to four entries at the first push.
\<close>

definition vec_cap :: "nat \<Rightarrow> nat" where
  "vec_cap limit = (if limit = 0 then 4 else limit)"

fun position :: "('a \<Rightarrow> bool) \<Rightarrow> 'a list \<Rightarrow> nat option" where
  "position P [] = None"
| "position P (x # xs) = (if P x then Some 0 else map_option Suc (position P xs))"

definition in_process_entry ::
  "Slot \<Rightarrow> 'e BlockWithBinary \<Rightarrow> 'e SignatureStatus \<Rightarrow> 'e RpcConfirmedTransactionStatusWithSignature" where
  "in_process_entry slot block item = (rc_of slot item)\<lparr>rc_block_time := bl_block_time block,
     rc_confirmation_status := Some TcsConfirmed\<rparr>"

fun sfa_fast ::
  "nat \<Rightarrow> Signature \<Rightarrow> Slot \<Rightarrow> 'e BlockWithBinary \<Rightarrow> 'e SignatureStatus list \<Rightarrow>
    'e RpcConfirmedTransactionStatusWithSignature list \<Rightarrow> bool \<times> 'e RpcConfirmedTransactionStatusWithSignature list" where
  "sfa_fast cap until slot block [] signatures = (False, signatures)"
| "sfa_fast cap until slot block (item # items) signatures =
     (if sg_signature item = until then (True, signatures)
      else
        let signatures = signatures @ [in_process_entry slot block item]
        in if length signatures = cap then (True, signatures)
           else sfa_fast cap until slot block items signatures)"

text \<open>
  The part of \<open>SignaturesForAddress\<close> that looks into the block in process: the answer when it is
  already complete, or \<open>before\<close>, the signatures found and the slot to search down from.
\<close>

definition sfa_in_process ::
  "'e reader \<Rightarrow> CommitmentLevel \<Rightarrow> Pubkey \<Rightarrow> Signature option \<Rightarrow> Signature \<Rightarrow> nat \<Rightarrow>
    'e ReadResultSignaturesForAddress + Signature option \<times> 'e RpcConfirmedTransactionStatusWithSignature list \<times> Slot" where
  "sfa_in_process st commitment address before until cap =
     (if commitment = LevelConfirmed
      then
        case (case rd_confirmed_in_process st of
                Some (slot, Some block) \<Rightarrow> map_option (\<lambda>sfa. (slot, block, sfa)) (hm_get (bl_sfa block) address)
              | _ \<Rightarrow> None) of
          Some (slot, block, sfa) \<Rightarrow>
            let (before, skip_count) =
                  (case before of
                     Some sig \<Rightarrow>
                       (case position (\<lambda>s. sg_signature s = sig) (sfa_signatures sfa) of
                          Some index \<Rightarrow> (None, index + 1)
                        | None \<Rightarrow> (before, length (sfa_signatures sfa)))
                   | None \<Rightarrow> (None, 0));
                (finished, signatures) = sfa_fast cap until slot block (drop skip_count (sfa_signatures sfa)) []
            in if finished then Inl (RA_Signatures signatures True None)
               else Inr (before, signatures, sub64 (sp_confirmed_slot (rd_processed st)) 1)
        | None \<Rightarrow> Inr (before, [], sp_confirmed_slot (rd_processed st))
      else Inr (before, [], sp_finalized_slot (rd_processed st)))"

definition process_SignaturesForAddress ::
  "('e, 'db) ext \<Rightarrow> bool \<Rightarrow> unit result \<Rightarrow> 'e reader \<Rightarrow> CommitmentLevel \<Rightarrow> Pubkey \<Rightarrow> Signature option \<Rightarrow>
    Signature option \<Rightarrow> nat \<Rightarrow> ('e, 'db) read_step" where
  "process_SignaturesForAddress ex expired sent st commitment address before until limit =
     (if expired then Replied (ResSignaturesForAddress RA_Timeout)
      else
        let until = (case until of Some u \<Rightarrow> u | None \<Rightarrow> replicate 64 0);
            cap = vec_cap limit
        in case sfa_in_process st commitment address before until cap of
             Inl r \<Rightarrow> Replied (ResSignaturesForAddress r)
           | Inr (Some before, signatures, highest_slot) \<Rightarrow>
               send_read sent (ResSignaturesForAddress \<circ> RA_ReadError)
                 (await (ResSignaturesForAddress RA_Timeout) (ResSignaturesForAddress \<circ> RA_ReadError)
                   (\<lambda>db d. Some (read_transaction (ex_codec ex) (ex_kv ex) before db))
                   (\<lambda>r. case r of
                       Some index \<Rightarrow>
                         if tiv_slot index \<le> highest_slot
                         then Inr (ReqSignaturesForAddress2 address (tiv_slot index) (Some before) until cap signatures)
                         else Inl (ResSignaturesForAddress (RA_Signatures [] True None))
                     | None \<Rightarrow> Inl (ResSignaturesForAddress (RA_Signatures [] False (Some before)))))
           | Inr (None, signatures, highest_slot) \<Rightarrow>
               Pending (\<lambda>_ _ _. Some (Inr (ReqSignaturesForAddress2 address highest_slot None until cap signatures))))"

definition process_SignaturesForAddress2 ::
  "('e, 'db) ext \<Rightarrow> bool \<Rightarrow> unit result \<Rightarrow> Pubkey \<Rightarrow> Slot \<Rightarrow> Signature option \<Rightarrow> Signature \<Rightarrow> nat \<Rightarrow>
    'e RpcConfirmedTransactionStatusWithSignature list \<Rightarrow> ('e, 'db) read_step" where
  "process_SignaturesForAddress2 ex expired sent address slot before until cap signatures =
     (if expired then Replied (ResSignaturesForAddress RA_Timeout)
      else send_read sent (ResSignaturesForAddress \<circ> RA_ReadError)
        (await (ResSignaturesForAddress RA_Timeout) (ResSignaturesForAddress \<circ> RA_ReadError)
          (\<lambda>db d. spawn_signatires_for_address (ex_codec ex) (ex_kv ex) address slot before until cap signatures db)
          (\<lambda>(signatures, finished). Inr (ReqSignaturesForAddress3 signatures finished))))"

text \<open>
  The block time and the status of an entry are filled in from the block index; an entry whose
  block is no longer there is dropped and the answer is not final.
\<close>

definition complete_entry ::
  "'e reader \<Rightarrow> 'e RpcConfirmedTransactionStatusWithSignature \<Rightarrow> 'e RpcConfirmedTransactionStatusWithSignature option result" where
  "complete_entry st sig =
     (if rc_block_time sig \<noteq> None then Inr (Some sig)
      else
        case get_block_location (rd_blocks st) (rc_slot sig) of
          SlotMismatch \<Rightarrow> Inl mismatch
        | Found location \<Rightarrow>
            Inr (Some (sig\<lparr>rc_block_time := sb_block_time location,
              rc_confirmation_status := Some (if rc_slot sig \<le> sp_finalized_slot (rd_processed st)
                then TcsFinalized else TcsConfirmed)\<rparr>))
        | _ \<Rightarrow> Inr None)"

fun complete_entries ::
  "'e reader \<Rightarrow> ('e RpcConfirmedTransactionStatusWithSignature \<times> 'x) list \<Rightarrow> bool \<Rightarrow>
    (('e RpcConfirmedTransactionStatusWithSignature \<times> 'x) list \<times> bool) result" where
  "complete_entries st [] finished = Inr ([], finished)"
| "complete_entries st ((sig, x) # rest) finished =
     (case complete_entry st sig of
        Inl e \<Rightarrow> Inl e
      | Inr None \<Rightarrow> complete_entries st rest False
      | Inr (Some sig) \<Rightarrow>
          bind_result (complete_entries st rest finished) (\<lambda>(sigs, finished). Inr ((sig, x) # sigs, finished)))"

definition process_SignaturesForAddress3 ::
  "bool \<Rightarrow> 'e reader \<Rightarrow> 'e RpcConfirmedTransactionStatusWithSignature list \<Rightarrow> bool \<Rightarrow> ('e, 'db) read_step" where
  "process_SignaturesForAddress3 expired st signatures finished =
     (if expired then Replied (ResSignaturesForAddress RA_Timeout)
      else Replied (ResSignaturesForAddress
        (case complete_entries st (map (\<lambda>sig. (sig, ())) signatures) finished of
           Inl e \<Rightarrow> RA_ReadError e
         | Inr (entries, finished) \<Rightarrow> RA_Signatures (map fst entries) finished None)))"

section \<open>Transactions for an address\<close>

definition filter_lower :: "StoredBlocksRead \<Rightarrow> Slot option \<Rightarrow> UnixTimestamp option \<Rightarrow> Slot option" where
  "filter_lower blocks slot_filter block_time_filter =
     (case (slot_filter, block_time_filter) of
        (a, None) \<Rightarrow> a
      | (None, Some bt) \<Rightarrow> block_time_to_slot_lower blocks bt
      | (Some s, Some bt) \<Rightarrow> Some (max s (case block_time_to_slot_lower blocks bt of Some x \<Rightarrow> x | None \<Rightarrow> 0)))"

definition filter_upper :: "StoredBlocksRead \<Rightarrow> Slot option \<Rightarrow> UnixTimestamp option \<Rightarrow> Slot option" where
  "filter_upper blocks slot_filter block_time_filter =
     (case (slot_filter, block_time_filter) of
        (a, None) \<Rightarrow> a
      | (None, Some bt) \<Rightarrow> block_time_to_slot_upper blocks bt
      | (Some s, Some bt) \<Rightarrow> Some (min s (case block_time_to_slot_upper blocks bt of Some x \<Rightarrow> x | None \<Rightarrow> s)))"

text \<open>The first slot to look at and the slot to stop at.\<close>

definition scan_range ::
  "'e reader \<Rightarrow> CommitmentLevel \<Rightarrow> bool \<Rightarrow> (Slot \<times> nat) option \<Rightarrow> Slot option \<Rightarrow> Slot option \<Rightarrow> Slot \<times> Slot option" where
  "scan_range st commitment desc cursor lower upper =
     (let commitment_slot = (if commitment = LevelConfirmed
            then sp_confirmed_slot (rd_processed st) else sp_finalized_slot (rd_processed st));
          bounded = (case upper of Some bound \<Rightarrow> min bound commitment_slot | None \<Rightarrow> commitment_slot)
      in if desc
         then (case cursor of Some (slot, _) \<Rightarrow> slot | None \<Rightarrow> bounded, lower)
         else
           let first_available = (case read_get_back_slot (rd_blocks st) of Some s \<Rightarrow> s | None \<Rightarrow> 0)
           in (case cursor of
                 Some (slot, _) \<Rightarrow> slot
               | None \<Rightarrow> max (case lower of Some s \<Rightarrow> s | None \<Rightarrow> 0) first_available, Some bounded))"

fun tfa_fast ::
  "nat \<Rightarrow> Slot \<Rightarrow> 'e BlockWithBinary \<Rightarrow> 'e SignatureStatus list \<Rightarrow>
    'e RpcConfirmedTransactionStatusWithSignature list \<times> nat list \<times> u8 list \<Rightarrow>
    bool \<times> 'e RpcConfirmedTransactionStatusWithSignature list \<times> nat list \<times> u8 list" where
  "tfa_fast cap slot block [] acc = (False, acc)"
| "tfa_fast cap slot block (item # items) (signatures, indices, flags) =
     (let signatures = signatures @ [in_process_entry slot block item];
          acc = (signatures, indices @ [sg_transaction_index item], flags @ [token_flags item])
      in if length signatures = cap then (True, acc) else tfa_fast cap slot block items acc)"

definition process_TransactionsForAddress ::
  "bool \<Rightarrow> 'e reader \<Rightarrow> CommitmentLevel \<Rightarrow> Pubkey \<Rightarrow> bool \<Rightarrow> (Slot \<times> nat) option \<Rightarrow> Slot option \<Rightarrow> Slot option \<Rightarrow>
    UnixTimestamp option \<Rightarrow> UnixTimestamp option \<Rightarrow> nat \<Rightarrow> ('e, 'db) read_step" where
  "process_TransactionsForAddress expired st commitment address desc cursor slot_filter_lower slot_filter_upper
       block_time_filter_lower block_time_filter_upper limit =
     (if expired then Replied (ResTransactionsForAddress RX_Timeout)
      else
        let lower = filter_lower (rd_blocks st) slot_filter_lower block_time_filter_lower;
            upper = filter_upper (rd_blocks st) slot_filter_upper block_time_filter_upper;
            cap = vec_cap limit;
            (slot, stop_slot) = scan_range st commitment desc cursor lower upper;
            next_round = (\<lambda>slot (signatures, indices, flags).
              Pending (\<lambda>_ _ _. Some (Inr (ReqTransactionsForAddress2 address desc slot (map_option snd cursor) stop_slot
                cap signatures indices flags))))
        in case (if desc \<and> cursor = None \<and> commitment = LevelConfirmed
                 then case rd_confirmed_in_process st of
                     Some (s, Some block) \<Rightarrow>
                       if s \<le> slot then map_option (\<lambda>sfa. (s, block, sfa)) (hm_get (bl_sfa block) address) else None
                   | _ \<Rightarrow> None
                 else None) of
             Some (s, block, sfa) \<Rightarrow>
               (case tfa_fast cap s block (sfa_signatures sfa) ([], [], []) of
                  (True, signatures, indices, flags) \<Rightarrow>
                    Replied (ResTransactionsForAddress (RX_Transactions signatures indices flags False))
                | (False, acc) \<Rightarrow> next_round (saturating_sub s 1) acc)
           | None \<Rightarrow> next_round slot ([], [], []))"

definition process_TransactionsForAddress2 ::
  "('e, 'db) ext \<Rightarrow> bool \<Rightarrow> unit result \<Rightarrow> Pubkey \<Rightarrow> bool \<Rightarrow> Slot \<Rightarrow> nat option \<Rightarrow> Slot option \<Rightarrow> nat \<Rightarrow>
    'e RpcConfirmedTransactionStatusWithSignature list \<Rightarrow> nat list \<Rightarrow> u8 list \<Rightarrow> ('e, 'db) read_step" where
  "process_TransactionsForAddress2 ex expired sent address desc slot cursor stop_slot cap signatures indices flags =
     (if expired then Replied (ResTransactionsForAddress RX_Timeout)
      else send_read sent (ResTransactionsForAddress \<circ> RX_ReadError)
        (await (ResTransactionsForAddress RX_Timeout) (ResTransactionsForAddress \<circ> RX_ReadError)
          (\<lambda>db d. spawn_transactions_for_address (ex_codec ex) (ex_kv ex) address slot desc cursor stop_slot cap
             signatures indices flags db)
          (\<lambda>s. Inr (ReqTransactionsForAddress3 (tc_signatures s) (tc_indices s) (tc_flags s) (tc_finished s)))))"

definition process_TransactionsForAddress3 ::
  "bool \<Rightarrow> 'e reader \<Rightarrow> 'e RpcConfirmedTransactionStatusWithSignature list \<Rightarrow> nat list \<Rightarrow> u8 list \<Rightarrow> bool \<Rightarrow>
    ('e, 'db) read_step" where
  "process_TransactionsForAddress3 expired st signatures indices flags finished =
     (if expired then Replied (ResTransactionsForAddress RX_Timeout)
      else Replied (ResTransactionsForAddress
        (case complete_entries st (zip signatures (zip indices flags)) finished of
           Inl e \<Rightarrow> RX_ReadError e
         | Inr (entries, finished) \<Rightarrow>
             RX_Transactions (map fst entries) (map (fst \<circ> snd) entries) (map (snd \<circ> snd) entries) finished)))"

section \<open>Signature statuses and transactions\<close>

fun create_result :: "Signature list \<Rightarrow> (Signature, 'e TransactionStatus) hmap \<Rightarrow> 'e TransactionStatus option list" where
  "create_result [] found = []"
| "create_result (signature # signatures) found =
     hm_get found signature # create_result signatures (hm_remove signature found)"

fun split_statuses ::
  "'e StorageProcessed \<Rightarrow> bool \<Rightarrow> Signature list \<Rightarrow> (Signature, 'e TransactionStatus) hmap \<times> Signature list \<Rightarrow>
    (Signature, 'e TransactionStatus) hmap \<times> Signature list" where
  "split_statuses sp history [] acc = acc"
| "split_statuses sp history (signature # signatures) (found, missing) =
     (case get_signature_status sp signature of
        Some status \<Rightarrow> split_statuses sp history signatures (hm_insert signature status found, missing)
      | None \<Rightarrow> split_statuses sp history signatures (found, if history then missing @ [signature] else missing))"

definition add_history ::
  "Slot \<Rightarrow> (Signature, 'e TransactionStatus) hmap \<Rightarrow> Signature \<times> 'e TransactionIndexValue \<Rightarrow>
    (Signature, 'e TransactionStatus) hmap" where
  "add_history finalized_slot found item =
     (let (signature, val) = item
      in if tiv_slot val \<le> finalized_slot
         then hm_insert signature \<lparr>ts_slot = tiv_slot val, ts_confirmations = None, ts_status = status_result (tiv_err val),
                ts_err = tiv_err val, ts_confirmation_status = Some TcsFinalized\<rparr> found
         else found)"

definition process_SignatureStatuses ::
  "('e, 'db) ext \<Rightarrow> bool \<Rightarrow> unit result \<Rightarrow> 'e reader \<Rightarrow> Signature list \<Rightarrow> bool \<Rightarrow> ('e, 'db) read_step" where
  "process_SignatureStatuses ex expired sent st signatures history =
     (if expired then Replied (ResSignatureStatuses RU_Timeout)
      else
        let (found, missing) = split_statuses (rd_processed st) history signatures ([], []);
            finalized_slot = sp_finalized_slot (rd_processed st)
        in if missing = [] then Replied (ResSignatureStatuses (RU_Signatures (create_result signatures found)))
           else send_read sent (ResSignatureStatuses \<circ> RU_ReadError)
             (await (ResSignatureStatuses RU_Timeout) (ResSignatureStatuses \<circ> RU_ReadError)
               (\<lambda>db d. Some (spawn_signature_statuses (ex_codec ex) (ex_kv ex) missing db))
               (\<lambda>items. Inl (ResSignatureStatuses (RU_Signatures
                 (create_result signatures (foldl (add_history finalized_slot) found items)))))))"

definition process_Transaction ::
  "('e, 'db) ext \<Rightarrow> bool \<Rightarrow> unit result \<Rightarrow> 'e reader \<Rightarrow> Signature \<Rightarrow> ('e, 'db) read_step" where
  "process_Transaction ex expired sent st signature =
     (if expired then Replied (ResTransaction RN_Timeout)
      else
        case (case rd_confirmed_in_process st of
                Some (slot, Some block) \<Rightarrow> map_option (\<lambda>tx. (slot, block, tx)) (hm_get (bl_transactions block) signature)
              | _ \<Rightarrow> None) of
          Some (slot, block, tx) \<Rightarrow>
            Replied (ResTransaction (RN_Transaction slot (bl_block_time block) (tx_protobuf tx) (tx_index tx)))
        | None \<Rightarrow>
            send_read sent (ResTransaction \<circ> RN_ReadError)
              (await (ResTransaction RN_Timeout) (ResTransaction \<circ> RN_ReadError)
                (\<lambda>db d. Some (read_transaction (ex_codec ex) (ex_kv ex) signature db))
                (\<lambda>r. case r of
                    Some index \<Rightarrow> Inr (ReqTransaction2 index)
                  | None \<Rightarrow> Inl (ResTransaction RN_NotFound))))"

definition process_Transaction2 :: "bool \<Rightarrow> 'e reader \<Rightarrow> 'e TransactionIndexValue \<Rightarrow> ('e, 'db) read_step" where
  "process_Transaction2 expired st index =
     (if expired then Replied (ResTransaction RN_Timeout)
      else
        case get_block_location (rd_blocks st) (tiv_slot index) of
          SlotMismatch \<Rightarrow> Replied (ResTransaction (RN_ReadError mismatch))
        | Found location \<Rightarrow>
            Pending (await (ResTransaction RN_Timeout) (ResTransaction \<circ> RN_ReadError)
              (\<lambda>db d. Some (files_read (rd_files st) (sb_storage_id location)
                 (add64 (sb_offset location) (tiv_offset index)) (tiv_size index) d))
              (\<lambda>bs. Inl (ResTransaction (RN_Transaction (tiv_slot index) (sb_block_time location) bs (tiv_index index)))))
        | _ \<Rightarrow> Replied (ResTransaction RN_NotFound))"

definition process_SignaturePosition ::
  "('e, 'db) ext \<Rightarrow> bool \<Rightarrow> unit result \<Rightarrow> Pubkey \<Rightarrow> Signature \<Rightarrow> ('e, 'db) read_step" where
  "process_SignaturePosition ex expired sent address signature =
     (if expired then Replied (ResSignaturePosition RP_Timeout)
      else send_read sent (ResSignaturePosition \<circ> RP_ReadError)
        (await (ResSignaturePosition RP_Timeout) (ResSignaturePosition \<circ> RP_ReadError)
          (\<lambda>db d. Some (read_transaction (ex_codec ex) (ex_kv ex) signature db))
          (\<lambda>r. case r of
              Some index \<Rightarrow> Inr (ReqSignaturePosition2 address (tiv_slot index) signature)
            | None \<Rightarrow> Inl (ResSignaturePosition (RP_Position None)))))"

definition process_SignaturePosition2 ::
  "('e, 'db) ext \<Rightarrow> bool \<Rightarrow> unit result \<Rightarrow> Pubkey \<Rightarrow> Slot \<Rightarrow> Signature \<Rightarrow> ('e, 'db) read_step" where
  "process_SignaturePosition2 ex expired sent address slot signature =
     (if expired then Replied (ResSignaturePosition RP_Timeout)
      else send_read sent (ResSignaturePosition \<circ> RP_ReadError)
        (await (ResSignaturePosition RP_Timeout) (ResSignaturePosition \<circ> RP_ReadError)
          (\<lambda>db d. spawn_sfa_position (ex_codec ex) (ex_kv ex) address slot signature db)
          (\<lambda>pos. Inl (ResSignaturePosition (RP_Position (map_option (\<lambda>txidx. (slot, txidx)) pos))))))"

section \<open>ReadRequest::process\<close>

fun process ::
  "('e, 'db) ext \<Rightarrow> nat \<Rightarrow> bool \<Rightarrow> unit result \<Rightarrow> 'e reader \<Rightarrow> 'e ReadRequest \<Rightarrow> ('e, 'db) read_step result option" where
  "process ex fuel expired sent st (ReqBlock slot) = Some (Inr (process_Block expired st slot))"
| "process ex fuel expired sent st (ReqBlockHeight l) = map_option Inr (process_BlockHeight fuel expired st l)"
| "process ex fuel expired sent st (ReqBlocks s u l) = process_Blocks expired st s u l"
| "process ex fuel expired sent st (ReqBlockTime slot) = Some (Inr (process_BlockTime expired st slot))"
| "process ex fuel expired sent st (ReqInflationReward e as) = Some (Inr (process_InflationReward ex expired sent e as))"
| "process ex fuel expired sent st (ReqLatestBlockhash l) = Some (Inr (process_LatestBlockhash ex expired st l))"
| "process ex fuel expired sent st (ReqRecentPrioritizationFees ks p) =
     Some (Inr (process_RecentPrioritizationFees expired st ks p))"
| "process ex fuel expired sent st (ReqSignaturesForAddress l a b u n) =
     Some (Inr (process_SignaturesForAddress ex expired sent st l a b u n))"
| "process ex fuel expired sent st (ReqSignaturesForAddress2 a s b u n sigs) =
     Some (Inr (process_SignaturesForAddress2 ex expired sent a s b u n sigs))"
| "process ex fuel expired sent st (ReqSignaturesForAddress3 sigs f) =
     Some (Inr (process_SignaturesForAddress3 expired st sigs f))"
| "process ex fuel expired sent st (ReqTransactionsForAddress l a desc cur lo up tlo tup n) =
     Some (Inr (process_TransactionsForAddress expired st l a desc cur lo up tlo tup n))"
| "process ex fuel expired sent st (ReqTransactionsForAddress2 a desc s cur stop n sigs ixs fs) =
     Some (Inr (process_TransactionsForAddress2 ex expired sent a desc s cur stop n sigs ixs fs))"
| "process ex fuel expired sent st (ReqTransactionsForAddress3 sigs ixs fs f) =
     Some (Inr (process_TransactionsForAddress3 expired st sigs ixs fs f))"
| "process ex fuel expired sent st (ReqSignatureStatuses sigs h) =
     Some (Inr (process_SignatureStatuses ex expired sent st sigs h))"
| "process ex fuel expired sent st (ReqTransaction sig) = Some (Inr (process_Transaction ex expired sent st sig))"
| "process ex fuel expired sent st (ReqTransaction2 ix) = Some (Inr (process_Transaction2 expired st ix))"
| "process ex fuel expired sent st (ReqSignaturePosition a sig) =
     Some (Inr (process_SignaturePosition ex expired sent a sig))"
| "process ex fuel expired sent st (ReqSignaturePosition2 a s sig) =
     Some (Inr (process_SignaturePosition2 ex expired sent a s sig))"
| "process ex fuel expired sent st (ReqBlockhashValid h l) = Some (Inr (process_BlockhashValid ex expired st h l))"

section \<open>The messages of the write thread\<close>

datatype 'e sync_recv = SyncMsg "'e ReadWriteSyncMessage" | SyncClosed | SyncLagged

text \<open>\<open>start\<close>: the first message. \<open>files\<close> is what opening the block files gives; \<open>Inr None\<close> is the shutdown.\<close>

definition read_start ::
  "nat \<Rightarrow> nat \<Rightarrow> StorageFilesRead result \<Rightarrow> 'e sync_recv \<Rightarrow> StoredSlotsRead \<Rightarrow> ('e reader \<times> StoredSlotsRead) option result" where
  "read_start mrb index files m ss =
     (case m of
        SyncMsg (Init blocks recent_blocks) \<Rightarrow>
          bind_result files (\<lambda>files.
          let sp = foldl (\<lambda>sp (slot, block). sp_set_confirmed mrb slot (Some block) sp)
                StorageProcessed_default recent_blocks
          in Inr (Some (\<lparr>rd_blocks = blocks, rd_files = files, rd_confirmed_in_process = None, rd_processed = sp\<rparr>,
               set_ready index (sp_is_ready mrb sp) ss)))
      | SyncMsg _ \<Rightarrow> Inl (Err ''invalid sync message'')
      | SyncClosed \<Rightarrow> Inr None
      | SyncLagged \<Rightarrow> Inl (Err ''read runtime lagged''))"

text \<open>\<open>start2\<close>: one message; the value says whether the thread goes on.\<close>

fun read_sync ::
  "nat \<Rightarrow> nat \<Rightarrow> 'e sync_recv \<Rightarrow> 'e reader \<times> StoredSlotsRead \<Rightarrow> bool result \<times> 'e reader \<times> StoredSlotsRead" where
  "read_sync mrb index (SyncMsg (Init _ _)) (st, ss) = (Inl (Err ''unexpected second init''), st, ss)"
| "read_sync mrb index (SyncMsg (BlockNew slot block)) (st, ss) =
     (Inr True, st\<lparr>rd_processed := add_processed_block slot block (rd_processed st)\<rparr>, set_processed index slot ss)"
| "read_sync mrb index (SyncMsg (BlockDead slot)) (st, ss) =
     (Inr True, st\<lparr>rd_processed := mark_dead slot (rd_processed st)\<rparr>, ss)"
| "read_sync mrb index (SyncMsg (BlockConfirmed slot block)) (st, ss) =
     (let ss = set_confirmed index slot ss;
          sp = sp_set_confirmed mrb slot block (rd_processed st);
          ss = set_ready index (sp_is_ready mrb sp) ss
      in (Inr True, st\<lparr>rd_processed := sp, rd_confirmed_in_process := Some (slot, block)\<rparr>, ss))"
| "read_sync mrb index (SyncMsg (SlotFinalized slot)) (st, ss) =
     (Inr True, st\<lparr>rd_processed := sp_set_finalized slot (rd_processed st)\<rparr>, set_finalized index slot ss)"
| "read_sync mrb index (SyncMsg ConfirmedBlockPopBack) (st, ss) =
     (Inr True, st\<lparr>rd_blocks := read_pop_block_back (rd_blocks st)\<rparr>, ss)"
| "read_sync mrb index (SyncMsg ConfirmedBlockPopFront) (st, ss) =
     (Inr True, st\<lparr>rd_blocks := read_pop_block_front (rd_blocks st)\<rparr>, ss)"
| "read_sync mrb index (SyncMsg (ConfirmedBlockPushBack block)) (st, ss) =
     (Inr True, st\<lparr>rd_blocks := read_push_block_back (rd_blocks st) block\<rparr>, ss)"
| "read_sync mrb index (SyncMsg (ConfirmedBlockPushFront block)) (st, ss) =
     (case rd_confirmed_in_process st of
        None \<Rightarrow> (Inl (Err ''expected confirmed before push''), st, ss)
      | Some (slot, _) \<Rightarrow>
          let st = st\<lparr>rd_confirmed_in_process := None\<rparr>
          in if slot = sb_slot block
             then (Inr True, st\<lparr>rd_blocks := read_push_block_front (rd_blocks st) block\<rparr>, ss)
             else (Inl (Err ''unexpect confirmed block''), st, ss))"
| "read_sync mrb index SyncClosed (st, ss) = (Inr False, st, ss)"
| "read_sync mrb index SyncLagged (st, ss) = (Inl (Err ''read runtime lagged''), st, ss)"

section \<open>The loop of a read thread\<close>

text \<open>
  \<open>start2\<close> with its futures: each accepted request has a number; the futures in flight and the
  answers sent carry it. The \<open>select!\<close> takes one event per iteration: a message, a future that is
  ready, or, as long as fewer than \<open>mx\<close> futures are in flight, a new request (\<open>None\<close> when the
  channel is closed).
\<close>

record ('e, 'db) read_thread =
  th_reader :: "'e reader"
  th_slots :: StoredSlotsRead
  th_pending :: "(nat \<times> ('e, 'db) future) list"
  th_answers :: "(nat \<times> 'e ReadResult) list"
  th_next :: nat

datatype ('e, 'db) read_event =
    EvSync "'e sync_recv"
  | EvReady nat bool 'db disk bool "unit result"
  | EvRequest "'e ReadRequest option" bool "unit result"

text \<open>Process a request and keep its answer or its future; the value is whether the loop goes on.\<close>

definition accept ::
  "('e, 'db) ext \<Rightarrow> nat \<Rightarrow> bool \<Rightarrow> unit result \<Rightarrow> nat \<Rightarrow> 'e ReadRequest \<Rightarrow> ('e, 'db) read_thread \<Rightarrow>
    (bool result \<times> ('e, 'db) read_thread) option" where
  "accept ex fuel expired sent id' req th =
     map_option (\<lambda>r. case r of
         Inl e \<Rightarrow> (Inl e, th)
       | Inr (Replied ans) \<Rightarrow> (Inr True, th\<lparr>th_answers := th_answers th @ [(id', ans)]\<rparr>)
       | Inr (Pending fut) \<Rightarrow> (Inr True, th\<lparr>th_pending := th_pending th @ [(id', fut)]\<rparr>))
       (process ex fuel expired sent (th_reader th) req)"

fun read_loop ::
  "('e, 'db) ext \<Rightarrow> nat \<Rightarrow> nat \<Rightarrow> nat \<Rightarrow> ('e, 'db) read_event \<Rightarrow> ('e, 'db) read_thread \<Rightarrow>
    (bool result \<times> ('e, 'db) read_thread) option" where
  "read_loop ex fuel index mx (EvSync m) th =
     (let (r, st, ss) = read_sync (ex_MAX_RECENT_BLOCKHASHES ex) index m (th_reader th, th_slots th)
      in Some (r, th\<lparr>th_reader := st, th_slots := ss\<rparr>))"
| "read_loop ex fuel index mx (EvReady i timed_out db d expired sent) th =
     (if i < length (th_pending th)
      then
        let (id', fut) = th_pending th ! i;
            th = th\<lparr>th_pending := take i (th_pending th) @ drop (Suc i) (th_pending th)\<rparr>
        in case fut timed_out db d of
             None \<Rightarrow> None
           | Some (Inl ans) \<Rightarrow> Some (Inr True, th\<lparr>th_answers := th_answers th @ [(id', ans)]\<rparr>)
           | Some (Inr req) \<Rightarrow> accept ex fuel expired sent id' req th
      else Some (Inr True, th))"
| "read_loop ex fuel index mx (EvRequest req expired sent) th =
     (if length (th_pending th) < mx
      then case req of
          None \<Rightarrow> Some (Inr False, th)
        | Some req \<Rightarrow> accept ex fuel expired sent (th_next th) req (th\<lparr>th_next := th_next th + 1\<rparr>)
      else Some (Inr True, th))"

end
