(* ===== verification/Alp_Read_Laws.thy ===== *)
theory Alp_Read_Laws
  imports Alp_Read Alp_Store
begin

text \<open>
  Properties of the read threads: every request is answered after at most three rounds with an
  answer of its kind, each accepted request is in flight or answered exactly once, and what the
  single requests answer.
\<close>

section \<open>The reads of the address index return\<close>

context codec_laws
begin

lemma sfa_decode_shrinks:
  assumes "SfaIndexValue_decode c sl = Inr (Some s, sl')"
  shows "length sl' < length sl"
proof -
  have sized: "length rest \<le> length sl" if "get_sized c m m' f sl = Inr (v, rest)" for m m' and f :: "bytes \<Rightarrow> 'x result" and v sl rest
    using that by (auto simp: get_sized_def get_varint_def split: option.splits dest!: varint_shrinks)
  have opt: "length rest \<le> length sl" if "get_optional b (get_sized c m m' f) sl = Inr (v, rest)"
    for b m m' and f :: "bytes \<Rightarrow> 'x result" and v sl rest
    using that by (auto simp: get_optional_def split: if_splits dest: sized)
  have copy: "length rest \<le> length sl" if "copy_to_slice n m sl = Inr (bs, rest)" for n m sl bs rest
    using that by (auto simp: copy_to_slice_def split: if_splits)
  show ?thesis
    using assms
    by (cases sl) (auto simp: SfaIndexValue_decode_def get_u8_def split: if_splits dest!: opt copy)
qed

lemma sfa_decode_cases:
  obtains (err) e where "SfaIndexValue_decode c sl = Inl e"
  | (nil) sl' where "SfaIndexValue_decode c sl = Inr (None, sl')"
  | (entry) x sl' where "SfaIndexValue_decode c sl = Inr (Some x, sl')" "length sl' < length sl"
proof (cases "SfaIndexValue_decode c sl")
  case (Inr p)
  then show thesis using nil entry sfa_decode_shrinks by (cases p; cases "fst p") auto
qed (rule err)

lemma sfa_position_loop_returns: "length sl < fuel \<Longrightarrow> \<exists>r. sfa_position_loop fuel c signature sl = Some r"
proof (induction fuel arbitrary: sl)
  case (Suc fuel)
  show ?case by (rule sfa_decode_cases [of sl]) (use Suc in auto)
qed simp

lemma sfa_inner_returns: "length sl < fuel \<Longrightarrow> \<exists>r. sfa_inner fuel c cap until slot sl s = Some r"
proof (induction fuel arbitrary: sl s)
  case (Suc fuel)
  show ?case by (rule sfa_decode_cases [of sl]) (use Suc in \<open>auto simp: Let_def split: option.split\<close>)
qed simp

lemma sfa_decode_all_returns: "length sl < fuel \<Longrightarrow> \<exists>r. sfa_decode_all fuel c sl = Some r"
proof (induction fuel arbitrary: sl)
  case (Suc fuel)
  show ?case
  proof (cases rule: sfa_decode_cases [of sl])
    case (entry x sl')
    then have "\<exists>r. sfa_decode_all fuel c sl' = Some r" using Suc by simp
    then show ?thesis using entry by auto
  qed auto
qed simp

lemma sfa_outer_returns: "\<exists>r. sfa_outer c cap until hash items s = Some r"
proof (induction items arbitrary: s)
  case (Cons item items)
  note sfa_inner.simps [simp del]
  show ?case
  proof (cases item)
    case (Inr kv)
    obtain k v where kv: "kv = (k, v)" by (cases kv)
    show ?thesis
    proof (cases "SfaIndex_decode k")
      case (Inr p)
      obtain h slot where p: "p = (h, slot)" by (cases p)
      obtain r where r: "sfa_inner (Suc (length v)) c cap until slot v s = Some r"
        using sfa_inner_returns [of v "Suc (length v)" cap until slot s] by auto
      show ?thesis
        using Cons.IH r by (cases r; cases "projr r"; cases "fst (projr r)") (simp_all add: \<open>item = Inr kv\<close> kv Inr p)
    qed (simp add: Inr kv)
  qed simp
qed simp

lemma tfa_outer_returns: "\<exists>r. tfa_outer c cap desc stop_slot hash items s = Some r"
proof (induction items arbitrary: s)
  case (Cons item items)
  note sfa_decode_all.simps [simp del]
  show ?case
  proof (cases item)
    case (Inr kv)
    obtain k v where kv: "kv = (k, v)" by (cases kv)
    show ?thesis
    proof (cases "SfaIndex_decode k")
      case (Inr p)
      obtain h slot where p: "p = (h, slot)" by (cases p)
      obtain r where r: "sfa_decode_all (Suc (length v)) c v = Some r"
        using sfa_decode_all_returns [of v "Suc (length v)"] by auto
      obtain full s' where inner: "tfa_inner cap desc slot (if desc then projr r else rev (projr r)) s = (full, s')"
        by (cases "tfa_inner cap desc slot (if desc then projr r else rev (projr r)) s")
      show ?thesis
        using Cons.IH [of s'] r inner by (cases r; cases full; cases desc) (auto simp: \<open>item = Inr kv\<close> kv Inr p)
    qed (simp add: Inr kv)
  qed simp
qed simp

lemma spawn_returns:
  "\<exists>r. spawn_sfa_position c kv address slot signature db = Some r"
  "\<exists>r. spawn_signatires_for_address c kv address slot before until cap signatures db = Some r"
  "\<exists>r. spawn_transactions_for_address c kv address slot desc cursor stop_slot cap signatures indices flags db = Some r"
  using sfa_position_loop_returns [OF lessI] sfa_outer_returns tfa_outer_returns
  by (simp_all add: spawn_sfa_position_def spawn_signatires_for_address_def spawn_transactions_for_address_def Let_def
      del: sfa_position_loop.simps split: sum.split option.split)

end

section \<open>Rounds of a request\<close>

text \<open>The kind of an answer, and the kind and the number of rounds of a request.\<close>

fun result_kind :: "'e ReadResult \<Rightarrow> nat" where
  "result_kind (ResBlock _) = 0"
| "result_kind (ResBlockHeight _) = 1"
| "result_kind (ResBlocks _) = 2"
| "result_kind (ResBlockTime _) = 3"
| "result_kind (ResInflationReward _) = 4"
| "result_kind (ResLatestBlockhash _) = 5"
| "result_kind (ResRecentPrioritizationFees _) = 6"
| "result_kind (ResSignaturesForAddress _) = 7"
| "result_kind (ResTransactionsForAddress _) = 8"
| "result_kind (ResSignatureStatuses _) = 9"
| "result_kind (ResTransaction _) = 10"
| "result_kind (ResSignaturePosition _) = 11"
| "result_kind (ResBlockhashValid _) = 12"

fun request_kind :: "'e ReadRequest \<Rightarrow> nat \<times> nat" where
  "request_kind (ReqBlock _) = (0, 1)"
| "request_kind (ReqBlockHeight _) = (1, 1)"
| "request_kind (ReqBlocks _ _ _) = (2, 1)"
| "request_kind (ReqBlockTime _) = (3, 1)"
| "request_kind (ReqInflationReward _ _) = (4, 1)"
| "request_kind (ReqLatestBlockhash _) = (5, 1)"
| "request_kind (ReqRecentPrioritizationFees _ _) = (6, 1)"
| "request_kind (ReqSignaturesForAddress _ _ _ _ _) = (7, 3)"
| "request_kind (ReqSignaturesForAddress2 _ _ _ _ _ _) = (7, 2)"
| "request_kind (ReqSignaturesForAddress3 _ _) = (7, 1)"
| "request_kind (ReqTransactionsForAddress _ _ _ _ _ _ _ _ _) = (8, 3)"
| "request_kind (ReqTransactionsForAddress2 _ _ _ _ _ _ _ _ _) = (8, 2)"
| "request_kind (ReqTransactionsForAddress3 _ _ _ _) = (8, 1)"
| "request_kind (ReqSignatureStatuses _ _) = (9, 1)"
| "request_kind (ReqTransaction _) = (10, 2)"
| "request_kind (ReqTransaction2 _) = (10, 1)"
| "request_kind (ReqSignaturePosition _ _) = (11, 2)"
| "request_kind (ReqSignaturePosition2 _ _ _) = (11, 1)"
| "request_kind (ReqBlockhashValid _ _) = (12, 1)"

text \<open>What the value of a future, and a step, may be for a request of kind \<open>k\<close> with \<open>n\<close> rounds left.\<close>

fun value_ok :: "nat \<Rightarrow> nat \<Rightarrow> 'e ReadResult + 'e ReadRequest \<Rightarrow> bool" where
  "value_ok k n (Inl r) = (result_kind r = k)"
| "value_ok k n (Inr req) = (fst (request_kind req) = k \<and> snd (request_kind req) < n)"

fun step_ok :: "nat \<times> nat \<Rightarrow> ('e, 'db) read_step \<Rightarrow> bool" where
  "step_ok kn (Replied r) = (result_kind r = fst kn)"
| "step_ok kn (Pending fut) = (\<forall>t db d. \<exists>v. fut t db d = Some v \<and> value_ok (fst kn) (snd kn) v)"

lemma await_ok:
  assumes "result_kind timeout = k" "\<And>e. result_kind (err e) = k" "\<And>db d. \<exists>r. rd db d = Some r" "\<And>v. value_ok k n (f v)"
  shows "\<exists>v. await timeout err rd f t db d = Some v \<and> value_ok k n v"
proof -
  obtain r where "rd db d = Some r" using assms(3) by blast
  then show ?thesis using assms by (cases r) (simp_all add: await_def)
qed

lemma send_read_ok:
  "(\<And>e. result_kind (err e) = fst kn) \<Longrightarrow> step_ok kn (Pending fut) \<Longrightarrow> step_ok kn (send_read sent err fut)"
  by (cases sent) (simp_all add: send_read_def)

lemma process_local_ok:
  "step_ok (0, 1) (process_Block expired st slot)"
  "step_ok (3, 1) (process_BlockTime expired st slot)"
  "step_ok (5, 1) (process_LatestBlockhash ex expired st l)"
  "step_ok (6, 1) (process_RecentPrioritizationFees expired st ks p)"
  "step_ok (7, 1) (process_SignaturesForAddress3 expired st sigs f)"
  "step_ok (8, 1) (process_TransactionsForAddress3 expired st sigs ixs fs f)"
  "step_ok (10, 1) (process_Transaction2 expired st ix)"
  "step_ok (12, 1) (process_BlockhashValid ex expired st h l)"
  by (auto simp: process_Block_def process_BlockTime_def process_LatestBlockhash_def process_RecentPrioritizationFees_def
      process_SignaturesForAddress3_def process_TransactionsForAddress3_def process_Transaction2_def
      process_BlockhashValid_def Let_def intro!: await_ok split: option.split StorageBlockLocationResult.split)

lemma process_db_ok:
  "step_ok (4, 1) (process_InflationReward ex expired sent e as)"
  "step_ok (9, 1) (process_SignatureStatuses ex expired sent st sigs h)"
  "step_ok (10, 2) (process_Transaction ex expired sent st sig)"
  "step_ok (11, 2) (process_SignaturePosition ex expired sent a sig)"
  "step_ok (7, 3) (process_SignaturesForAddress ex expired sent st l a b u n)"
  by (auto simp: process_InflationReward_def process_SignatureStatuses_def process_Transaction_def
      process_SignaturePosition_def process_SignaturesForAddress_def Let_def
      intro!: send_read_ok await_ok split: option.split sum.split prod.split)

lemma process_TransactionsForAddress_ok:
  "step_ok (8, 3) (process_TransactionsForAddress expired st l a desc cur lo up tlo tup n)"
  by (auto simp: process_TransactionsForAddress_def Let_def split: option.split prod.split bool.split)

lemma process_index_ok:
  assumes "codec_laws (ex_codec ex)"
  shows "step_ok (7, 2) (process_SignaturesForAddress2 ex expired sent a s b u n sigs)"
    "step_ok (8, 2) (process_TransactionsForAddress2 ex expired sent a desc s cur stop n sigs ixs fs)"
    "step_ok (11, 1) (process_SignaturePosition2 ex expired sent a s sig)"
  using codec_laws.spawn_returns [OF assms]
  by (auto simp: process_SignaturesForAddress2_def process_TransactionsForAddress2_def process_SignaturePosition2_def
      intro!: send_read_ok await_ok split: prod.split)

lemma ring_loop_returns:
  assumes "i < length bs" "h < length bs"
  shows "\<exists>r. ring_loop (length bs) (ring_next (length bs)) i h (\<lambda>i. body (bs ! i)) fin s = Some r"
proof -
  let ?n = "length bs" and ?m = "(h + length bs - i) mod length bs"
  have n: "0 < ?n" using assms(1) by linarith
  have "(i + ?m) mod ?n = (i + (h + ?n - i)) mod ?n" by (rule mod_add_right_eq)
  also have "\<dots> = h" using assms by simp
  finally have h: "(i + ?m) mod ?n = h" .
  have m: "?m < ?n" using n by simp
  show ?thesis
    using ring_loop_up [of 0 ?m bs ?n i body fin s] m assms(1) unfolding h by auto
qed

definition blocks_cap_ok :: "Slot \<Rightarrow> RpcRequestBlocksUntil \<Rightarrow> bool" where
  "blocks_cap_ok start_slot until \<longleftrightarrow>
     8 * (case until of EndSlot e \<Rightarrow> sub64 e start_slot | Limit limit \<Rightarrow> limit) \<le> isize_MAX"

lemma get_blocks_returns:
  assumes "rb_wf r" "blocks_cap_ok start_slot until"
  shows "\<exists>x. get_blocks r start_slot end_slot until = Some x \<and> \<not> is_panic x"
proof -
  have rep: "ring_rep sb_exists (rb_blocks r) (rb_tail r) (rb_head r) (rb_list r)"
    using assms(1) by (simp add: rb_wf_def rb_valid_def rb_rep_def)
  have n: "rb_tail r < length (rb_blocks r)" "rb_head r < length (rb_blocks r)"
    using ring_repD [OF rep] by auto
  let ?n = "length (rb_blocks r)"
  let ?i = "add64 (rb_tail r) (start_slot - sb_slot (rb_blocks r ! rb_tail r)) mod ?n"
  have i: "?i < ?n" using n(1) by (intro mod_less_divisor) linarith
  let ?scan = "case until of EndSlot q \<Rightarrow> min end_slot q | Limit _ \<Rightarrow> end_slot"
  let ?body = "\<lambda>block blocks. if \<not> sb_exists block \<or> ?scan < sb_slot block then Inl (Inr blocks)
      else if (case until of Limit limit \<Rightarrow> length blocks = limit | EndSlot _ \<Rightarrow> False) then Inl (Inr blocks)
      else Inr (if \<not> sb_dead block then blocks @ [sb_slot block] else blocks)"
  have inr: "\<exists>ys. ring_loop fuel nx i h (\<lambda>i. ?body (rb_blocks r ! i)) Inr s = Some (Inr ys :: Slot list result) \<or>
      ring_loop fuel nx i h (\<lambda>i. ?body (rb_blocks r ! i)) Inr s = (None :: Slot list result option)" for fuel nx i h s
    by (induction fuel arbitrary: i s) auto
  obtain x where "ring_loop ?n (ring_next ?n) ?i (rb_head r) (\<lambda>i. ?body (rb_blocks r ! i)) Inr [] = Some (x :: Slot list result)"
    using ring_loop_returns [OF i n(2), of ?body Inr "[]"] by blast
  moreover from this obtain ys where "x = Inr ys"
    using inr [of ?n "ring_next ?n" ?i "rb_head r" "[]"] by auto
  ultimately show ?thesis
    using assms(2) by (auto simp: get_blocks_def Let_def blocks_cap_ok_def)
qed

lemma process_Blocks_ok:
  assumes "rb_wf (rd_blocks st)" "blocks_cap_ok start_slot until"
  shows "\<exists>step. process_Blocks expired st start_slot until l = Some (Inr step) \<and> step_ok (2, 1) step"
proof -
  let ?sp = "rd_processed st"
  let ?e = "if l = LevelConfirmed then if rd_confirmed_in_process st \<noteq> None then sub64 (sp_confirmed_slot ?sp) 1
    else sp_confirmed_slot ?sp else sp_finalized_slot ?sp"
  obtain x where x: "get_blocks (rd_blocks st) start_slot ?e until = Some x" "\<not> is_panic x"
    using get_blocks_returns [OF assms] by blast
  show ?thesis
  proof (cases x)
    case (Inl err)
    then obtain m where "err = Err m" using x(2) by (cases err) auto
    then show ?thesis using x(1) Inl unfolding process_Blocks_def Let_def by simp
  next
    case (Inr ys)
    then show ?thesis using x(1) unfolding process_Blocks_def Let_def by simp
  qed
qed

section \<open>The block height\<close>

definition heights_known :: "StoredBlocksRead \<Rightarrow> bool" where
  "heights_known r \<longleftrightarrow> (\<forall>b \<in> set (rb_list r). \<not> sb_dead b \<longrightarrow> sb_block_height b \<noteq> None)"

lemma no_dead_above:
  assumes wf: "rb_wf r" and dead: "get_block_location r 0 = Dead"
  shows "get_block_location r u64_MAX = NotAvailable"
proof -
  note loc = get_block_location_cases [OF wf]
  have sc: "slots_consecutive (rb_list r)" and len: "length (rb_blocks r) \<le> isize_MAX"
    and rep: "ring_rep sb_exists (rb_blocks r) (rb_tail r) (rb_head r) (rb_list r)"
    using wf by (simp_all add: rb_wf_def rb_valid_def rb_rep_def)
  obtain c where c: "c \<in> set (rb_list r)" "sb_slot c = 0" using dead loc(2) [of 0] by auto
  have "sb_slot (hd (rb_list r)) = 0" using slots_consecutive_bounds(1) [OF sc c(1)] c(2) by simp
  then have "sb_slot b < u64_MAX" if "b \<in> set (rb_list r)" for b
    using slots_consecutive_bounds(2) [OF sc that] ring_repD(3) [OF rep] len by simp
  then show ?thesis using c(1) loc(4) [of u64_MAX] by auto
qed

lemma height_loop_returns:
  assumes wf: "rb_wf r" and known: "heights_known r"
  shows "slot < u64_modulus \<Longrightarrow> slot + 1 < fuel \<Longrightarrow> \<exists>x. height_loop fuel r slot = Some x"
proof (induction slot arbitrary: fuel)
  case 0
  then obtain f where f: "fuel = Suc (Suc f)" by (cases fuel; cases "fuel - 1") auto
  have "get_block_location r 0 = Found b \<Longrightarrow> sb_block_height b \<noteq> None" for b
    using known get_block_location_cases(1) [OF wf, of 0 b] by (simp add: heights_known_def)
  moreover have "sub64 0 1 = u64_MAX" by (simp add: sub64_def)
  ultimately show ?case
    using no_dead_above [OF wf] by (cases "get_block_location r 0") (auto simp: f)
next
  case (Suc slot)
  then obtain f where f: "fuel = Suc f" "slot + 1 < f" by (cases fuel) auto
  have "get_block_location r (Suc slot) = Found b \<Longrightarrow> sb_block_height b \<noteq> None" for b
    using known get_block_location_cases(1) [OF wf, of "Suc slot" b] by (simp add: heights_known_def)
  moreover have "sub64 (Suc slot) 1 = slot" using Suc.prems(1) by (simp add: sub64_def)
  ultimately show ?case
    using Suc.IH [of f] Suc.prems(1) f(2) by (cases "get_block_location r (Suc slot)") (auto simp: f(1))
qed

lemma process_BlockHeight_ok:
  assumes "rb_wf (rd_blocks st)" "heights_known (rd_blocks st)" "commitment_slot_of l (rd_processed st) < u64_modulus"
    "commitment_slot_of l (rd_processed st) + 1 < fuel"
  shows "\<exists>step. process_BlockHeight fuel expired st l = Some step \<and> step_ok (1, 1) step"
proof -
  obtain x where "height_loop fuel (rd_blocks st) (commitment_slot_of l (rd_processed st)) = Some x"
    using height_loop_returns [OF assms] by blast
  then show ?thesis
    by (cases x) (auto simp: process_BlockHeight_def Let_def split: option.split)
qed

section \<open>Every request is answered\<close>

text \<open>One round: the state of the thread when the request is processed, and what happens while its future is awaited.\<close>

record ('e, 'db) round =
  ro_reader :: "'e reader"
  ro_expired :: bool
  ro_sent :: "unit result"
  ro_timed_out :: bool
  ro_db :: 'db
  ro_disk :: disk

datatype 'e outcome = Answered "'e ReadResult" | Panicked rust_error | Waiting | Diverges

fun serve :: "('e, 'db) ext \<Rightarrow> nat \<Rightarrow> ('e, 'db) round list \<Rightarrow> 'e ReadRequest \<Rightarrow> 'e outcome" where
  "serve ex fuel [] req = Waiting"
| "serve ex fuel (ro # ros) req =
     (case process ex fuel (ro_expired ro) (ro_sent ro) (ro_reader ro) req of
        None \<Rightarrow> Diverges
      | Some (Inl e) \<Rightarrow> Panicked e
      | Some (Inr (Replied r)) \<Rightarrow> Answered r
      | Some (Inr (Pending fut)) \<Rightarrow>
          (case fut (ro_timed_out ro) (ro_db ro) (ro_disk ro) of
             None \<Rightarrow> Diverges
           | Some (Inl r) \<Rightarrow> Answered r
           | Some (Inr req) \<Rightarrow> serve ex fuel ros req))"

definition reader_ok :: "nat \<Rightarrow> 'e reader \<Rightarrow> bool" where
  "reader_ok fuel st \<longleftrightarrow> rb_wf (rd_blocks st) \<and> heights_known (rd_blocks st) \<and>
     (\<forall>l. commitment_slot_of l (rd_processed st) < u64_modulus \<and> commitment_slot_of l (rd_processed st) + 1 < fuel)"

fun request_ok :: "'e ReadRequest \<Rightarrow> bool" where
  "request_ok (ReqBlocks start_slot until l) = blocks_cap_ok start_slot until"
| "request_ok _ = True"

lemma process_ok:
  assumes "codec_laws (ex_codec ex)" "reader_ok fuel st" "request_ok req"
  shows "\<exists>step. process ex fuel expired sent st req = Some (Inr step) \<and> step_ok (request_kind req) step"
proof (cases req)
  case (ReqBlockHeight l)
  then show ?thesis
    using process_BlockHeight_ok [of st l fuel expired] assms(2) by (auto simp: reader_ok_def)
next
  case (ReqBlocks s u l)
  then show ?thesis using process_Blocks_ok [of st s u expired l] assms(2,3) by (simp add: reader_ok_def)
qed (use process_local_ok process_db_ok process_TransactionsForAddress_ok process_index_ok [OF assms(1)] in simp_all)

lemma request_ok_next: "2 \<noteq> fst (request_kind req) \<Longrightarrow> request_ok req"
  by (cases req) simp_all

lemma serve_answers:
  assumes "codec_laws (ex_codec ex)"
  shows "snd (request_kind req) \<le> length ros \<Longrightarrow> \<forall>ro \<in> set ros. reader_ok fuel (ro_reader ro) \<Longrightarrow> request_ok req \<Longrightarrow>
    \<exists>r. serve ex fuel ros req = Answered r \<and> result_kind r = fst (request_kind req)"
proof (induction ros arbitrary: req)
  case Nil
  then show ?case by (cases req) simp_all
next
  case (Cons ro ros)
  obtain step where step: "process ex fuel (ro_expired ro) (ro_sent ro) (ro_reader ro) req = Some (Inr step)"
    "step_ok (request_kind req) step"
    using process_ok [OF assms, of fuel "ro_reader ro" req "ro_expired ro" "ro_sent ro"] Cons.prems by auto
  show ?case
  proof (cases step)
    case (Replied r)
    then show ?thesis using step by simp
  next
    case (Pending fut)
    then have "\<exists>v. fut (ro_timed_out ro) (ro_db ro) (ro_disk ro) = Some v \<and>
        value_ok (fst (request_kind req)) (snd (request_kind req)) v" using step(2) by simp
    then obtain v where v: "fut (ro_timed_out ro) (ro_db ro) (ro_disk ro) = Some v"
      "value_ok (fst (request_kind req)) (snd (request_kind req)) v" by blast
    show ?thesis
    proof (cases v)
      case (Inr req')
      have "request_ok req'"
      proof (cases "fst (request_kind req) = 2")
        case True
        then have "snd (request_kind req) = 1" by (cases req) simp_all
        then show ?thesis using v(2) Inr by (cases req') simp_all
      qed (use v(2) Inr in \<open>auto intro: request_ok_next\<close>)
      then show ?thesis using Cons.IH [of req'] Cons.prems v Inr Pending step(1) by auto
    qed (use v Pending step(1) in simp)
  qed
qed

definition demo_ext :: "(u8, kv_view) ext" where
  "demo_ext = \<lparr>ex_codec = leb_codec, ex_kv = mem_kv, ex_hasher = \<lambda>n _ _. 0, ex_MAX_RECENT_BLOCKHASHES = 3,
     ex_MAX_PROCESSING_AGE = 150\<rparr>"

definition demo_read_state :: "u8 reader" where
  "demo_read_state = \<lparr>rd_blocks = demo_reader, rd_files = \<lparr>fr_files = [], fr_id2file = []\<rparr>, rd_confirmed_in_process = None,
     rd_processed = StorageProcessed_default\<lparr>sp_confirmed_slot := 8, sp_finalized_slot := 8\<rparr>\<rparr>"


lemma demo_reader_ok: "reader_ok 10 demo_read_state"
  using demo_reader_wf
  by (simp add: reader_ok_def demo_read_state_def heights_known_def demo_block_def new_confirmed_def
      commitment_slot_of_def StorageProcessed_default_def split: CommitmentLevel.split)

definition demo_round :: "(u8, kv_view) round" where
  "demo_round = \<lparr>ro_reader = demo_read_state, ro_expired = False, ro_sent = Inr (), ro_timed_out = False, ro_db = \<lambda>_. [],
     ro_disk = \<lambda>_. []\<rparr>"


text \<open>
  C40. A finalized or confirmed tip whose stored block has no height makes the request for the block
  height run forever: no number of iterations ends its loop.
\<close>

theorem block_height_diverges:
  assumes "get_block_location (rd_blocks st) (sp_finalized_slot (rd_processed st)) = Found b" "sb_block_height b = None"
  shows "process_BlockHeight fuel False st LevelFinalized = None"
proof -
  have "height_loop fuel (rd_blocks st) (sp_finalized_slot (rd_processed st)) = None"
    using assms by (induction fuel) simp_all
  then show ?thesis by (simp add: process_BlockHeight_def commitment_slot_of_def)
qed

theorem block_height_diverges_witness:
  "process_BlockHeight 100 False (demo_read_state\<lparr>rd_blocks := demo_reader\<lparr>rb_blocks :=
     [(demo_block 8)\<lparr>sb_block_height := None\<rparr>, demo_block 7]\<rparr>\<rparr>) LevelFinalized = None"
  by (rule block_height_diverges [of _ "(demo_block 8)\<lparr>sb_block_height := None\<rparr>"])
    (simp_all add: get_block_location_def demo_read_state_def demo_reader_def demo_block_def new_confirmed_def
      StorageProcessed_default_def add64_def Let_def)

text \<open>
  While a skipped slot is being stored (confirmed, without a block), the height of the confirmed
  tip cannot be asked for: the search starts at the slot in process, which is not in the index yet,
  and gives up instead of going down to the last block.
\<close>

lemma block_height_fails_on_skipped_slot:
  assumes "rb_wf (rd_blocks st)" "rb_list (rd_blocks st) \<noteq> []"
    "rd_confirmed_in_process st = Some (slot, None)" "sp_confirmed_slot (rd_processed st) = slot"
    "slot = sb_slot (last (rb_list (rd_blocks st))) + 1" "0 < fuel"
  shows "process_BlockHeight fuel False st LevelConfirmed =
    Some (Replied (ResBlockHeight (RH_ReadError (Err ''failed to find commitment slot''))))"
proof -
  have "sb_slot c < slot" if "c \<in> set (rb_list (rd_blocks st))" for c
  proof -
    have sc: "slots_consecutive (rb_list (rd_blocks st))" using assms(1) by (simp add: rb_wf_def)
    then show ?thesis
      using slots_consecutive_bounds(2) [OF sc that] slots_consecutive_last [OF sc] assms(2,5) by simp
  qed
  then have "get_block_location (rd_blocks st) slot = NotAvailable"
    using get_block_location_cases(4) [OF assms(1)] assms(2) by blast
  moreover obtain f where "fuel = Suc f" using assms(6) by (cases fuel) auto
  ultimately show ?thesis using assms(3,4) by (simp add: process_BlockHeight_def commitment_slot_of_def)
qed

section \<open>Accounting of requests\<close>

inductive read_run :: "('e, 'db) ext \<Rightarrow> nat \<Rightarrow> nat \<Rightarrow> nat \<Rightarrow> ('e, 'db) read_thread \<Rightarrow> ('e, 'db) read_thread \<Rightarrow> bool"
  for ex fuel index mx th0 where
  start: "read_run ex fuel index mx th0 th0"
| step: "read_run ex fuel index mx th0 th \<Longrightarrow> read_loop ex fuel index mx ev th = Some (Inr True, th') \<Longrightarrow>
    read_run ex fuel index mx th0 th'"

definition ids :: "('e, 'db) read_thread \<Rightarrow> nat list" where
  "ids th = map fst (th_pending th) @ map fst (th_answers th)"

definition accounted :: "nat \<Rightarrow> ('e, 'db) read_thread \<Rightarrow> bool" where
  "accounted mx th \<longleftrightarrow> distinct (ids th) \<and> set (ids th) = {..<th_next th} \<and> length (th_pending th) \<le> mx"

lemma ids_next [simp]: "ids (th\<lparr>th_next := n\<rparr>) = ids th"
  by (simp add: ids_def)

lemma accept_ids:
  assumes "accept ex fuel expired sent i req th = Some (Inr True, th')"
  shows "set (ids th') = insert i (set (ids th))" "length (ids th') = Suc (length (ids th))" "th_next th' = th_next th"
    "length (th_pending th') \<le> Suc (length (th_pending th))" "i \<notin> set (ids th) \<Longrightarrow> distinct (ids th) \<Longrightarrow> distinct (ids th')"
proof -
  obtain step where "process ex fuel expired sent (th_reader th) req = Some (Inr step)"
    using assms by (cases "process ex fuel expired sent (th_reader th) req"; cases "the (process ex fuel expired sent (th_reader th) req)")
      (auto simp: accept_def)
  then have "(\<exists>ans. th' = th\<lparr>th_answers := th_answers th @ [(i, ans)]\<rparr>) \<or> (\<exists>fut. th' = th\<lparr>th_pending := th_pending th @ [(i, fut)]\<rparr>)"
    using assms by (cases step) (auto simp: accept_def)
  then show "set (ids th') = insert i (set (ids th))" "length (ids th') = Suc (length (ids th))" "th_next th' = th_next th"
    "length (th_pending th') \<le> Suc (length (th_pending th))" "i \<notin> set (ids th) \<Longrightarrow> distinct (ids th) \<Longrightarrow> distinct (ids th')"
    by (elim disjE exE; simp add: ids_def)+
qed

lemma read_loop_accounted:
  assumes "accounted mx th" "read_loop ex fuel index mx ev th = Some (Inr True, th')"
  shows "accounted mx th'"
proof (cases ev)
  case (EvSync m)
  obtain r st ss where rs: "read_sync (ex_MAX_RECENT_BLOCKHASHES ex) index m (th_reader th, th_slots th) = (r, st, ss)"
    by (rule prod_cases3)
  then have "th' = th\<lparr>th_reader := st, th_slots := ss\<rparr>" using assms(2) by (simp add: EvSync)
  then show ?thesis using assms(1) by (simp add: accounted_def ids_def)
next
  case (EvReady i timed_out db d expired sent)
  show ?thesis
  proof (cases "i < length (th_pending th)")
    case True
    obtain k fut where p: "th_pending th ! i = (k, fut)" by (cases "th_pending th ! i")
    let ?th = "th\<lparr>th_pending := take i (th_pending th) @ drop (Suc i) (th_pending th)\<rparr>"
    have split: "map fst (th_pending th) = map fst (take i (th_pending th)) @ k # map fst (drop (Suc i) (th_pending th))"
      using arg_cong [OF id_take_nth_drop [OF True], of "map fst"] by (simp add: p)
    have d: "distinct (ids ?th)" "k \<notin> set (ids ?th)" "insert k (set (ids ?th)) = {..<th_next th}"
      "length (th_pending ?th) < mx"
      using assms(1) True by (auto simp: accounted_def ids_def split)
    obtain v where v: "fut timed_out db d = Some v"
      using assms(2) True by (cases "fut timed_out db d") (simp_all add: EvReady p)
    show ?thesis
    proof (cases v)
      case (Inl ans)
      then have "th' = ?th\<lparr>th_answers := th_answers th @ [(k, ans)]\<rparr>"
        using assms(2) True v by (simp add: EvReady p)
      then show ?thesis using d by (auto simp: accounted_def ids_def)
    next
      case (Inr req)
      then have "accept ex fuel expired sent k req ?th = Some (Inr True, th')"
        using assms(2) True v by (simp add: EvReady p)
      from accept_ids [OF this] show ?thesis using d by (auto simp: accounted_def)
    qed
  qed (use assms in \<open>simp add: EvReady\<close>)
next
  case (EvRequest req expired sent)
  show ?thesis
  proof (cases "length (th_pending th) < mx \<and> req \<noteq> None")
    case True
    then obtain r where "accept ex fuel expired sent (th_next th) r (th\<lparr>th_next := th_next th + 1\<rparr>) = Some (Inr True, th')"
      using assms(2) by (auto simp: EvRequest)
    from accept_ids [OF this] show ?thesis
      using assms(1) True by (auto simp: accounted_def lessThan_Suc)
  qed (use assms in \<open>auto simp: EvRequest split: if_splits\<close>)
qed

text \<open>
  C15. A read thread loses no request and answers none twice: in every run, each accepted request is
  either in flight, once, or answered, once, and no more futures are in flight than configured.
\<close>

theorem requests_accounted:
  assumes "read_run ex fuel index mx th0 th" "th_pending th0 = []" "th_answers th0 = []" "th_next th0 = 0"
  shows "distinct (map fst (th_pending th) @ map fst (th_answers th)) \<and>
    set (map fst (th_pending th) @ map fst (th_answers th)) = {..<th_next th} \<and> length (th_pending th) \<le> mx"
proof -
  have "accounted mx th"
    using assms(1)
  proof (induction rule: read_run.induct)
    case start
    show ?case using assms(2-4) by (simp add: accounted_def ids_def lessThan_def)
  qed (rule read_loop_accounted)
  then show ?thesis by (simp add: accounted_def ids_def)
qed

definition demo_thread :: "(u8, kv_view) read_thread" where
  "demo_thread = \<lparr>th_reader = demo_read_state, th_slots = StoredSlotsRead_new StoredSlots_default 1, th_pending = [],
     th_answers = [], th_next = 0\<rparr>"

theorem requests_accounted_witness:
  "\<exists>th. read_loop demo_ext 10 0 4 (EvRequest (Some (ReqBlockTime 8)) False (Inr ())) demo_thread = Some (Inr True, th) \<and>
     distinct (map fst (th_pending th) @ map fst (th_answers th)) \<and> th_next th = 1"
proof -
  let ?ev = "EvRequest (Some (ReqBlockTime 8)) False (Inr ()) :: (u8, kv_view) read_event"
  have "\<exists>th. read_loop demo_ext 10 0 4 ?ev demo_thread = Some (Inr True, th) \<and> th_next th = 1"
    by (simp add: accept_def demo_thread_def process_BlockTime_def)
  then obtain th where th: "read_loop demo_ext 10 0 4 ?ev demo_thread = Some (Inr True, th)" "th_next th = 1" by blast
  have run: "read_run demo_ext 10 0 4 demo_thread th"
    by (rule read_run.step [OF read_run.start th(1)])
  show ?thesis using requests_accounted [OF run] th by (auto simp: demo_thread_def)
qed

section \<open>Signature statuses\<close>

text \<open>
  The list of statuses answers the first occurrence of each signature by what was found, and
  every later occurrence of the same signature by nothing.
\<close>

lemma signature_statuses_first_occurrence_only:
  assumes "i < length signatures"
  shows "create_result signatures found ! i =
    (if signatures ! i \<in> set (take i signatures) then None else hm_get found (signatures ! i))"
  using assms
proof (induction signatures found arbitrary: i rule: create_result.induct)
  case (2 signature signatures found)
  then show ?case by (cases i) auto
qed simp

end
