(* ===== verification/Alp_Stream.thy ===== *)
theory Alp_Stream
  imports Alp_Source
begin

text \<open>
  The gRPC stream (src/src/source/stream.rs): how the updates of the node become messages for the write
  thread. \<open>stream_step\<close> is one iteration of the loop of \<open>poll_next\<close>: it consumes an update and either
  goes on (\<open>None\<close>) or yields a message or an error; \<open>poll_next\<close> is the loop over the updates that have
  arrived.

  The connection and its filters are the client library's. What the conversion functions of the
  client library make of an update enters with the update: an unknown status is its number, a
  transaction and a reward are converted values or the conversion's error.
\<close>

datatype SlotStatusProto =
    SlotProcessed | SlotConfirmed | SlotFinalizedProto | SlotFirstShredReceived | SlotCompleted | SlotCreatedBank | SlotDead

datatype RecvError =
    RecvFailed rust_error
  | MissedField string
  | UnexpectedMessage string
  | UnknownCommitmentLevel int
  | MissedParent Slot
  | UnexpectedCommitment SlotStatusProto SlotStatusProto
  | TransactionWithMetaFailed string
  | RewardsFailed string

datatype StreamSourceSlotStatus = StatusDead | StatusConfirmed | StatusFinalized

datatype 'e StreamSourceMessage =
    StreamStart
  | CatchupRequired
  | StreamBlock Slot "'e BlockWithBinary"
  | StreamSlotStatus Slot Slot StreamSourceSlotStatus

section \<open>Updates\<close>

record block_meta =
  bm_slot :: Slot
  bm_parent_blockhash :: string
  bm_blockhash :: string
  bm_parent_slot :: Slot
  bm_executed_transaction_count :: nat
  bm_rewards :: "((string + Reward) list \<times> nat option) option"
  bm_block_time :: "UnixTimestamp option"
  bm_block_height :: "Slot option"

record 'e update_tx =
  ut_is_vote :: bool
  ut_index :: nat
  ut_tx :: "string + 'e TransactionWithStatusMeta"

datatype 'e UpdateOneof =
    UpSlot Slot "Slot option" "int + SlotStatusProto"
  | UpTransaction Slot "'e update_tx option"
  | UpBlockMeta block_meta
  | UpPing
  | UpOther string
  | UpMissing

section \<open>SlotInfo\<close>

text \<open>The flag that silences a warning and the time stamp are left out.\<close>

record 'e SlotInfo =
  si_status :: SlotStatusProto
  si_parent :: "Slot option"
  si_transactions :: "(nat \<times> 'e TransactionWithBinary) list"
  si_block_meta :: "block_meta option"
  si_sealed :: bool
  si_index_vote :: bool

definition SlotInfo_new :: "bool \<Rightarrow> 'e SlotInfo" where
  "SlotInfo_new index_vote = \<lparr>si_status = SlotCreatedBank, si_parent = None, si_transactions = [], si_block_meta = None,
     si_sealed = False, si_index_vote = index_vote\<rparr>"

fun collect_rewards :: "(string + Reward) list \<Rightarrow> string + Reward list" where
  "collect_rewards [] = Inr []"
| "collect_rewards (r # rs) = (case r of
     Inl e \<Rightarrow> Inl e
   | Inr x \<Rightarrow> (case collect_rewards rs of Inl e \<Rightarrow> Inl e | Inr xs \<Rightarrow> Inr (x # xs)))"

text \<open>The block made of the transactions, by their index, and of the meta data.\<close>

definition build_block ::
  "proto \<Rightarrow> bool \<Rightarrow> block_meta \<Rightarrow> Reward list \<Rightarrow> nat option \<Rightarrow> (nat \<times> 'e TransactionWithBinary) list \<Rightarrow> 'e BlockWithBinary" where
  "build_block p index_vote bm rewards num_partitions txs =
     BlockWithBinary_new p (bm_parent_blockhash bm) (bm_blockhash bm) (bm_parent_slot bm)
       (map snd (sort_key fst txs)) rewards num_partitions (bm_block_time bm) (bm_block_height bm) index_vote"

definition try_build_block ::
  "proto \<Rightarrow> 'e SlotInfo \<Rightarrow> (RecvError + 'e BlockWithBinary) option \<times> 'e SlotInfo" where
  "try_build_block p si =
     (if si_sealed si \<or>
         map_option bm_executed_transaction_count (si_block_meta si) \<noteq> Some (length (si_transactions si))
      then (None, si)
      else
        let si = si\<lparr>si_sealed := True\<rparr>
        in case si_block_meta si of
             None \<Rightarrow> (None, si)
           | Some bm \<Rightarrow>
               let si = si\<lparr>si_block_meta := None\<rparr>
               in case (case bm_rewards bm of
                          Some (rs, num_partitions) \<Rightarrow>
                            (case collect_rewards rs of Inl e \<Rightarrow> Inl e | Inr rs \<Rightarrow> Inr (rs, num_partitions))
                        | None \<Rightarrow> Inr ([], None)) of
                    Inl e \<Rightarrow> (Some (Inl (RewardsFailed e)), si)
                  | Inr (rewards, num_partitions) \<Rightarrow>
                      (Some (Inr (build_block p (si_index_vote si) bm rewards num_partitions (si_transactions si))),
                       si\<lparr>si_transactions := []\<rparr>))"

section \<open>StreamSource\<close>

record 'e StreamSource =
  sm_slots :: "(Slot, 'e SlotInfo) btree"
  sm_first_processed :: "Slot option"
  sm_index_vote :: bool

definition StreamSource_new :: "bool \<Rightarrow> 'e StreamSource" where
  "StreamSource_new index_vote = \<lparr>sm_slots = [], sm_first_processed = None, sm_index_vote = index_vote\<rparr>"

definition slot_info :: "'e StreamSource \<Rightarrow> Slot \<Rightarrow> 'e SlotInfo" where
  "slot_info st slot = (case bt_get (sm_slots st) slot of Some si \<Rightarrow> si | None \<Rightarrow> SlotInfo_new (sm_index_vote st))"

definition set_slot_info :: "Slot \<Rightarrow> 'e SlotInfo \<Rightarrow> 'e StreamSource \<Rightarrow> 'e StreamSource" where
  "set_slot_info slot si st = st\<lparr>sm_slots := bt_insert slot si (sm_slots st)\<rparr>"

type_synonym 'e stream_item = "RecvError + 'e StreamSourceMessage"

text \<open>The slot statuses that are not dropped at once; the others are not of interest.\<close>

definition update_slot ::
  "Slot \<Rightarrow> Slot option \<Rightarrow> SlotStatusProto \<Rightarrow> 'e StreamSource \<Rightarrow> 'e stream_item option \<times> 'e StreamSource" where
  "update_slot slot parent status st =
     (let st = (if status = SlotCreatedBank \<and> sm_first_processed st = None
                then st\<lparr>sm_first_processed := Some slot\<rparr> else st)
      in case sm_first_processed st of
           None \<Rightarrow> (None, st)
         | Some first_processed \<Rightarrow>
             if \<not> first_processed < slot then (None, st)
             else if status = SlotFinalizedProto
             then
               let st = st\<lparr>sm_slots := bt_prune (\<lambda>slot_first _. slot_first < slot) (sm_slots st)\<rparr>
               in (Some (case parent of
                     Some parent \<Rightarrow> Inr (StreamSlotStatus slot parent StatusFinalized)
                   | None \<Rightarrow> Inl (MissedParent slot)), st)
             else
               let si = slot_info st slot; st = set_slot_info slot si st;
                   unexpected = (Some (Inl (UnexpectedCommitment (si_status si) status)), st)
               in if status = SlotCreatedBank
                  then if si_parent si = None \<and> si_status si = SlotCreatedBank \<and> parent \<noteq> None
                       then (None, set_slot_info slot (si\<lparr>si_parent := parent\<rparr>) st)
                       else unexpected
                  else
                    case (si_parent si, si_status si, status) of
                      (Some parent, SlotCreatedBank, SlotDead) \<Rightarrow>
                        (Some (Inr (StreamSlotStatus slot parent StatusDead)), set_slot_info slot (si\<lparr>si_status := SlotDead\<rparr>) st)
                    | (Some parent, SlotCreatedBank, SlotConfirmed) \<Rightarrow>
                        (Some (Inr (StreamSlotStatus slot parent StatusConfirmed)),
                         set_slot_info slot (si\<lparr>si_status := SlotConfirmed\<rparr>) st)
                    | (Some _, SlotConfirmed, SlotConfirmed) \<Rightarrow> (None, st)
                    | _ \<Rightarrow> unexpected)"

text \<open>The last part of the transaction and the block meta updates.\<close>

definition build_step :: "proto \<Rightarrow> Slot \<Rightarrow> 'e SlotInfo \<Rightarrow> 'e StreamSource \<Rightarrow> 'e stream_item option \<times> 'e StreamSource" where
  "build_step p slot si st =
     (if (case sm_first_processed st of Some first_processed \<Rightarrow> slot \<le> first_processed | None \<Rightarrow> False)
      then (None, set_slot_info slot si st)
      else
        let (r, si) = try_build_block p si; st = set_slot_info slot si st
        in (case r of
              Some (Inr block) \<Rightarrow> Some (Inr (StreamBlock slot block))
            | Some (Inl e) \<Rightarrow> Some (Inl e)
            | None \<Rightarrow> None, st))"

fun stream_step ::
  "solana \<Rightarrow> 'e codec \<Rightarrow> proto \<Rightarrow> 'e UpdateOneof \<Rightarrow> 'e StreamSource \<Rightarrow> 'e stream_item option \<times> 'e StreamSource" where
  "stream_step so c p (UpSlot slot parent status) st =
     (case status of
        Inl raw \<Rightarrow> (Some (Inl (UnknownCommitmentLevel raw)), st)
      | Inr status \<Rightarrow>
          if status \<in> {SlotProcessed, SlotFirstShredReceived, SlotCompleted} then (None, st)
          else update_slot slot parent status st)"
| "stream_step so c p (UpTransaction slot None) st = (Some (Inl (MissedField ''transaction'')), st)"
| "stream_step so c p (UpTransaction slot (Some ut)) st =
     (let si = slot_info st slot
      in case ut_tx ut of
           Inl e \<Rightarrow> (Some (Inl (TransactionWithMetaFailed e)), set_slot_info slot si st)
         | Inr tw \<Rightarrow>
             build_step p slot (si\<lparr>si_transactions := si_transactions si @
               [(ut_index ut, TransactionWithBinary_new so c slot tw (Some (ut_is_vote ut)) (ut_index ut mod 4294967296))]\<rparr>) st)"
| "stream_step so c p (UpBlockMeta bm) st =
     (let slot = bm_slot bm; si = slot_info st slot
      in build_step p slot (si\<lparr>si_block_meta := Some bm\<rparr>) st)"
| "stream_step so c p UpPing st = (None, st)"
| "stream_step so c p (UpOther m) st = (Some (Inl (UnexpectedMessage m)), st)"
| "stream_step so c p UpMissing st = (Some (Inl (MissedField ''update_oneof'')), st)"

datatype 'e recv = RecvUpdate "'e UpdateOneof" | RecvErr rust_error

datatype 'e poll = PollItem "'e stream_item" | PollPending

text \<open>\<open>poll_next\<close> over the updates that have arrived; the end of the stream is the end of the polls.\<close>

fun poll_next ::
  "solana \<Rightarrow> 'e codec \<Rightarrow> proto \<Rightarrow> 'e recv list \<Rightarrow> 'e StreamSource \<Rightarrow> 'e poll \<times> 'e recv list \<times> 'e StreamSource" where
  "poll_next so c p [] st = (PollPending, [], st)"
| "poll_next so c p (RecvErr e # rest) st = (PollItem (Inl (RecvFailed e)), rest, st)"
| "poll_next so c p (RecvUpdate u # rest) st =
     (case stream_step so c p u st of
        (Some item, st) \<Rightarrow> (PollItem item, rest, st)
      | (None, st) \<Rightarrow> poll_next so c p rest st)"

section \<open>Runs\<close>

text \<open>The state and the messages after some updates, none of which was an error.\<close>

inductive stream_run ::
  "solana \<Rightarrow> 'e codec \<Rightarrow> proto \<Rightarrow> bool \<Rightarrow> 'e UpdateOneof list \<Rightarrow> 'e StreamSourceMessage list \<Rightarrow> 'e StreamSource \<Rightarrow> bool"
  for so c p iv where
  start: "stream_run so c p iv [] [] (StreamSource_new iv)"
| silent: "stream_run so c p iv us ms st \<Longrightarrow> stream_step so c p u st = (None, st') \<Longrightarrow> stream_run so c p iv (us @ [u]) ms st'"
| message: "stream_run so c p iv us ms st \<Longrightarrow> stream_step so c p u st = (Some (Inr m), st') \<Longrightarrow>
    stream_run so c p iv (us @ [u]) (ms @ [m]) st'"

end
