(* ===== verification/Alp_Stream_Laws.thy ===== *)
theory Alp_Stream_Laws
  imports Alp_Stream Alp_Source_Laws "HOL-Library.Sublist"
begin

text \<open>
  Properties of the stream: as long as a slot is not cleaned up by the finalization of a later one, at
  most one block and at most one of "dead" and "confirmed" is sent for it, and the block has exactly
  the transactions received for the slot, in the order of their index.
\<close>

section \<open>What a step does to the table of slots\<close>

lemma slot_info_set [simp]:
  "slot_info (set_slot_info slot si st) s = (if s = slot then si else slot_info st s)"
  by (simp add: slot_info_def set_slot_info_def split: option.split)

lemma set_slot_info_sel [simp]:
  "sm_index_vote (set_slot_info slot si st) = sm_index_vote st"
  "sm_first_processed (set_slot_info slot si st) = sm_first_processed st"
  "bt_ok (sm_slots st) \<Longrightarrow> bt_ok (sm_slots (set_slot_info slot si st))"
  by (simp_all add: set_slot_info_def)

lemma slot_info_fp [simp]: "slot_info (st\<lparr>sm_first_processed := x\<rparr>) s = slot_info st s"
  by (simp add: slot_info_def split: option.split)

lemma slot_info_prune:
  assumes "bt_ok (sm_slots st)" "x \<le> s" "0 < x"
  shows "slot_info (st\<lparr>sm_slots := bt_prune (\<lambda>k _. k < x) (sm_slots st)\<rparr>) s = slot_info st s"
proof -
  have "(\<lambda>(k :: Slot) (_ :: 'a SlotInfo). k < x) = (\<lambda>k _. k \<le> x - 1)" using assms(3) by (auto simp: fun_eq_iff)
  then show ?thesis using bt_get_prune_le [OF assms(1), of "x - 1" s] assms(2,3)
    by (simp add: slot_info_def split: option.split)
qed

text \<open>The part of a slot's record that its parent is not part of.\<close>

definition core :: "'e SlotInfo \<Rightarrow> SlotStatusProto \<times> (nat \<times> 'e TransactionWithBinary) list \<times> block_meta option \<times> bool \<times> bool" where
  "core si = (si_status si, si_transactions si, si_block_meta si, si_sealed si, si_index_vote si)"

definition keeps :: "('e SlotInfo \<Rightarrow> 'e SlotInfo) \<Rightarrow> Slot \<Rightarrow> 'e StreamSource \<Rightarrow> 'e StreamSource \<Rightarrow> bool" where
  "keeps f slot st st' \<longleftrightarrow> bt_ok (sm_slots st') \<and> sm_index_vote st' = sm_index_vote st \<and>
     (\<forall>s. core (slot_info st' s) = core (if s = slot then f (slot_info st s) else slot_info st s))"

lemma update_slot_effect:
  assumes "bt_ok (sm_slots st)" "update_slot slot parent status st = (r, st')" "\<nexists>e. r = Some (Inl e)"
    "status \<notin> {SlotProcessed, SlotFirstShredReceived, SlotCompleted}"
  shows "(r = None \<and> keeps (\<lambda>si. si) slot st st') \<or>
    (\<exists>par. r = Some (Inr (StreamSlotStatus slot par StatusDead)) \<and> si_status (slot_info st slot) = SlotCreatedBank \<and>
       keeps (\<lambda>si. si\<lparr>si_status := SlotDead\<rparr>) slot st st') \<or>
    (\<exists>par. r = Some (Inr (StreamSlotStatus slot par StatusConfirmed)) \<and> si_status (slot_info st slot) = SlotCreatedBank \<and>
       keeps (\<lambda>si. si\<lparr>si_status := SlotConfirmed\<rparr>) slot st st') \<or>
    (\<exists>par. r = Some (Inr (StreamSlotStatus slot par StatusFinalized)) \<and> status = SlotFinalizedProto \<and>
       bt_ok (sm_slots st') \<and> sm_index_vote st' = sm_index_vote st \<and> (\<forall>s. slot \<le> s \<longrightarrow> slot_info st' s = slot_info st s))"
proof -
  define st1 where "st1 = (if status = SlotCreatedBank \<and> sm_first_processed st = None
    then st\<lparr>sm_first_processed := Some slot\<rparr> else st)"
  have st1: "slot_info st1 s = slot_info st s" "sm_index_vote st1 = sm_index_vote st" "bt_ok (sm_slots st1)" for s
    using assms(1) by (simp_all add: st1_def)
  note upd = assms(2) [unfolded update_slot_def, folded st1_def, unfolded Let_def]
  show ?thesis
  proof (cases "sm_first_processed st1")
    case None
    then show ?thesis using upd st1 by (auto simp: keeps_def)
  next
    case (Some fp)
    show ?thesis
    proof (cases "fp < slot")
      case False
      then show ?thesis using upd st1 Some by (auto simp: keeps_def)
    next
      case lt: True
      show ?thesis
      proof (cases "status = SlotFinalizedProto")
        case fin: True
        then have "st' = st1\<lparr>sm_slots := bt_prune (\<lambda>k _. k < slot) (sm_slots st1)\<rparr>"
          "\<exists>par. r = Some (Inr (StreamSlotStatus slot par StatusFinalized))"
          using upd Some lt assms(3) by (auto split: option.splits)
        then show ?thesis
          using fin st1 lt slot_info_prune [OF st1(3), of slot] by auto
      next
        case False
        let ?si = "slot_info st slot"
        let ?st = "set_slot_info slot ?si st1"
        have keep: "keeps (\<lambda>si. si) slot st ?st" "keeps (\<lambda>si. si) slot st (set_slot_info slot (?si\<lparr>si_parent := q\<rparr>) ?st)"
          "keeps (\<lambda>si. si\<lparr>si_status := v\<rparr>) slot st (set_slot_info slot (?si\<lparr>si_status := v\<rparr>) ?st)" for q v
          using st1 by (simp_all add: keeps_def core_def)
        note upd' = upd [unfolded st1 Some, simplified] lt False
        show ?thesis
        proof (cases "status = SlotCreatedBank")
          case True
          then show ?thesis using upd' keep(2) assms(3) by (auto split: if_splits)
        next
          case ncb: False
          then consider "status = SlotDead" | "status = SlotConfirmed" using False assms(4) by (cases status) auto
          then show ?thesis
          proof cases
            case 1
            then show ?thesis
              using upd' keep(3) assms(3) by (auto split: option.splits SlotStatusProto.splits)
          next
            case 2
            then show ?thesis
              using upd' keep(1,3) assms(3) by (auto split: option.splits SlotStatusProto.splits)
          qed
        qed
      qed
    qed
  qed
qed

lemma build_step_effect:
  assumes "bt_ok (sm_slots st)" "build_step p slot si st = (r, st')" "\<nexists>e. r = Some (Inl e)"
  shows "(r = None \<and> keeps (\<lambda>_. si) slot st st') \<or>
    (\<exists>bm rewards np. r = Some (Inr (StreamBlock slot (build_block p (si_index_vote si) bm rewards np (si_transactions si)))) \<and>
       \<not> si_sealed si \<and> si_block_meta si = Some bm \<and> bm_executed_transaction_count bm = length (si_transactions si) \<and>
       keeps (\<lambda>_. si\<lparr>si_sealed := True, si_block_meta := None, si_transactions := []\<rparr>) slot st st')"
proof (cases "(case sm_first_processed st of Some fp \<Rightarrow> slot \<le> fp | None \<Rightarrow> False) \<or> si_sealed si \<or>
    map_option bm_executed_transaction_count (si_block_meta si) \<noteq> Some (length (si_transactions si))")
  case True
  then show ?thesis
    using assms by (auto simp: build_step_def try_build_block_def keeps_def Let_def split: if_splits)
next
  case False
  then obtain bm where bm: "si_block_meta si = Some bm" "bm_executed_transaction_count bm = length (si_transactions si)"
    "\<not> si_sealed si" by auto
  let ?rw = "case bm_rewards bm of
      Some (rs, n) \<Rightarrow> (case collect_rewards rs of Inl e \<Rightarrow> Inl e | Inr rs \<Rightarrow> Inr (rs, n))
    | None \<Rightarrow> Inr ([], None)"
  have build: "try_build_block p si = (case ?rw of
      Inl e \<Rightarrow> (Some (Inl (RewardsFailed e)), si\<lparr>si_sealed := True, si_block_meta := None\<rparr>)
    | Inr (rewards, np) \<Rightarrow> (Some (Inr (build_block p (si_index_vote si) bm rewards np (si_transactions si))),
        si\<lparr>si_sealed := True, si_block_meta := None, si_transactions := []\<rparr>))"
    using bm by (simp add: try_build_block_def Let_def split: sum.split)
  have keep: "keeps (\<lambda>_. x) slot st (set_slot_info slot x st)" for x
    using assms(1) by (simp add: keeps_def)
  obtain rewards np where "?rw = Inr (rewards, np)"
    using assms(2,3) False by (cases ?rw) (auto simp: build_step_def build Let_def)
  then show ?thesis
    using assms(2) False bm keep by (auto simp: build_step_def build Let_def)
qed

section \<open>What was sent and received for a slot\<close>

definition blocks_for :: "Slot \<Rightarrow> 'e StreamSourceMessage list \<Rightarrow> 'e BlockWithBinary list" where
  "blocks_for s ms = List.map_filter (\<lambda>m. case m of StreamBlock x b \<Rightarrow> if x = s then Some b else None | _ \<Rightarrow> None) ms"

definition verdicts_for :: "Slot \<Rightarrow> 'e StreamSourceMessage list \<Rightarrow> StreamSourceSlotStatus list" where
  "verdicts_for s ms = List.map_filter (\<lambda>m. case m of
     StreamSlotStatus x _ v \<Rightarrow> if x = s \<and> v \<noteq> StatusFinalized then Some v else None | _ \<Rightarrow> None) ms"

definition received_tx :: "solana \<Rightarrow> 'e codec \<Rightarrow> Slot \<Rightarrow> 'e UpdateOneof \<Rightarrow> (nat \<times> 'e TransactionWithBinary) list" where
  "received_tx so c s u = (case u of
     UpTransaction x (Some ut) \<Rightarrow>
       if x = s then (case ut_tx ut of
           Inr tw \<Rightarrow> [(ut_index ut, TransactionWithBinary_new so c s tw (Some (ut_is_vote ut)) (ut_index ut mod 4294967296))]
         | Inl _ \<Rightarrow> [])
       else []
   | _ \<Rightarrow> [])"

definition received :: "solana \<Rightarrow> 'e codec \<Rightarrow> Slot \<Rightarrow> 'e UpdateOneof list \<Rightarrow> (nat \<times> 'e TransactionWithBinary) list" where
  "received so c s us = concat (map (received_tx so c s) us)"

definition not_cleaned :: "Slot \<Rightarrow> 'e UpdateOneof list \<Rightarrow> bool" where
  "not_cleaned s us = list_all (\<lambda>u. case u of UpSlot x _ (Inr SlotFinalizedProto) \<Rightarrow> x \<le> s | _ \<Rightarrow> True) us"

lemma received_snoc [simp]: "received so c s (us @ [u]) = received so c s us @ received_tx so c s u"
  by (simp add: received_def)

lemma map_filter_snoc: "List.map_filter f (xs @ [x]) = List.map_filter f xs @ (case f x of Some y \<Rightarrow> [y] | None \<Rightarrow> [])"
  by (simp add: List.map_filter_def split: option.split)

lemma blocks_for_snoc [simp]:
  "blocks_for s (ms @ [StreamBlock x b]) = blocks_for s ms @ (if x = s then [b] else [])"
  "blocks_for s (ms @ [StreamSlotStatus x q v]) = blocks_for s ms"
  "verdicts_for s (ms @ [StreamBlock x b]) = verdicts_for s ms"
  "verdicts_for s (ms @ [StreamSlotStatus x q v]) = verdicts_for s ms @ (if x = s \<and> v \<noteq> StatusFinalized then [v] else [])"
  by (simp_all add: blocks_for_def verdicts_for_def map_filter_snoc)

definition verdict_inv :: "SlotStatusProto \<Rightarrow> StreamSourceSlotStatus list \<Rightarrow> bool" where
  "verdict_inv status vs \<longleftrightarrow> status = SlotCreatedBank \<and> vs = [] \<or> status = SlotDead \<and> vs = [StatusDead] \<or>
     status = SlotConfirmed \<and> vs = [StatusConfirmed]"

definition complete_block ::
  "solana \<Rightarrow> 'e codec \<Rightarrow> proto \<Rightarrow> bool \<Rightarrow> Slot \<Rightarrow> 'e UpdateOneof list \<Rightarrow> 'e BlockWithBinary \<Rightarrow> bool" where
  "complete_block so c p iv s us b \<longleftrightarrow> (\<exists>us1 bm rewards np. prefix us1 us \<and> UpBlockMeta bm \<in> set us1 \<and> bm_slot bm = s \<and>
     bm_executed_transaction_count bm = length (received so c s us1) \<and>
     b = build_block p iv bm rewards np (received so c s us1))"

definition block_inv ::
  "solana \<Rightarrow> 'e codec \<Rightarrow> proto \<Rightarrow> bool \<Rightarrow> Slot \<Rightarrow> 'e UpdateOneof list \<Rightarrow> 'e BlockWithBinary list \<Rightarrow> 'e SlotInfo \<Rightarrow> bool" where
  "block_inv so c p iv s us bs si \<longleftrightarrow> si_index_vote si = iv \<and>
     (if si_sealed si then \<exists>b. bs = [b] \<and> complete_block so c p iv s us b
      else bs = [] \<and> si_transactions si = received so c s us \<and>
        (\<forall>bm. si_block_meta si = Some bm \<longrightarrow> UpBlockMeta bm \<in> set us \<and> bm_slot bm = s))"

definition stream_inv ::
  "solana \<Rightarrow> 'e codec \<Rightarrow> proto \<Rightarrow> bool \<Rightarrow> Slot \<Rightarrow> 'e UpdateOneof list \<Rightarrow> 'e StreamSourceMessage list \<Rightarrow> 'e StreamSource \<Rightarrow> bool" where
  "stream_inv so c p iv s us ms st \<longleftrightarrow> bt_ok (sm_slots st) \<and> sm_index_vote st = iv \<and>
     verdict_inv (si_status (slot_info st s)) (verdicts_for s ms) \<and>
     block_inv so c p iv s us (blocks_for s ms) (slot_info st s)"

lemma complete_block_mono: "complete_block so c p iv s us b \<Longrightarrow> complete_block so c p iv s (us @ vs) b"
  unfolding complete_block_def using prefix_prefix by blast

lemma block_inv_core: "core si = core si' \<Longrightarrow> block_inv so c p iv s us bs si = block_inv so c p iv s us bs si'"
  by (simp add: core_def block_inv_def)

lemma block_inv_mono:
  "block_inv so c p iv s us bs si \<Longrightarrow> received_tx so c s u = [] \<Longrightarrow> block_inv so c p iv s (us @ [u]) bs si"
  by (auto simp: block_inv_def complete_block_mono split: if_splits)

lemma block_inv_status: "block_inv so c p iv s us bs (si\<lparr>si_status := v\<rparr>) = block_inv so c p iv s us bs si"
  by (simp add: block_inv_def)

lemma core_status: "core si = core si' \<Longrightarrow> si_status si = si_status si'"
  by (simp add: core_def)

text \<open>The effect of a step on the invariant of one slot, for the two kinds of steps.\<close>

lemma inv_update_slot:
  assumes inv: "stream_inv so c p iv s us ms st" and step: "update_slot x q status st = (r, st')" "\<nexists>e. r = Some (Inl e)"
    "status \<notin> {SlotProcessed, SlotFirstShredReceived, SlotCompleted}" "status = SlotFinalizedProto \<longrightarrow> x \<le> s"
  shows "stream_inv so c p iv s (us @ [UpSlot x q (Inr status)]) (ms @ (case r of Some (Inr m) \<Rightarrow> [m] | _ \<Rightarrow> [])) st'"
proof -
  note I = inv [unfolded stream_inv_def]
  have rtx: "received_tx so c s (UpSlot x q (Inr status)) = []" by (simp add: received_tx_def)
  have keep: "stream_inv so c p iv s (us @ [UpSlot x q (Inr status)]) (ms @ ms') st'"
    if k: "keeps (\<lambda>si. if f then si\<lparr>si_status := v\<rparr> else si) x st st'" and "blocks_for s (ms @ ms') = blocks_for s ms"
      "verdict_inv (if x = s \<and> f then v else si_status (slot_info st s)) (verdicts_for s (ms @ ms'))" for f v ms'
  proof -
    have c: "core (slot_info st' s) = core (if s = x then if f then (slot_info st s)\<lparr>si_status := v\<rparr> else slot_info st s else slot_info st s)"
      using k by (simp add: keeps_def split: if_splits)
    have "block_inv so c p iv s (us @ [UpSlot x q (Inr status)]) (blocks_for s ms) (slot_info st' s)"
      using I block_inv_mono [OF _ rtx] unfolding block_inv_core [OF c] by (auto simp: block_inv_status)
    then show ?thesis using k I that core_status [OF c] by (auto simp: stream_inv_def keeps_def split: if_splits)
  qed
  from update_slot_effect [OF _ step(1-3)] I consider
      "r = None" "keeps (\<lambda>si. si) x st st'"
    | par where "r = Some (Inr (StreamSlotStatus x par StatusDead))" "si_status (slot_info st x) = SlotCreatedBank"
        "keeps (\<lambda>si. si\<lparr>si_status := SlotDead\<rparr>) x st st'"
    | par where "r = Some (Inr (StreamSlotStatus x par StatusConfirmed))" "si_status (slot_info st x) = SlotCreatedBank"
        "keeps (\<lambda>si. si\<lparr>si_status := SlotConfirmed\<rparr>) x st st'"
    | par where "r = Some (Inr (StreamSlotStatus x par StatusFinalized))" "status = SlotFinalizedProto"
        "bt_ok (sm_slots st')" "sm_index_vote st' = sm_index_vote st" "\<forall>s. x \<le> s \<longrightarrow> slot_info st' s = slot_info st s"
    by blast
  then show ?thesis
  proof cases
    case 1
    then show ?thesis using keep [of False undefined "[]"] I by simp
  next
    case 2
    then show ?thesis using keep [of True SlotDead "[StreamSlotStatus x par StatusDead]"] I
      by (cases "x = s") (auto simp: verdict_inv_def)
  next
    case 3
    then show ?thesis using keep [of True SlotConfirmed "[StreamSlotStatus x par StatusConfirmed]"] I
      by (cases "x = s") (auto simp: verdict_inv_def)
  next
    case 4
    then show ?thesis using I step(4) block_inv_mono [OF _ rtx] by (simp add: stream_inv_def)
  qed
qed

lemma inv_build_step:
  assumes inv: "stream_inv so c p iv s us ms st" and step: "build_step p x si st = (r, st')" "\<nexists>e. r = Some (Inl e)"
    and new: "x = s \<Longrightarrow> si_status si = si_status (slot_info st s) \<and> si_sealed si = si_sealed (slot_info st s) \<and>
      block_inv so c p iv s (us @ [u]) (blocks_for s ms) si"
    and other: "x \<noteq> s \<Longrightarrow> received_tx so c s u = []"
  shows "stream_inv so c p iv s (us @ [u]) (ms @ (case r of Some (Inr m) \<Rightarrow> [m] | _ \<Rightarrow> [])) st'"
proof -
  note I = inv [unfolded stream_inv_def]
  from build_step_effect [OF _ step] I consider
      "r = None" "keeps (\<lambda>_. si) x st st'"
    | bm rewards np where
        "r = Some (Inr (StreamBlock x (build_block p (si_index_vote si) bm rewards np (si_transactions si))))"
        "\<not> si_sealed si" "si_block_meta si = Some bm" "bm_executed_transaction_count bm = length (si_transactions si)"
        "keeps (\<lambda>_. si\<lparr>si_sealed := True, si_block_meta := None, si_transactions := []\<rparr>) x st st'"
    by blast
  then show ?thesis
  proof cases
    case 1
    then have c: "core (slot_info st' s) = core (if s = x then si else slot_info st s)" by (simp add: keeps_def)
    have "block_inv so c p iv s (us @ [u]) (blocks_for s ms) (slot_info st' s)"
      using I new other block_inv_mono [of so c p iv s us] unfolding block_inv_core [OF c] by (cases "s = x") auto
    then show ?thesis using 1 I new core_status [OF c] by (auto simp: stream_inv_def keeps_def split: if_splits)
  next
    case 2
    let ?si = "si\<lparr>si_sealed := True, si_block_meta := None, si_transactions := []\<rparr>"
    have c: "core (slot_info st' s) = core (if s = x then ?si else slot_info st s)" using 2(5) by (simp add: keeps_def)
    show ?thesis
    proof (cases "x = s")
      case True
      note n = new [OF True, unfolded block_inv_def]
      have "complete_block so c p iv s (us @ [u]) (build_block p iv bm rewards np (received so c s (us @ [u])))"
        unfolding complete_block_def using 2 n by (intro exI [of _ "us @ [u]"] exI [of _ bm] exI conjI) auto
      then have "block_inv so c p iv s (us @ [u]) (blocks_for s (ms @ [StreamBlock x (build_block p (si_index_vote si) bm rewards np (si_transactions si))]))
          (slot_info st' s)"
        using n 2 True unfolding block_inv_core [OF c] by (simp add: block_inv_def)
      then show ?thesis using 2 I n True core_status [OF c] by (simp add: stream_inv_def keeps_def)
    next
      case False
      have "block_inv so c p iv s (us @ [u]) (blocks_for s ms) (slot_info st' s)"
        using I False other block_inv_mono unfolding block_inv_core [OF c] by auto
      then show ?thesis using 2 I False core_status [OF c] by (simp add: stream_inv_def keeps_def)
    qed
  qed
qed

lemma stream_step_inv:
  assumes inv: "stream_inv so c p iv s us ms st" and step: "stream_step so c p u st = (r, st')" "\<nexists>e. r = Some (Inl e)"
    and "not_cleaned s [u]"
  shows "stream_inv so c p iv s (us @ [u]) (ms @ (case r of Some (Inr m) \<Rightarrow> [m] | _ \<Rightarrow> [])) st'"
proof -
  note I = inv [unfolded stream_inv_def]
  have idle: "stream_inv so c p iv s (us @ [u]) ms st" if "received_tx so c s u = []"
    using I block_inv_mono [OF _ that] by (simp add: stream_inv_def)
  show ?thesis
  proof (cases u)
    case (UpSlot x q status)
    show ?thesis
    proof (cases "\<exists>v. status = Inr v \<and> v \<notin> {SlotProcessed, SlotFirstShredReceived, SlotCompleted}")
      case True
      then obtain v where v: "status = Inr v" "v \<notin> {SlotProcessed, SlotFirstShredReceived, SlotCompleted}" by blast
      then have "update_slot x q v st = (r, st')" using step(1) by (simp add: UpSlot)
      moreover have "v = SlotFinalizedProto \<longrightarrow> x \<le> s" using assms(4) by (auto simp: not_cleaned_def UpSlot v)
      ultimately show ?thesis using inv_update_slot [OF inv _ step(2) v(2)] by (simp add: UpSlot v)
    next
      case False
      then show ?thesis
        using step idle by (cases status) (auto simp: UpSlot received_tx_def)
    qed
  next
    case (UpTransaction x ut)
    obtain t where t: "ut = Some t" using step by (cases ut) (auto simp: UpTransaction)
    obtain tw where tw: "ut_tx t = Inr tw" using step by (cases "ut_tx t") (auto simp: UpTransaction t Let_def)
    show ?thesis
      using step(1) I
      by (intro inv_build_step [OF inv _ step(2), of x])
        (auto simp: UpTransaction t tw Let_def received_tx_def block_inv_def complete_block_mono split: if_splits)
  next
    case (UpBlockMeta bm)
    show ?thesis
      using step(1) I
      by (intro inv_build_step [OF inv _ step(2), of "bm_slot bm"])
        (auto simp: UpBlockMeta Let_def received_tx_def block_inv_def complete_block_mono split: if_splits)
  qed (use step idle in \<open>auto simp: received_tx_def\<close>)
qed

lemma stream_run_inv: "stream_run so c p iv us ms st \<Longrightarrow> not_cleaned s us \<Longrightarrow> stream_inv so c p iv s us ms st"
proof (induction rule: stream_run.induct)
  case start
  show ?case
    by (simp add: stream_inv_def StreamSource_new_def slot_info_def SlotInfo_new_def verdict_inv_def block_inv_def
        verdicts_for_def blocks_for_def received_def List.map_filter_simps)
next
  case (silent us ms st u st')
  then show ?case using stream_step_inv [of so c p iv s us ms st u None st'] by (simp add: not_cleaned_def)
next
  case (message us ms st u m st')
  then show ?case using stream_step_inv [of so c p iv s us ms st u "Some (Inr m)" st'] by (simp add: not_cleaned_def)
qed


definition demo_meta :: block_meta where
  "demo_meta = \<lparr>bm_slot = 7, bm_parent_blockhash = ''p'', bm_blockhash = ''h'', bm_parent_slot = 6,
     bm_executed_transaction_count = 0, bm_rewards = None, bm_block_time = Some 1, bm_block_height = Some 5\<rparr>"


end
