(* ===== verification/Alp_Connect.thy ===== *)
theory Alp_Connect
  imports Alp_Stream
begin

text \<open>
  The source task (src/src/storage/source.rs): the requests that the write thread sends to the HTTP
  client, and \<open>start_stream\<close>, which keeps the gRPC stream connected.

  A request carries a one-shot channel for its answer, so a request and its answer are a call;
  what can go wrong with the two channels are values of \<open>HttpSourceConnectedError\<close>. The client
  itself is not of this file: what it answers is an argument.

  \<open>start_stream\<close> is a state machine: its state has the three variables that live across iterations and
  the place where the task waits; \<open>stream_ctl_step\<close> runs the code from one \<open>await\<close> to the next,
  given what that \<open>await\<close> returned, and says which messages were sent. Durations are in
  nanoseconds.
\<close>

section \<open>Errors of the HTTP source\<close>

datatype BlockDecodeError =
    MissedTransactions
  | MissedRewards
  | FailedVersionedTransaction
  | MissedLoadedAddresses
  | FailedInnerInstructions
  | FailedLoadedAddressesWritable
  | FailedLoadedAddressesReadonly
  | FailedTransactionReturnDataProgramId
  | FailedTransactionReturnData

text \<open>The kinds of \<open>ClientError\<close> that the code tells apart; the others are one constructor.\<close>

datatype ClientError = RpcResponseError int | ReqwestError "string option" | OtherClientError string

datatype GetBlockError =
    GbRequest ClientError
  | SlotSkipped Slot
  | BlockNotAvailable Slot
  | GbDecode BlockDecodeError

section \<open>HttpSourceConnected\<close>

datatype HttpRequest =
    HttpSlots
  | HttpFirstAvailableBlock
  | HttpBlock Slot bool

datatype 'x HttpSourceConnectedError =
    SendError
  | RecvClosed
  | SourceError 'x

text \<open>
  \<open>send\<close>: \<open>sent\<close> is whether the channel to the source took the request, \<open>reply\<close> what came back on
  the one-shot channel, \<open>None\<close> when it was closed.
\<close>

definition connected_send :: "bool \<Rightarrow> ('x + 'a) option \<Rightarrow> 'x HttpSourceConnectedError + 'a" where
  "connected_send sent reply =
     (if \<not> sent then Inl SendError
      else case reply of
          Some (Inr result) \<Rightarrow> Inr result
        | Some (Inl error) \<Rightarrow> Inl (SourceError error)
        | None \<Rightarrow> Inl RecvClosed)"

text \<open>What the HTTP client answers; a task that panics while it fetches a block sends no answer.\<close>

record 'e http_client =
  hc_finalized_slot :: "ClientError + Slot"
  hc_confirmed_slot :: "ClientError + Slot"
  hc_first_available_block :: "ClientError + Slot"
  hc_block :: "Slot \<Rightarrow> bool \<Rightarrow> (GetBlockError + 'e BlockWithBinary) option"

datatype 'e http_reply =
    ReplySlots "ClientError + Slot \<times> Slot"
  | ReplyFirstAvailable "ClientError + Slot"
  | ReplyBlock "GetBlockError + 'e BlockWithBinary"

text \<open>
  \<open>handle_http\<close>: the request is answered by a task of its own; the value says whether the task of the
  source is finished. \<open>try_join!\<close> gives the first error.
\<close>

fun handle_http :: "'e http_client \<Rightarrow> HttpRequest option \<Rightarrow> 'e http_reply option \<times> bool" where
  "handle_http hc (Some HttpSlots) =
     (Some (ReplySlots (case hc_finalized_slot hc of
        Inl e \<Rightarrow> Inl e
      | Inr finalized \<Rightarrow> (case hc_confirmed_slot hc of Inl e \<Rightarrow> Inl e | Inr confirmed \<Rightarrow> Inr (finalized, confirmed)))), False)"
| "handle_http hc (Some HttpFirstAvailableBlock) = (Some (ReplyFirstAvailable (hc_first_available_block hc)), False)"
| "handle_http hc (Some (HttpBlock slot httpget)) = (map_option ReplyBlock (hc_block hc slot httpget), False)"
| "handle_http hc None = (None, True)"

definition get_slots :: "bool \<Rightarrow> (ClientError + Slot \<times> Slot) option \<Rightarrow> ClientError HttpSourceConnectedError + Slot \<times> Slot" where
  "get_slots sent reply = connected_send sent reply"

definition get_block :: "bool \<Rightarrow> (GetBlockError + 'e BlockWithBinary) option \<Rightarrow> GetBlockError HttpSourceConnectedError + 'e BlockWithBinary" where
  "get_block sent reply = connected_send sent reply"

definition get_first_available_block :: "bool \<Rightarrow> (ClientError + Slot) option \<Rightarrow> ClientError HttpSourceConnectedError + Slot" where
  "get_first_available_block sent reply = connected_send sent reply"

section \<open>Durations\<close>

text \<open>\<open>Duration * 2\<close> panics when the seconds overflow a \<open>u64\<close>.\<close>

definition duration_double :: "nat \<Rightarrow> nat option" where
  "duration_double d = (if 2 * d < u64_modulus * 1000000000 then Some (2 * d) else None)"

section \<open>start_stream\<close>

record ConfigSourceStreamReconnect =
  rc_backoff_init :: nat
  rc_backoff_max :: nat
  rc_from_slot_max_attempts :: nat

text \<open>Where the task waits: for the write thread, for a connection, for a message, or not at all.\<close>

datatype stream_phase =
    AwaitStart
  | AwaitCatchup "Slot option"
  | Connecting "Slot option"
  | Streaming "Slot option" bool
  | Finished "unit result"

record stream_ctl =
  sc_backoff_duration :: "nat option"
  sc_from_slot_attempts :: nat
  sc_phase :: stream_phase

definition stream_ctl_init :: "ConfigSourceStreamReconnect option \<Rightarrow> stream_ctl" where
  "stream_ctl_init reconnect =
     \<lparr>sc_backoff_duration = map_option rc_backoff_max reconnect, sc_from_slot_attempts = 0, sc_phase = AwaitStart\<rparr>"

definition from_slot_max_attempts :: "ConfigSourceStreamReconnect option \<Rightarrow> nat" where
  "from_slot_max_attempts reconnect = (case reconnect of Some c \<Rightarrow> rc_from_slot_max_attempts c | None \<Rightarrow> 2)"

text \<open>
  The head of the outer loop: \<open>confirmed_slot\<close> is what \<open>confirmed_load\<close> gives, \<open>sent\<close> whether the
  channel to the write thread is open.
\<close>

definition outer_head ::
  "ConfigSourceStreamReconnect option \<Rightarrow> Slot \<Rightarrow> bool \<Rightarrow> stream_ctl \<Rightarrow> stream_ctl \<times> 'e StreamSourceMessage list" where
  "outer_head reconnect confirmed_slot sent st =
     (let from_slot_exhausted = (confirmed_slot \<noteq> 0 \<and>
            from_slot_max_attempts reconnect \<le> sc_from_slot_attempts st);
          from_slot = (if confirmed_slot \<noteq> 0 \<and> \<not> from_slot_exhausted then Some (add64 confirmed_slot 1) else None)
      in if from_slot_exhausted
         then if sent then (st\<lparr>sc_phase := AwaitCatchup from_slot\<rparr>, [CatchupRequired])
              else (st\<lparr>sc_phase := Finished (Inr ())\<rparr>, [])
         else (st\<lparr>sc_phase := Connecting from_slot\<rparr>, []))"

datatype 'e stream_ctl_event =
    Notified Slot bool
  | Connected "rust_error option" Slot bool
  | Item "(RecvError + 'e StreamSourceMessage) option" Slot bool

text \<open>\<open>from_slot_attempts\<close> is a \<open>u8\<close>.\<close>

definition next_attempts :: "stream_ctl \<Rightarrow> nat" where
  "next_attempts st = (sc_from_slot_attempts st + 1) mod 256"

text \<open>After the inner loop: the pause, and the next iteration of the outer loop.\<close>

definition reconnect_or_finish ::
  "ConfigSourceStreamReconnect option \<Rightarrow> Slot \<Rightarrow> bool \<Rightarrow> stream_ctl \<Rightarrow> stream_ctl \<times> 'e StreamSourceMessage list" where
  "reconnect_or_finish reconnect confirmed_slot sent st =
     (case reconnect of
        Some c \<Rightarrow> outer_head reconnect confirmed_slot sent (st\<lparr>sc_backoff_duration := Some (rc_backoff_init c)\<rparr>)
      | None \<Rightarrow> (st\<lparr>sc_phase := Finished (Inr ())\<rparr>, []))"

definition connect_failed ::
  "ConfigSourceStreamReconnect option \<Rightarrow> Slot option \<Rightarrow> rust_error \<Rightarrow> Slot \<Rightarrow> bool \<Rightarrow> stream_ctl \<Rightarrow>
     stream_ctl \<times> 'e StreamSourceMessage list" where
  "connect_failed reconnect from_slot error confirmed_slot sent st =
     (let st = (if from_slot \<noteq> None then st\<lparr>sc_from_slot_attempts := next_attempts st\<rparr> else st);
          just_exhausted = (from_slot \<noteq> None \<and> from_slot_max_attempts reconnect \<le> sc_from_slot_attempts st);
          backoff_max = (case reconnect of Some c \<Rightarrow> rc_backoff_max c | None \<Rightarrow> 0)
      in case sc_backoff_duration st of
           None \<Rightarrow> (st\<lparr>sc_phase := Finished (Inl error)\<rparr>, [])
         | Some sleep_duration \<Rightarrow>
             (case duration_double sleep_duration of
                None \<Rightarrow> (st\<lparr>sc_phase := Finished (Inl (Panic ''overflow when multiplying duration by scalar''))\<rparr>, [])
              | Some d \<Rightarrow>
                  let st = st\<lparr>sc_backoff_duration := Some (min backoff_max d)\<rparr>
                  in if just_exhausted then outer_head reconnect confirmed_slot sent st else (st, [])))"

fun stream_ctl_step ::
  "ConfigSourceStreamReconnect option \<Rightarrow> 'e stream_ctl_event \<Rightarrow> stream_ctl \<Rightarrow> stream_ctl \<times> 'e StreamSourceMessage list" where
  "stream_ctl_step reconnect (Notified confirmed_slot sent) st =
     (case sc_phase st of
        AwaitStart \<Rightarrow> outer_head reconnect confirmed_slot sent st
      | AwaitCatchup from_slot \<Rightarrow> (st\<lparr>sc_from_slot_attempts := 0, sc_phase := Connecting from_slot\<rparr>, [])
      | _ \<Rightarrow> (st, []))"
| "stream_ctl_step reconnect (Connected outcome confirmed_slot sent) st =
     (case sc_phase st of
        Connecting from_slot \<Rightarrow>
          (case outcome of
             Some error \<Rightarrow> connect_failed reconnect from_slot error confirmed_slot sent st
           | None \<Rightarrow> if sent then (st\<lparr>sc_phase := Streaming from_slot False\<rparr>, [StreamStart])
                     else (st\<lparr>sc_phase := Finished (Inr ())\<rparr>, []))
      | _ \<Rightarrow> (st, []))"
| "stream_ctl_step reconnect (Item item confirmed_slot sent) st =
     (case sc_phase st of
        Streaming from_slot received_message \<Rightarrow>
          (case item of
             Some (Inr message) \<Rightarrow>
               let st = st\<lparr>sc_from_slot_attempts := 0\<rparr>
               in if sent then (st\<lparr>sc_phase := Streaming from_slot True\<rparr>, [message])
                  else (st\<lparr>sc_phase := Finished (Inr ())\<rparr>, [])
           | Some (Inl error) \<Rightarrow>
               reconnect_or_finish reconnect confirmed_slot sent
                 (if from_slot \<noteq> None \<and> \<not> received_message then st\<lparr>sc_from_slot_attempts := next_attempts st\<rparr> else st)
           | None \<Rightarrow> reconnect_or_finish reconnect confirmed_slot sent st)
      | _ \<Rightarrow> (st, []))"

fun stream_ctl_run ::
  "ConfigSourceStreamReconnect option \<Rightarrow> 'e stream_ctl_event list \<Rightarrow> stream_ctl \<Rightarrow> stream_ctl \<times> 'e StreamSourceMessage list" where
  "stream_ctl_run reconnect [] st = (st, [])"
| "stream_ctl_run reconnect (ev # evs) st =
     (let (st, out) = stream_ctl_step reconnect ev st; (st, out') = stream_ctl_run reconnect evs st in (st, out @ out'))"

text \<open>
  \<open>start\<close>: one event at a time of the shutdown, a request, or the end of the stream task; \<open>None\<close> is that
  the loop goes on.
\<close>

datatype source_event = SourceShutdown | SourceHttp "HttpRequest option" | SourceStreamEnded "unit result"

fun source_step :: "'e http_client \<Rightarrow> source_event \<Rightarrow> 'e http_reply option \<times> unit result option" where
  "source_step hc SourceShutdown = (None, Some (Inr ()))"
| "source_step hc (SourceHttp item) =
     (let (reply, finished) = handle_http hc item in (reply, if finished then Some (Inr ()) else None))"
| "source_step hc (SourceStreamEnded result) = (None, Some result)"

section \<open>Resuming from a slot is given up\<close>

text \<open>
  Failures of the resume from a slot since the last message or catch-up are counted exactly; a
  resume is attempted only below the limit.
\<close>

definition ctl_inv :: "ConfigSourceStreamReconnect option \<Rightarrow> stream_ctl \<Rightarrow> bool" where
  "ctl_inv reconnect st \<longleftrightarrow>
     sc_from_slot_attempts st \<le> from_slot_max_attempts reconnect \<and>
     (case sc_phase st of
        Connecting (Some s) \<Rightarrow> sc_from_slot_attempts st < from_slot_max_attempts reconnect
      | Streaming (Some s) r \<Rightarrow> sc_from_slot_attempts st < from_slot_max_attempts reconnect
      | AwaitCatchup fs \<Rightarrow> fs = None
      | _ \<Rightarrow> True)"

lemma outer_head_inv:
  "sc_from_slot_attempts st \<le> from_slot_max_attempts reconnect \<Longrightarrow> ctl_inv reconnect (fst (outer_head reconnect s b st))"
  by (auto simp: outer_head_def ctl_inv_def Let_def)

lemma outer_head_attempts [simp]: "sc_from_slot_attempts (fst (outer_head reconnect s b st)) = sc_from_slot_attempts st"
  by (auto simp: outer_head_def Let_def)

lemma next_attempts_less: "sc_from_slot_attempts st < 255 \<Longrightarrow> next_attempts st = Suc (sc_from_slot_attempts st)"
  by (simp add: next_attempts_def)

lemma connect_failed_inv:
  assumes "ctl_inv reconnect st" "sc_phase st = Connecting fs" "from_slot_max_attempts reconnect < 256"
  shows "ctl_inv reconnect (fst (connect_failed reconnect fs e s b st))"
proof (cases fs)
  case None
  then show ?thesis using assms
    by (auto simp: connect_failed_def ctl_inv_def Let_def split: option.splits)
next
  case (Some x)
  then have a: "sc_from_slot_attempts st < from_slot_max_attempts reconnect" using assms by (simp add: ctl_inv_def)
  then have n: "next_attempts st = Suc (sc_from_slot_attempts st)" using assms(3) next_attempts_less by simp
  show ?thesis
  proof (cases "from_slot_max_attempts reconnect \<le> Suc (sc_from_slot_attempts st)")
    case True
    then show ?thesis using Some n a
      by (auto simp: connect_failed_def Let_def intro!: outer_head_inv split: option.splits) (simp_all add: ctl_inv_def)
  next
    case False
    then show ?thesis using Some n a assms(2)
      by (auto simp: connect_failed_def Let_def ctl_inv_def split: option.splits)
  qed
qed

lemma reconnect_inv:
  "sc_from_slot_attempts st \<le> from_slot_max_attempts reconnect \<Longrightarrow> ctl_inv reconnect (fst (reconnect_or_finish reconnect s b st))"
  by (cases reconnect) (simp_all add: reconnect_or_finish_def outer_head_inv, simp add: ctl_inv_def)

lemma stream_ctl_step_inv:
  assumes inv: "ctl_inv reconnect st" and m: "from_slot_max_attempts reconnect < 256"
  shows "ctl_inv reconnect (fst (stream_ctl_step reconnect ev st))"
proof (cases ev)
  case (Notified s b)
  then show ?thesis using inv outer_head_inv [of st reconnect s b]
    by (cases "sc_phase st") (auto simp: ctl_inv_def split: option.splits)
next
  case (Connected r s b)
  show ?thesis
  proof (cases "sc_phase st")
    case (Connecting fs)
    show ?thesis
    proof (cases r)
      case None
      then show ?thesis using Connected Connecting inv by (auto simp: ctl_inv_def split: option.splits)
    next
      case (Some e)
      then show ?thesis using Connected Connecting connect_failed_inv [OF inv Connecting m] by simp
    qed
  qed (use Connected inv in simp_all)
next
  case (Item it s b)
  show ?thesis
  proof (cases "sc_phase st")
    case (Streaming fs rm)
    let ?st = "if fs \<noteq> None \<and> \<not> rm then st\<lparr>sc_from_slot_attempts := next_attempts st\<rparr> else st"
    have n: "sc_from_slot_attempts ?st \<le> from_slot_max_attempts reconnect" "sc_from_slot_attempts st \<le> from_slot_max_attempts reconnect"
      using inv Streaming m next_attempts_less [of st] by (auto simp: ctl_inv_def)
    show ?thesis
    proof (cases it)
      case None
      then show ?thesis using Item Streaming reconnect_inv [OF n(2)] by simp
    next
      case (Some i)
      show ?thesis
      proof (cases i)
        case (Inl e)
        have "ctl_inv reconnect (fst (stream_ctl_step reconnect ev st))"
          unfolding Item Some Inl stream_ctl_step.simps Streaming stream_phase.case option.case sum.case
          by (rule reconnect_inv [OF n(1)])
        then show ?thesis .
      next
        case (Inr msg)
        then show ?thesis using Item Streaming Some inv by (auto simp: ctl_inv_def Let_def split: option.splits)
      qed
    qed
  qed (use Item inv in simp_all)
qed

lemma stream_ctl_run_inv:
  "ctl_inv reconnect st \<Longrightarrow> from_slot_max_attempts reconnect < 256 \<Longrightarrow> ctl_inv reconnect (fst (stream_ctl_run reconnect evs st))"
proof (induction evs arbitrary: st)
  case (Cons ev evs)
  then show ?case using stream_ctl_step_inv [OF Cons.prems, of ev]
    by (simp add: Let_def split: prod.splits) (metis fst_conv)
qed simp

section \<open>The first message\<close>

definition opens_stream :: "'e StreamSourceMessage \<Rightarrow> bool" where
  "opens_stream m \<longleftrightarrow> m = StreamStart \<or> m = CatchupRequired"

definition not_streaming :: "stream_ctl \<Rightarrow> bool" where
  "not_streaming st \<longleftrightarrow> (\<forall>fs r. sc_phase st \<noteq> Streaming fs r)"

lemma outer_head_quiet:
  "not_streaming (fst (outer_head reconnect s b st))" "\<forall>m \<in> set (snd (outer_head reconnect s b st)). opens_stream m"
  by (auto simp: outer_head_def not_streaming_def opens_stream_def Let_def split: if_splits)

lemma stream_ctl_step_opening:
  assumes "not_streaming st" "stream_ctl_step reconnect ev st = (st', out)"
  shows "(out = [] \<longrightarrow> not_streaming st') \<and> (\<forall>m \<in> set out. opens_stream m)"
proof -
  have "(snd (stream_ctl_step reconnect ev st) = [] \<longrightarrow> not_streaming (fst (stream_ctl_step reconnect ev st))) \<and>
      (\<forall>m \<in> set (snd (stream_ctl_step reconnect ev st)). opens_stream m)"
  proof (cases ev)
    case (Notified s b)
    then show ?thesis using assms(1) outer_head_quiet [of reconnect s b st]
      by (cases "sc_phase st") (auto simp: not_streaming_def)
  next
    case (Connected r s b)
    then show ?thesis using assms(1)
      by (cases "sc_phase st"; cases r)
        (auto simp: not_streaming_def opens_stream_def connect_failed_def outer_head_def Let_def split: option.splits if_splits)
  next
    case (Item it s b)
    then show ?thesis using assms(1) by (cases "sc_phase st") (auto simp: not_streaming_def)
  qed
  then show ?thesis using assms(2) by simp
qed

lemma stream_ctl_run_opening:
  "not_streaming st \<Longrightarrow> snd (stream_ctl_run reconnect evs st) \<noteq> [] \<Longrightarrow> opens_stream (hd (snd (stream_ctl_run reconnect evs st)))"
proof (induction evs arbitrary: st)
  case (Cons ev evs)
  obtain st1 out where s: "stream_ctl_step reconnect ev st = (st1, out)" by (rule prod.exhaust)
  note o = stream_ctl_step_opening [OF Cons.prems(1) s]
  show ?case
  proof (cases "out = []")
    case True
    then have "not_streaming st1" using o by simp
    then show ?thesis using Cons.IH Cons.prems(2) s True by (simp add: Let_def split: prod.splits)
  next
    case False
    then have "opens_stream (hd out)" using o by simp
    then show ?thesis using s False by (simp add: Let_def split: prod.splits)
  qed
qed simp

section \<open>Properties\<close>


definition demo_reconnect :: ConfigSourceStreamReconnect where
  "demo_reconnect = \<lparr>rc_backoff_init = 100000000, rc_backoff_max = 1000000000, rc_from_slot_max_attempts = 2\<rparr>"

definition demo_ctl_events :: "unit stream_ctl_event list" where
  "demo_ctl_events = [Notified 7 True, Connected (Some (Err ''down'')) 7 True, Connected (Some (Err ''down'')) 7 True,
     Notified 7 True, Connected None 7 True]"


text \<open>
  C31. A node that no longer has the slot is not asked for ever: when connecting keeps
  failing, the last attempt allowed, and no earlier one, asks the write thread to catch up, and the source
  then waits for it.
\<close>

theorem failed_resumes_require_catchup:
  assumes "sc_phase st = Connecting (Some s)" and "sc_from_slot_attempts st < rc_from_slot_max_attempts c"
    and "rc_from_slot_max_attempts c < 256" and "sc_backoff_duration st = Some d" and "d \<le> rc_backoff_max c"
    and "2 * rc_backoff_max c < u64_modulus * 1000000000" and "0 < confirmed_slot"
    and "n \<le> rc_from_slot_max_attempts c - sc_from_slot_attempts st"
  shows "\<exists>st'. stream_ctl_run (Some c) (replicate n (Connected (Some e) confirmed_slot True)) st =
      (st', if n = rc_from_slot_max_attempts c - sc_from_slot_attempts st then [CatchupRequired] else []) \<and>
    sc_from_slot_attempts st' = sc_from_slot_attempts st + n \<and>
    sc_phase st' = (if n = rc_from_slot_max_attempts c - sc_from_slot_attempts st then AwaitCatchup None else Connecting (Some s))"
  using assms
proof (induction n arbitrary: st d)
  case (Suc n)
  have na: "next_attempts st = Suc (sc_from_slot_attempts st)" using Suc.prems(2,3) next_attempts_less by simp
  have m: "from_slot_max_attempts (Some c) = rc_from_slot_max_attempts c" by (simp add: from_slot_max_attempts_def)
  have dd: "duration_double d = Some (2 * d)" using Suc.prems(5,6) by (simp add: duration_double_def)
  let ?st = "st\<lparr>sc_from_slot_attempts := Suc (sc_from_slot_attempts st), sc_backoff_duration := Some (min (rc_backoff_max c) (2 * d))\<rparr>"
  show ?case
  proof (cases "Suc (sc_from_slot_attempts st) = rc_from_slot_max_attempts c")
    case True
    then have "n = 0" using Suc.prems(8) by simp
    then show ?thesis using Suc.prems(1,4,7) True na m dd
      by (simp add: connect_failed_def outer_head_def Let_def)
  next
    case False
    then have step: "stream_ctl_step (Some c) (Connected (Some e) confirmed_slot True) st = (?st, [])"
      using Suc.prems(1,2,4) na m dd by (simp add: connect_failed_def Let_def)
    have pr: "sc_phase ?st = Connecting (Some s)" "sc_from_slot_attempts ?st < rc_from_slot_max_attempts c"
      "sc_backoff_duration ?st = Some (min (rc_backoff_max c) (2 * d))" "min (rc_backoff_max c) (2 * d) \<le> rc_backoff_max c"
      "n \<le> rc_from_slot_max_attempts c - sc_from_slot_attempts ?st"
      using Suc.prems False by auto
    have e: "(Suc n = rc_from_slot_max_attempts c - sc_from_slot_attempts st) = (n = rc_from_slot_max_attempts c - sc_from_slot_attempts ?st)"
      "sc_from_slot_attempts st + Suc n = sc_from_slot_attempts ?st + n"
      using Suc.prems(2) by auto
    show ?thesis
      using Suc.IH [OF pr(1,2) Suc.prems(3) pr(3,4) Suc.prems(6,7) pr(5)]
      unfolding e by (auto simp: step Let_def simp del: stream_ctl_step.simps)
  qed
qed simp

theorem failed_resumes_require_catchup_witness:
  "\<exists>st'. stream_ctl_run (Some demo_reconnect) (replicate 2 (Connected (Some (Err ''down'')) 7 True) :: unit stream_ctl_event list)
      \<lparr>sc_backoff_duration = Some 1000000000, sc_from_slot_attempts = 0, sc_phase = Connecting (Some 8)\<rparr> =
    (st', [CatchupRequired]) \<and> sc_phase st' = AwaitCatchup None"
  using failed_resumes_require_catchup [of "\<lparr>sc_backoff_duration = Some 1000000000, sc_from_slot_attempts = 0, sc_phase = Connecting (Some 8)\<rparr>"
      8 demo_reconnect 1000000000 7 2 "Err ''down''"]
  by (auto simp: demo_reconnect_def)

end
