(* ===== verification/Alp_Write.thy ===== *)
theory Alp_Write
  imports Alp_Rocksdb Alp_Memory Alp_Connect
begin

text \<open>
  The write thread (src/src/storage/write.rs): what it loads at the start, the requests for blocks
  over HTTP, and the loop that takes the messages of the stream and the fetched blocks and
  stores the blocks in the order of their slots.

  The loop of \<open>start2\<close> waits in one \<open>select!\<close>; \<open>write_step\<close> is one iteration, given what the
  \<open>select!\<close> returned. Two more things are decided outside of the program and enter with the
  event: the answers of the HTTP client to the attempts of a request, and for each block that is
  pushed how its I/O ends and when its indexes are written (\<open>pushes\<close>). The catch-up loop waits
  inside of an iteration; its events are a list, and the iteration is not over (\<open>None\<close>) when the
  list is used up first.

  Of the variables, those that are only logged are left out.
\<close>

section \<open>HttpBlocks\<close>

text \<open>
  \<open>requests\<close> are the running tasks, each with the arguments of \<open>get_block\<close>; the set \<open>inprogress\<close> is a
  list without repetitions.
\<close>

record HttpBlocks =
  hb_concurrency :: nat
  hb_getblock_max_retries :: nat
  hb_getblock_backoff_init :: nat
  hb_inprogress :: "Slot list"
  hb_requests :: "(Slot \<times> bool) list"

definition HttpBlocks_new :: "nat \<Rightarrow> nat \<Rightarrow> nat \<Rightarrow> HttpBlocks" where
  "HttpBlocks_new concurrency max_retries backoff_init =
     \<lparr>hb_concurrency = concurrency, hb_getblock_max_retries = max_retries, hb_getblock_backoff_init = backoff_init,
      hb_inprogress = [], hb_requests = []\<rparr>"

definition http_is_full :: "HttpBlocks \<Rightarrow> bool" where
  "http_is_full hb \<longleftrightarrow> hb_concurrency hb \<le> length (hb_requests hb)"

definition fetch :: "Slot \<Rightarrow> bool \<Rightarrow> HttpBlocks \<Rightarrow> HttpBlocks" where
  "fetch slot httpget hb =
     (if slot \<in> set (hb_inprogress hb) then hb
      else hb\<lparr>hb_inprogress := slot # hb_inprogress hb, hb_requests := hb_requests hb @ [(slot, httpget)]\<rparr>)"

text \<open>
  The task of a request, given the answers to its attempts: what it returns, \<open>TaskPanic\<close> when it
  panics; \<open>None\<close> as long as it is not over.
\<close>

datatype 'e task_end =
    TaskOk "'e BlockWithBinary option"
  | TaskErr "GetBlockError HttpSourceConnectedError"
  | TaskPanic

fun fetch_task ::
  "nat \<Rightarrow> nat \<Rightarrow> (GetBlockError HttpSourceConnectedError + 'e BlockWithBinary) list \<Rightarrow> 'e task_end option" where
  "fetch_task max_retries backoff_wait [] = None"
| "fetch_task max_retries backoff_wait (answer # answers) =
     (case answer of
        Inr block \<Rightarrow> Some (TaskOk (Some block))
      | Inl SendError \<Rightarrow> Some (TaskErr SendError)
      | Inl (SourceError (SlotSkipped s)) \<Rightarrow> Some (TaskOk None)
      | Inl error \<Rightarrow>
          if max_retries = 0 then Some (TaskErr error)
          else (case duration_double backoff_wait of
                  None \<Rightarrow> Some TaskPanic
                | Some d \<Rightarrow> fetch_task (max_retries - 1) d answers))"

datatype 'e http_poll =
    PollPending
  | PollEnd
  | PollItem "(Slot \<times> 'e BlockWithBinary option) result"

text \<open>\<open>poll_next\<close>, when the \<open>index\<close>-th task is the one that is ready; \<open>answers\<close> are those for each slot.\<close>

type_synonym 'e answers = "Slot \<Rightarrow> (GetBlockError HttpSourceConnectedError + 'e BlockWithBinary) list"

definition http_poll_next ::
  "nat \<Rightarrow> 'e answers \<Rightarrow> HttpBlocks \<Rightarrow> 'e http_poll \<times> HttpBlocks" where
  "http_poll_next index answers hb =
     (if \<not> index < length (hb_requests hb) then (PollPending, hb)
      else
        let slot = fst (hb_requests hb ! index)
        in case fetch_task (hb_getblock_max_retries hb) (hb_getblock_backoff_init hb) (answers slot) of
             None \<Rightarrow> (PollPending, hb)
           | Some result \<Rightarrow>
               let hb = hb\<lparr>hb_requests := take index (hb_requests hb) @ drop (Suc index) (hb_requests hb)\<rparr>
               in (case result of
                     TaskOk block \<Rightarrow>
                       (PollItem (Inr (slot, block)), hb\<lparr>hb_inprogress := removeAll slot (hb_inprogress hb)\<rparr>)
                   | TaskErr SendError \<Rightarrow> (PollEnd, hb)
                   | TaskErr error \<Rightarrow> (PollItem (Inl (Err ''failed to get confirmed block'')), hb)
                   | TaskPanic \<Rightarrow> (PollItem (Inl (Err ''failed to join spawned task'')), hb)))"

text \<open>
  The loops \<open>while wanted(slot) && !is_full() { fetch(slot, true); slot = next(slot) }\<close>. A pass
  either adds a request or meets a slot in progress, which bounds their number.
\<close>

fun request_loop ::
  "nat \<Rightarrow> (Slot \<Rightarrow> bool) \<Rightarrow> (Slot \<Rightarrow> Slot) \<Rightarrow> Slot \<Rightarrow> HttpBlocks \<Rightarrow> (Slot \<times> HttpBlocks) option" where
  "request_loop 0 wanted nxt slot hb = None"
| "request_loop (Suc fuel) wanted nxt slot hb =
     (if wanted slot \<and> \<not> http_is_full hb
      then request_loop fuel wanted nxt (nxt slot) (fetch slot True hb)
      else Some (slot, hb))"

definition request_fuel :: "HttpBlocks \<Rightarrow> nat" where
  "request_fuel hb = Suc (hb_concurrency hb + length (hb_inprogress hb))"

section \<open>The state of the write thread\<close>

type_synonym 'e block_queue = "(Slot, 'e BlockWithBinary option) hmap"

record ('e, 'db) writer =
  wr_store :: "('e, 'db) block_store"
  wr_http :: HttpBlocks
  wr_queued_back :: "'e block_queue"
  wr_queued_front :: "'e block_queue"
  wr_next_confirmed_slot :: Slot
  wr_memory :: "'e StorageMemory"
  wr_next_back_slot :: "Slot option"
  wr_next_back_request_slot :: Slot
  wr_backfill_upto :: "Slot option"
  wr_stream_start :: nat

definition sync_send :: "'e ReadWriteSyncMessage \<Rightarrow> ('e, 'db) block_store \<Rightarrow> ('e, 'db) block_store" where
  "sync_send m st = st\<lparr>st_blocks := send_sync m (st_blocks st)\<rparr>"

type_synonym slots_answer = "ClientError HttpSourceConnectedError + Slot \<times> Slot"

definition load_confirmed_slot :: "slots_answer \<Rightarrow> ('e, 'db) block_store \<Rightarrow> Slot result \<times> ('e, 'db) block_store" where
  "load_confirmed_slot answer st =
     (case answer of
        Inl e \<Rightarrow> (Inl (Err ''get_slots''), st)
      | Inr (finalized_slot, confirmed_slot) \<Rightarrow>
          (Inr confirmed_slot,
           if ss_first_available (wb_stored_slots (st_blocks st)) \<le> finalized_slot
           then sync_send (SlotFinalized finalized_slot) st else st))"

type_synonym pushes = "Slot \<Rightarrow> nat \<times> io_outcome"

text \<open>
  The loop \<open>while let Some(block) = queue.remove(&slot)\<close>, which stores the queued blocks from \<open>slot\<close> on.
  It gives the slot it stopped at and whether it stored a block.
\<close>

lemma hm_remove_shorter: "hm_get m k = Some v \<Longrightarrow> length (hm_remove k m) < length m"
  unfolding hm_remove_def by (rule length_filter_less [of "(k, v)"]) (auto simp: hm_get_def dest: map_of_SomeD)

function save_front ::
  "'e codec \<Rightarrow> 'db kv \<Rightarrow> pushes \<Rightarrow> bool \<Rightarrow> Slot \<Rightarrow> 'e block_queue \<Rightarrow> ('e, 'db) block_store \<Rightarrow>
     ((Slot \<times> bool) result \<times> 'e block_queue \<times> ('e, 'db) block_store) option" where
  "save_front c kv pushes pushed slot q st =
     (case hm_get q slot of
        None \<Rightarrow> Some (Inr (slot, pushed), q, st)
      | Some block \<Rightarrow>
          (case store_push_block_front (fst (pushes slot)) c kv (snd (pushes slot)) slot block
                  (sync_send (BlockConfirmed slot block) st) of
             None \<Rightarrow> None
           | Some (Inl e, st) \<Rightarrow> Some (Inl e, hm_remove slot q, st)
           | Some (Inr _, st) \<Rightarrow> save_front c kv pushes True (add64 slot 1) (hm_remove slot q) st))"
  by pat_completeness auto
termination
  by (relation "measure (\<lambda>(c, kv, pushes, pushed, slot, q, st). length q)") (auto simp: hm_remove_shorter)

section \<open>Catching up over HTTP\<close>

text \<open>
  One pass of the catch-up loop: whether two seconds have passed, with the answer of the node about
  its slots, and the task of \<open>http_blocks\<close> that is ready.
\<close>

record 'e catchup_input =
  ci_refresh :: "slots_answer option"
  ci_index :: nat
  ci_answers :: "'e answers"

text \<open>The value of the result says whether the thread goes on.\<close>

fun catchup_loop ::
  "'e codec \<Rightarrow> 'db kv \<Rightarrow> pushes \<Rightarrow> Slot \<Rightarrow> Slot \<Rightarrow> 'e catchup_input list \<Rightarrow> ('e, 'db) writer \<Rightarrow>
     (bool result \<times> ('e, 'db) writer) option" where
  "catchup_loop c kv pushes next_request_slot next_database_slot [] w =
     (if wr_next_confirmed_slot w \<le> add64 next_database_slot 2
      then Some (Inr True, w\<lparr>wr_next_confirmed_slot := next_database_slot\<rparr>) else None)"
| "catchup_loop c kv pushes next_request_slot next_database_slot (inp # inps) w =
     (let (r, w) = (case ci_refresh inp of
          None \<Rightarrow> (Inr (), w)
        | Some answer \<Rightarrow>
            (case load_confirmed_slot answer (wr_store w) of
               (Inl e, st) \<Rightarrow> (Inl e, w\<lparr>wr_store := st\<rparr>)
             | (Inr slot, st) \<Rightarrow> (Inr (), w\<lparr>wr_store := st, wr_next_confirmed_slot := slot\<rparr>)))
      in case r of
         Inl e \<Rightarrow> Some (Inl e, w)
       | Inr _ \<Rightarrow>
      if wr_next_confirmed_slot w \<le> add64 next_database_slot 2
      then Some (Inr True, w\<lparr>wr_next_confirmed_slot := next_database_slot\<rparr>)
      else
        case request_loop (request_fuel (wr_http w)) (\<lambda>slot. slot \<le> wr_next_confirmed_slot w) (\<lambda>slot. add64 slot 1)
               next_request_slot (wr_http w) of
          None \<Rightarrow> None
        | Some (next_request_slot, hb) \<Rightarrow>
            (case http_poll_next (ci_index inp) (ci_answers inp) hb of
               (PollPending, hb) \<Rightarrow> None
             | (PollEnd, hb) \<Rightarrow> Some (Inr False, w\<lparr>wr_http := hb\<rparr>)
             | (PollItem (Inl e), hb) \<Rightarrow> Some (Inl e, w\<lparr>wr_http := hb\<rparr>)
             | (PollItem (Inr (slot, block)), hb) \<Rightarrow>
                 let q = (if next_database_slot \<le> slot then hm_insert slot block (wr_queued_front w)
                          else wr_queued_front w)
                 in (case save_front c kv pushes False next_database_slot q (wr_store w) of
                       None \<Rightarrow> None
                     | Some (Inl e, q, st) \<Rightarrow> Some (Inl e, w\<lparr>wr_http := hb, wr_queued_front := q, wr_store := st\<rparr>)
                     | Some (Inr (next_database_slot, _), q, st) \<Rightarrow>
                         catchup_loop c kv pushes next_request_slot next_database_slot inps
                           (w\<lparr>wr_http := hb, wr_queued_front := q, wr_store := st\<rparr>))))"

text \<open>The first answer is that of the call of \<open>load_confirmed_slot\<close> before the loop.\<close>

definition catchup ::
  "'e codec \<Rightarrow> 'db kv \<Rightarrow> pushes \<Rightarrow> slots_answer \<Rightarrow> 'e catchup_input list \<Rightarrow> ('e, 'db) writer \<Rightarrow>
     (bool result \<times> ('e, 'db) writer) option" where
  "catchup c kv pushes answer inps w =
     (let notify = (\<lambda>w. w\<lparr>wr_stream_start := wr_stream_start w + 1\<rparr>)
      in case get_front_slot (st_blocks (wr_store w)) of
           None \<Rightarrow> Some (Inr True, notify w)
         | Some slot \<Rightarrow>
             (case load_confirmed_slot answer (wr_store w) of
                (Inl e, st) \<Rightarrow> Some (Inl e, w\<lparr>wr_store := st\<rparr>)
              | (Inr next_confirmed_slot, st) \<Rightarrow>
                  let w = w\<lparr>wr_store := st, wr_next_confirmed_slot := next_confirmed_slot\<rparr>
                  in if \<not> add64 slot 1 \<le> next_confirmed_slot then Some (Inl (Err ''node is outdated''), w)
                     else
                       map_option (\<lambda>(r, w). (r, if r = Inr True then notify w else w))
                         (catchup_loop c kv pushes (add64 slot 1) (add64 slot 1) inps w)))"

section \<open>Messages of the stream\<close>

text \<open>What \<open>pop_confirmed\<close> gives goes to the queue, or is requested.\<close>

definition enqueue_confirmed :: "'e MemoryConfirmedBlock \<Rightarrow> ('e, 'db) writer \<Rightarrow> ('e, 'db) writer" where
  "enqueue_confirmed block w =
     (if get_slot block < wr_next_confirmed_slot w then w
      else
        let w = w\<lparr>wr_http := foldl (\<lambda>hb slot. if hm_get (wr_queued_front w) slot = None then fetch slot False hb else hb)
               (wr_http w) [wr_next_confirmed_slot w..<get_slot block]\<rparr>
        in case block of
             MemMissed slot \<Rightarrow> w\<lparr>wr_http := fetch slot False (wr_http w)\<rparr>
           | MemDead slot \<Rightarrow> w\<lparr>wr_queued_front := hm_insert slot None (wr_queued_front w)\<rparr>
           | MemBlock slot b \<Rightarrow> w\<lparr>wr_queued_front := hm_insert slot (Some b) (wr_queued_front w)\<rparr>)"

text \<open>Each pass takes a slot out of the window of the queue, which bounds their number.\<close>

fun drain_confirmed :: "nat \<Rightarrow> ('e, 'db) writer \<Rightarrow> (unit result \<times> ('e, 'db) writer) option" where
  "drain_confirmed 0 w = None"
| "drain_confirmed (Suc fuel) w =
     (case pop_confirmed (wr_memory w) of
        None \<Rightarrow> None
      | Some (Inl e, m) \<Rightarrow> Some (Inl e, w\<lparr>wr_memory := m\<rparr>)
      | Some (Inr None, m) \<Rightarrow> Some (Inr (), w\<lparr>wr_memory := m\<rparr>)
      | Some (Inr (Some block), m) \<Rightarrow> drain_confirmed fuel (enqueue_confirmed block (w\<lparr>wr_memory := m\<rparr>)))"

definition drain_fuel :: "'e StorageMemory \<Rightarrow> nat" where
  "drain_fuel m = (case sm_blocks m of [] \<Rightarrow> 1 | _ \<Rightarrow> Suc (Suc (bi_slot (last (sm_blocks m))) - sm_gen_next_slot m))"

text \<open>The message itself, before the loop over the confirmed blocks.\<close>

fun handle_message ::
  "'e codec \<Rightarrow> 'db kv \<Rightarrow> pushes \<Rightarrow> slots_answer \<Rightarrow> 'e catchup_input list \<Rightarrow> 'e StreamSourceMessage \<Rightarrow>
     ('e, 'db) writer \<Rightarrow> (bool result \<times> ('e, 'db) writer) option" where
  "handle_message c kv pushes answer inps StreamStart w =
     (let w = w\<lparr>wr_memory := StorageMemory_default\<rparr>
      in Some (Inr True, case get_front_slot (st_blocks (wr_store w)) of
           Some slot \<Rightarrow> w\<lparr>wr_next_confirmed_slot := add64 slot 1\<rparr>
         | None \<Rightarrow> w))"
| "handle_message c kv pushes answer inps CatchupRequired w = catchup c kv pushes answer inps w"
| "handle_message c kv pushes answer inps (StreamBlock slot block) w =
     (let (r, m) = add_processed slot block (wr_memory w); w = w\<lparr>wr_memory := m\<rparr>
      in Some (case r of
           Inl e \<Rightarrow> (Inl e, w)
         | Inr _ \<Rightarrow> (Inr True, w\<lparr>wr_store := sync_send (BlockNew slot block) (wr_store w)\<rparr>)))"
| "handle_message c kv pushes answer inps (StreamSlotStatus slot parent status) w =
     (case status of
        StatusDead \<Rightarrow>
          (let (r, m) = set_dead slot (wr_memory w); w = w\<lparr>wr_memory := m\<rparr>
           in Some (case r of
                Inl e \<Rightarrow> (Inl e, w)
              | Inr _ \<Rightarrow> (Inr True, w\<lparr>wr_store := sync_send (BlockDead slot) (wr_store w)\<rparr>)))
      | StatusConfirmed \<Rightarrow>
          (let (r, m) = mem_set_confirmed slot (wr_memory w); w = w\<lparr>wr_memory := m\<rparr>
           in Some (case r of Inl e \<Rightarrow> (Inl e, w) | Inr _ \<Rightarrow> (Inr True, w)))
      | StatusFinalized \<Rightarrow> Some (Inr True, w\<lparr>wr_store := sync_send (SlotFinalized slot) (wr_store w)\<rparr>))"

definition handle_stream ::
  "'e codec \<Rightarrow> 'db kv \<Rightarrow> pushes \<Rightarrow> slots_answer \<Rightarrow> 'e catchup_input list \<Rightarrow> 'e StreamSourceMessage option \<Rightarrow>
     ('e, 'db) writer \<Rightarrow> (bool result \<times> ('e, 'db) writer) option" where
  "handle_stream c kv pushes answer inps message w =
     (case message of
        None \<Rightarrow> Some (Inr False, w)
      | Some m \<Rightarrow>
          (case handle_message c kv pushes answer inps m w of
             Some (Inr True, w) \<Rightarrow>
               map_option (\<lambda>(r, w). (bind_result r (\<lambda>_. Inr True), w)) (drain_confirmed (drain_fuel (wr_memory w)) w)
           | r \<Rightarrow> r))"

section \<open>Blocks over HTTP\<close>

definition handle_http_block :: "Slot \<Rightarrow> 'e BlockWithBinary option \<Rightarrow> ('e, 'db) writer \<Rightarrow> ('e, 'db) writer" where
  "handle_http_block slot block w =
     (if wr_next_confirmed_slot w \<le> slot
      then w\<lparr>wr_queued_front := hm_insert slot block (wr_queued_front w)\<rparr>
      else case wr_next_back_slot w of
          Some next_back_slot \<Rightarrow>
            if slot \<le> next_back_slot \<and> wr_backfill_upto w \<noteq> None
            then w\<lparr>wr_queued_back := hm_insert slot block (wr_queued_back w)\<rparr> else w
        | None \<Rightarrow> w)"

section \<open>Backfilling\<close>

text \<open>The branch of the \<open>match\<close> where the backfilling is under way, down to \<open>sync_to\<close>, at \<open>slot\<close>.\<close>

definition backfill_step ::
  "'e codec \<Rightarrow> 'db kv \<Rightarrow> pushes \<Rightarrow> Slot \<Rightarrow> Slot \<Rightarrow> ('e, 'db) writer \<Rightarrow> (bool result \<times> ('e, 'db) writer) option" where
  "backfill_step c kv pushes sync_to slot w =
     (let next_back_request_slot = (if wr_next_back_request_slot w = u64_MAX then slot else wr_next_back_request_slot w)
      in case request_loop (request_fuel (wr_http w)) (\<lambda>s. sync_to \<le> s) (\<lambda>s. sub64 s 1) next_back_request_slot (wr_http w) of
           None \<Rightarrow> None
         | Some (next_back_request_slot, hb) \<Rightarrow>
             let w = w\<lparr>wr_next_back_request_slot := next_back_request_slot, wr_http := hb\<rparr>
             in case hm_get (wr_queued_back w) slot of
                  None \<Rightarrow> Some (Inr True, w)
                | Some block \<Rightarrow>
                    let w = w\<lparr>wr_queued_back := hm_remove slot (wr_queued_back w), wr_next_back_slot := Some (sub64 slot 1)\<rparr>;
                        finish = (\<lambda>block_added w. if \<not> block_added \<or> slot = sync_to
                                    then w\<lparr>wr_backfill_upto := None, wr_queued_back := []\<rparr> else w)
                    in if Option.bind (get_back_slot (st_blocks (wr_store w))) (\<lambda>x. checked_sub x 1) = Some slot
                       then map_option (\<lambda>(r, st). case r of
                              Inl e \<Rightarrow> (Inl e, w\<lparr>wr_store := st\<rparr>)
                            | Inr block_added \<Rightarrow> (Inr True, finish block_added (w\<lparr>wr_store := st\<rparr>)))
                            (store_push_block_back c kv (snd (pushes slot)) slot block (wr_store w))
                       else Some (Inr True, finish False w))"

definition backfill ::
  "'e codec \<Rightarrow> 'db kv \<Rightarrow> pushes \<Rightarrow> ('e, 'db) writer \<Rightarrow> (bool result \<times> ('e, 'db) writer) option" where
  "backfill c kv pushes w =
     (case (wr_backfill_upto w, wr_next_back_slot w) of
        (Some sync_to, Some slot) \<Rightarrow> backfill_step c kv pushes sync_to slot w
      | (Some sync_to, None) \<Rightarrow>
          Some (Inr True,
            case Option.bind (get_back_slot (st_blocks (wr_store w))) (\<lambda>x. checked_sub x 1) of
              Some slot \<Rightarrow> if sync_to < slot then w\<lparr>wr_next_back_slot := Some slot\<rparr> else w\<lparr>wr_backfill_upto := None\<rparr>
            | None \<Rightarrow> w)
      | _ \<Rightarrow> Some (Inr True, w))"

section \<open>An iteration of the loop\<close>

datatype 'e write_event =
    WeHttp nat "'e answers"
  | WeStream "'e StreamSourceMessage option" slots_answer "'e catchup_input list"
  | WeBackReady
  | WeShutdown

fun select_event ::
  "'e codec \<Rightarrow> 'db kv \<Rightarrow> pushes \<Rightarrow> 'e write_event \<Rightarrow> ('e, 'db) writer \<Rightarrow> (bool result \<times> ('e, 'db) writer) option" where
  "select_event c kv pushes (WeHttp index answers) w =
     (case http_poll_next index answers (wr_http w) of
        (PollPending, hb) \<Rightarrow> None
      | (PollEnd, hb) \<Rightarrow> Some (Inr False, w\<lparr>wr_http := hb\<rparr>)
      | (PollItem (Inl e), hb) \<Rightarrow> Some (Inl e, w\<lparr>wr_http := hb\<rparr>)
      | (PollItem (Inr (slot, block)), hb) \<Rightarrow> Some (Inr True, handle_http_block slot block (w\<lparr>wr_http := hb\<rparr>)))"
| "select_event c kv pushes (WeStream message answer inps) w = handle_stream c kv pushes answer inps message w"
| "select_event c kv pushes WeBackReady w =
     (case wr_next_back_slot w of
        Some slot \<Rightarrow> if hm_get (wr_queued_back w) slot \<noteq> None then Some (Inr True, w) else None
      | None \<Rightarrow> None)"
| "select_event c kv pushes WeShutdown w = Some (Inr False, w)"

text \<open>After the \<open>select!\<close>: new blocks are saved, then the backfilling goes on.\<close>

definition save_and_backfill ::
  "'e codec \<Rightarrow> 'db kv \<Rightarrow> pushes \<Rightarrow> ('e, 'db) writer \<Rightarrow> (bool result \<times> ('e, 'db) writer) option" where
  "save_and_backfill c kv pushes w =
     (case save_front c kv pushes False (wr_next_confirmed_slot w) (wr_queued_front w) (wr_store w) of
        None \<Rightarrow> None
      | Some (Inl e, q, st) \<Rightarrow> Some (Inl e, w\<lparr>wr_queued_front := q, wr_store := st\<rparr>)
      | Some (Inr (next_confirmed_slot, push_block_front), q, st) \<Rightarrow>
          let w = w\<lparr>wr_queued_front := q, wr_store := st, wr_next_confirmed_slot := next_confirmed_slot\<rparr>
          in if push_block_front \<and> wr_next_back_request_slot w \<noteq> u64_MAX then Some (Inr True, w)
             else backfill c kv pushes w)"

definition write_step ::
  "'e codec \<Rightarrow> 'db kv \<Rightarrow> pushes \<Rightarrow> 'e write_event \<Rightarrow> ('e, 'db) writer \<Rightarrow> (bool result \<times> ('e, 'db) writer) option" where
  "write_step c kv pushes ev w =
     (case select_event c kv pushes ev w of
        Some (Inr True, w) \<Rightarrow> save_and_backfill c kv pushes w
      | r \<Rightarrow> r)"

section \<open>Before the loop\<close>

text \<open>The slots to revert.\<close>

fun revert_slots :: "'e codec \<Rightarrow> 'db kv \<Rightarrow> VecSide \<Rightarrow> nat \<Rightarrow> ('e, 'db) block_store \<Rightarrow> unit result \<times> ('e, 'db) block_store" where
  "revert_slots c kv side 0 st = (Inr (), st)"
| "revert_slots c kv side (Suc n) st =
     (case (case side of Back \<Rightarrow> get_back_slot (st_blocks st) | Front \<Rightarrow> get_front_slot (st_blocks st)) of
        None \<Rightarrow> (Inr (), st)
      | Some slot \<Rightarrow>
          (case store_pop_block c kv side st of
             (Inl e, st) \<Rightarrow> (Inl e, st)
           | (Inr _, st) \<Rightarrow> revert_slots c kv side n st))"

text \<open>\<open>start2\<close> up to its loop.\<close>

definition write_start2 ::
  "'e codec \<Rightarrow> 'db kv \<Rightarrow> nat option \<Rightarrow> nat option \<Rightarrow> Slot option \<Rightarrow> HttpBlocks \<Rightarrow>
     ClientError HttpSourceConnectedError + Slot \<Rightarrow> slots_answer \<Rightarrow> ('e, 'db) block_store \<Rightarrow>
     ('e, 'db) writer result \<times> ('e, 'db) block_store" where
  "write_start2 c kv pop_back pop_front backfill_upto hb first_available answer st =
     (case revert_slots c kv Back (case pop_back of Some n \<Rightarrow> n | None \<Rightarrow> 0) st of
        (Inl e, st) \<Rightarrow> (Inl e, st)
      | (Inr _, st) \<Rightarrow>
     (case revert_slots c kv Front (case pop_front of Some n \<Rightarrow> n | None \<Rightarrow> 0) st of
        (Inl e, st) \<Rightarrow> (Inl e, st)
      | (Inr _, st) \<Rightarrow>
     (case (case backfill_upto of
              None \<Rightarrow> Inr ()
            | Some sync_to \<Rightarrow> (case first_available of
                  Inl e \<Rightarrow> Inl (Err ''get_first_available_block'')
                | Inr slot \<Rightarrow> ensure (slot \<le> sync_to) ''trying to backfill to unavailable slot'')) of
        Inl e \<Rightarrow> (Inl e, st)
      | Inr _ \<Rightarrow>
     (case load_confirmed_slot answer st of
        (Inl e, st) \<Rightarrow> (Inl e, st)
      | (Inr next_confirmed_slot, st) \<Rightarrow>
          (Inr \<lparr>wr_store = st, wr_http = hb, wr_queued_back = [], wr_queued_front = [],
                wr_next_confirmed_slot = next_confirmed_slot, wr_memory = StorageMemory_default,
                wr_next_back_slot = None, wr_next_back_request_slot = u64_MAX, wr_backfill_upto = backfill_upto,
                wr_stream_start = 1\<rparr>, st)))))"

fun traverse_result :: "('a \<Rightarrow> 'b result) \<Rightarrow> 'a list \<Rightarrow> 'b list result" where
  "traverse_result f [] = Inr []"
| "traverse_result f (x # xs) = bind_result (f x) (\<lambda>y. bind_result (traverse_result f xs) (\<lambda>ys. Inr (y # ys)))"

text \<open>
  The recent blocks are read from the files and decoded: \<open>decode\<close> is prost's decoder and the
  conversion of the Solana crate.
\<close>

definition load_recent_blocks ::
  "solana \<Rightarrow> 'e codec \<Rightarrow> proto \<Rightarrow> (bytes \<Rightarrow> 'e ConfirmedBlock result) \<Rightarrow> (string \<Rightarrow> unit result) \<Rightarrow> bool \<Rightarrow>
     StorageFilesSyncInit \<Rightarrow> disk \<Rightarrow> StoredBlock list \<Rightarrow> (Slot \<times> 'e BlockWithBinary) list result" where
  "load_recent_blocks so c p decode opened index_vote init d stored =
     bind_result
       (traverse_result (\<lambda>b. bind_result (StorageFilesRead_open opened init) (\<lambda>files.
          bind_result (files_read files (sb_storage_id b) (sb_offset b) (sb_size b) d) (\<lambda>buf. Inr (sb_slot b, buf)))) stored)
       (traverse_result (\<lambda>(slot, buf). bind_result (decode buf) (\<lambda>block.
          Inr (slot, new_from_confirmed_block_and_slot so c p block slot index_vote))))"

text \<open>
  \<open>start\<close>, up to the call of \<open>start2\<close>: the index is rebuilt, the files are opened, and the read threads get
  the first message. \<open>readers\<close> is whether there is one to receive it.
\<close>

definition write_start ::
  "solana \<Rightarrow> 'e codec \<Rightarrow> proto \<Rightarrow> 'db kv \<Rightarrow> (bytes \<Rightarrow> 'e ConfirmedBlock result) \<Rightarrow> (string \<Rightarrow> unit result) \<Rightarrow>
     (string \<Rightarrow> unit result) \<Rightarrow> bool \<Rightarrow> nat \<Rightarrow> ConfigStorageFile list \<Rightarrow> nat \<Rightarrow> bool \<Rightarrow> StoredSlots \<Rightarrow>
     'e ReadWriteSyncMessage list \<Rightarrow> disk \<Rightarrow> 'db \<Rightarrow> (('e, 'db) block_store \<times> StorageFilesSyncInit) result option" where
  "write_start so c p kv decode opened alloc index_vote mrb files mx readers slots tx d db =
     (case bind_result (spawn_slots c kv db) (\<lambda>blocks. StoredBlocksWrite_new blocks mx slots tx) of
        Inl e \<Rightarrow> Some (Inl e)
      | Inr blocks \<Rightarrow>
     (case StorageFilesWrite_open opened alloc files blocks d of
        (Inl e, d) \<Rightarrow> Some (Inl e)
      | (Inr (storage_files, init), d) \<Rightarrow>
          let blocks = (case get_front_slot blocks of
                Some slot \<Rightarrow> blocks\<lparr>wb_stored_slots := confirmed_store slot (wb_stored_slots blocks)\<rparr>
              | None \<Rightarrow> blocks)
          in case (get_recent_blocks mrb blocks, to_read blocks) of
               (Some stored, Some read) \<Rightarrow>
                 (case load_recent_blocks so c p decode opened index_vote init d stored of
                    Inl e \<Rightarrow> Some (Inl e)
                  | Inr recent_blocks \<Rightarrow>
                      if \<not> readers then Some (Inl (Err ''failed to send read/write init message''))
                      else Some (Inr (\<lparr>st_blocks = send_sync (Init read recent_blocks) blocks, st_files = storage_files,
                                      st_disk = d, st_db = db\<rparr>, init)))
             | _ \<Rightarrow> None))"

end
