(* ===== verification/Alp_Write_Laws.thy ===== *)
theory Alp_Write_Laws
  imports Alp_Write Alp_Store Alp_Read
begin

text \<open>
  What the proofs about the write thread rest on: the loops that request blocks end, the queue of
  the stream holds what the stream sent, the protocol of the messages to the read threads
  (\<open>sync_spec\<close>, an abstract receiver: a list of stored blocks and the slot that is announced), and the
  invariant of the write thread.
\<close>

section \<open>The loops that request blocks\<close>

lemma fetch_sel [simp]:
  "hb_concurrency (fetch slot h hb) = hb_concurrency hb"
  "set (hb_inprogress (fetch slot h hb)) = insert slot (set (hb_inprogress hb))"
  by (auto simp: fetch_def)

lemma fetch_length:
  "length (hb_inprogress (fetch slot h hb)) + length (hb_requests hb) = length (hb_inprogress hb) + length (hb_requests (fetch slot h hb))"
  by (simp add: fetch_def)

text \<open>After \<open>n\<close> passes without an end the first \<open>n\<close> slots are in progress.\<close>

lemma request_loop_passes:
  assumes "request_loop fuel wanted nxt slot hb = None" and "n \<le> fuel"
  shows "\<exists>hb'. request_loop (fuel - n) wanted nxt ((nxt ^^ n) slot) hb' = None \<and>
    (\<forall>k < n. (nxt ^^ k) slot \<in> set (hb_inprogress hb')) \<and> hb_concurrency hb' = hb_concurrency hb \<and>
    length (hb_inprogress hb') + length (hb_requests hb) = length (hb_inprogress hb) + length (hb_requests hb') \<and>
    (0 < n \<longrightarrow> length (hb_requests hb') \<le> hb_concurrency hb)"
  using assms
proof (induction n)
  case 0
  then show ?case by (intro exI [of _ hb]) simp
next
  case (Suc n)
  then obtain hb' where i: "request_loop (fuel - n) wanted nxt ((nxt ^^ n) slot) hb' = None"
    "\<forall>k < n. (nxt ^^ k) slot \<in> set (hb_inprogress hb')" "hb_concurrency hb' = hb_concurrency hb"
    "length (hb_inprogress hb') + length (hb_requests hb) = length (hb_inprogress hb) + length (hb_requests hb')"
    by auto
  have "fuel - n = Suc (fuel - Suc n)" using Suc.prems(2) by simp
  with i(1) have s: "\<not> http_is_full hb'" "request_loop (fuel - Suc n) wanted nxt ((nxt ^^ Suc n) slot) (fetch ((nxt ^^ n) slot) True hb') = None"
    by (auto split: if_splits)
  have "length (hb_requests (fetch ((nxt ^^ n) slot) True hb')) \<le> hb_concurrency hb"
    using s(1) i(3) by (auto simp: http_is_full_def fetch_def)
  moreover have "length (hb_inprogress (fetch ((nxt ^^ n) slot) True hb')) + length (hb_requests hb) =
      length (hb_inprogress hb) + length (hb_requests (fetch ((nxt ^^ n) slot) True hb'))"
    using i(4) fetch_length [of "(nxt ^^ n) slot" True hb'] by simp
  ultimately show ?case using i(2,3) s(2)
    by (intro exI [of _ "fetch ((nxt ^^ n) slot) True hb'"]) (auto simp: less_Suc_eq)
qed

lemma request_loop_returns:
  assumes inj: "\<And>i j. i < j \<Longrightarrow> j \<le> hb_concurrency hb + length (hb_inprogress hb) \<Longrightarrow> (nxt ^^ i) slot \<noteq> (nxt ^^ j) slot"
  shows "\<exists>s hb'. request_loop (request_fuel hb) wanted nxt slot hb = Some (s, hb')"
proof (rule ccontr)
  let ?n = "request_fuel hb"
  assume "\<not> ?thesis"
  then have none: "request_loop ?n wanted nxt slot hb = None" by (cases "request_loop ?n wanted nxt slot hb") auto
  have pos: "0 < ?n" by (simp add: request_fuel_def)
  obtain hb' :: HttpBlocks where h: "\<forall>k < ?n. (nxt ^^ k) slot \<in> set (hb_inprogress hb')"
    "length (hb_inprogress hb') + length (hb_requests hb) = length (hb_inprogress hb) + length (hb_requests hb')"
    "0 < ?n \<longrightarrow> length (hb_requests hb') \<le> hb_concurrency hb"
    using request_loop_passes [OF none order_refl] by (elim exE conjE) (rule that; assumption)
  note hb' = h(1,2) h(3) [rule_format, OF pos]
  have "inj_on (\<lambda>k. (nxt ^^ k) slot) {..<?n}"
  proof (rule linorder_inj_onI)
    fix i j assume "i < j" "i \<in> {..<?n}" "j \<in> {..<?n}"
    then show "(nxt ^^ i) slot \<noteq> (nxt ^^ j) slot" using inj [of i j] by (simp add: request_fuel_def)
  qed auto
  then have "?n \<le> card (set (hb_inprogress hb'))"
    using card_inj_on_le [of "\<lambda>k. (nxt ^^ k) slot" "{..<?n}" "set (hb_inprogress hb')"] hb'(1) by auto
  then show False using card_length [of "hb_inprogress hb'"] hb'(2,3) by (simp add: request_fuel_def)
qed

lemma add64_pow: "((\<lambda>s. add64 s 1) ^^ k) slot = (if k = 0 then slot else (slot + k) mod u64_modulus)"
  by (induction k) (auto simp: add64_def mod_simps)

lemma sub64_pow: "k \<le> u64_MAX \<Longrightarrow> slot < u64_modulus \<Longrightarrow> ((\<lambda>s. sub64 s 1) ^^ k) slot = (slot + (u64_modulus - k)) mod u64_modulus"
proof (induction k)
  case (Suc k)
  have "((\<lambda>s. sub64 s 1) ^^ Suc k) slot = ((slot + (u64_modulus - k)) mod u64_modulus + u64_MAX) mod u64_modulus"
    using Suc by (simp add: sub64_def)
  also have "\<dots> = (slot + (u64_modulus - k) + u64_MAX) mod u64_modulus" by (rule mod_add_left_eq)
  also have "slot + (u64_modulus - k) + u64_MAX = slot + (u64_modulus - Suc k) + u64_modulus" using Suc.prems(1) by simp
  finally show ?case by simp
qed simp

lemma request_up_returns:
  assumes "hb_concurrency hb + length (hb_inprogress hb) < u64_MAX" "slot < u64_modulus"
  shows "\<exists>s hb'. request_loop (request_fuel hb) wanted (\<lambda>s. add64 s 1) slot hb = Some (s, hb')"
proof (rule request_loop_returns)
  fix i j assume a: "i < j" "j \<le> hb_concurrency hb + length (hb_inprogress hb)"
  have "(slot + i) mod u64_modulus \<noteq> (slot + j) mod u64_modulus"
    using a assms(1) mod_eq_dvd_iff_nat [of "slot + i" "slot + j" u64_modulus] nat_dvd_not_less [of "j - i" u64_modulus] by auto
  then show "((\<lambda>s. add64 s 1) ^^ i) slot \<noteq> ((\<lambda>s. add64 s 1) ^^ j) slot"
    unfolding add64_pow using a assms(2) by auto
qed

lemma request_down_returns:
  assumes "hb_concurrency hb + length (hb_inprogress hb) < u64_MAX" "slot < u64_modulus"
  shows "\<exists>s hb'. request_loop (request_fuel hb) wanted (\<lambda>s. sub64 s 1) slot hb = Some (s, hb')"
proof (rule request_loop_returns)
  fix i j assume a: "i < j" "j \<le> hb_concurrency hb + length (hb_inprogress hb)"
  have "(slot + (u64_modulus - j)) mod u64_modulus \<noteq> (slot + (u64_modulus - i)) mod u64_modulus"
  proof -
    have "slot + (u64_modulus - j) \<le> slot + (u64_modulus - i)" "slot + (u64_modulus - i) - (slot + (u64_modulus - j)) = j - i"
      using a assms(1) by auto
    then show ?thesis using mod_eq_dvd_iff_nat [of "slot + (u64_modulus - j)" "slot + (u64_modulus - i)" u64_modulus]
      nat_dvd_not_less [of "j - i" u64_modulus] a assms(1) by auto
  qed
  then show "((\<lambda>s. sub64 s 1) ^^ i) slot \<noteq> ((\<lambda>s. sub64 s 1) ^^ j) slot"
    using sub64_pow [of i slot] sub64_pow [of j slot] a assms by (auto simp del: One_nat_def)
qed

section \<open>The queue of the stream\<close>

definition mem_cells :: "'e StorageMemory \<Rightarrow> (Slot \<times> 'e BlockWithBinary) set" where
  "mem_cells m = {(bi_slot c, b) | c b. c \<in> set (sm_blocks m) \<and> bi_block c = Some b}"

lemma add_slot_cells: "add_slot slot m = (r, m') \<Longrightarrow> mem_cells m' = mem_cells m"
  by (auto simp: add_slot_def mem_cells_def foldl_push_front foldl_push_back BlockInfo_new_def Let_def split: if_splits)

lemma update_cell_cells:
  assumes "i < length (sm_blocks m)"
  shows "mem_cells (update_cell i f m) \<subseteq> mem_cells m \<union>
    {(bi_slot (f (sm_blocks m ! i)), b) | b. bi_block (f (sm_blocks m ! i)) = Some b}"
  using set_update_subset_insert [of "sm_blocks m" i "f (sm_blocks m ! i)"]
  by (fastforce simp: mem_cells_def update_cell_def)

lemma add_processed_cells:
  assumes "mem_inv m" "valid_slot slot" "add_processed slot b m = (Inr (), m')"
  shows "mem_cells m' \<subseteq> insert (slot, b) (mem_cells m)"
proof -
  obtain lo hi where w: "mem_window m lo hi" using assms(1) by (auto simp: mem_inv_def)
  show ?thesis
  proof (rule add_slot_window [OF w])
    show "0 < slot" "slot < u64_MAX" using assms(2) by (simp_all add: valid_slot_def)
  next
    assume "add_slot slot m = (Inr None, m)"
    then show ?thesis using assms(3) by (auto simp: add_processed_def)
  next
    fix i m1 lo' hi' assume a: "add_slot slot m = (Inr (Some i), m1)" "mem_window m1 lo' hi'" "i < hi' - lo'" "lo' + i = slot"
    have "i < length (sm_blocks m1)" "bi_slot (sm_blocks m1 ! i) = slot"
      using a mem_window_length [OF a(2)] mem_window_nth [OF a(2,3)] by simp_all
    then show ?thesis using update_cell_cells [of i m1] add_slot_cells [OF a(1)] a(1) assms(3)
      by (fastforce simp: add_processed_def)
  qed
qed

lemma update_cell_keeps:
  assumes "i < length (sm_blocks m)" "\<And>c. bi_slot (f c) = bi_slot c" "\<And>c. bi_block (f c) = bi_block c"
  shows "mem_cells (update_cell i f m) \<subseteq> mem_cells m"
proof -
  have "{(bi_slot (f (sm_blocks m ! i)), b) | b. bi_block (f (sm_blocks m ! i)) = Some b} \<subseteq> mem_cells m"
    using assms nth_mem by (fastforce simp: mem_cells_def)
  then show ?thesis using update_cell_cells [OF assms(1), of f] by blast
qed

lemma add_slot_index: "add_slot slot m = (Inr (Some i), m1) \<Longrightarrow> i < length (sm_blocks m1)"
  by (auto simp: add_slot_def Let_def split: if_splits)

lemma set_dead_cells:
  assumes "set_dead slot m = (Inr (), m')"
  shows "mem_cells m' \<subseteq> mem_cells m"
proof -
  obtain r m1 where a: "add_slot slot m = (r, m1)" by (rule prod.exhaust)
  show ?thesis
  proof (cases "\<exists>i. r = Inr (Some i)")
    case True
    then obtain i where i: "r = Inr (Some i)" by blast
    then show ?thesis using assms a update_cell_keeps [OF add_slot_index, of slot m i m1 "bi_dead_update (\<lambda>_. True)"] add_slot_cells [OF a]
      by (auto simp: set_dead_def split: if_splits)
  next
    case False
    then show ?thesis using assms a add_slot_cells [OF a] by (auto simp: set_dead_def split: sum.splits option.splits)
  qed
qed

lemma set_confirmed_cells:
  assumes "mem_set_confirmed slot m = (Inr (), m')"
  shows "mem_cells m' \<subseteq> mem_cells m"
proof -
  obtain r m1 where a: "add_slot slot m = (r, m1)" by (rule prod.exhaust)
  have upd: "mem_cells (x\<lparr>sm_confirmed := s\<rparr>) = mem_cells x" for x s by (simp add: mem_cells_def)
  show ?thesis
  proof (cases "\<exists>i. r = Inr (Some i)")
    case True
    then obtain i where i: "r = Inr (Some i)" by blast
    then show ?thesis using assms a update_cell_keeps [OF add_slot_index, of slot m i m1 "bi_confirmed_update (\<lambda>_. True)"] add_slot_cells [OF a]
      by (auto simp: mem_set_confirmed_def upd split: if_splits)
  next
    case False
    then show ?thesis using assms a add_slot_cells [OF a] by (auto simp: mem_set_confirmed_def split: sum.splits option.splits if_splits)
  qed
qed

text \<open>A pop gives the next slot; its block is one that the queue held.\<close>

lemma pop_confirmed_emits:
  assumes "mem_inv m"
  obtains (none) "pop_confirmed m = Some (Inr None, m)"
  | (emit) c m' where "pop_confirmed m = Some (Inr (Some c), m')" "get_slot c = sm_gen_next_slot m" "0 < sm_gen_next_slot m"
      "sm_gen_next_slot m' = Suc (sm_gen_next_slot m)" "sm_gen_next_slot m \<le> bi_slot (last (sm_blocks m))"
      "sm_gen_next_slot m < u64_MAX" "mem_cells m' \<subseteq> mem_cells m"
      "\<And>s b. c = MemBlock s b \<Longrightarrow> (s, b) \<in> mem_cells m" "sm_blocks m \<noteq> []"
      "sm_blocks m' \<noteq> [] \<Longrightarrow> bi_slot (last (sm_blocks m')) = bi_slot (last (sm_blocks m))"
proof -
  obtain lo hi where w: "mem_window m lo hi" using assms by (auto simp: mem_inv_def)
  show thesis
  proof (cases rule: pop_confirmed_cases [OF w, case_names none emit])
    case none
    then show thesis using that(1) by blast
  next
    case (emit i j)
    note p = pop_at_window [OF w emit(3,4)]
    have jl: "j < length (sm_blocks m)" using emit(3) by (simp add: chain_end_def)
    then obtain c cs where c: "sm_blocks m = c # cs" by (cases "sm_blocks m") auto
    have ls: "bi_slot (last (sm_blocks m)) = hi - 1"
      using mem_window_nth [OF w, of "hi - lo - 1"] mem_window_length [OF w] last_conv_nth [of "sm_blocks m"] jl
        mem_window_cons(2) [OF w c] by fastforce
    have k: "mem_cells (m\<lparr>sm_blocks := kill_prefix j (sm_blocks m)\<rparr>) \<subseteq> mem_cells m"
      using jl by (auto simp: mem_cells_def kill_prefix_eq dest: in_set_dropD in_set_takeD)
    have pf: "mem_cells (snd (pop_front_block x)) \<subseteq> mem_cells x" "mem_cells (snd (pop_front_missed x)) \<subseteq> mem_cells x" for x :: "'a StorageMemory"
      by (cases "sm_blocks x"; auto simp: mem_cells_def pop_front_block_def pop_front_missed_def Let_def)+
    have "mem_cells (snd (pop_at lo j m)) \<subseteq> mem_cells m"
      using k pf(1) [of "m\<lparr>sm_blocks := kill_prefix j (sm_blocks m)\<rparr>"] pf(2) [of m]
      by (auto simp: pop_at_def split: option.splits if_splits)
    moreover have "(s, b) \<in> mem_cells m" if "fst (pop_at lo j m) = MemBlock s b" for s b
      using pop_at_block [OF w emit(3) that] c mem_window_cons(1) [OF w c] by (auto simp: mem_cells_def)
    moreover obtain lo' where w': "mem_window ((snd (pop_at lo j m))\<lparr>sm_gen_next_slot := Suc (sm_gen_next_slot m)\<rparr>) lo' hi"
      using p(4) by blast
    moreover have "bi_slot (last (sm_blocks (snd (pop_at lo j m)))) = hi - 1" if "sm_blocks (snd (pop_at lo j m)) \<noteq> []"
      using mem_window_nth [OF w', of "hi - lo' - 1"] mem_window_length [OF w'] that
        length_greater_0_conv [of "sm_blocks (snd (pop_at lo j m))"] by (simp add: last_conv_nth)
    moreover have "sm_gen_next_slot m \<le> hi - 1" "sm_gen_next_slot m < u64_MAX"
      using w mem_window_cons(2) [OF w c] by (auto simp: mem_window_def)
    ultimately show thesis
      using that(2) [OF emit(5)] p(1,2) emit(4) ls c by (simp add: mem_cells_def)
  qed
qed

section \<open>The protocol of the messages\<close>

text \<open>
  The abstract receiver: the stored blocks, at most \<open>n\<close>, and the slot announced by the last
  \<open>BlockConfirmed\<close>. A message that does not fit is refused.
\<close>

fun sync_spec ::
  "nat \<Rightarrow> StoredBlock list \<times> Slot option \<Rightarrow> 'e ReadWriteSyncMessage \<Rightarrow> (StoredBlock list \<times> Slot option) option" where
  "sync_spec n (xs, p) (Init _ _) = None"
| "sync_spec n (xs, p) (BlockNew _ _) = Some (xs, p)"
| "sync_spec n (xs, p) (BlockDead _) = Some (xs, p)"
| "sync_spec n (xs, p) (BlockConfirmed slot _) = Some (xs, Some slot)"
| "sync_spec n (xs, p) (SlotFinalized _) = Some (xs, p)"
| "sync_spec n (xs, p) ConfirmedBlockPopBack = (if xs = [] then None else Some (tl xs, p))"
| "sync_spec n (xs, p) ConfirmedBlockPopFront = (if xs = [] then None else Some (butlast xs, p))"
| "sync_spec n (xs, p) (ConfirmedBlockPushBack b) =
     (if length xs < n \<and> sb_exists b then Some (b # xs, p) else None)"
| "sync_spec n (xs, p) (ConfirmedBlockPushFront b) =
     (if length xs < n \<and> sb_exists b \<and> p = Some (sb_slot b) then Some (xs @ [b], None) else None)"

fun sync_spec_run ::
  "nat \<Rightarrow> StoredBlock list \<times> Slot option \<Rightarrow> 'e ReadWriteSyncMessage list \<Rightarrow> (StoredBlock list \<times> Slot option) option" where
  "sync_spec_run n s [] = Some s"
| "sync_spec_run n s (m # ms) = Option.bind (sync_spec n s m) (\<lambda>s. sync_spec_run n s ms)"

lemma sync_spec_run_append:
  "sync_spec_run n s (ms @ ms') = Option.bind (sync_spec_run n s ms) (\<lambda>s. sync_spec_run n s ms')"
  by (induction ms arbitrary: s) (auto simp: bind_assoc)

lemma sync_spec_pops:
  "k \<le> length xs \<Longrightarrow> sync_spec_run n (xs, p) (replicate k ConfirmedBlockPopBack) = Some (drop k xs, p)"
proof (induction k arbitrary: xs)
  case (Suc k)
  then show ?case by (cases xs) auto
qed simp

text \<open>From \<open>st\<close> to \<open>st'\<close> the messages took the receiver from \<open>xs\<close> to \<open>ys\<close>, with nothing announced before and after.\<close>

definition synced :: "('e, 'db) block_store \<Rightarrow> StoredBlock list \<Rightarrow> ('e, 'db) block_store \<Rightarrow> StoredBlock list \<Rightarrow> bool" where
  "synced st xs st' ys \<longleftrightarrow> length (wb_blocks (st_blocks st')) = length (wb_blocks (st_blocks st)) \<and>
     (\<exists>ms. wb_sync_tx (st_blocks st') = wb_sync_tx (st_blocks st) @ ms \<and>
       sync_spec_run (length (wb_blocks (st_blocks st))) (xs, None) ms = Some (ys, None))"

lemma synced_refl [simp, intro]: "synced st xs st xs"
  by (simp add: synced_def)

lemma synced_trans [trans]: "synced st xs st1 ys \<Longrightarrow> synced st1 ys st2 zs \<Longrightarrow> synced st xs st2 zs"
  by (auto simp: synced_def sync_spec_run_append)

lemma sync_send_sel [simp]:
  "st_files (sync_send m st) = st_files st" "st_disk (sync_send m st) = st_disk st" "st_db (sync_send m st) = st_db st"
  "wb_blocks (st_blocks (sync_send m st)) = wb_blocks (st_blocks st)"
  "wb_sync_tx (st_blocks (sync_send m st)) = wb_sync_tx (st_blocks st) @ [m]"
  "wb_tail (st_blocks (sync_send m st)) = wb_tail (st_blocks st)" "wb_head (st_blocks (sync_send m st)) = wb_head (st_blocks st)"
  by (simp_all add: sync_send_def send_sync_def)

lemma store_inv_send [simp]: "store_inv c view healthy (sync_send m st) xs \<longleftrightarrow> store_inv c view healthy st xs"
  by (simp add: store_inv_def wb_rep_def)

lemma synced_send:
  "sync_spec (length (wb_blocks (st_blocks st))) (xs, None) m = Some (xs, None) \<Longrightarrow> synced st xs (sync_send m st) xs"
  by (simp add: synced_def)

section \<open>The invariant of the write thread\<close>

definition queue_ok :: "'e block_queue \<Rightarrow> bool" where
  "queue_ok q \<longleftrightarrow> (\<forall>s block. hm_get q s = Some block \<longrightarrow> pushable s block)"

definition mem_ok :: "'e StorageMemory \<Rightarrow> bool" where
  "mem_ok m \<longleftrightarrow> (\<exists>out. mem_trace out m) \<and> (\<forall>(s, b) \<in> mem_cells m. pushable s (Some b))"

text \<open>
  Before the first message of the stream nothing is queued or requested; from then on the next
  slot to store is the one after the last stored block.
\<close>

definition writer_ok ::
  "'e codec \<Rightarrow> ('db \<Rightarrow> kv_view) \<Rightarrow> ('db \<Rightarrow> bool) \<Rightarrow> bool \<Rightarrow> ('e, 'db) writer \<Rightarrow> StoredBlock list \<Rightarrow> bool" where
  "writer_ok c view healthy started w xs \<longleftrightarrow>
     store_inv c view healthy (wr_store w) xs \<and> files_typed (st_files (wr_store w)) \<and>
     queue_ok (wr_queued_front w) \<and> queue_ok (wr_queued_back w) \<and> mem_ok (wr_memory w) \<and>
     (if started then xs \<noteq> [] \<longrightarrow> wr_next_confirmed_slot w = Suc (sb_slot (last xs))
      else wr_queued_front w = [] \<and> hb_requests (wr_http w) = [] \<and> wr_next_back_slot w = None)"

text \<open>What is asked of the outside: slots below \<open>u64::MAX\<close>, values of their types, parents below their blocks.\<close>

definition answers_ok :: "'e answers \<Rightarrow> bool" where
  "answers_ok a \<longleftrightarrow> (\<forall>s. a s \<noteq> [] \<longrightarrow> s < u64_MAX) \<and> (\<forall>s b. Inr b \<in> set (a s) \<longrightarrow> pushable s (Some b))"

fun message_ok :: "'e StreamSourceMessage \<Rightarrow> bool" where
  "message_ok (StreamBlock slot b) \<longleftrightarrow> valid_slot slot \<and> bl_parent_slot b < slot \<and> pushable slot (Some b)"
| "message_ok (StreamSlotStatus slot _ _) \<longleftrightarrow> valid_slot slot"
| "message_ok _ \<longleftrightarrow> True"

fun event_ok :: "bool \<Rightarrow> 'e write_event \<Rightarrow> bool" where
  "event_ok started (WeHttp i a) \<longleftrightarrow> answers_ok a"
| "event_ok started (WeStream m answer inps) \<longleftrightarrow>
     (\<forall>x. m = Some x \<longrightarrow> message_ok x \<and> (started \<or> opens_stream x)) \<and> (\<forall>inp \<in> set inps. answers_ok (ci_answers inp))"
| "event_ok started _ \<longleftrightarrow> True"

lemma queue_ok_simps [simp]:
  "queue_ok []" "queue_ok q \<Longrightarrow> queue_ok (hm_remove s q)" "queue_ok q \<Longrightarrow> pushable s block \<Longrightarrow> queue_ok (hm_insert s block q)"
  by (auto simp: queue_ok_def)

lemma pushable_None [simp]: "pushable s None \<longleftrightarrow> s < u64_MAX"
  by (simp add: pushable_def)

lemma fetch_task_ok:
  assumes "fetch_task n d as = Some (TaskOk block)"
  shows "as \<noteq> [] \<and> (\<forall>b. block = Some b \<longrightarrow> Inr b \<in> set as)"
  using assms
  by (induction as arbitrary: n d)
    (auto split: sum.splits HttpSourceConnectedError.splits GetBlockError.splits if_splits option.splits)

lemma http_poll_ok:
  assumes "answers_ok a" "http_poll_next i a hb = (PollItem (Inr (slot, block)), hb')"
  shows "pushable slot block"
proof -
  have r: "fetch_task (hb_getblock_max_retries hb) (hb_getblock_backoff_init hb) (a slot) = Some (TaskOk block)"
    using assms(2) by (auto simp: http_poll_next_def Let_def split: if_splits option.splits task_end.splits HttpSourceConnectedError.splits)
  then show ?thesis using fetch_task_ok [OF r] assms(1) by (cases block) (auto simp: answers_ok_def)
qed

lemma load_confirmed_synced:
  assumes "load_confirmed_slot answer st = (r, st')"
  shows "synced st xs st' xs" "store_inv c view healthy st' ys \<longleftrightarrow> store_inv c view healthy st ys" "st_files st' = st_files st"
  using assms by (auto simp: load_confirmed_slot_def intro: synced_send split: sum.splits prod.splits if_splits)

end
