(* ===== verification/Alp_Write_Run.thy ===== *)
theory Alp_Write_Run
  imports Alp_Write_Laws
begin

text \<open>
  What the write thread guarantees. The blocks are stored in the order of their slots, each with the slot after
  the last stored one; the messages for the read threads always follow the protocol
  \<open>sync_spec\<close>, and a read thread that takes them implements it, so it never stops on one and its
  copy of the index is the write thread's.
\<close>

section \<open>Storing the queued blocks\<close>

context store_laws
begin

lemma save_front_ok:
  assumes "store_inv c view healthy st xs" "files_typed (st_files st)" "queue_ok q"
    and "xs \<noteq> [] \<longrightarrow> slot = Suc (sb_slot (last xs))"
  shows "\<exists>r q' st'. save_front c kv pushes pushed slot q st = Some (r, q', st') \<and>
    (\<forall>slot' p. r = Inr (slot', p) \<longrightarrow> (\<exists>ys. store_inv c view healthy st' ys \<and> files_typed (st_files st') \<and> queue_ok q' \<and>
      (ys \<noteq> [] \<longrightarrow> slot' = Suc (sb_slot (last ys))) \<and> (xs \<noteq> [] \<longrightarrow> ys \<noteq> []) \<and> synced st xs st' ys))"
  using assms
proof (induction "length q" arbitrary: q st xs slot pushed rule: less_induct)
  case less
  note save_front.simps [simp del]
  show ?case
  proof (cases "hm_get q slot")
    case None
    then show ?thesis using less.prems by (auto simp: save_front.simps)
  next
    case (Some block)
    have pb: "pushable slot block" using less.prems(3) Some by (auto simp: queue_ok_def)
    let ?st = "sync_send (BlockConfirmed slot block) st"
    have inv: "store_inv c view healthy ?st xs" "files_typed (st_files ?st)" using less.prems by simp_all
    obtain r st1 where p: "store_push_block_front (fst (pushes slot)) c kv (snd (pushes slot)) slot block ?st = Some (r, st1)"
      using store_push_total(2) [OF inv] by blast
    show ?thesis
    proof (cases r)
      case (Inl e)
      then show ?thesis using Some p by (auto simp: save_front.simps [of c kv pushes pushed slot])
    next
      case (Inr u)
      then obtain n loc where n: "files_typed (st_files st1)" "length (wb_blocks (st_blocks st1)) = length (wb_blocks (st_blocks st))"
        "n \<le> length xs" "store_inv c view healthy st1 (drop n xs @ [pushed_block slot block loc])"
        "wb_sync_tx (st_blocks st1) = wb_sync_tx (st_blocks st) @ BlockConfirmed slot block # replicate n ConfirmedBlockPopBack @
          [ConfirmedBlockPushFront (pushed_block slot block loc)]"
        using store_push_front_inv [OF inv pb, of "fst (pushes slot)" "snd (pushes slot)" st1] p by auto
      let ?xs = "drop n xs @ [pushed_block slot block loc]"
      have "length ?xs \<le> length (wb_blocks (st_blocks st1))"
        using n(4) ring_repD(3) unfolding store_inv_def wb_rep_def by blast
      then have "synced st xs st1 ?xs"
        using n(2,3,5) by (auto simp: synced_def sync_spec_run_append sync_spec_pops)
      moreover have "add64 slot 1 = Suc slot" using pb by (simp add: pushable_def)
      moreover obtain r' q' st' where "save_front c kv pushes True (Suc slot) (hm_remove slot q) st1 = Some (r', q', st') \<and>
        (\<forall>slot' p. r' = Inr (slot', p) \<longrightarrow> (\<exists>ys. store_inv c view healthy st' ys \<and> files_typed (st_files st') \<and> queue_ok q' \<and>
          (ys \<noteq> [] \<longrightarrow> slot' = Suc (sb_slot (last ys))) \<and> (?xs \<noteq> [] \<longrightarrow> ys \<noteq> []) \<and> synced st1 ?xs st' ys))"
        using less.hyps [OF hm_remove_shorter [OF Some] n(4,1), of "Suc slot" True] less.prems(3) by fastforce
      ultimately show ?thesis
        using Some p Inr by (auto simp: save_front.simps [of c kv pushes pushed slot]) (blast intro: synced_trans)
    qed
  qed
qed

end

section \<open>Catching up\<close>

context store_laws
begin

lemma catchup_loop_ok:
  assumes "store_inv c view healthy (wr_store w) xs" "files_typed (st_files (wr_store w))" "queue_ok (wr_queued_front w)"
    and "xs \<noteq> []" "nds = Suc (sb_slot (last xs))" "\<forall>inp \<in> set inps. answers_ok (ci_answers inp)"
    and "catchup_loop c kv pushes nrs nds inps w = Some (Inr True, w')"
  shows "\<exists>ys hb q st n. store_inv c view healthy st ys \<and> files_typed (st_files st) \<and> queue_ok q \<and> ys \<noteq> [] \<and>
    n = Suc (sb_slot (last ys)) \<and> synced (wr_store w) xs st ys \<and>
    w' = w\<lparr>wr_store := st, wr_http := hb, wr_queued_front := q, wr_next_confirmed_slot := n\<rparr>"
  using assms
proof (induction inps arbitrary: w xs nrs nds)
  case Nil
  then have w': "w' = w\<lparr>wr_next_confirmed_slot := nds\<rparr>" by (auto split: if_splits)
  then have "w' = w\<lparr>wr_store := wr_store w, wr_http := wr_http w, wr_queued_front := wr_queued_front w, wr_next_confirmed_slot := nds\<rparr>"
    by simp
  then show ?case using Nil.prems synced_refl by blast
next
  case (Cons inp inps)
  obtain r w1 where r: "(case ci_refresh inp of None \<Rightarrow> (Inr (), w) | Some answer \<Rightarrow>
            (case load_confirmed_slot answer (wr_store w) of
               (Inl e, st) \<Rightarrow> (Inl e, w\<lparr>wr_store := st\<rparr>)
             | (Inr slot, st) \<Rightarrow> (Inr (), w\<lparr>wr_store := st, wr_next_confirmed_slot := slot\<rparr>))) = (r, w1)"
    by (rule prod.exhaust)
  have r1: "r = Inr ()" using Cons.prems(7) r by (cases r) auto
  obtain st0 n0 where w1: "w1 = w\<lparr>wr_store := st0, wr_next_confirmed_slot := n0\<rparr>" "synced (wr_store w) xs st0 xs"
    "store_inv c view healthy st0 xs" "st_files st0 = st_files (wr_store w)"
  proof (cases "ci_refresh inp")
    case None
    then have "w1 = w\<lparr>wr_store := wr_store w, wr_next_confirmed_slot := wr_next_confirmed_slot w\<rparr>" using r by simp
    then show thesis using that Cons.prems(1) by blast
  next
    case (Some answer)
    obtain rl st where l: "load_confirmed_slot answer (wr_store w) = (rl, st)" by (rule prod.exhaust)
    obtain n where "w1 = w\<lparr>wr_store := st, wr_next_confirmed_slot := n\<rparr>" using r Some l r1 by (cases rl) auto
    then show thesis using that [of n st] load_confirmed_synced [OF l] Cons.prems(1) by blast
  qed
  note run = Cons.prems(7) [unfolded catchup_loop.simps r r1 Let_def prod.case sum.case]
  show ?case
  proof (cases "wr_next_confirmed_slot w1 \<le> add64 nds 2")
    case True
    then have "w' = w\<lparr>wr_store := st0, wr_http := wr_http w, wr_queued_front := wr_queued_front w, wr_next_confirmed_slot := nds\<rparr>"
      using run w1(1) by simp
    then show ?thesis using w1(2-4) Cons.prems(2-5) by metis
  next
    case False
    obtain nrs1 hb1 where rl: "request_loop (request_fuel (wr_http w1)) (\<lambda>slot. slot \<le> wr_next_confirmed_slot w1)
        (\<lambda>slot. add64 slot 1) nrs (wr_http w1) = Some (nrs1, hb1)"
      using run False by (auto split: option.splits)
    obtain po hb2 where po: "http_poll_next (ci_index inp) (ci_answers inp) hb1 = (po, hb2)" by (rule prod.exhaust)
    note run1 = run [unfolded if_not_P [OF False] rl option.case prod.case po]
    obtain slot block where it: "po = PollItem (Inr (slot, block))"
      using run1 by (cases po) (auto split: sum.splits)
    have "answers_ok (ci_answers inp)" using Cons.prems(6) by simp
    then have pb: "pushable slot block" using http_poll_ok po it by blast
    define q where "q = (if nds \<le> slot then hm_insert slot block (wr_queued_front w1) else wr_queued_front w1)"
    have q: "queue_ok q" using pb Cons.prems(3) w1(1) by (simp add: q_def)
    obtain rs q1 st1 where s: "save_front c kv pushes False nds q (wr_store w1) = Some (rs, q1, st1)"
      "\<forall>slot' p. rs = Inr (slot', p) \<longrightarrow> (\<exists>ys. store_inv c view healthy st1 ys \<and> files_typed (st_files st1) \<and> queue_ok q1 \<and>
        (ys \<noteq> [] \<longrightarrow> slot' = Suc (sb_slot (last ys))) \<and> (xs \<noteq> [] \<longrightarrow> ys \<noteq> []) \<and> synced (wr_store w1) xs st1 ys)"
      using save_front_ok [of "wr_store w1" xs q nds pushes False] q w1 Cons.prems(2,5) by auto
    note run2 = run1 [unfolded it http_poll.case sum.case prod.case q_def [symmetric] s(1) option.case]
    obtain nds1 p1 where n1: "rs = Inr (nds1, p1)" using run2 by (cases rs) auto
    let ?w = "w1\<lparr>wr_http := hb2, wr_queued_front := q1, wr_store := st1\<rparr>"
    have run3: "catchup_loop c kv pushes nrs1 nds1 inps ?w = Some (Inr True, w')" using run2 n1 by simp
    obtain ys where ys: "store_inv c view healthy st1 ys" "files_typed (st_files st1)" "queue_ok q1" "ys \<noteq> []"
      "nds1 = Suc (sb_slot (last ys))" "synced (wr_store w1) xs st1 ys"
      using s(2) n1 Cons.prems(4) by blast
    obtain zs hb q st n where zs: "store_inv c view healthy st zs" "files_typed (st_files st)" "queue_ok q" "zs \<noteq> []"
      "n = Suc (sb_slot (last zs))" "synced st1 ys st zs" "w' = ?w\<lparr>wr_store := st, wr_http := hb, wr_queued_front := q, wr_next_confirmed_slot := n\<rparr>"
      using Cons.IH [of ?w ys nds1 nrs1] ys run3 Cons.prems(6) by auto
    moreover have "synced (wr_store w) xs st zs"
      using w1(1,2) ys(6) zs(6) by (auto intro: synced_trans)
    moreover have "w' = w\<lparr>wr_store := st, wr_http := hb, wr_queued_front := q, wr_next_confirmed_slot := n\<rparr>"
      using zs(7) w1(1) by simp
    ultimately show ?thesis by blast
  qed
qed

lemma catchup_ok:
  assumes ok: "writer_ok c view healthy started w xs" and inps: "\<forall>inp \<in> set inps. answers_ok (ci_answers inp)"
    and run: "catchup c kv pushes answer inps w = Some (Inr True, w')"
  shows "\<exists>ys. writer_ok c view healthy True w' ys \<and> synced (wr_store w) xs (wr_store w') ys"
proof (cases "get_front_slot (st_blocks (wr_store w))")
  case None
  have "wb_rep (st_blocks (wr_store w)) xs" using ok by (simp add: writer_ok_def store_inv_def)
  then have "xs = []" using None get_front_slot_rep by (fastforce split: if_splits)
  moreover have "w' = w\<lparr>wr_stream_start := wr_stream_start w + 1\<rparr>" using run None by (auto simp: catchup_def)
  ultimately show ?thesis using ok by (intro exI [of _ xs]) (auto simp: writer_ok_def)
next
  case (Some slot)
  have inv: "store_inv c view healthy (wr_store w) xs" using ok by (simp add: writer_ok_def)
  then have "wb_rep (st_blocks (wr_store w)) xs" by (simp add: store_inv_def)
  then have xs: "xs \<noteq> []" "slot = sb_slot (last xs)" using Some get_front_slot_rep by (fastforce split: if_splits)+
  have "stored_ok (last xs)" using inv xs(1) by (simp add: store_inv_def)
  then have sl: "add64 slot 1 = Suc (sb_slot (last xs))" using xs(2) by (simp add: stored_ok_def)
  obtain r st where l: "load_confirmed_slot answer (wr_store w) = (r, st)" by (rule prod.exhaust)
  obtain ncs where r: "r = Inr ncs" using run Some l by (cases r) (auto simp: catchup_def Let_def)
  let ?w = "w\<lparr>wr_store := st, wr_next_confirmed_slot := ncs\<rparr>"
  obtain w1 where w1: "catchup_loop c kv pushes (add64 slot 1) (add64 slot 1) inps ?w = Some (Inr True, w1)"
      "w' = w1\<lparr>wr_stream_start := wr_stream_start w1 + 1\<rparr>"
    using run Some l r by (auto simp: catchup_def Let_def split: if_splits)
  obtain ys hb q st' n where "store_inv c view healthy st' ys" "files_typed (st_files st')" "queue_ok q" "ys \<noteq> []"
      "n = Suc (sb_slot (last ys))" "synced st xs st' ys" "w1 = ?w\<lparr>wr_store := st', wr_http := hb, wr_queued_front := q, wr_next_confirmed_slot := n\<rparr>"
    using catchup_loop_ok [of ?w xs "add64 slot 1" inps pushes "add64 slot 1" w1] w1(1) inps xs(1) sl ok
      load_confirmed_synced [OF l] by (auto simp: writer_ok_def)
  then show ?thesis using w1(2) ok load_confirmed_synced(1) [OF l, of xs]
    by (intro exI [of _ ys]) (auto simp: writer_ok_def intro: synced_trans)
qed

end

section \<open>Messages of the stream\<close>

lemma mem_ok_inv: "mem_ok m \<Longrightarrow> mem_inv m"
  by (auto simp: mem_ok_def dest!: mem_trace_inv simp: trace_inv_def)

lemma mem_ok_default [simp]: "mem_ok StorageMemory_default"
  by (auto simp: mem_ok_def mem_cells_def StorageMemory_default_def intro: mt_start [unfolded StorageMemory_default_def])

lemma mem_ok_step:
  assumes "mem_ok m" "mem_cells m' \<subseteq> insert (s, b) (mem_cells m)" "pushable s (Some b)" "\<And>out. mem_trace out m \<Longrightarrow> mem_trace (out @ new) m'"
  shows "mem_ok m'"
  using assms by (fastforce simp: mem_ok_def)

lemma mem_ok_cells:
  "mem_ok m \<Longrightarrow> mem_cells m' \<subseteq> mem_cells m \<Longrightarrow> (\<And>out. mem_trace out m \<Longrightarrow> mem_trace (out @ new) m') \<Longrightarrow> mem_ok m'"
  by (fastforce simp: mem_ok_def)

lemma pop_confirmed_mem_ok:
  assumes "mem_ok m" "pop_confirmed m = Some (Inr (Some b), m')" "mem_cells m' \<subseteq> mem_cells m"
  shows "mem_ok m'"
  by (rule mem_ok_cells [OF assms(1,3), of "[b]"]) (rule mt_pop [OF _ assms(2)])

lemma enqueue_sel [simp]:
  "wr_store (enqueue_confirmed b w) = wr_store w" "wr_memory (enqueue_confirmed b w) = wr_memory w"
  "wr_queued_back (enqueue_confirmed b w) = wr_queued_back w" "wr_next_confirmed_slot (enqueue_confirmed b w) = wr_next_confirmed_slot w"
  by (cases b; simp add: enqueue_confirmed_def Let_def)+

lemma enqueue_queue_ok:
  assumes "queue_ok (wr_queued_front w)" "get_slot b < u64_MAX" "\<And>s x. b = MemBlock s x \<Longrightarrow> pushable s (Some x)"
  shows "queue_ok (wr_queued_front (enqueue_confirmed b w))"
  using assms by (cases b) (simp_all add: enqueue_confirmed_def Let_def)

lemma drain_fuel_decr:
  assumes "sm_gen_next_slot m' = Suc (sm_gen_next_slot m)" "sm_gen_next_slot m \<le> bi_slot (last (sm_blocks m))" "sm_blocks m \<noteq> []"
    "sm_blocks m' \<noteq> [] \<Longrightarrow> bi_slot (last (sm_blocks m')) = bi_slot (last (sm_blocks m))"
  shows "Suc (drain_fuel m') \<le> drain_fuel m"
  using assms by (cases "sm_blocks m"; cases "sm_blocks m'") (auto simp: drain_fuel_def)

lemma drain_fuel_pos: "0 < drain_fuel m"
  by (simp add: drain_fuel_def split: list.splits)

text \<open>The loop over the confirmed blocks ends, and it never panics.\<close>

lemma drain_ok:
  assumes "writer_ok c view healthy True w xs" "drain_fuel (wr_memory w) \<le> fuel"
  shows "\<exists>w'. drain_confirmed fuel w = Some (Inr (), w') \<and> writer_ok c view healthy True w' xs \<and> wr_store w' = wr_store w"
  using assms
proof (induction fuel arbitrary: w)
  case 0
  then show ?case using drain_fuel_pos [of "wr_memory w"] by simp
next
  case (Suc fuel)
  have mok: "mem_ok (wr_memory w)" using Suc.prems(1) by (simp add: writer_ok_def)
  show ?case
  proof (rule pop_confirmed_emits [OF mem_ok_inv [OF mok]])
    assume "pop_confirmed (wr_memory w) = Some (Inr None, wr_memory w)"
    then show ?thesis using Suc.prems(1) by simp
  next
    fix b m'
    assume a: "pop_confirmed (wr_memory w) = Some (Inr (Some b), m')" "get_slot b = sm_gen_next_slot (wr_memory w)"
      "sm_gen_next_slot m' = Suc (sm_gen_next_slot (wr_memory w))"
      "sm_gen_next_slot (wr_memory w) \<le> bi_slot (last (sm_blocks (wr_memory w)))" "sm_gen_next_slot (wr_memory w) < u64_MAX"
      "mem_cells m' \<subseteq> mem_cells (wr_memory w)" "sm_blocks (wr_memory w) \<noteq> []"
    assume cell: "\<And>s x. b = MemBlock s x \<Longrightarrow> (s, x) \<in> mem_cells (wr_memory w)"
      and l: "sm_blocks m' \<noteq> [] \<Longrightarrow> bi_slot (last (sm_blocks m')) = bi_slot (last (sm_blocks (wr_memory w)))"
    let ?w = "enqueue_confirmed b (w\<lparr>wr_memory := m'\<rparr>)"
    have "pushable s (Some x)" if "b = MemBlock s x" for s x using cell [OF that] mok by (auto simp: mem_ok_def)
    then have "queue_ok (wr_queued_front ?w)"
      using enqueue_queue_ok [of "w\<lparr>wr_memory := m'\<rparr>" b] a(2,5) Suc.prems(1) by (simp add: writer_ok_def)
    moreover have "mem_ok m'" by (rule pop_confirmed_mem_ok [OF mok a(1,6)])
    ultimately have "writer_ok c view healthy True ?w xs" using Suc.prems(1) by (simp add: writer_ok_def)
    moreover have "drain_fuel (wr_memory ?w) \<le> fuel"
      using drain_fuel_decr [OF a(3,4,7) l] Suc.prems(2) by simp
    ultimately show ?thesis using Suc.IH [of ?w] a(1) by auto
  qed
qed

context store_laws
begin

lemma handle_message_ok:
  assumes ok: "writer_ok c view healthy started w xs" and m: "message_ok m" "started \<or> opens_stream m"
    and inps: "\<forall>inp \<in> set inps. answers_ok (ci_answers inp)"
    and run: "handle_message c kv pushes answer inps m w = Some (Inr True, w')"
  shows "\<exists>ys. writer_ok c view healthy True w' ys \<and> synced (wr_store w) xs (wr_store w') ys"
proof (cases m)
  case StreamStart
  have inv: "store_inv c view healthy (wr_store w) xs" using ok by (simp add: writer_ok_def)
  then have "get_front_slot (st_blocks (wr_store w)) = (if xs = [] then None else Some (sb_slot (last xs)))"
    using get_front_slot_rep unfolding store_inv_def by blast
  moreover have "add64 (sb_slot (last xs)) 1 = Suc (sb_slot (last xs))" if "xs \<noteq> []"
    using that inv by (auto simp: store_inv_def stored_ok_def)
  ultimately show ?thesis using ok run StreamStart by (intro exI [of _ xs]) (auto simp: writer_ok_def Let_def)
next
  case CatchupRequired
  then show ?thesis using catchup_ok [OF ok inps] run by simp
next
  case (StreamBlock slot b)
  obtain r m' where a: "add_processed slot b (wr_memory w) = (r, m')" by (rule prod.exhaust)
  have st: "started" using m StreamBlock by (simp add: opens_stream_def)
  have w': "r = Inr ()" "w' = w\<lparr>wr_memory := m', wr_store := sync_send (BlockNew slot b) (wr_store w)\<rparr>"
    using run StreamBlock a by (cases r; auto)+
  have mok: "mem_ok (wr_memory w)" using ok by (simp add: writer_ok_def)
  have "mem_ok m'"
    using mem_ok_step [OF mok add_processed_cells [OF mem_ok_inv [OF mok]], of slot b m' "[]"] m StreamBlock a w'(1)
    by (auto intro: mt_processed)
  then show ?thesis using ok st w'(2) synced_send [of "wr_store w" xs "BlockNew slot b"]
    by (intro exI [of _ xs]) (auto simp: writer_ok_def)
next
  case (StreamSlotStatus slot parent status)
  have st: "started" using m StreamSlotStatus by (simp add: opens_stream_def)
  have v: "valid_slot slot" using m StreamSlotStatus by simp
  have mok: "mem_ok (wr_memory w)" using ok by (simp add: writer_ok_def)
  show ?thesis
  proof (cases status)
    case StatusDead
    obtain r m' where a: "set_dead slot (wr_memory w) = (r, m')" by (rule prod.exhaust)
    have w': "r = Inr ()" "w' = w\<lparr>wr_memory := m', wr_store := sync_send (BlockDead slot) (wr_store w)\<rparr>"
      using run StreamSlotStatus StatusDead a by (cases r; auto)+
    have "mem_ok m'" using mem_ok_cells [OF mok set_dead_cells, of slot m' "[]"] a w'(1) v by (auto intro: mt_dead)
    then show ?thesis using ok st w'(2) synced_send [of "wr_store w" xs "BlockDead slot"]
      by (intro exI [of _ xs]) (auto simp: writer_ok_def)
  next
    case StatusConfirmed
    obtain r m' where a: "mem_set_confirmed slot (wr_memory w) = (r, m')" by (rule prod.exhaust)
    have w': "r = Inr ()" "w' = w\<lparr>wr_memory := m'\<rparr>"
      using run StreamSlotStatus StatusConfirmed a by (cases r; auto)+
    have "mem_ok m'" using mem_ok_cells [OF mok set_confirmed_cells, of slot m' "[]"] a w'(1) v by (auto intro: mt_confirmed)
    then show ?thesis using ok st w'(2) by (intro exI [of _ xs]) (auto simp: writer_ok_def)
  next
    case StatusFinalized
    then show ?thesis using ok st run StreamSlotStatus synced_send [of "wr_store w" xs "SlotFinalized slot"]
      by (intro exI [of _ xs]) (auto simp: writer_ok_def)
  qed
qed

lemma handle_stream_ok:
  assumes ok: "writer_ok c view healthy started w xs" and ev: "event_ok started (WeStream msg answer inps)"
    and run: "handle_stream c kv pushes answer inps msg w = Some (Inr True, w')"
  shows "\<exists>ys. writer_ok c view healthy True w' ys \<and> synced (wr_store w) xs (wr_store w') ys"
proof -
  obtain m where m: "msg = Some m" using run by (cases msg) (auto simp: handle_stream_def)
  obtain w1 where w1: "handle_message c kv pushes answer inps m w = Some (Inr True, w1)"
      "map_option (\<lambda>(r, w). (bind_result r (\<lambda>_. Inr True), w)) (drain_confirmed (drain_fuel (wr_memory w1)) w1) = Some (Inr True, w')"
    using run m by (auto simp: handle_stream_def split: option.splits prod.splits sum.splits bool.splits)
  obtain ys where ys: "writer_ok c view healthy True w1 ys" "synced (wr_store w) xs (wr_store w1) ys"
    using handle_message_ok [OF ok _ _ _ w1(1)] ev m by auto
  then show ?thesis using drain_ok [OF ys(1) order_refl] w1(2) by auto
qed

section \<open>Backfilling\<close>

lemma backfill_step_ok:
  assumes ok: "writer_ok c view healthy True w xs"
    and run: "backfill_step c kv pushes sync_to slot w = Some (Inr True, w')"
  shows "\<exists>ys. writer_ok c view healthy True w' ys \<and> synced (wr_store w) xs (wr_store w') ys"
proof -
  let ?n = "if wr_next_back_request_slot w = u64_MAX then slot else wr_next_back_request_slot w"
  obtain n hb where rl: "request_loop (request_fuel (wr_http w)) (\<lambda>s. sync_to \<le> s) (\<lambda>s. sub64 s 1) ?n (wr_http w) = Some (n, hb)"
    using run by (auto simp: backfill_step_def Let_def split: option.splits)
  note run1 = run [unfolded backfill_step_def Let_def rl option.case prod.case]
  show ?thesis
  proof (cases "hm_get (wr_queued_back w) slot")
    case None
    then show ?thesis using run1 ok by (intro exI [of _ xs]) (auto simp: writer_ok_def)
  next
    case (Some block)
    have pb: "pushable slot block" using ok Some by (auto simp: writer_ok_def queue_ok_def)
    have inv: "store_inv c view healthy (wr_store w) xs" "files_typed (st_files (wr_store w))" using ok by (simp_all add: writer_ok_def)
    let ?cond = "Option.bind (get_back_slot (st_blocks (wr_store w))) (\<lambda>x. checked_sub x 1) = Some slot"
    show ?thesis
    proof (cases ?cond)
      case False
      then show ?thesis using run1 Some ok by (intro exI [of _ xs]) (auto simp: writer_ok_def)
    next
      case True
      have xs: "xs \<noteq> []"
        using True get_back_slot_rep [of "st_blocks (wr_store w)" xs] inv(1) by (auto simp: store_inv_def)
      obtain r st where p: "store_push_block_back c kv (snd (pushes slot)) slot block (wr_store w) = Some (r, st)"
        using store_push_total(1) [OF inv] by blast
      obtain added where r: "r = Inr added" using run1 Some True p by (cases r) auto
      note pi = store_push_back_inv [OF inv pb p [unfolded r]]
      have room: "length ys \<le> length (wb_blocks (st_blocks st))" if "store_inv c view healthy st ys" for ys
        using that ring_repD(3) unfolding store_inv_def wb_rep_def by blast
      obtain ys where ys: "store_inv c view healthy st ys" "files_typed (st_files st)" "ys \<noteq> []" "last ys = last xs"
        "synced (wr_store w) xs st ys"
      proof (cases added)
        case True
        then obtain loc where l: "store_inv c view healthy st (pushed_block slot block loc # xs)"
          "wb_sync_tx (st_blocks st) = wb_sync_tx (st_blocks (wr_store w)) @ [ConfirmedBlockPushBack (pushed_block slot block loc)]"
          using pi by auto
        then show thesis using that [of "pushed_block slot block loc # xs"] pi xs room [OF l(1)] by (simp add: synced_def)
      next
        case False
        then show thesis using that [of xs] pi xs by (auto simp: synced_def)
      qed
      then show ?thesis using run1 Some True p r ok xs by (intro exI [of _ ys]) (auto simp: writer_ok_def)
    qed
  qed
qed

lemma backfill_ok:
  assumes ok: "writer_ok c view healthy True w xs" and run: "backfill c kv pushes w = Some (Inr True, w')"
  shows "\<exists>ys. writer_ok c view healthy True w' ys \<and> synced (wr_store w) xs (wr_store w') ys"
proof (cases "wr_backfill_upto w")
  case None
  then show ?thesis using ok run by (intro exI [of _ xs]) (simp add: backfill_def)
next
  case (Some sync_to)
  show ?thesis
  proof (cases "wr_next_back_slot w")
    case None
    then show ?thesis using ok run Some by (intro exI [of _ xs]) (auto simp: backfill_def writer_ok_def split: option.splits if_splits)
  next
    case (Some slot)
    then show ?thesis using backfill_step_ok [OF ok] run \<open>wr_backfill_upto w = Some sync_to\<close> by (simp add: backfill_def)
  qed
qed

section \<open>An iteration\<close>

lemma save_and_backfill_ok:
  assumes ok: "writer_ok c view healthy True w xs" and run: "save_and_backfill c kv pushes w = Some (Inr True, w')"
  shows "\<exists>ys. writer_ok c view healthy True w' ys \<and> synced (wr_store w) xs (wr_store w') ys"
proof -
  obtain r q st where s: "save_front c kv pushes False (wr_next_confirmed_slot w) (wr_queued_front w) (wr_store w) = Some (r, q, st)"
    "\<forall>slot' p. r = Inr (slot', p) \<longrightarrow> (\<exists>ys. store_inv c view healthy st ys \<and> files_typed (st_files st) \<and> queue_ok q \<and>
      (ys \<noteq> [] \<longrightarrow> slot' = Suc (sb_slot (last ys))) \<and> (xs \<noteq> [] \<longrightarrow> ys \<noteq> []) \<and> synced (wr_store w) xs st ys)"
    using save_front_ok [of "wr_store w" xs "wr_queued_front w" "wr_next_confirmed_slot w" pushes False] ok
    by (auto simp: writer_ok_def)
  obtain n pushed where r: "r = Inr (n, pushed)" using run s(1) by (cases r) (auto simp: save_and_backfill_def)
  let ?w = "w\<lparr>wr_queued_front := q, wr_store := st, wr_next_confirmed_slot := n\<rparr>"
  obtain ys where ys: "writer_ok c view healthy True ?w ys" "synced (wr_store w) xs st ys"
    using s(2) r ok by (auto simp: writer_ok_def)
  show ?thesis
  proof (cases "pushed \<and> wr_next_back_request_slot ?w \<noteq> u64_MAX")
    case True
    then have "w' = ?w" using run s(1) r by (auto simp: save_and_backfill_def Let_def)
    then show ?thesis using ys by auto
  next
    case False
    then have "backfill c kv pushes ?w = Some (Inr True, w')" using run s(1) r by (auto simp: save_and_backfill_def Let_def)
    then obtain zs where "writer_ok c view healthy True w' zs" "synced st ys (wr_store w') zs"
      using backfill_ok [OF ys(1)] by auto
    then show ?thesis using ys(2) synced_trans by blast
  qed
qed

lemma select_ok:
  assumes ok: "writer_ok c view healthy started w xs" and ev: "event_ok started ev"
    and run: "select_event c kv pushes ev w = Some (Inr True, w')"
  shows "\<exists>ys. writer_ok c view healthy True w' ys \<and> synced (wr_store w) xs (wr_store w') ys"
proof (cases ev)
  case (WeHttp i a)
  obtain po hb where po: "http_poll_next i a (wr_http w) = (po, hb)" by (rule prod.exhaust)
  obtain slot block where it: "po = PollItem (Inr (slot, block))" and w': "w' = handle_http_block slot block (w\<lparr>wr_http := hb\<rparr>)"
    using run WeHttp po by (cases po) (auto split: sum.splits)
  have "hb_requests (wr_http w) \<noteq> []" using po it by (auto simp: http_poll_next_def)
  then have started using ok by (auto simp: writer_ok_def split: if_splits)
  moreover have "pushable slot block" using http_poll_ok po it ev WeHttp by fastforce
  ultimately show ?thesis using ok w'
    by (intro exI [of _ xs]) (auto simp: handle_http_block_def writer_ok_def split: option.splits)
next
  case (WeStream m answer inps)
  then show ?thesis using handle_stream_ok [OF ok] ev run by auto
next
  case WeBackReady
  then show ?thesis using ok run by (intro exI [of _ xs]) (auto simp: writer_ok_def split: option.splits if_splits)
next
  case WeShutdown
  then show ?thesis using run by simp
qed

lemma write_step_ok:
  assumes ok: "writer_ok c view healthy started w xs" and ev: "event_ok started ev"
    and run: "write_step c kv pushes ev w = Some (Inr True, w')"
  shows "\<exists>ys. writer_ok c view healthy True w' ys \<and> synced (wr_store w) xs (wr_store w') ys"
proof -
  obtain w1 where w1: "select_event c kv pushes ev w = Some (Inr True, w1)" "save_and_backfill c kv pushes w1 = Some (Inr True, w')"
    using run by (auto simp: write_step_def split: option.splits prod.splits sum.splits bool.splits)
  obtain ys where ys: "writer_ok c view healthy True w1 ys" "synced (wr_store w) xs (wr_store w1) ys"
    using select_ok [OF ok ev w1(1)] by blast
  then show ?thesis using save_and_backfill_ok [OF ys(1) w1(2)] synced_trans by blast
qed

end

section \<open>Runs\<close>

text \<open>The states of the write thread; the flag says whether the stream has sent its first message.\<close>

inductive write_run :: "'e codec \<Rightarrow> 'db kv \<Rightarrow> ('e, 'db) writer \<Rightarrow> bool \<Rightarrow> ('e, 'db) writer \<Rightarrow> bool"
  for c kv w0 where
  wr_init: "write_run c kv w0 False w0"
| wr_step: "write_run c kv w0 started w \<Longrightarrow> event_ok started ev \<Longrightarrow> write_step c kv pushes ev w = Some (Inr True, w') \<Longrightarrow>
    write_run c kv w0 True w'"

lemma write_run_ok:
  assumes laws: "store_laws c kv view healthy" and "write_run c kv w0 started w" and "writer_ok c view healthy False w0 xs"
  shows "\<exists>ys. writer_ok c view healthy started w ys \<and> synced (wr_store w0) xs (wr_store w) ys"
  using assms(2,3)
proof (induction rule: write_run.induct)
  case wr_init
  then show ?case by blast
next
  case (wr_step started w ev pushes w')
  then obtain ys where "writer_ok c view healthy started w ys" "synced (wr_store w0) xs (wr_store w) ys" by blast
  then show ?case using store_laws.write_step_ok [OF laws _ wr_step.hyps(2,3)] synced_trans by blast
qed

section \<open>The read threads\<close>

text \<open>A read thread takes messages; \<open>None\<close> when it stops on one.\<close>

fun read_syncs ::
  "nat \<Rightarrow> nat \<Rightarrow> 'e ReadWriteSyncMessage list \<Rightarrow> 'e reader \<times> StoredSlotsRead \<Rightarrow> ('e reader \<times> StoredSlotsRead) option" where
  "read_syncs mrb index [] s = Some s"
| "read_syncs mrb index (m # ms) s =
     (case read_sync mrb index (SyncMsg m) s of (Inr True, s') \<Rightarrow> read_syncs mrb index ms s' | _ \<Rightarrow> None)"

definition reader_has :: "nat \<Rightarrow> 'e reader \<Rightarrow> StoredBlock list \<times> Slot option \<Rightarrow> bool" where
  "reader_has n r s \<longleftrightarrow> rb_valid (rd_blocks r) \<and> rb_list (rd_blocks r) = fst s \<and> length (rb_blocks (rd_blocks r)) = n \<and>
     map_option fst (rd_confirmed_in_process r) = snd s"

lemma reader_implements_step:
  assumes "reader_has n r s" and "sync_spec n s m = Some s'"
  shows "\<exists>r' ss'. read_sync mrb index (SyncMsg m) (r, ss) = (Inr True, r', ss') \<and> reader_has n r' s' \<and> rd_files r' = rd_files r"
proof -
  obtain xs p where s: "s = (xs, p)" by (rule prod.exhaust)
  have v: "rb_valid (rd_blocks r)" "rb_list (rd_blocks r) = xs" "length (rb_blocks (rd_blocks r)) = n"
    "map_option fst (rd_confirmed_in_process r) = p" using assms(1) s by (simp_all add: reader_has_def)
  show ?thesis
  proof (cases m)
    case ConfirmedBlockPopBack
    then show ?thesis using assms(2) s v rd.pop_lo_spec [OF v(1)] by (auto simp: reader_has_def split: if_splits)
  next
    case ConfirmedBlockPopFront
    then show ?thesis using assms(2) s v rd.pop_hi_spec [OF v(1)] by (auto simp: reader_has_def split: if_splits)
  next
    case (ConfirmedBlockPushBack b)
    then show ?thesis using assms(2) s v rd.push_lo_spec [OF v(1), of b] by (auto simp: reader_has_def split: if_splits)
  next
    case (ConfirmedBlockPushFront b)
    then show ?thesis using assms(2) s v rd.push_hi_spec [OF v(1), of b]
      by (auto simp: reader_has_def Let_def split: if_splits)
  qed (use assms(2) s v in \<open>auto simp: reader_has_def Let_def\<close>)
qed

lemma reader_implements_spec:
  assumes "reader_has n r s" and "sync_spec_run n s ms = Some s'"
  shows "\<exists>r' ss'. read_syncs mrb index ms (r, ss) = Some (r', ss') \<and> reader_has n r' s' \<and> rd_files r' = rd_files r"
  using assms
proof (induction ms arbitrary: r s ss)
  case (Cons m ms)
  obtain s1 where s1: "sync_spec n s m = Some s1" "sync_spec_run n s1 ms = Some s'"
    using Cons.prems(2) by (cases "sync_spec n s m") auto
  obtain r1 ss1 where r1: "read_sync mrb index (SyncMsg m) (r, ss) = (Inr True, r1, ss1)" "reader_has n r1 s1" "rd_files r1 = rd_files r"
    using reader_implements_step [OF Cons.prems(1) s1(1)] by blast
  then show ?case using Cons.IH [OF r1(2) s1(2), of ss1] by auto
qed simp

section \<open>Every iteration ends\<close>

text \<open>What the \<open>select!\<close> can return in a state. The catch-up waits for the node and is left out here.\<close>

fun event_ready :: "'e write_event \<Rightarrow> ('e, 'db) writer \<Rightarrow> bool" where
  "event_ready (WeHttp i a) w \<longleftrightarrow> i < length (hb_requests (wr_http w)) \<and>
     fetch_task (hb_getblock_max_retries (wr_http w)) (hb_getblock_backoff_init (wr_http w)) (a (fst (hb_requests (wr_http w) ! i))) \<noteq> None"
| "event_ready (WeStream m answer inps) w \<longleftrightarrow> m \<noteq> Some CatchupRequired"
| "event_ready WeBackReady w \<longleftrightarrow> (\<exists>slot. wr_next_back_slot w = Some slot \<and> hm_get (wr_queued_back w) slot \<noteq> None)"
| "event_ready WeShutdown w \<longleftrightarrow> True"

text \<open>The values are of their types, and the requests of one moment are fewer than \<open>2 ^ 64 - 1\<close>.\<close>

definition back_typed :: "('e, 'db) writer \<Rightarrow> bool" where
  "back_typed w \<longleftrightarrow> wr_next_back_request_slot w < u64_modulus \<and> (\<forall>s. wr_next_back_slot w = Some s \<longrightarrow> s < u64_modulus)"

definition http_fits :: "HttpBlocks \<Rightarrow> bool" where
  "http_fits hb \<longleftrightarrow> hb_concurrency hb + length (hb_inprogress hb) < u64_MAX"

lemma http_poll_ready:
  assumes "i < length (hb_requests hb)"
    "fetch_task (hb_getblock_max_retries hb) (hb_getblock_backoff_init hb) (a (fst (hb_requests hb ! i))) \<noteq> None"
  shows "fst (http_poll_next i a hb) \<noteq> PollPending"
  using assms by (auto simp: http_poll_next_def Let_def split: option.splits task_end.splits HttpSourceConnectedError.splits)

lemma enqueue_back [simp]:
  "wr_next_back_slot (enqueue_confirmed b w) = wr_next_back_slot w"
  "wr_next_back_request_slot (enqueue_confirmed b w) = wr_next_back_request_slot w"
  by (cases b; simp add: enqueue_confirmed_def Let_def)+

lemma drain_back:
  "drain_confirmed fuel w = Some (r, w') \<Longrightarrow> wr_next_back_slot w' = wr_next_back_slot w \<and> wr_next_back_request_slot w' = wr_next_back_request_slot w"
  by (induction fuel arbitrary: w) (auto split: option.splits prod.splits sum.splits)

lemma handle_message_returns:
  assumes "m \<noteq> CatchupRequired"
  shows "\<exists>r w'. handle_message c kv pushes answer inps m w = Some (r, w') \<and>
    wr_next_back_slot w' = wr_next_back_slot w \<and> wr_next_back_request_slot w' = wr_next_back_request_slot w"
proof (cases m)
  case StreamStart
  then show ?thesis by (cases "get_front_slot (st_blocks (wr_store w))") (simp_all add: Let_def)
next
  case (StreamBlock slot b)
  obtain r m' where "add_processed slot b (wr_memory w) = (r, m')" by (rule prod.exhaust)
  then show ?thesis using StreamBlock by (cases r) simp_all
next
  case (StreamSlotStatus slot parent status)
  obtain r m' where "set_dead slot (wr_memory w) = (r, m')" by (rule prod.exhaust)
  moreover obtain r1 m1 where "mem_set_confirmed slot (wr_memory w) = (r1, m1)" by (rule prod.exhaust)
  ultimately show ?thesis using StreamSlotStatus by (cases status; cases r; cases r1) simp_all
qed (use assms in simp)

context store_laws
begin

lemma backfill_returns:
  assumes ok: "writer_ok c view healthy True w xs" and t: "back_typed w" and f: "http_fits (wr_http w)"
  shows "\<exists>r. backfill c kv pushes w = Some r"
proof (cases "wr_backfill_upto w")
  case (Some sync_to)
  show ?thesis
  proof (cases "wr_next_back_slot w")
    case (Some slot)
    let ?n = "if wr_next_back_request_slot w = u64_MAX then slot else wr_next_back_request_slot w"
    have "?n < u64_modulus" using t Some by (auto simp: back_typed_def)
    then obtain n hb where rl: "request_loop (request_fuel (wr_http w)) (\<lambda>s. sync_to \<le> s) (\<lambda>s. sub64 s 1) ?n (wr_http w) = Some (n, hb)"
      using request_down_returns f unfolding http_fits_def by blast
    have b: "backfill c kv pushes w = backfill_step c kv pushes sync_to slot w"
      using \<open>wr_backfill_upto w = Some sync_to\<close> Some by (simp add: backfill_def)
    note unf = b backfill_step_def Let_def rl option.case prod.case
    show ?thesis
    proof (cases "hm_get (wr_queued_back w) slot")
      case None
      then show ?thesis unfolding unf by simp
    next
      case (Some block)
      obtain r st where "store_push_block_back c kv (snd (pushes slot)) slot block (wr_store w) = Some (r, st)"
        using store_push_total(1) [of "wr_store w" xs "snd (pushes slot)" slot block] ok by (auto simp: writer_ok_def)
      then show ?thesis using Some unfolding unf by simp
    qed
  qed (simp add: backfill_def Some)
qed (simp add: backfill_def)

lemma save_and_backfill_returns:
  assumes ok: "writer_ok c view healthy True w xs" and t: "back_typed w" and f: "http_fits (wr_http w)"
  shows "\<exists>r. save_and_backfill c kv pushes w = Some r"
proof -
  obtain r q st where s: "save_front c kv pushes False (wr_next_confirmed_slot w) (wr_queued_front w) (wr_store w) = Some (r, q, st)"
    "\<forall>slot' p. r = Inr (slot', p) \<longrightarrow> (\<exists>ys. store_inv c view healthy st ys \<and> files_typed (st_files st) \<and> queue_ok q \<and>
      (ys \<noteq> [] \<longrightarrow> slot' = Suc (sb_slot (last ys))) \<and> (xs \<noteq> [] \<longrightarrow> ys \<noteq> []) \<and> synced (wr_store w) xs st ys)"
    using save_front_ok [of "wr_store w" xs "wr_queued_front w" "wr_next_confirmed_slot w" pushes False] ok
    by (auto simp: writer_ok_def)
  show ?thesis
  proof (cases r)
    case (Inr np)
    obtain n pushed where np: "np = (n, pushed)" by (rule prod.exhaust)
    let ?w = "w\<lparr>wr_queued_front := q, wr_store := st, wr_next_confirmed_slot := n\<rparr>"
    obtain ys where "writer_ok c view healthy True ?w ys" using s(2) Inr np ok by (auto simp: writer_ok_def)
    then obtain r' where "backfill c kv pushes ?w = Some r'"
      using backfill_returns [of ?w ys pushes] t f by (auto simp: back_typed_def)
    then show ?thesis using s(1) Inr np by (auto simp: save_and_backfill_def Let_def)
  qed (use s(1) in \<open>auto simp: save_and_backfill_def\<close>)
qed

lemma select_returns:
  assumes ok: "writer_ok c view healthy started w xs" and ev: "event_ok started ev" and rdy: "event_ready ev w"
  shows "\<exists>r w'. select_event c kv pushes ev w = Some (r, w') \<and> (back_typed w \<longrightarrow> back_typed w')"
proof (cases ev)
  case (WeHttp i a)
  obtain po hb where po: "http_poll_next i a (wr_http w) = (po, hb)" by (rule prod.exhaust)
  have "po \<noteq> PollPending" using http_poll_ready [of i "wr_http w" a] rdy WeHttp po by simp
  then show ?thesis using WeHttp po
    by (cases po) (auto simp: handle_http_block_def back_typed_def split: sum.splits option.splits)
next
  case (WeStream msg answer inps)
  show ?thesis
  proof (cases msg)
    case (Some m)
    have m: "m \<noteq> CatchupRequired" using rdy WeStream Some by simp
    obtain r w1 where h: "handle_message c kv pushes answer inps m w = Some (r, w1)"
      "wr_next_back_slot w1 = wr_next_back_slot w \<and> wr_next_back_request_slot w1 = wr_next_back_request_slot w"
      using handle_message_returns [OF m] by blast
    show ?thesis
    proof (cases "r = Inr True")
      case True
      then obtain ys where "writer_ok c view healthy True w1 ys"
        using handle_message_ok [OF ok] h(1) ev WeStream Some by fastforce
      from drain_ok [OF this order_refl] obtain w2 where "drain_confirmed (drain_fuel (wr_memory w1)) w1 = Some (Inr (), w2)" by blast
      then show ?thesis using WeStream Some h True drain_back
        by (fastforce simp: handle_stream_def back_typed_def)
    next
      case False
      then show ?thesis using WeStream Some h
        by (auto simp: handle_stream_def back_typed_def split: sum.splits bool.splits)
    qed
  qed (use WeStream in \<open>simp add: handle_stream_def\<close>)
next
  case WeBackReady
  then show ?thesis using rdy by auto
qed simp

lemma write_step_returns:
  assumes ok: "writer_ok c view healthy started w xs" and ev: "event_ok started ev" and rdy: "event_ready ev w" and t: "back_typed w"
    and f: "\<And>w1. select_event c kv pushes ev w = Some (Inr True, w1) \<Longrightarrow> http_fits (wr_http w1)"
  shows "\<exists>r w'. write_step c kv pushes ev w = Some (r, w')"
proof -
  obtain r w1 where s: "select_event c kv pushes ev w = Some (r, w1)" "back_typed w1"
    using select_returns [OF ok ev rdy] t by blast
  show ?thesis
  proof (cases "r = Inr True")
    case True
    then obtain ys where "writer_ok c view healthy True w1 ys" using select_ok [OF ok ev] s(1) by blast
    then obtain r' w' where "save_and_backfill c kv pushes w1 = Some (r', w')"
      using save_and_backfill_returns [OF _ s(2) f] s(1) True by fastforce
    then show ?thesis using s(1) True by (auto simp: write_step_def)
  next
    case False
    then show ?thesis using s(1) by (auto simp: write_step_def split: sum.splits bool.splits)
  qed
qed

end

section \<open>Properties\<close>

text \<open>
  C1. The read threads follow the write thread: whatever the stream, the node and the disks do, a read
  thread that starts with the write thread's index and takes its messages never stops on one; after any
  number of iterations its copy has the blocks of the write thread's index, without gap, no block is announced and
  not stored, and the next slot to store is the one after the last.
\<close>

theorem read_threads_follow_write_thread:
  assumes "store_laws c kv view healthy" and "write_run c kv w0 started w" and "writer_ok c view healthy False w0 xs"
    and "reader_has (length (wb_blocks (st_blocks (wr_store w0)))) r (xs, None)"
  shows "\<exists>ms r' ss'. wb_sync_tx (st_blocks (wr_store w)) = wb_sync_tx (st_blocks (wr_store w0)) @ ms \<and>
    read_syncs mrb index ms (r, ss) = Some (r', ss') \<and> rb_valid (rd_blocks r') \<and>
    rb_list (rd_blocks r') = wb_list (st_blocks (wr_store w)) \<and> slots_consecutive (rb_list (rd_blocks r')) \<and>
    rd_confirmed_in_process r' = None \<and>
    (started \<and> rb_list (rd_blocks r') \<noteq> [] \<longrightarrow> wr_next_confirmed_slot w = Suc (sb_slot (last (rb_list (rd_blocks r')))))"
proof -
  obtain ys where ys: "writer_ok c view healthy started w ys" "synced (wr_store w0) xs (wr_store w) ys"
    using write_run_ok [OF assms(1-3)] by blast
  obtain ms where ms: "wb_sync_tx (st_blocks (wr_store w)) = wb_sync_tx (st_blocks (wr_store w0)) @ ms"
    "sync_spec_run (length (wb_blocks (st_blocks (wr_store w0)))) (xs, None) ms = Some (ys, None)"
    using ys(2) by (auto simp: synced_def)
  obtain r' ss' where r': "read_syncs mrb index ms (r, ss) = Some (r', ss')"
    "reader_has (length (wb_blocks (st_blocks (wr_store w0)))) r' (ys, None)"
    using reader_implements_spec [OF assms(4) ms(2)] by blast
  have inv: "store_inv c view healthy (wr_store w) ys" using ys(1) by (simp add: writer_ok_def)
  then have "wb_list (st_blocks (wr_store w)) = ys" "slots_consecutive ys"
    using wb_list_eq by (auto simp: store_inv_def)
  then show ?thesis using ms(1) r' ys(1)
    by (intro exI [of _ ms] exI [of _ r'] exI [of _ ss']) (auto simp: reader_has_def writer_ok_def)
qed

definition demo_write :: "(u8, kv_view) writer" where
  "demo_write = \<lparr>wr_store = demo_store, wr_http = HttpBlocks_new 4 3 100000000, wr_queued_back = [], wr_queued_front = [],
     wr_next_confirmed_slot = 7, wr_memory = StorageMemory_default, wr_next_back_slot = None,
     wr_next_back_request_slot = u64_MAX, wr_backfill_upto = None, wr_stream_start = 1\<rparr>"

lemma demo_write_ok: "writer_ok leb_codec (\<lambda>db. db) mem_healthy False demo_write []"
  using demo_store_ok by (simp add: writer_ok_def demo_write_def HttpBlocks_new_def)

definition demo_copy :: "u8 reader" where
  "demo_copy = \<lparr>rd_blocks = \<lparr>rb_blocks = [new_noexists, new_noexists], rb_tail = 0, rb_head = 1, rb_block_time_index = []\<rparr>,
     rd_files = \<lparr>fr_files = [], fr_id2file = []\<rparr>, rd_confirmed_in_process = None, rd_processed = StorageProcessed_default\<rparr>"

lemma demo_copy_has: "reader_has (length (wb_blocks (st_blocks (wr_store demo_write)))) demo_copy ([], None)"
proof -
  have "rb_rep (rd_blocks demo_copy) []"
    using demo_store_ok(1) unfolding rb_rep_def store_inv_def wb_rep_def by (simp add: demo_copy_def demo_store_def)
  then show ?thesis using rb_validI rb_list_eq
    by (fastforce simp: reader_has_def demo_copy_def demo_write_def demo_store_def)
qed

lemma demo_write_start:
  "write_step leb_codec mem_kv (\<lambda>_. (0, IoOk)) (WeStream (Some StreamStart) (Inr (5, 7)) []) demo_write = Some (Inr True, demo_write)"
proof -
  have "wb_rep (st_blocks demo_store) []" using demo_store_ok(1) by (simp add: store_inv_def)
  then have "get_front_slot (st_blocks demo_store) = None" by (simp add: get_front_slot_rep)
  then show ?thesis
    by (simp add: write_step_def handle_stream_def demo_write_def drain_fuel_def StorageMemory_default_def pop_confirmed_def
      save_and_backfill_def backfill_def Let_def)
qed

theorem read_threads_follow_write_thread_witness:
  "write_run leb_codec mem_kv demo_write True demo_write \<and>
   (\<exists>ms r' ss'. read_syncs 300 0 ms (demo_copy, StoredSlotsRead_new StoredSlots_default 1) = Some (r', ss') \<and>
     rb_list (rd_blocks r') = wb_list (st_blocks (wr_store demo_write)))"
proof -
  have run: "write_run leb_codec mem_kv demo_write True demo_write"
    by (rule wr_step [OF wr_init _ demo_write_start]) (simp add: opens_stream_def)
  then show ?thesis
    using read_threads_follow_write_thread [OF leb_mem.store_laws_axioms run demo_write_ok demo_copy_has] by metis
qed



text \<open>
  Backfilling down to slot 0 does not stop at slot 0: the counter of the next slot to request wraps
  below zero, and with room for more requests the slots \<open>u64::MAX\<close> and below are requested.
\<close>

lemma backfill_to_zero_wraps:
  "\<exists>w'. backfill leb_codec mem_kv (\<lambda>_. (0, IoOk)) (demo_write\<lparr>wr_backfill_upto := Some 0, wr_next_back_slot := Some 1\<rparr>) = Some (Inr True, w') \<and>
     hb_requests (wr_http w') = [(1, True), (0, True), (u64_MAX, True), (u64_MAX - 1, True)] \<and>
     wr_next_back_request_slot w' = u64_MAX - 2"
proof -
  have f: "request_fuel (HttpBlocks_new 4 3 100000000) = Suc (Suc (Suc (Suc (Suc 0))))"
    by (simp add: request_fuel_def HttpBlocks_new_def)
  have "request_loop (request_fuel (HttpBlocks_new 4 3 100000000)) (\<lambda>s. 0 \<le> s) (\<lambda>s. sub64 s 1) 1 (HttpBlocks_new 4 3 100000000) =
    Some (u64_MAX - 2, (HttpBlocks_new 4 3 100000000)\<lparr>hb_inprogress := [u64_MAX - 1, u64_MAX, 0, 1],
      hb_requests := [(1, True), (0, True), (u64_MAX, True), (u64_MAX - 1, True)]\<rparr>)"
    unfolding f by (simp add: http_is_full_def HttpBlocks_new_def fetch_def sub64_def)
  then show ?thesis by (simp add: backfill_def backfill_step_def demo_write_def Let_def)
qed

text \<open>
  When the slot to backfill to is the one just below the stored blocks, it is not fetched: the
  backfilling ends at once, although in all other cases that slot is the last one stored.
\<close>

lemma backfill_skips_single_slot:
  assumes "wr_backfill_upto w = Some sync_to" and "wr_next_back_slot w = None"
    and "get_back_slot (st_blocks (wr_store w)) = Some (Suc sync_to)"
  shows "backfill c kv pushes w = Some (Inr True, w\<lparr>wr_backfill_upto := None\<rparr>)"
  using assms by (simp add: backfill_def)

end
