(* ===== verification/Alp_Upstream.thy ===== *)
theory Alp_Upstream
  imports Alp_Read
begin

text \<open>
  What a handler of the RPC server is made of, and the client of the upstream nodes
  (src/src/rpc/upstream.rs).

  A handler is an \<open>async\<close> function: between two of its steps the rest of the program runs. It is
  a value of the type \<open>rpc\<close>, a tree with a node for each thing the handler does to the world: it
  reads one of the shared atomics, sends a request to a read thread and waits for the answer,
  calls an upstream node, hands work to a worker thread, switches the health check, or sends a value
  to the write side of the database. A run of a handler is a path of this tree; \<open>rpc_runs\<close> gives the paths with what
  happened on them, and every answer is possible there.

  The text of JSON is not modelled: serde, jsonrpsee and the Solana crates read and print it. A
  value that a handler sends is kept as a value, a value that it parses is an argument, and a body
  that an upstream node sent is a string of bytes. Deadlines, metrics and the subscription id, which is only a
  label, are left out; that a deadline has passed is one of the answers.
\<close>

section \<open>Values of the Solana crates\<close>

datatype UiTransactionEncoding = EncBinary | EncBase64 | EncBase58 | EncJson | EncJsonParsed

datatype TransactionDetails = DetailsFull | DetailsSignatures | DetailsNone | DetailsAccounts

record BlockEncodingOptions =
  bo_transaction_details :: TransactionDetails
  bo_show_rewards :: bool
  bo_max_supported_transaction_version :: "u8 option"

text \<open>\<open>UiConfirmedBlock\<close>: the fields the code reads, and the text of the others.\<close>

record UiConfirmedBlock =
  ub_previous_blockhash :: string
  ub_rewards :: "Reward list option"
  ub_num_reward_partitions :: "nat option"
  ub_block_height :: "Slot option"
  ub_rest :: string

record RpcLeaderScheduleConfig =
  ls_identity :: "string option"
  ls_commitment :: "CommitmentLevel option"
  ls_key_by_vote_account :: "bool option"

type_synonym RpcLeaderSchedule = "(string, nat list) hmap"

record RpcSignatureStatusConfig =
  sc_search_transaction_history :: bool
  sc_commitment :: "CommitmentLevel option"
  sc_min_context_slot :: "Slot option"

datatype RpcCustomError =
    CE_BlockNotAvailable Slot
  | CE_SlotSkipped Slot
  | CE_LongTermStorageSlotSkipped Slot
  | CE_BlockCleanedUp Slot Slot
  | CE_MinContextSlotNotReached Slot
  | CE_TransactionHistoryNotAvailable
  | CE_EpochRewardsPeriodActive Slot Slot Slot
  | CE_NodeUnhealthy "nat option"
  | CE_LeaderScheduleIdentityNotFound string
  | CE_UnsupportedTransactionVersion u8

section \<open>Responses\<close>

datatype request_id = IdNull | IdNumber nat | IdStr string

record GtfaFullEntry =
  ge_slot :: Slot
  ge_transaction_index :: "nat option"
  ge_block_time :: "UnixTimestamp option"
  ge_transaction :: string

record 'e GtfaSignatureEntry =
  gs_inner :: "'e RpcConfirmedTransactionStatusWithSignature"
  gs_transaction_index :: "nat option"

datatype 'e payload =
    PNull
  | PNumber nat
  | PText string
  | PSlots "Slot list"
  | PTime "UnixTimestamp option"
  | PBlock UiConfirmedBlock
  | PTransaction string
  | PRewards "RpcInflationReward option list"
  | PBlockhash Slot string Slot
  | PFees "(Slot \<times> nat) list"
  | PSignatures "'e RpcConfirmedTransactionStatusWithSignature list"
  | PStatuses Slot "'e TransactionStatus option list"
  | PValid Slot bool
  | PGtfaSignatures "'e GtfaSignatureEntry list" "string option"
  | PGtfaFull "GtfaFullEntry list" "string option"
  | PNodes "string list"
  | PSchedule "RpcLeaderSchedule option"

text \<open>A response, before it is printed; \<open>RespRaw\<close> is the body of an upstream node, sent on unchanged.\<close>

datatype 'e response =
    RespSuccess request_id "'e payload"
  | RespInvalidParams request_id string
  | RespCustom request_id RpcCustomError
  | RespRaw bytes

section \<open>Requests to upstream nodes\<close>

datatype reason =
    BELOW_RETENTION | REMOVED | NOT_FOUND_LOCALLY | INCOMPLETE_RESULTS | MISSING_STATUS | ALWAYS

text \<open>The bodies that the client builds, by method, with their parameters.\<close>

datatype upstream_body =
    UpBlock Slot UiTransactionEncoding TransactionDetails bool CommitmentLevel "u8 option"
  | UpBlockRewards Slot CommitmentLevel
  | UpBlocks Slot Slot CommitmentLevel
  | UpBlocksWithLimit Slot nat CommitmentLevel
  | UpBlockTime Slot
  | UpClusterNodes
  | UpFirstAvailableBlock
  | UpLeaderSchedule Slot RpcLeaderScheduleConfig
  | UpSignaturesForAddress Pubkey "Signature option" "Signature option" nat CommitmentLevel
  | UpSignatureStatuses "Signature list" RpcSignatureStatusConfig
  | UpTransaction Signature UiTransactionEncoding CommitmentLevel "u8 option" "Slot option"

record upstream_call =
  uc_upstream :: nat
  uc_id :: request_id
  uc_body :: upstream_body
  uc_reason :: reason

section \<open>Handlers\<close>

datatype slot_atomic = AtProcessed | AtConfirmed | AtFinalized | AtFirstAvailable | AtClusterProcessed

text \<open>The two ways in which the channels to a read thread fail.\<close>

datatype 'e reply = ReqChannelClosed | RxChannelClosed | Reply "'e ReadResult"

datatype worker_outcome = WorkDone | WorkersDisconnected | WorkLost

text \<open>A response of the HTTP get interface: status, the headers \<open>x-slot\<close> and \<open>x-error\<close>, body.\<close>

record http_response =
  hr_status :: nat
  hr_x_slot :: "string option"
  hr_x_error :: "string option"
  hr_body :: bytes

datatype ('e, 'a) rpc =
    Done 'a
  | Load slot_atomic "Slot \<Rightarrow> ('e, 'a) rpc"
  | LoadHealthDisabled "bool \<Rightarrow> ('e, 'a) rpc"
  | Ask "'e ReadRequest" "'e reply \<Rightarrow> ('e, 'a) rpc"
  | Call upstream_call "string + bytes \<Rightarrow> ('e, 'a) rpc"
  | CallNodes nat "string + string list \<Rightarrow> ('e, 'a) rpc"
  | CallSchedule nat nat Slot "string + RpcLeaderSchedule option \<Rightarrow> ('e, 'a) rpc"
  | CallHttp nat "string list" "http_response result \<Rightarrow> ('e, 'a) rpc"
  | Work "worker_outcome \<Rightarrow> ('e, 'a) rpc"
  | StoreHealthDisabled bool "('e, 'a) rpc"
  | Push "'e WriteRequest" "('e, 'a) rpc"

primrec rpc_bind :: "('e, 'a) rpc \<Rightarrow> ('a \<Rightarrow> ('e, 'b) rpc) \<Rightarrow> ('e, 'b) rpc" where
  "rpc_bind (Done a) f = f a"
| "rpc_bind (Load at k) f = Load at (\<lambda>v. rpc_bind (k v) f)"
| "rpc_bind (LoadHealthDisabled k) f = LoadHealthDisabled (\<lambda>v. rpc_bind (k v) f)"
| "rpc_bind (Ask q k) f = Ask q (\<lambda>r. rpc_bind (k r) f)"
| "rpc_bind (Call u k) f = Call u (\<lambda>r. rpc_bind (k r) f)"
| "rpc_bind (CallNodes u k) f = CallNodes u (\<lambda>r. rpc_bind (k r) f)"
| "rpc_bind (CallSchedule u epoch slot k) f = CallSchedule u epoch slot (\<lambda>r. rpc_bind (k r) f)"
| "rpc_bind (CallHttp u path k) f = CallHttp u path (\<lambda>r. rpc_bind (k r) f)"
| "rpc_bind (StoreHealthDisabled b p) f = StoreHealthDisabled b (rpc_bind p f)"
| "rpc_bind (Work k) f = Work (\<lambda>r. rpc_bind (k r) f)"
| "rpc_bind (Push w p) f = Push w (rpc_bind p f)"

text \<open>\<open>.await?\<close>: an error ends the handler.\<close>

definition rpc_try :: "('e, 'a result) rpc \<Rightarrow> ('a \<Rightarrow> ('e, 'b result) rpc) \<Rightarrow> ('e, 'b result) rpc" where
  "rpc_try p f = rpc_bind p (\<lambda>r. case r of Inl e \<Rightarrow> Done (Inl e) | Inr v \<Rightarrow> f v)"

text \<open>A value that is either a response to send at once or the value to go on with.\<close>

definition rpc_or ::
  "('e, ('e response + 'a) result) rpc \<Rightarrow> ('a \<Rightarrow> ('e, ('e response + 'b) result) rpc) \<Rightarrow> ('e, ('e response + 'b) result) rpc" where
  "rpc_or p f = rpc_try p (\<lambda>r. case r of Inl response \<Rightarrow> Done (Inr (Inl response)) | Inr v \<Rightarrow> f v)"

text \<open>What happens on a run.\<close>

datatype 'e rpc_event =
    Loaded slot_atomic Slot
  | LoadedHealthDisabled bool
  | Asked "'e ReadRequest" "'e reply"
  | Called upstream_call "string + bytes"
  | CalledNodes nat "string + string list"
  | CalledSchedule nat nat Slot "string + RpcLeaderSchedule option"
  | CalledHttp nat "string list" "http_response result"
  | StoredHealthDisabled bool
  | Worked worker_outcome
  | Pushed "'e WriteRequest"

inductive rpc_runs :: "('e, 'a) rpc \<Rightarrow> 'e rpc_event list \<Rightarrow> 'a \<Rightarrow> bool" where
  Done: "rpc_runs (Done a) [] a"
| Load: "rpc_runs (k v) tr a \<Longrightarrow> rpc_runs (Load at k) (Loaded at v # tr) a"
| Health: "rpc_runs (k v) tr a \<Longrightarrow> rpc_runs (LoadHealthDisabled k) (LoadedHealthDisabled v # tr) a"
| Ask: "rpc_runs (k r) tr a \<Longrightarrow> rpc_runs (Ask q k) (Asked q r # tr) a"
| Call: "rpc_runs (k r) tr a \<Longrightarrow> rpc_runs (Call u k) (Called u r # tr) a"
| CallNodes: "rpc_runs (k r) tr a \<Longrightarrow> rpc_runs (CallNodes u k) (CalledNodes u r # tr) a"
| CallSchedule: "rpc_runs (k r) tr a \<Longrightarrow> rpc_runs (CallSchedule u ep s k) (CalledSchedule u ep s r # tr) a"
| CallHttp: "rpc_runs (k r) tr a \<Longrightarrow> rpc_runs (CallHttp u path k) (CalledHttp u path r # tr) a"
| StoreHealth: "rpc_runs p tr a \<Longrightarrow> rpc_runs (StoreHealthDisabled b p) (StoredHealthDisabled b # tr) a"
| Work: "rpc_runs (k r) tr a \<Longrightarrow> rpc_runs (Work k) (Worked r # tr) a"
| Push: "rpc_runs p tr a \<Longrightarrow> rpc_runs (Push w p) (Pushed w # tr) a"

inductive_simps rpc_runs_simps [simp]:
  "rpc_runs (Done a) tr r"
  "rpc_runs (Load at k) tr r"
  "rpc_runs (LoadHealthDisabled k) tr r"
  "rpc_runs (Ask q k) tr r"
  "rpc_runs (Call u k) tr r"
  "rpc_runs (CallNodes u k) tr r"
  "rpc_runs (CallSchedule u ep s k) tr r"
  "rpc_runs (CallHttp u path k) tr r"
  "rpc_runs (StoreHealthDisabled b p) tr r"
  "rpc_runs (Work k) tr r"
  "rpc_runs (Push w p) tr r"

lemma rpc_runs_bindI: "rpc_runs p tr1 a \<Longrightarrow> rpc_runs (f a) tr2 r \<Longrightarrow> rpc_runs (rpc_bind p f) (tr1 @ tr2) r"
  by (induction rule: rpc_runs.induct) simp_all

definition splits_run :: "('e, 'a) rpc \<Rightarrow> ('a \<Rightarrow> ('e, 'b) rpc) \<Rightarrow> 'e rpc_event list \<Rightarrow> 'b \<Rightarrow> bool" where
  "splits_run p f tr r \<longleftrightarrow> (\<exists>tr1 a tr2. tr = tr1 @ tr2 \<and> rpc_runs p tr1 a \<and> rpc_runs (f a) tr2 r)"

lemma splits_run_Cons:
  assumes "splits_run p f tr r" and "\<And>tr1 a. rpc_runs p tr1 a \<Longrightarrow> rpc_runs p' (ev # tr1) a"
  shows "splits_run p' f (ev # tr) r"
  using assms unfolding splits_run_def by (metis append_Cons)

lemma rpc_runs_bindD: "rpc_runs (rpc_bind p f) tr r \<Longrightarrow> splits_run p f tr r"
proof (induction p arbitrary: tr)
  case (Done x)
  then show ?case by (simp add: splits_run_def)
next
  case (Load at k)
  then show ?case by (auto intro!: splits_run_Cons [of "k _"])
next
  case (LoadHealthDisabled k)
  then show ?case by (auto intro!: splits_run_Cons [of "k _"])
next
  case (Ask q k)
  then show ?case by (auto intro!: splits_run_Cons [of "k _"])
next
  case (Call u k)
  then show ?case by (auto intro!: splits_run_Cons [of "k _"])
next
  case (CallNodes u k)
  then show ?case by (auto intro!: splits_run_Cons [of "k _"])
next
  case (CallSchedule u ep s k)
  then show ?case by (auto intro!: splits_run_Cons [of "k _"])
next
  case (CallHttp u path k)
  then show ?case by (auto intro!: splits_run_Cons [of "k _"])
next
  case (StoreHealthDisabled b p)
  then show ?case by (auto intro!: splits_run_Cons [of p])
next
  case (Work k)
  then show ?case by (auto intro!: splits_run_Cons [of "k _"])
next
  case (Push w p)
  then show ?case by (auto intro!: splits_run_Cons [of p])
qed

lemma rpc_runs_bind:
  "rpc_runs (rpc_bind p f) tr r \<longleftrightarrow> (\<exists>tr1 a tr2. tr = tr1 @ tr2 \<and> rpc_runs p tr1 a \<and> rpc_runs (f a) tr2 r)"
  using rpc_runs_bindI rpc_runs_bindD unfolding splits_run_def by metis

lemma rpc_bind_assoc: "rpc_bind (rpc_bind p f) g = rpc_bind p (\<lambda>a. rpc_bind (f a) g)"
  by (induction p) auto

lemma rpc_runs_try:
  "rpc_runs (rpc_try p f) tr r \<longleftrightarrow>
     (\<exists>e. rpc_runs p tr (Inl e) \<and> r = Inl e) \<or>
     (\<exists>tr1 v tr2. tr = tr1 @ tr2 \<and> rpc_runs p tr1 (Inr v) \<and> rpc_runs (f v) tr2 r)"
  unfolding rpc_try_def rpc_runs_bind
  by (auto split: sum.splits) (metis append_Nil2 sum.exhaust)+

section \<open>RpcClientJsonrpc\<close>

datatype ConfigRpcCallJson =
    GetBlock | GetBlockHeight | GetBlocks | GetBlocksWithLimit | GetBlockTime | GetClusterNodes
  | GetFirstAvailableBlock | GetHealth | GetInflationReward | GetLatestBlockhash | GetLeaderSchedule
  | GetRecentPrioritizationFees | GetSignaturesForAddress | GetSignatureStatuses | GetSlot
  | GetTransaction | GetTransactionsForAddress | GetVersion | IsBlockhashValid

text \<open>An upstream is the calls it is configured for; a client is known by its place in the configuration.\<close>

type_synonym upstream = "ConfigRpcCallJson list"

definition is_supported :: "upstream \<Rightarrow> ConfigRpcCallJson \<Rightarrow> bool" where
  "is_supported calls call \<longleftrightarrow> call \<in> set calls"

text \<open>
  \<open>call2\<close>, given what the HTTP client gave: \<open>None\<close> when sending failed, otherwise the status and the
  body, \<open>None\<close> when it could not be read.
\<close>

definition call2 :: "(nat \<times> bytes option) option \<Rightarrow> string + bytes" where
  "call2 response =
     (case response of
        None \<Rightarrow> Inl ''request to upstream failed''
      | Some (status, body) \<Rightarrow>
          if status \<noteq> 200 then Inl ''upstream response with status code''
          else (case body of None \<Rightarrow> Inl ''failed to collect bytes from upstream'' | Some b \<Rightarrow> Inr b))"

definition call_with_timeout :: "bool \<Rightarrow> (nat \<times> bytes option) option \<Rightarrow> string + bytes" where
  "call_with_timeout elapsed response = (if elapsed then Inl ''upstream timeout'' else call2 response)"

text \<open>
  What serde makes of the body of a JSON-RPC response: \<open>None\<close> when it does not parse, otherwise the
  value or the error object.
\<close>

datatype 'a parsed = ParsedSuccess 'a | ParsedError

definition call_get_success :: "(bytes \<Rightarrow> 'a parsed option) \<Rightarrow> string + bytes \<Rightarrow> string + 'a" where
  "call_get_success parse result =
     (case result of
        Inl e \<Rightarrow> Inl e
      | Inr body \<Rightarrow>
          (case parse body of
             None \<Rightarrow> Inl ''failed to parse json from upstream''
           | Some (ParsedSuccess v) \<Rightarrow> Inr v
           | Some ParsedError \<Rightarrow> Inl ''failed to get value''))"

text \<open>The requests whose body is sent on to the caller.\<close>

definition forward :: "nat \<Rightarrow> request_id \<Rightarrow> upstream_body \<Rightarrow> reason \<Rightarrow> ('e, 'e response result) rpc" where
  "forward up id' body reason =
     Call \<lparr>uc_upstream = up, uc_id = id', uc_body = body, uc_reason = reason\<rparr> (\<lambda>r. Done (case r of
       Inl e \<Rightarrow> Inl (Err e) | Inr b \<Rightarrow> Inr (RespRaw b)))"

definition up_get_block ::
  "nat \<Rightarrow> request_id \<Rightarrow> Slot \<Rightarrow> CommitmentLevel \<Rightarrow> UiTransactionEncoding \<Rightarrow> BlockEncodingOptions \<Rightarrow> reason \<Rightarrow>
     ('e, 'e response result) rpc" where
  "up_get_block up id' slot commitment encoding options reason =
     forward up id' (UpBlock slot encoding (bo_transaction_details options) (bo_show_rewards options) commitment
       (bo_max_supported_transaction_version options)) reason"

text \<open>The requests whose body is parsed; an error object is sent on to the caller.\<close>

definition parse_reply :: "(bytes \<Rightarrow> 'a parsed option) \<Rightarrow> string + bytes \<Rightarrow> ('e response + 'a) result" where
  "parse_reply parse r = (case r of
     Inl e \<Rightarrow> Inl (Err e)
   | Inr b \<Rightarrow>
       (case parse b of
          None \<Rightarrow> Inl (Err ''failed to parse json from upstream'')
        | Some (ParsedSuccess v) \<Rightarrow> Inr (Inr v)
        | Some ParsedError \<Rightarrow> Inr (Inl (RespRaw b))))"

definition call_parsed ::
  "(bytes \<Rightarrow> 'a parsed option) \<Rightarrow> nat \<Rightarrow> request_id \<Rightarrow> upstream_body \<Rightarrow> reason \<Rightarrow> ('e, ('e response + 'a) result) rpc" where
  "call_parsed parse up id' body reason =
     Call \<lparr>uc_upstream = up, uc_id = id', uc_body = body, uc_reason = reason\<rparr> (\<lambda>r. Done (parse_reply parse r))"

definition up_get_block_rewards ::
  "(bytes \<Rightarrow> UiConfirmedBlock option parsed option) \<Rightarrow> nat \<Rightarrow> request_id \<Rightarrow> Slot \<Rightarrow> reason \<Rightarrow>
     ('e, ('e response + UiConfirmedBlock option) result) rpc" where
  "up_get_block_rewards parse up id' slot reason = call_parsed parse up id' (UpBlockRewards slot LevelConfirmed) reason"

definition up_get_blocks ::
  "nat \<Rightarrow> request_id \<Rightarrow> Slot \<Rightarrow> RpcRequestBlocksUntil \<Rightarrow> CommitmentLevel \<Rightarrow> reason \<Rightarrow> ('e, 'e response result) rpc" where
  "up_get_blocks up id' start_slot until' commitment reason =
     forward up id' (case until' of
       EndSlot end_slot \<Rightarrow> UpBlocks start_slot end_slot commitment
     | Limit limit \<Rightarrow> UpBlocksWithLimit start_slot limit commitment) reason"

definition up_get_blocks_parsed ::
  "(bytes \<Rightarrow> Slot list parsed option) \<Rightarrow> nat \<Rightarrow> request_id \<Rightarrow> Slot \<Rightarrow> nat \<Rightarrow> reason \<Rightarrow>
     ('e, ('e response + Slot list) result) rpc" where
  "up_get_blocks_parsed parse up id' start_slot limit reason =
     call_parsed parse up id' (UpBlocksWithLimit start_slot limit LevelConfirmed) reason"

definition up_get_block_time :: "nat \<Rightarrow> request_id \<Rightarrow> Slot \<Rightarrow> reason \<Rightarrow> ('e, 'e response result) rpc" where
  "up_get_block_time up id' slot reason = forward up id' (UpBlockTime slot) reason"

definition up_get_cluster_nodes :: "nat \<Rightarrow> request_id \<Rightarrow> ('e, 'e response result) rpc" where
  "up_get_cluster_nodes up id' =
     CallNodes up (\<lambda>r. Done (case r of Inl e \<Rightarrow> Inl (Err e) | Inr nodes \<Rightarrow> Inr (RespSuccess id' (PNodes nodes))))"

definition up_get_first_available_block :: "nat \<Rightarrow> request_id \<Rightarrow> reason \<Rightarrow> ('e, 'e response result) rpc" where
  "up_get_first_available_block up id' reason = forward up id' UpFirstAvailableBlock reason"

text \<open>Only schedules by identity are in the cache of the epochs.\<close>

definition up_get_leader_schedule ::
  "nat \<Rightarrow> request_id \<Rightarrow> nat \<Rightarrow> Slot \<Rightarrow> bool \<Rightarrow> RpcLeaderScheduleConfig \<Rightarrow> reason \<Rightarrow> ('e, 'e response result) rpc" where
  "up_get_leader_schedule up id' epoch slot is_processed config reason =
     (if is_processed \<or> ls_key_by_vote_account config = Some True
      then forward up id' (UpLeaderSchedule slot
             (if is_processed then config\<lparr>ls_commitment := Some LevelProcessed\<rparr> else config)) reason
      else CallSchedule up epoch slot (\<lambda>r. Done (case r of
          Inl e \<Rightarrow> Inl (Err e)
        | Inr payload \<Rightarrow> Inr (case ls_identity config of
              None \<Rightarrow> RespSuccess id' (PSchedule payload)
            | Some identity \<Rightarrow>
                (case payload of
                   None \<Rightarrow> RespSuccess id' PNull
                 | Some m \<Rightarrow>
                     (case hm_get m identity of
                        Some slots \<Rightarrow> RespSuccess id' (PSchedule (Some [(identity, slots)]))
                      | None \<Rightarrow> RespCustom id' (CE_LeaderScheduleIdentityNotFound identity)))))))"

definition up_get_signatures_for_address ::
  "nat \<Rightarrow> request_id \<Rightarrow> Pubkey \<Rightarrow> Signature option \<Rightarrow> Signature option \<Rightarrow> nat \<Rightarrow> CommitmentLevel \<Rightarrow> reason \<Rightarrow> upstream_call" where
  "up_get_signatures_for_address up id' address before until' limit commitment reason =
     \<lparr>uc_upstream = up, uc_id = id', uc_body = UpSignaturesForAddress address before until' limit commitment,
      uc_reason = reason\<rparr>"

definition up_get_signature_statuses ::
  "nat \<Rightarrow> request_id \<Rightarrow> Signature list \<Rightarrow> RpcSignatureStatusConfig \<Rightarrow> reason \<Rightarrow> upstream_call" where
  "up_get_signature_statuses up id' signatures config reason =
     \<lparr>uc_upstream = up, uc_id = id', uc_body = UpSignatureStatuses signatures config, uc_reason = reason\<rparr>"

definition up_get_transaction ::
  "nat \<Rightarrow> request_id \<Rightarrow> Signature \<Rightarrow> CommitmentLevel \<Rightarrow> UiTransactionEncoding \<Rightarrow> u8 option \<Rightarrow> Slot option \<Rightarrow> reason \<Rightarrow>
     ('e, 'e response result) rpc" where
  "up_get_transaction up id' signature commitment encoding max_version min_context_slot reason =
     forward up id' (UpTransaction signature encoding commitment max_version min_context_slot) reason"

section \<open>Cached requests\<close>

text \<open>
  A shared future is pending, identified by the number of the request it waits for, or has its
  value. The future that a new cache holds has a value but nobody has polled it, and \<open>peek\<close> does not
  see it. \<open>requests\<close> counts the requests that were sent. Time is in nanoseconds.
\<close>

datatype 'a shared = SharedUnpolled "string + 'a" | SharedPending nat | SharedReady "string + 'a"

definition peek_is_err :: "'a shared \<Rightarrow> bool" where
  "peek_is_err s = (case s of SharedReady (Inl e) \<Rightarrow> True | _ \<Rightarrow> False)"

record 'a CachedRequest =
  cr_ttl :: nat
  cr_ts :: int
  cr_request :: "'a shared"
  cr_requests :: nat

definition CachedRequest_new :: "nat \<Rightarrow> int \<Rightarrow> 'a CachedRequest" where
  "CachedRequest_new ttl now = \<lparr>cr_ttl = ttl, cr_ts = now - 2 * int ttl, cr_request = SharedUnpolled (Inl ''uninit''), cr_requests = 0\<rparr>"

text \<open>\<open>get\<close>, up to where it waits for the future, which it returns.\<close>

definition cached_get :: "int \<Rightarrow> 'a CachedRequest \<Rightarrow> 'a shared \<times> 'a CachedRequest" where
  "cached_get now c =
     (if int (cr_ttl c) \<le> now - cr_ts c \<or> peek_is_err (cr_request c)
      then let c = c\<lparr>cr_ts := now, cr_request := SharedPending (cr_requests c), cr_requests := Suc (cr_requests c)\<rparr>
           in (cr_request c, c)
      else (cr_request c, c))"

text \<open>The answer to the request number \<open>n\<close> arrives.\<close>

definition cached_answer :: "nat \<Rightarrow> string + 'a \<Rightarrow> 'a CachedRequest \<Rightarrow> 'a CachedRequest" where
  "cached_answer n v c = (if cr_request c = SharedPending n then c\<lparr>cr_request := SharedReady v\<rparr> else c)"

text \<open>
  The schedules: one future per epoch; only one that failed is replaced. The request it sends asks
  for the confirmed schedule of all identities.
\<close>

definition epoch_request :: "Slot \<Rightarrow> upstream_body" where
  "epoch_request slot = UpLeaderSchedule slot \<lparr>ls_identity = None, ls_commitment = Some LevelConfirmed, ls_key_by_vote_account = None\<rparr>"

record epoch_cache =
  ec_schedules :: "(nat, RpcLeaderSchedule option shared) hmap"
  ec_requests :: nat

definition epoch_get :: "nat \<Rightarrow> epoch_cache \<Rightarrow> RpcLeaderSchedule option shared \<times> epoch_cache" where
  "epoch_get epoch c =
     (case Option.bind (hm_get (ec_schedules c) epoch) (\<lambda>fut. if \<not> peek_is_err fut then Some fut else None) of
        Some fut \<Rightarrow> (fut, c)
      | None \<Rightarrow>
          (SharedPending (ec_requests c),
           c\<lparr>ec_schedules := hm_insert epoch (SharedPending (ec_requests c)) (ec_schedules c),
             ec_requests := Suc (ec_requests c)\<rparr>))"

section \<open>RpcClientHttpget\<close>

text \<open>\<open>call\<close>, given the response of the upstream: status, headers, and the body if it can be read.\<close>

definition httpget_call :: "(nat \<times> string option \<times> string option \<times> bytes option) option \<Rightarrow> http_response result" where
  "httpget_call response =
     (case response of
        None \<Rightarrow> Inl (Err ''request to upstream failed'')
      | Some (status, x_slot, x_error, body) \<Rightarrow>
          let (status, x_slot, x_error) = (if status = 400 then (400, None, x_error) else (200, x_slot, None))
          in case body of
               None \<Rightarrow> Inl (Err ''failed to collect bytes from upstream'')
             | Some b \<Rightarrow> Inr \<lparr>hr_status = status, hr_x_slot = x_slot, hr_x_error = x_error, hr_body = b\<rparr>)"

definition httpget_call_with_timeout ::
  "bool \<Rightarrow> (nat \<times> string option \<times> string option \<times> bytes option) option \<Rightarrow> http_response result" where
  "httpget_call_with_timeout elapsed response = (if elapsed then Inl (Err ''upstream timeout'') else httpget_call response)"

text \<open>The path of a request, its segments appended to those of the configured URL.\<close>

definition httpget_block_path :: "string list \<Rightarrow> Slot \<Rightarrow> string list" where
  "httpget_block_path path slot = path @ [''block'', to_string slot]"

definition httpget_transaction_path :: "(Signature \<Rightarrow> string) \<Rightarrow> string list \<Rightarrow> Signature \<Rightarrow> string list" where
  "httpget_transaction_path show_signature path signature = path @ [''tx'', show_signature signature]"

end
