(* ===== verification/Alp_Rpc.thy ===== *)
theory Alp_Rpc
  imports Alp_Upstream
begin

text \<open>
  The handlers of the JSON-RPC interface (src/src/rpc/api_jsonrpc.rs), in the order of the code. A
  method has a record for its request, \<open>parse\<close>, which checks the parameters, and \<open>process\<close>, which answers;
  \<open>handle\<close> runs the one after the other. Both are handlers in the sense of \<open>Alp_Upstream\<close>: the tips
  of the chain are atomics that other threads change, and each load is a step.

  The parameters arrive deserialized: \<open>rq_parsed\<close> is what serde makes of them, an error or the
  value. The wrappers of the Solana crates that accept several forms of a configuration are taken to
  be unwrapped. The parsers of base 58, the decoders of blocks and transactions and their
  encoders for the client are the fields of \<open>rpc_ext\<close>, with the order in which a \<open>HashMap\<close> is iterated.
\<close>

section \<open>Library functions\<close>

datatype decode_error = ProtobufFailed | ConvertFailed

record 'e rpc_ext =
  rx_parse_pubkey :: "string \<Rightarrow> string + Pubkey"
  rx_parse_signature :: "string \<Rightarrow> string + Signature"
  rx_parse_hash :: "string \<Rightarrow> string + bytes"
  rx_get_epoch :: "Slot \<Rightarrow> nat"
  rx_get_first_slot_in_epoch :: "nat \<Rightarrow> Slot"
  rx_hasher :: "nat \<Rightarrow> bytes \<Rightarrow> Pubkey \<Rightarrow> nat"
  rx_decode_block :: "bytes \<Rightarrow> decode_error + 'e ConfirmedBlock"
  rx_encode_block :: "UiTransactionEncoding \<Rightarrow> BlockEncodingOptions \<Rightarrow> 'e ConfirmedBlock \<Rightarrow> RpcCustomError + UiConfirmedBlock"
  rx_decode_transaction :: "bytes \<Rightarrow> decode_error + 'e TransactionWithStatusMeta"
  rx_encode_transaction :: "UiTransactionEncoding \<Rightarrow> u8 option \<Rightarrow> Slot \<Rightarrow> UnixTimestamp option \<Rightarrow> nat \<Rightarrow>
     'e TransactionWithStatusMeta \<Rightarrow> RpcCustomError + string"
  rx_json_slots :: "bytes \<Rightarrow> Slot list parsed option"
  rx_json_block :: "bytes \<Rightarrow> UiConfirmedBlock option parsed option"
  rx_json_signatures :: "bytes \<Rightarrow> 'e RpcConfirmedTransactionStatusWithSignature list parsed option"
  rx_json_statuses :: "bytes \<Rightarrow> 'e TransactionStatus option list parsed option"
  rx_satisfies_commitment :: "'e TransactionStatus \<Rightarrow> CommitmentLevel \<Rightarrow> bool"
  rx_order :: "(nat \<times> nat list) list \<Rightarrow> (nat \<times> nat list) list"
  rx_version :: string
  rx_MAX_GET_CONFIRMED_BLOCKS_RANGE :: nat
  rx_MAX_GET_SIGNATURE_STATUSES_QUERY_ITEMS :: nat
  rx_MAX_TX_ACCOUNT_LOCKS :: nat

section \<open>State\<close>

text \<open>The settings; the channels, the atomics and the clients are reached by the steps of a handler.\<close>

record State =
  st_gsfa_limit :: nat
  st_gtfa_limit_signatures :: nat
  st_gtfa_limit_full :: nat
  st_gss_transaction_history :: bool
  st_grpf_percentile :: bool
  st_upstreams :: "upstream list"
  st_health_check_slot_distance :: nat

definition get_upstream :: "State \<Rightarrow> ConfigRpcCallJson \<Rightarrow> nat option" where
  "get_upstream state call = find (\<lambda>i. is_supported (st_upstreams state ! i) call) [0..<length (st_upstreams state)]"

definition State_new :: "ConfigRpcCallJson list \<Rightarrow> State \<Rightarrow> State result" where
  "State_new calls state =
     bind_result
       (if GetClusterNodes \<in> set calls \<or> GetLeaderSchedule \<in> set calls
        then ensure ((\<exists>up \<in> set (st_upstreams state). is_supported up GetClusterNodes) \<and>
                     (\<exists>up \<in> set (st_upstreams state). is_supported up GetLeaderSchedule))
               ''at least one upstream should support getClusterNodes and getLeaderSchedule''
        else Inr ())
       (\<lambda>_. Inr state)"

text \<open>
  The task that polls another node for its processed slot runs when there is a \<open>getHealth\<close> to use it; what
  it stores in the atomic for an answer or an error.
\<close>

definition needs_poller :: "ConfigRpcCallJson list \<Rightarrow> string option \<Rightarrow> bool" where
  "needs_poller calls rpc_uri \<longleftrightarrow> GetHealth \<in> set calls \<and> rpc_uri \<noteq> None"

definition poller_value :: "string + Slot \<Rightarrow> Slot" where
  "poller_value answer = (case answer of Inr slot \<Rightarrow> slot | Inl e \<Rightarrow> 0)"

text \<open>The methods that have a handler.\<close>

definition create_request_processor :: "ConfigRpcCallJson list \<Rightarrow> State \<Rightarrow> (string \<times> ConfigRpcCallJson) list result" where
  "create_request_processor calls state =
     bind_result (State_new calls state) (\<lambda>_. Inr (filter (\<lambda>h. snd h \<in> set calls)
       [(''getBlock'', GetBlock), (''getBlockHeight'', GetBlockHeight), (''getBlocks'', GetBlocks),
        (''getBlocksWithLimit'', GetBlocksWithLimit), (''getBlockTime'', GetBlockTime),
        (''getClusterNodes'', GetClusterNodes), (''getFirstAvailableBlock'', GetFirstAvailableBlock),
        (''getHealth'', GetHealth), (''getInflationReward'', GetInflationReward),
        (''getLatestBlockhash'', GetLatestBlockhash), (''getLeaderSchedule'', GetLeaderSchedule),
        (''getRecentPrioritizationFees'', GetRecentPrioritizationFees),
        (''getSignaturesForAddress'', GetSignaturesForAddress), (''getSignatureStatuses'', GetSignatureStatuses),
        (''getSlot'', GetSlot), (''getTransaction'', GetTransaction),
        (''getTransactionsForAddress'', GetTransactionsForAddress), (''getVersion'', GetVersion),
        (''isBlockhashValid'', IsBlockhashValid)]))"

section \<open>Requests and checks\<close>

record 'p request =
  rq_id :: request_id
  rq_has_params :: bool
  rq_parsed :: "string + 'p"

definition handle :: "('e, 'e response + 'q) rpc \<Rightarrow> ('q \<Rightarrow> ('e, 'e response result) rpc) \<Rightarrow> ('e, 'e response result) rpc" where
  "handle parser run = rpc_bind parser (\<lambda>r. case r of Inr req \<Rightarrow> run req | Inl response \<Rightarrow> Done (Inr response))"

definition parse_params :: "'p request \<Rightarrow> 'e response + request_id \<times> 'p" where
  "parse_params rq = (case rq_parsed rq of
     Inr params \<Rightarrow> Inr (rq_id rq, params)
   | Inl e \<Rightarrow> Inl (RespInvalidParams (rq_id rq) e))"

text \<open>Handlers with optional parameters use the default value when there are none.\<close>

definition parse_params_or :: "'p \<Rightarrow> 'p request \<Rightarrow> 'e response + request_id \<times> 'p" where
  "parse_params_or dflt rq = (if rq_has_params rq then parse_params rq else Inr (rq_id rq, dflt))"

datatype json_value = JNull | JArray nat | JOther string

definition no_params_expected :: "json_value request \<Rightarrow> 'e response + request_id" where
  "no_params_expected rq = (case rq_parsed rq of
     Inr JNull \<Rightarrow> Inr (rq_id rq)
   | Inr (JArray n) \<Rightarrow> if n = 0 then Inr (rq_id rq) else Inl (RespInvalidParams (rq_id rq) ''No parameters were expected'')
   | Inr (JOther v) \<Rightarrow> Inl (RespInvalidParams (rq_id rq) ''No parameters were expected'')
   | Inl e \<Rightarrow> Inl (RespInvalidParams (rq_id rq) e))"

text \<open>The default of \<open>CommitmentConfig\<close> is finalized.\<close>

definition commitment_or_default :: "CommitmentLevel option \<Rightarrow> CommitmentLevel" where
  "commitment_or_default c = (case c of Some l \<Rightarrow> l | None \<Rightarrow> LevelFinalized)"

definition check_is_at_least_confirmed :: "CommitmentLevel \<Rightarrow> string + unit" where
  "check_is_at_least_confirmed commitment =
     (if commitment = LevelProcessed then Inl ''Method does not support commitment below `confirmed`'' else Inr ())"

definition atomic_of :: "CommitmentLevel \<Rightarrow> slot_atomic" where
  "atomic_of commitment = (case commitment of
     LevelProcessed \<Rightarrow> AtProcessed | LevelConfirmed \<Rightarrow> AtConfirmed | LevelFinalized \<Rightarrow> AtFinalized)"

definition min_context_check ::
  "request_id \<Rightarrow> Slot option \<Rightarrow> CommitmentLevel \<Rightarrow> ('e, 'e response + Slot option) rpc" where
  "min_context_check id' min_context_slot commitment =
     (case min_context_slot of
        None \<Rightarrow> Done (Inr None)
      | Some min_context_slot \<Rightarrow> Load (atomic_of commitment) (\<lambda>context_slot. Done (
          if context_slot < min_context_slot then Inl (RespCustom id' (CE_MinContextSlotNotReached context_slot))
          else Inr (Some context_slot))))"

definition verify_signature :: "'e rpc_ext \<Rightarrow> string \<Rightarrow> string + Signature" where
  "verify_signature ex input = (case rx_parse_signature ex input of Inl e \<Rightarrow> Inl (''Invalid param: '' @ e) | Inr s \<Rightarrow> Inr s)"

definition verify_pubkey :: "'e rpc_ext \<Rightarrow> string \<Rightarrow> string + Pubkey" where
  "verify_pubkey ex input = (case rx_parse_pubkey ex input of Inl e \<Rightarrow> Inl (''Invalid param: '' @ e) | Inr s \<Rightarrow> Inr s)"

text \<open>\<open>Option::transpose\<close> of a check, and checks on a list: the first failure is the result.\<close>

definition verify_opt :: "('a \<Rightarrow> 'x + 'b) \<Rightarrow> 'a option \<Rightarrow> 'x + 'b option" where
  "verify_opt f v = (case v of None \<Rightarrow> Inr None | Some a \<Rightarrow> (case f a of Inl e \<Rightarrow> Inl e | Inr b \<Rightarrow> Inr (Some b)))"

fun verify_all :: "('a \<Rightarrow> 'x + 'b) \<Rightarrow> 'a list \<Rightarrow> 'x + 'b list" where
  "verify_all f [] = Inr []"
| "verify_all f (a # as) = (case f a of
     Inl e \<Rightarrow> Inl e
   | Inr b \<Rightarrow> (case verify_all f as of Inl e \<Rightarrow> Inl e | Inr bs \<Rightarrow> Inr (b # bs)))"

definition verify_and_parse_signatures_for_address_params ::
  "'e rpc_ext \<Rightarrow> string \<Rightarrow> string option \<Rightarrow> string option \<Rightarrow> nat option \<Rightarrow> nat \<Rightarrow>
     string + Pubkey \<times> Signature option \<times> Signature option \<times> nat" where
  "verify_and_parse_signatures_for_address_params ex address before until' limit default_limit =
     (case verify_pubkey ex address of Inl e \<Rightarrow> Inl e | Inr address \<Rightarrow>
     (case verify_opt (verify_signature ex) before of Inl e \<Rightarrow> Inl e | Inr before \<Rightarrow>
     (case verify_opt (verify_signature ex) until' of Inl e \<Rightarrow> Inl e | Inr until' \<Rightarrow>
       let limit = (case limit of Some l \<Rightarrow> l | None \<Rightarrow> default_limit)
       in if limit = 0 \<or> default_limit < limit then Inl ''Invalid limit''
          else Inr (address, before, until', limit))))"

section \<open>Requests to the read threads and the workers\<close>

definition ask :: "'e ReadRequest \<Rightarrow> ('e ReadResult \<Rightarrow> ('e, 'a result) rpc) \<Rightarrow> ('e, 'a result) rpc" where
  "ask q k = Ask q (\<lambda>r. case r of
     ReqChannelClosed \<Rightarrow> Done (Inl (Err ''request channel is closed''))
   | RxChannelClosed \<Rightarrow> Done (Inl (Err ''rx channel is closed''))
   | Reply res \<Rightarrow> k res)"

text \<open>The channel of an answer has the type of the request's answers, so no other answer arrives.\<close>

abbreviation bad_reply :: "('e, 'a result) rpc" where
  "bad_reply \<equiv> Done (Inl (Panic ''answer of another type''))"

definition ask_block :: "Slot \<Rightarrow> (ReadResultBlock \<Rightarrow> ('e, 'a result) rpc) \<Rightarrow> ('e, 'a result) rpc" where
  "ask_block slot k = ask (ReqBlock slot) (\<lambda>res. case res of ResBlock r \<Rightarrow> k r | _ \<Rightarrow> bad_reply)"

definition ask_blocks ::
  "Slot \<Rightarrow> RpcRequestBlocksUntil \<Rightarrow> CommitmentLevel \<Rightarrow> (ReadResultBlocks \<Rightarrow> ('e, 'a result) rpc) \<Rightarrow> ('e, 'a result) rpc" where
  "ask_blocks start_slot until' commitment k =
     ask (ReqBlocks start_slot until' commitment) (\<lambda>res. case res of ResBlocks r \<Rightarrow> k r | _ \<Rightarrow> bad_reply)"

definition ask_height :: "CommitmentLevel \<Rightarrow> (ReadResultBlockHeight \<Rightarrow> ('e, 'a result) rpc) \<Rightarrow> ('e, 'a result) rpc" where
  "ask_height commitment k = ask (ReqBlockHeight commitment) (\<lambda>res. case res of ResBlockHeight r \<Rightarrow> k r | _ \<Rightarrow> bad_reply)"

definition ask_transaction :: "Signature \<Rightarrow> (ReadResultTransaction \<Rightarrow> ('e, 'a result) rpc) \<Rightarrow> ('e, 'a result) rpc" where
  "ask_transaction signature k = ask (ReqTransaction signature) (\<lambda>res. case res of ResTransaction r \<Rightarrow> k r | _ \<Rightarrow> bad_reply)"

abbreviation timeout :: "('e, 'a result) rpc" where
  "timeout \<equiv> Done (Inl (Err ''timeout''))"

abbreviation read_error :: "rust_error \<Rightarrow> ('e, 'a result) rpc" where
  "read_error e \<equiv> Done (Inl (Err ''read error''))"

definition process_with_workers :: "'e response result \<Rightarrow> ('e, 'e response result) rpc" where
  "process_with_workers response = Work (\<lambda>r. Done (case r of
     WorkDone \<Rightarrow> response
   | WorkersDisconnected \<Rightarrow> Inl (Err ''encode workers disconnected'')
   | WorkLost \<Rightarrow> Inl (Err ''failed to get encoded request'')))"

section \<open>getBlock\<close>

record RpcBlockConfig =
  bc_encoding :: "UiTransactionEncoding option"
  bc_transaction_details :: "TransactionDetails option"
  bc_rewards :: "bool option"
  bc_commitment :: "CommitmentLevel option"
  bc_max_supported_transaction_version :: "u8 option"

definition RpcBlockConfig_default :: RpcBlockConfig where
  "RpcBlockConfig_default = \<lparr>bc_encoding = None, bc_transaction_details = None, bc_rewards = None, bc_commitment = None,
     bc_max_supported_transaction_version = None\<rparr>"

abbreviation or_default :: "'a \<Rightarrow> 'a option \<Rightarrow> 'a" where
  "or_default d v \<equiv> (case v of Some x \<Rightarrow> x | None \<Rightarrow> d)"

record RpcRequestBlock =
  rb_upstream_disabled :: bool
  rb_id :: request_id
  rb_slot :: Slot
  rb_commitment :: CommitmentLevel
  rb_encoding :: UiTransactionEncoding
  rb_encoding_options :: BlockEncodingOptions

definition RpcRequestBlock_parse ::
  "bool \<Rightarrow> (Slot \<times> RpcBlockConfig option) request \<Rightarrow> ('e, 'e response + RpcRequestBlock) rpc" where
  "RpcRequestBlock_parse upstream_disabled rq =
     Done (case parse_params rq of
       Inl r \<Rightarrow> Inl r
     | Inr (id', slot, config) \<Rightarrow>
         let config = or_default RpcBlockConfig_default config;
             options = \<lparr>bo_transaction_details = or_default DetailsFull (bc_transaction_details config),
               bo_show_rewards = or_default True (bc_rewards config),
               bo_max_supported_transaction_version = bc_max_supported_transaction_version config\<rparr>;
             commitment = commitment_or_default (bc_commitment config)
         in case check_is_at_least_confirmed commitment of
              Inl e \<Rightarrow> Inl (RespInvalidParams id' e)
            | Inr _ \<Rightarrow> Inr \<lparr>rb_upstream_disabled = upstream_disabled, rb_id = id', rb_slot = slot, rb_commitment = commitment,
                rb_encoding = or_default EncJson (bc_encoding config), rb_encoding_options = options\<rparr>)"

definition error_not_available :: "request_id \<Rightarrow> Slot \<Rightarrow> 'e response" where
  "error_not_available id' slot = RespCustom id' (CE_BlockNotAvailable slot)"

definition error_skipped :: "request_id \<Rightarrow> Slot \<Rightarrow> 'e response" where
  "error_skipped id' slot = RespCustom id' (CE_SlotSkipped slot)"

definition error_skipped_long_term_storage :: "request_id \<Rightarrow> Slot \<Rightarrow> 'e response" where
  "error_skipped_long_term_storage id' slot = RespCustom id' (CE_LongTermStorageSlotSkipped slot)"

definition RpcRequestBlock_fetch_upstream :: "State \<Rightarrow> RpcRequestBlock \<Rightarrow> reason \<Rightarrow> ('e, 'e response result) rpc" where
  "RpcRequestBlock_fetch_upstream state req reason =
     (if rb_upstream_disabled req then Done (Inr (RespSuccess (rb_id req) PNull))
      else case get_upstream state GetBlock of
          Some up \<Rightarrow> up_get_block up (rb_id req) (rb_slot req) (rb_commitment req) (rb_encoding req) (rb_encoding_options req) reason
        | None \<Rightarrow> Done (Inr (error_skipped_long_term_storage (rb_id req) (rb_slot req))))"

text \<open>The work of a worker thread on a block.\<close>

definition parse_and_encode ::
  "'e rpc_ext \<Rightarrow> bytes \<Rightarrow> request_id \<Rightarrow> UiTransactionEncoding \<Rightarrow> BlockEncodingOptions \<Rightarrow> ('e response + UiConfirmedBlock) result" where
  "parse_and_encode ex buf id' encoding options =
     (case rx_decode_block ex buf of
        Inl ConvertFailed \<Rightarrow> Inl (Err ''failed to decode block'')
      | Inl ProtobufFailed \<Rightarrow> Inl (Err ''failed to decode block protobuf / bincode'')
      | Inr block \<Rightarrow>
          Inr (case rx_encode_block ex encoding options block of
                 Inr b \<Rightarrow> Inr b
               | Inl e \<Rightarrow> Inl (RespCustom id' e)))"

definition RpcRequestBlock_process2 ::
  "'e rpc_ext \<Rightarrow> bytes \<Rightarrow> request_id \<Rightarrow> UiTransactionEncoding \<Rightarrow> BlockEncodingOptions \<Rightarrow> 'e response result" where
  "RpcRequestBlock_process2 ex buf id' encoding options =
     bind_result (parse_and_encode ex buf id' encoding options) (\<lambda>r. Inr (case r of
       Inr block \<Rightarrow> RespSuccess id' (PBlock block) | Inl error \<Rightarrow> error))"

definition RpcRequestBlock_process :: "'e rpc_ext \<Rightarrow> State \<Rightarrow> RpcRequestBlock \<Rightarrow> ('e, 'e response result) rpc" where
  "RpcRequestBlock_process ex state req =
     (if rb_commitment req = LevelProcessed then Done (Inl (Panic ''unreachable''))
      else Load (atomic_of (rb_commitment req)) (\<lambda>slot_tip.
        if slot_tip < rb_slot req then Done (Inr (error_not_available (rb_id req) (rb_slot req)))
        else Load AtFirstAvailable (\<lambda>first_available.
          if rb_slot req \<le> first_available then RpcRequestBlock_fetch_upstream state req BELOW_RETENTION
          else ask_block (rb_slot req) (\<lambda>result. case result of
              RB_Timeout \<Rightarrow> timeout
            | RB_Removed \<Rightarrow> RpcRequestBlock_fetch_upstream state req REMOVED
            | RB_Dead \<Rightarrow> Done (Inr (error_skipped (rb_id req) (rb_slot req)))
            | RB_NotAvailable \<Rightarrow> Done (Inr (error_not_available (rb_id req) (rb_slot req)))
            | RB_ReadError e \<Rightarrow> read_error e
            | RB_Block buf \<Rightarrow>
                Load AtFirstAvailable (\<lambda>first_available.
                  if rb_slot req \<le> first_available then RpcRequestBlock_fetch_upstream state req BELOW_RETENTION
                  else process_with_workers
                         (RpcRequestBlock_process2 ex buf (rb_id req) (rb_encoding req) (rb_encoding_options req)))))))"

section \<open>getBlockHeight\<close>

record RpcContextConfig =
  cc_commitment :: "CommitmentLevel option"
  cc_min_context_slot :: "Slot option"

definition RpcContextConfig_default :: RpcContextConfig where
  "RpcContextConfig_default = \<lparr>cc_commitment = None, cc_min_context_slot = None\<rparr>"

text \<open>The common part of the methods that take a context: the default commitment and the minimal context slot.\<close>

definition context_parse ::
  "request_id \<Rightarrow> RpcContextConfig option \<Rightarrow> (CommitmentLevel \<Rightarrow> ('e, 'e response + 'q) rpc) \<Rightarrow> ('e, 'e response + 'q) rpc" where
  "context_parse id' config k =
     (let config = or_default RpcContextConfig_default config; commitment = commitment_or_default (cc_commitment config)
      in rpc_bind (min_context_check id' (cc_min_context_slot config) commitment)
           (\<lambda>r. case r of Inl response \<Rightarrow> Done (Inl response) | Inr _ \<Rightarrow> k commitment))"

record RpcRequestBlockHeight =
  rh_id :: request_id
  rh_commitment :: CommitmentLevel

definition RpcRequestBlockHeight_parse ::
  "RpcContextConfig option request \<Rightarrow> ('e, 'e response + RpcRequestBlockHeight) rpc" where
  "RpcRequestBlockHeight_parse rq = (case parse_params_or None rq of
     Inl r \<Rightarrow> Done (Inl r)
   | Inr (id', config) \<Rightarrow> context_parse id' config (\<lambda>commitment. Done (Inr \<lparr>rh_id = id', rh_commitment = commitment\<rparr>)))"

definition RpcRequestBlockHeight_process :: "RpcRequestBlockHeight \<Rightarrow> ('e, 'e response result) rpc" where
  "RpcRequestBlockHeight_process req = ask_height (rh_commitment req) (\<lambda>result. case result of
     RH_Timeout \<Rightarrow> timeout
   | RH_BlockHeight block_height slot \<Rightarrow> Done (Inr (RespSuccess (rh_id req) (PNumber block_height)))
   | RH_ReadError e \<Rightarrow> read_error e)"

section \<open>getBlocks and getBlocksWithLimit\<close>

record RpcRequestBlocks =
  rbs_upstream_disabled :: bool
  rbs_id :: request_id
  rbs_start_slot :: Slot
  rbs_until :: RpcRequestBlocksUntil
  rbs_commitment :: CommitmentLevel

record blocks_params =
  bp_start_slot :: Slot
  bp_wrapper :: "(Slot option \<times> RpcContextConfig option) option"
  bp_config :: "RpcContextConfig option"

text \<open>The checks of the context, which compare the minimal slot only with the finalized one.\<close>

definition blocks_context ::
  "request_id \<Rightarrow> RpcContextConfig \<Rightarrow> (CommitmentLevel \<Rightarrow> Slot \<Rightarrow> ('e, 'e response + 'q) rpc) \<Rightarrow> ('e, 'e response + 'q) rpc" where
  "blocks_context id' config k =
     (let commitment = commitment_or_default (cc_commitment config)
      in case check_is_at_least_confirmed commitment of
           Inl e \<Rightarrow> Done (Inl (RespInvalidParams id' e))
         | Inr _ \<Rightarrow> Load AtFinalized (\<lambda>finalized_slot.
             if commitment = LevelFinalized \<and> finalized_slot < or_default 0 (cc_min_context_slot config)
             then Done (Inl (RespCustom id' (CE_MinContextSlotNotReached finalized_slot)))
             else k commitment finalized_slot))"

definition saturating_add :: "nat \<Rightarrow> nat \<Rightarrow> nat" where
  "saturating_add a b = min (a + b) u64_MAX"

definition RpcRequestBlocks_parse ::
  "'e rpc_ext \<Rightarrow> bool \<Rightarrow> blocks_params request \<Rightarrow> ('e, 'e response + RpcRequestBlocks) rpc" where
  "RpcRequestBlocks_parse ex upstream_disabled rq = (case parse_params rq of
     Inl r \<Rightarrow> Done (Inl r)
   | Inr (id', params) \<Rightarrow>
       let (end_slot, maybe_config) = or_default (None, None) (bp_wrapper params);
           config = or_default (or_default RpcContextConfig_default maybe_config) (bp_config params);
           start_slot = bp_start_slot params
       in blocks_context id' config (\<lambda>commitment finalized_slot.
            let finish = (\<lambda>tip.
                  let end_slot = min (or_default (saturating_add start_slot (rx_MAX_GET_CONFIRMED_BLOCKS_RANGE ex)) end_slot) tip
                  in Done (if end_slot < start_slot then Inl (RespSuccess id' (PSlots []))
                           else if rx_MAX_GET_CONFIRMED_BLOCKS_RANGE ex < end_slot - start_slot
                           then Inl (RespInvalidParams id' ''Slot range too large'')
                           else Inr \<lparr>rbs_upstream_disabled = upstream_disabled, rbs_id = id', rbs_start_slot = start_slot,
                                     rbs_until = EndSlot end_slot, rbs_commitment = commitment\<rparr>))
            in if commitment = LevelFinalized then finish finalized_slot else Load AtConfirmed finish))"

definition RpcRequestBlocks_process :: "State \<Rightarrow> RpcRequestBlocks \<Rightarrow> ('e, 'e response result) rpc" where
  "RpcRequestBlocks_process state req =
     Load AtFirstAvailable (\<lambda>first_available.
       case (if rbs_start_slot req < add64 first_available 32 \<and> \<not> rbs_upstream_disabled req
             then get_upstream state GetBlocks else None) of
         Some up \<Rightarrow> up_get_blocks up (rbs_id req) (rbs_start_slot req) (rbs_until req) (rbs_commitment req) BELOW_RETENTION
       | None \<Rightarrow> ask_blocks (rbs_start_slot req) (rbs_until req) (rbs_commitment req) (\<lambda>result. case result of
           RS_Timeout \<Rightarrow> timeout
         | RS_Blocks blocks \<Rightarrow> Done (Inr (RespSuccess (rbs_id req) (PSlots blocks)))
         | RS_Removed \<Rightarrow> Load AtFirstAvailable (\<lambda>first_available.
             Done (Inr (RespCustom (rbs_id req) (CE_BlockCleanedUp (rbs_start_slot req) first_available))))
         | RS_ReadError e \<Rightarrow> read_error e))"

definition RpcRequestBlocksWithLimit_parse ::
  "'e rpc_ext \<Rightarrow> bool \<Rightarrow> (Slot \<times> nat \<times> RpcContextConfig option) request \<Rightarrow> ('e, 'e response + RpcRequestBlocks) rpc" where
  "RpcRequestBlocksWithLimit_parse ex upstream_disabled rq = (case parse_params rq of
     Inl r \<Rightarrow> Done (Inl r)
   | Inr (id', start_slot, limit, config) \<Rightarrow>
       blocks_context id' (or_default RpcContextConfig_default config) (\<lambda>commitment finalized_slot.
         Done (if limit = 0 then Inl (RespSuccess id' (PSlots []))
               else if rx_MAX_GET_CONFIRMED_BLOCKS_RANGE ex < limit then Inl (RespInvalidParams id' ''Limit too large'')
               else Inr \<lparr>rbs_upstream_disabled = upstream_disabled, rbs_id = id', rbs_start_slot = start_slot,
                         rbs_until = Limit limit, rbs_commitment = commitment\<rparr>)))"

section \<open>getBlockTime\<close>

record RpcRequestBlockTime =
  rbt_upstream_disabled :: bool
  rbt_id :: request_id
  rbt_slot :: Slot

definition RpcRequestBlockTime_parse :: "bool \<Rightarrow> Slot request \<Rightarrow> ('e, 'e response + RpcRequestBlockTime) rpc" where
  "RpcRequestBlockTime_parse upstream_disabled rq =
     Done (case parse_params rq of
       Inl r \<Rightarrow> Inl r
     | Inr (id', slot) \<Rightarrow>
         if slot = 0 then Inl (RespSuccess id' (PNumber 1584368940))
         else Inr \<lparr>rbt_upstream_disabled = upstream_disabled, rbt_id = id', rbt_slot = slot\<rparr>)"

definition RpcRequestBlockTime_fetch_upstream :: "State \<Rightarrow> RpcRequestBlockTime \<Rightarrow> reason \<Rightarrow> ('e, 'e response result) rpc" where
  "RpcRequestBlockTime_fetch_upstream state req reason =
     (let cleaned_up = Load AtFirstAvailable (\<lambda>first_available.
            Done (Inr (RespCustom (rbt_id req) (CE_BlockCleanedUp (rbt_slot req) first_available))))
      in if rbt_upstream_disabled req then cleaned_up
         else case get_upstream state GetBlockTime of
             Some up \<Rightarrow> up_get_block_time up (rbt_id req) (rbt_slot req) reason
           | None \<Rightarrow> cleaned_up)"

definition RpcRequestBlockTime_process :: "State \<Rightarrow> RpcRequestBlockTime \<Rightarrow> ('e, 'e response result) rpc" where
  "RpcRequestBlockTime_process state req =
     ask (ReqBlockTime (rbt_slot req)) (\<lambda>res. case res of
         ResBlockTime result \<Rightarrow> (case result of
             RT_Timeout \<Rightarrow> timeout
           | RT_Removed \<Rightarrow> RpcRequestBlockTime_fetch_upstream state req REMOVED
           | RT_Dead \<Rightarrow> Done (Inr (RespCustom (rbt_id req) (CE_SlotSkipped (rbt_slot req))))
           | RT_NotAvailable \<Rightarrow> Done (Inr (RespCustom (rbt_id req) (CE_BlockNotAvailable (rbt_slot req))))
           | RT_BlockTime block_time \<Rightarrow> Done (Inr (RespSuccess (rbt_id req) (PTime block_time)))
           | RT_ReadError e \<Rightarrow> read_error e)
       | _ \<Rightarrow> bad_reply)"

section \<open>getClusterNodes and getFirstAvailableBlock\<close>

definition RpcRequestClusterNodes_parse :: "json_value request \<Rightarrow> ('e, 'e response + request_id) rpc" where
  "RpcRequestClusterNodes_parse rq = Done (no_params_expected rq)"

definition RpcRequestClusterNodes_process :: "State \<Rightarrow> request_id \<Rightarrow> ('e, 'e response result) rpc" where
  "RpcRequestClusterNodes_process state id' = (case get_upstream state GetClusterNodes of
     None \<Rightarrow> Done (Inl (Panic ''unreachable'')) | Some up \<Rightarrow> up_get_cluster_nodes up id')"

definition RpcRequestFirstAvailableBlock_parse :: "json_value request \<Rightarrow> ('e, 'e response + request_id) rpc" where
  "RpcRequestFirstAvailableBlock_parse rq = Done (no_params_expected rq)"

definition RpcRequestFirstAvailableBlock_process :: "State \<Rightarrow> bool \<Rightarrow> request_id \<Rightarrow> ('e, 'e response result) rpc" where
  "RpcRequestFirstAvailableBlock_process state upstream_disabled id' =
     (case (if \<not> upstream_disabled then get_upstream state GetFirstAvailableBlock else None) of
        Some up \<Rightarrow> up_get_first_available_block up id' ALWAYS
      | None \<Rightarrow> Load AtFirstAvailable (\<lambda>first_available. Done (Inr (RespSuccess id' (PNumber first_available)))))"

section \<open>getLatestBlockhash\<close>

record RpcRequestLatestBlockhash =
  rlb_id :: request_id
  rlb_commitment :: CommitmentLevel

definition RpcRequestLatestBlockhash_parse ::
  "RpcContextConfig option request \<Rightarrow> ('e, 'e response + RpcRequestLatestBlockhash) rpc" where
  "RpcRequestLatestBlockhash_parse rq = (case parse_params rq of
     Inl r \<Rightarrow> Done (Inl r)
   | Inr (id', config) \<Rightarrow> context_parse id' config (\<lambda>commitment. Done (Inr \<lparr>rlb_id = id', rlb_commitment = commitment\<rparr>)))"

definition RpcRequestLatestBlockhash_process :: "RpcRequestLatestBlockhash \<Rightarrow> ('e, 'e response result) rpc" where
  "RpcRequestLatestBlockhash_process req =
     ask (ReqLatestBlockhash (rlb_commitment req)) (\<lambda>res. case res of
         ResLatestBlockhash result \<Rightarrow> (case result of
             RL_Timeout \<Rightarrow> timeout
           | RL_LatestBlockhash slot blockhash last_valid_block_height \<Rightarrow>
               Done (Inr (RespSuccess (rlb_id req) (PBlockhash slot blockhash last_valid_block_height)))
           | RL_ReadError e \<Rightarrow> read_error e)
       | _ \<Rightarrow> bad_reply)"

section \<open>getLeaderSchedule\<close>

record RpcRequestLeaderSchedule =
  rls_id :: request_id
  rls_slot :: Slot
  rls_is_processed :: bool
  rls_config :: RpcLeaderScheduleConfig

definition RpcLeaderScheduleConfig_default :: RpcLeaderScheduleConfig where
  "RpcLeaderScheduleConfig_default = \<lparr>ls_identity = None, ls_commitment = None, ls_key_by_vote_account = None\<rparr>"

definition RpcRequestLeaderSchedule_parse ::
  "'e rpc_ext \<Rightarrow> ((Slot option \<times> RpcLeaderScheduleConfig option) option \<times> RpcLeaderScheduleConfig option) request \<Rightarrow>
     ('e, 'e response + RpcRequestLeaderSchedule) rpc" where
  "RpcRequestLeaderSchedule_parse ex rq = (case parse_params_or (None, None) rq of
     Inl r \<Rightarrow> Done (Inl r)
   | Inr (id', options, config) \<Rightarrow>
       let (slot, maybe_config) = or_default (None, None) options;
           config = or_default (or_default RpcLeaderScheduleConfig_default config) maybe_config;
           mk = (\<lambda>slot is_processed. Done (Inr \<lparr>rls_id = id', rls_slot = slot, rls_is_processed = is_processed, rls_config = config\<rparr>))
       in case verify_opt (verify_pubkey ex) (ls_identity config) of
            Inl e \<Rightarrow> Done (Inl (RespInvalidParams id' e))
          | Inr _ \<Rightarrow>
              (case slot of
                 Some slot \<Rightarrow> Load AtProcessed (\<lambda>processed.
                   if processed < slot then Done (Inl (RespSuccess id' PNull))
                   else Load AtConfirmed (\<lambda>confirmed. mk slot (confirmed < slot)))
               | None \<Rightarrow>
                   let commitment = commitment_or_default (ls_commitment config)
                   in Load (atomic_of commitment) (\<lambda>slot. mk slot (commitment = LevelProcessed))))"

definition RpcRequestLeaderSchedule_process ::
  "'e rpc_ext \<Rightarrow> State \<Rightarrow> RpcRequestLeaderSchedule \<Rightarrow> ('e, 'e response result) rpc" where
  "RpcRequestLeaderSchedule_process ex state req = (case get_upstream state GetLeaderSchedule of
     None \<Rightarrow> Done (Inl (Panic ''unreachable''))
   | Some up \<Rightarrow> up_get_leader_schedule up (rls_id req) (rx_get_epoch ex (rls_slot req)) (rls_slot req)
       (rls_is_processed req) (rls_config req) ALWAYS)"

section \<open>getRecentPrioritizationFees\<close>

record RpcRequestRecentPrioritizationFees =
  rpf_id :: request_id
  rpf_pubkeys :: "Pubkey list"
  rpf_percentile :: "nat option"

text \<open>\<open>RpcRecentPrioritizationFeesConfig\<close> has the percentile only.\<close>

definition RpcRequestRecentPrioritizationFees_parse ::
  "'e rpc_ext \<Rightarrow> State \<Rightarrow> (string list option \<times> nat option option) request \<Rightarrow>
     ('e, 'e response + RpcRequestRecentPrioritizationFees) rpc" where
  "RpcRequestRecentPrioritizationFees_parse ex state rq =
     Done (case parse_params_or (None, None) rq of
       Inl r \<Rightarrow> Inl r
     | Inr (id', pubkey_strs, config) \<Rightarrow>
         let pubkey_strs = or_default [] pubkey_strs
         in if rx_MAX_TX_ACCOUNT_LOCKS ex < length pubkey_strs then Inl (RespInvalidParams id' ''Too many inputs provided'')
            else case verify_all (verify_pubkey ex) pubkey_strs of
                Inl e \<Rightarrow> Inl (RespInvalidParams id' e)
              | Inr pubkeys \<Rightarrow>
                  let percentile = (if st_grpf_percentile state then or_default None config else None)
                  in if (case percentile of Some p \<Rightarrow> 10000 < p | None \<Rightarrow> False)
                     then Inl (RespInvalidParams id' ''Percentile is too big; max value is 10000'')
                     else Inr \<lparr>rpf_id = id', rpf_pubkeys = pubkeys, rpf_percentile = percentile\<rparr>)"

definition RpcRequestRecentPrioritizationFees_process ::
  "RpcRequestRecentPrioritizationFees \<Rightarrow> ('e, 'e response result) rpc" where
  "RpcRequestRecentPrioritizationFees_process req =
     ask (ReqRecentPrioritizationFees (rpf_pubkeys req) (rpf_percentile req)) (\<lambda>res. case res of
         ResRecentPrioritizationFees result \<Rightarrow> (case result of
             RF_Timeout \<Rightarrow> timeout
           | RF_Fees fees \<Rightarrow> Done (Inr (RespSuccess (rpf_id req) (PFees fees))))
       | _ \<Rightarrow> bad_reply)"

section \<open>getSignaturesForAddress\<close>

record RpcSignaturesForAddressConfig =
  sfc_before :: "string option"
  sfc_until :: "string option"
  sfc_limit :: "nat option"
  sfc_commitment :: "CommitmentLevel option"
  sfc_min_context_slot :: "Slot option"

definition RpcSignaturesForAddressConfig_default :: RpcSignaturesForAddressConfig where
  "RpcSignaturesForAddressConfig_default = \<lparr>sfc_before = None, sfc_until = None, sfc_limit = None, sfc_commitment = None,
     sfc_min_context_slot = None\<rparr>"

record RpcRequestSignaturesForAddress =
  rsa_upstream_disabled :: bool
  rsa_id :: request_id
  rsa_commitment :: CommitmentLevel
  rsa_address :: Pubkey
  rsa_before :: "Signature option"
  rsa_until :: "Signature option"
  rsa_limit :: nat

text \<open>The checks of a commitment that must be confirmed at least, and of the minimal context slot.\<close>

definition confirmed_context ::
  "request_id \<Rightarrow> Slot option \<Rightarrow> CommitmentLevel \<Rightarrow> ('e, 'e response + 'q) rpc \<Rightarrow> ('e, 'e response + 'q) rpc" where
  "confirmed_context id' min_context_slot commitment p =
     (case check_is_at_least_confirmed commitment of
        Inl e \<Rightarrow> Done (Inl (RespInvalidParams id' e))
      | Inr _ \<Rightarrow> rpc_bind (min_context_check id' min_context_slot commitment)
          (\<lambda>r. case r of Inl response \<Rightarrow> Done (Inl response) | Inr _ \<Rightarrow> p))"

definition RpcRequestSignaturesForAddress_parse ::
  "'e rpc_ext \<Rightarrow> State \<Rightarrow> bool \<Rightarrow> (string \<times> RpcSignaturesForAddressConfig option) request \<Rightarrow>
     ('e, 'e response + RpcRequestSignaturesForAddress) rpc" where
  "RpcRequestSignaturesForAddress_parse ex state upstream_disabled rq = (case parse_params rq of
     Inl r \<Rightarrow> Done (Inl r)
   | Inr (id', address, config) \<Rightarrow>
       let config = or_default RpcSignaturesForAddressConfig_default config
       in case verify_and_parse_signatures_for_address_params ex address (sfc_before config) (sfc_until config)
                 (sfc_limit config) (st_gsfa_limit state) of
            Inl e \<Rightarrow> Done (Inl (RespInvalidParams id' e))
          | Inr (address, before, until', limit) \<Rightarrow>
              let commitment = commitment_or_default (sfc_commitment config)
              in confirmed_context id' (sfc_min_context_slot config) commitment
                   (Done (Inr \<lparr>rsa_upstream_disabled = upstream_disabled, rsa_id = id', rsa_commitment = commitment,
                      rsa_address = address, rsa_before = before, rsa_until = until', rsa_limit = limit\<rparr>)))"

definition RpcRequestSignaturesForAddress_fetch_upstream ::
  "'e rpc_ext \<Rightarrow> State \<Rightarrow> RpcRequestSignaturesForAddress \<Rightarrow> Signature option \<Rightarrow> nat \<Rightarrow>
     ('e, ('e response + 'e RpcConfirmedTransactionStatusWithSignature list) result) rpc" where
  "RpcRequestSignaturesForAddress_fetch_upstream ex state req before limit =
     (case get_upstream state GetSignaturesForAddress of
        None \<Rightarrow> Done (Inr (Inr []))
      | Some up \<Rightarrow>
          Call (up_get_signatures_for_address up (rsa_id req) (rsa_address req) before (rsa_until req) limit
                  (rsa_commitment req) INCOMPLETE_RESULTS) (\<lambda>r. Done (parse_reply (rx_json_signatures ex) r)))"

definition RpcRequestSignaturesForAddress_process ::
  "'e rpc_ext \<Rightarrow> State \<Rightarrow> RpcRequestSignaturesForAddress \<Rightarrow> ('e, 'e response result) rpc" where
  "RpcRequestSignaturesForAddress_process ex state req =
     ask (ReqSignaturesForAddress (rsa_commitment req) (rsa_address req) (rsa_before req) (rsa_until req) (rsa_limit req))
       (\<lambda>res. case res of
         ResSignaturesForAddress result \<Rightarrow> (case result of
             RA_Timeout \<Rightarrow> timeout
           | RA_ReadError e \<Rightarrow> read_error e
           | RA_Signatures signatures finished before \<Rightarrow>
               let limit = sub64 (rsa_limit req) (length signatures)
               in if \<not> finished \<and> \<not> rsa_upstream_disabled req \<and> 0 < limit
                  then
                    let before = (if signatures \<noteq> [] then Some (rc_signature (last signatures)) else before)
                    in rpc_try (RpcRequestSignaturesForAddress_fetch_upstream ex state req before limit) (\<lambda>r. Done (Inr (case r of
                         Inr sigs \<Rightarrow> RespSuccess (rsa_id req) (PSignatures (signatures @ sigs))
                       | Inl error \<Rightarrow> error)))
                  else Done (Inr (RespSuccess (rsa_id req) (PSignatures signatures))))
       | _ \<Rightarrow> bad_reply)"

section \<open>getSignatureStatuses\<close>

definition RpcSignatureStatusConfig_default :: RpcSignatureStatusConfig where
  "RpcSignatureStatusConfig_default = \<lparr>sc_search_transaction_history = False, sc_commitment = None, sc_min_context_slot = None\<rparr>"

record RpcRequestSignatureStatuses =
  rss_upstream_disabled :: bool
  rss_id :: request_id
  rss_signatures :: "Signature list"
  rss_search_transaction_history :: bool
  rss_commitment :: CommitmentLevel
  rss_config :: RpcSignatureStatusConfig

definition RpcRequestSignatureStatuses_parse ::
  "'e rpc_ext \<Rightarrow> State \<Rightarrow> bool \<Rightarrow> (string list \<times> RpcSignatureStatusConfig option) request \<Rightarrow>
     ('e, 'e response + RpcRequestSignatureStatuses) rpc" where
  "RpcRequestSignatureStatuses_parse ex state upstream_disabled rq = (case parse_params rq of
     Inl r \<Rightarrow> Done (Inl r)
   | Inr (id', signature_strs, config) \<Rightarrow>
       if rx_MAX_GET_SIGNATURE_STATUSES_QUERY_ITEMS ex < length signature_strs
       then Done (Inl (RespInvalidParams id' ''Too many inputs provided''))
       else case verify_all (verify_signature ex) signature_strs of
           Inl e \<Rightarrow> Done (Inl (RespInvalidParams id' e))
         | Inr signatures \<Rightarrow>
             let config = or_default RpcSignatureStatusConfig_default config;
                 search = sc_search_transaction_history config;
                 commitment = or_default LevelProcessed (sc_commitment config)
             in if search \<and> \<not> st_gss_transaction_history state
                then Done (Inl (RespCustom id' CE_TransactionHistoryNotAvailable))
                else rpc_bind (min_context_check id' (sc_min_context_slot config) commitment) (\<lambda>r. Done (case r of
                    Inl response \<Rightarrow> Inl response
                  | Inr _ \<Rightarrow> Inr \<lparr>rss_upstream_disabled = upstream_disabled, rss_id = id', rss_signatures = signatures,
                      rss_search_transaction_history = search, rss_commitment = commitment, rss_config = config\<rparr>)))"

text \<open>Statuses below the requested commitment are hidden.\<close>

definition hide_statuses :: "'e rpc_ext \<Rightarrow> CommitmentLevel \<Rightarrow> 'e TransactionStatus option list \<Rightarrow> 'e TransactionStatus option list" where
  "hide_statuses ex commitment = map (\<lambda>s. case s of
     Some status \<Rightarrow> if rx_satisfies_commitment ex status commitment then Some status else None
   | None \<Rightarrow> None)"

text \<open>The loop that puts the statuses of the upstream in the places that are empty; it indexes a vector.\<close>

fun fill_statuses ::
  "'e TransactionStatus option list \<Rightarrow> nat \<Rightarrow> 'e TransactionStatus option list \<Rightarrow> 'e TransactionStatus option list result" where
  "fill_statuses ups index [] = Inr []"
| "fill_statuses ups index (Some s # statuses) = bind_result (fill_statuses ups index statuses) (\<lambda>rest. Inr (Some s # rest))"
| "fill_statuses ups index (None # statuses) =
     (if index < length ups then bind_result (fill_statuses ups (Suc index) statuses) (\<lambda>rest. Inr (ups ! index # rest))
      else Inl (Panic ''index out of bounds''))"

definition RpcRequestSignatureStatuses_fetch_upstream ::
  "'e rpc_ext \<Rightarrow> State \<Rightarrow> RpcRequestSignatureStatuses \<Rightarrow> Signature list \<Rightarrow>
     ('e, ('e response + 'e TransactionStatus option list) result) rpc" where
  "RpcRequestSignatureStatuses_fetch_upstream ex state req signatures =
     (case get_upstream state GetSignatureStatuses of
        None \<Rightarrow> Done (Inr (Inr []))
      | Some up \<Rightarrow>
          Call (up_get_signature_statuses up (rss_id req) signatures (rss_config req) MISSING_STATUS) (\<lambda>r. Done (parse_reply (rx_json_statuses ex) r)))"

definition statuses_response ::
  "RpcRequestSignatureStatuses \<Rightarrow> 'e TransactionStatus option list \<Rightarrow> ('e, 'e response result) rpc" where
  "statuses_response req statuses = Load (atomic_of (rss_commitment req)) (\<lambda>context_slot.
     Done (Inr (RespSuccess (rss_id req) (PStatuses context_slot statuses))))"

definition RpcRequestSignatureStatuses_process ::
  "'e rpc_ext \<Rightarrow> State \<Rightarrow> RpcRequestSignatureStatuses \<Rightarrow> ('e, 'e response result) rpc" where
  "RpcRequestSignatureStatuses_process ex state req =
     ask (ReqSignatureStatuses (rss_signatures req) (rss_search_transaction_history req)) (\<lambda>res. case res of
         ResSignatureStatuses result \<Rightarrow> (case result of
             RU_Timeout \<Rightarrow> timeout
           | RU_ReadError e \<Rightarrow> read_error e
           | RU_Signatures statuses \<Rightarrow>
               let statuses = hide_statuses ex (rss_commitment req) statuses
               in if rss_search_transaction_history req \<and> \<not> rss_upstream_disabled req \<and>
                     get_upstream state GetSignatureStatuses \<noteq> None \<and> None \<in> set statuses
                  then
                    let history = map fst (filter (\<lambda>(signature, status). status = None) (zip (rss_signatures req) statuses))
                    in rpc_try (RpcRequestSignatureStatuses_fetch_upstream ex state req history) (\<lambda>r. case r of
                         Inl error \<Rightarrow> Done (Inr error)
                       | Inr ups \<Rightarrow> rpc_try (Done (fill_statuses ups 0 statuses)) (statuses_response req))
                  else statuses_response req statuses)
       | _ \<Rightarrow> bad_reply)"

section \<open>getSlot\<close>

text \<open>This method is answered by \<open>parse\<close>.\<close>

definition RpcRequestSlot_parse :: "RpcContextConfig option request \<Rightarrow> ('e, 'e response + unit) rpc" where
  "RpcRequestSlot_parse rq = (case parse_params_or None rq of
     Inl r \<Rightarrow> Done (Inl r)
   | Inr (id', config) \<Rightarrow>
       let config = or_default RpcContextConfig_default config; commitment = commitment_or_default (cc_commitment config)
       in Load (atomic_of commitment) (\<lambda>context_slot. Done (Inl (
            case cc_min_context_slot config of
              Some min_context_slot \<Rightarrow>
                if context_slot < min_context_slot then RespCustom id' (CE_MinContextSlotNotReached context_slot)
                else RespSuccess id' (PNumber context_slot)
            | None \<Rightarrow> RespSuccess id' (PNumber context_slot)))))"

section \<open>getTransaction\<close>

record RpcTransactionConfig =
  tc_encoding :: "UiTransactionEncoding option"
  tc_commitment :: "CommitmentLevel option"
  tc_max_supported_transaction_version :: "u8 option"
  tc_min_context_slot :: "Slot option"

definition RpcTransactionConfig_default :: RpcTransactionConfig where
  "RpcTransactionConfig_default = \<lparr>tc_encoding = None, tc_commitment = None, tc_max_supported_transaction_version = None,
     tc_min_context_slot = None\<rparr>"

record RpcRequestTransaction =
  rt_upstream_disabled :: bool
  rt_id :: request_id
  rt_signature :: Signature
  rt_commitment :: CommitmentLevel
  rt_encoding :: UiTransactionEncoding
  rt_max_supported_transaction_version :: "u8 option"
  rt_min_context_slot :: "Slot option"

definition RpcRequestTransaction_parse ::
  "'e rpc_ext \<Rightarrow> bool \<Rightarrow> (string \<times> RpcTransactionConfig option) request \<Rightarrow> ('e, 'e response + RpcRequestTransaction) rpc" where
  "RpcRequestTransaction_parse ex upstream_disabled rq = (case parse_params rq of
     Inl r \<Rightarrow> Done (Inl r)
   | Inr (id', signature_str, config) \<Rightarrow>
       (case verify_signature ex signature_str of
          Inl e \<Rightarrow> Done (Inl (RespInvalidParams id' e))
        | Inr signature \<Rightarrow>
            let config = or_default RpcTransactionConfig_default config;
                commitment = commitment_or_default (tc_commitment config)
            in confirmed_context id' (tc_min_context_slot config) commitment
                 (Done (Inr \<lparr>rt_upstream_disabled = upstream_disabled, rt_id = id', rt_signature = signature,
                    rt_commitment = commitment, rt_encoding = or_default EncJson (tc_encoding config),
                    rt_max_supported_transaction_version = tc_max_supported_transaction_version config,
                    rt_min_context_slot = tc_min_context_slot config\<rparr>))))"

definition RpcRequestTransaction_fetch_upstream :: "State \<Rightarrow> RpcRequestTransaction \<Rightarrow> reason \<Rightarrow> ('e, 'e response result) rpc" where
  "RpcRequestTransaction_fetch_upstream state req reason =
     (if rt_upstream_disabled req then Done (Inr (RespSuccess (rt_id req) PNull))
      else case get_upstream state GetTransaction of
          Some up \<Rightarrow> up_get_transaction up (rt_id req) (rt_signature req) (rt_commitment req) (rt_encoding req)
            (rt_max_supported_transaction_version req) (rt_min_context_slot req) reason
        | None \<Rightarrow> Done (Inr (RespCustom (rt_id req) CE_TransactionHistoryNotAvailable)))"

text \<open>The work of a worker thread on a transaction.\<close>

definition RpcRequestTransaction_process2 ::
  "'e rpc_ext \<Rightarrow> bytes \<Rightarrow> Slot \<Rightarrow> UnixTimestamp option \<Rightarrow> nat \<Rightarrow> request_id \<Rightarrow> UiTransactionEncoding \<Rightarrow> u8 option \<Rightarrow>
     'e response result" where
  "RpcRequestTransaction_process2 ex buf slot block_time index id' encoding max_version =
     (case rx_decode_transaction ex buf of
        Inl ConvertFailed \<Rightarrow> Inl (Err ''failed to decode transaction'')
      | Inl ProtobufFailed \<Rightarrow> Inl (Err ''failed to decode transaction protobuf / bincode'')
      | Inr tx_with_meta \<Rightarrow>
          Inr (case rx_encode_transaction ex encoding max_version slot block_time index tx_with_meta of
                 Inr tx \<Rightarrow> RespSuccess id' (PTransaction tx)
               | Inl e \<Rightarrow> RespCustom id' e))"

definition RpcRequestTransaction_process ::
  "'e rpc_ext \<Rightarrow> State \<Rightarrow> RpcRequestTransaction \<Rightarrow> ('e, 'e response result) rpc" where
  "RpcRequestTransaction_process ex state req =
     ask_transaction (rt_signature req) (\<lambda>result. case result of
         RN_Timeout \<Rightarrow> timeout
       | RN_NotFound \<Rightarrow> RpcRequestTransaction_fetch_upstream state req NOT_FOUND_LOCALLY
       | RN_ReadError e \<Rightarrow> read_error e
       | RN_Transaction slot block_time buf index \<Rightarrow>
           let check_available = Load AtFirstAvailable (\<lambda>first_available.
                 if slot \<le> first_available then RpcRequestTransaction_fetch_upstream state req BELOW_RETENTION
                 else process_with_workers (RpcRequestTransaction_process2 ex buf slot block_time index (rt_id req)
                        (rt_encoding req) (rt_max_supported_transaction_version req)))
           in if rt_commitment req = LevelFinalized
              then Load AtFinalized (\<lambda>finalized.
                     if finalized < slot then Done (Inr (RespSuccess (rt_id req) PNull)) else check_available)
              else check_available)"

section \<open>getHealth, getVersion and isBlockhashValid\<close>

definition RpcRequestHealth_parse :: "State \<Rightarrow> json_value request \<Rightarrow> ('e, 'e response + unit) rpc" where
  "RpcRequestHealth_parse state rq = (case no_params_expected rq of
     Inl r \<Rightarrow> Done (Inl r)
   | Inr id' \<Rightarrow> LoadHealthDisabled (\<lambda>disabled.
       if disabled then Done (Inl (RespCustom id' (CE_NodeUnhealthy None)))
       else Load AtClusterProcessed (\<lambda>cluster_slot.
         if cluster_slot = 0 then Done (Inl (RespSuccess id' (PText ''ok'')))
         else Load AtProcessed (\<lambda>local_slot. Done (Inl (
           if cluster_slot - st_health_check_slot_distance state \<le> local_slot then RespSuccess id' (PText ''ok'')
           else RespCustom id' (CE_NodeUnhealthy (Some (cluster_slot - local_slot)))))))))"

definition RpcRequestVersion_parse :: "'e rpc_ext \<Rightarrow> json_value request \<Rightarrow> ('e, 'e response + unit) rpc" where
  "RpcRequestVersion_parse ex rq = (case no_params_expected rq of
     Inl r \<Rightarrow> Done (Inl r) | Inr id' \<Rightarrow> Done (Inl (RespSuccess id' (PText (rx_version ex)))))"

record RpcRequestIsBlockhashValid =
  rbv_id :: request_id
  rbv_blockhash :: string
  rbv_commitment :: CommitmentLevel

definition RpcRequestIsBlockhashValid_parse ::
  "'e rpc_ext \<Rightarrow> (string \<times> RpcContextConfig option) request \<Rightarrow> ('e, 'e response + RpcRequestIsBlockhashValid) rpc" where
  "RpcRequestIsBlockhashValid_parse ex rq = (case parse_params rq of
     Inl r \<Rightarrow> Done (Inl r)
   | Inr (id', blockhash, config) \<Rightarrow> context_parse id' config (\<lambda>commitment. Done (
       case rx_parse_hash ex blockhash of
         Inl e \<Rightarrow> Inl (RespInvalidParams id' e)
       | Inr _ \<Rightarrow> Inr \<lparr>rbv_id = id', rbv_blockhash = blockhash, rbv_commitment = commitment\<rparr>)))"

definition RpcRequestIsBlockhashValid_process :: "RpcRequestIsBlockhashValid \<Rightarrow> ('e, 'e response result) rpc" where
  "RpcRequestIsBlockhashValid_process req =
     ask (ReqBlockhashValid (rbv_blockhash req) (rbv_commitment req)) (\<lambda>res. case res of
         ResBlockhashValid result \<Rightarrow> (case result of
             RV_Timeout \<Rightarrow> timeout
           | RV_Blockhash slot is_valid \<Rightarrow> Done (Inr (RespSuccess (rbv_id req) (PValid slot is_valid)))
           | RV_ReadError e \<Rightarrow> read_error e)
       | _ \<Rightarrow> bad_reply)"

end
