(* ===== verification/Alp_Rpc_Gtfa.thy ===== *)
theory Alp_Rpc_Gtfa
  imports Alp_Rpc
begin

text \<open>
  getTransactionsForAddress (src/src/rpc/api_jsonrpc.rs): the filters, the cursor that the client
  sends back for the next page, and the loop that asks the read threads for batches until the page
  is full.

  The loop has no bound of its own, so \<open>gtfa_loop\<close> takes fuel; the result is \<open>None\<close> when it runs out.
  The transactions of a page are fetched concurrently by \<open>try_join_all\<close>; here one after the other,
  in order.
\<close>

section \<open>Filters\<close>

datatype GtfaTransactionDetails = GtfaSignatures | GtfaFull

datatype GtfaSortOrder = GtfaDesc | GtfaAsc

datatype GtfaStatusFilter = StatusAny | StatusSucceeded | StatusFailed

datatype GtfaTokenAccountsFilter = TokenNone | TokenBalanceChanged | TokenAll

record GtfaComparison =
  gc_gte :: "int option"
  gc_gt :: "int option"
  gc_lte :: "int option"
  gc_lt :: "int option"
  gc_eq :: "int option"

definition is_none_or :: "('a \<Rightarrow> bool) \<Rightarrow> 'a option \<Rightarrow> bool" where
  "is_none_or P v = (case v of None \<Rightarrow> True | Some x \<Rightarrow> P x)"

definition GtfaComparison_matches :: "GtfaComparison \<Rightarrow> int \<Rightarrow> bool" where
  "GtfaComparison_matches c value \<longleftrightarrow>
     is_none_or (\<lambda>bound. bound \<le> value) (gc_gte c) \<and> is_none_or (\<lambda>bound. bound < value) (gc_gt c) \<and>
     is_none_or (\<lambda>bound. value \<le> bound) (gc_lte c) \<and> is_none_or (\<lambda>bound. value < bound) (gc_lt c) \<and>
     is_none_or (\<lambda>bound. value = bound) (gc_eq c)"

abbreviation i64_MAX :: int where
  "i64_MAX \<equiv> 9223372036854775807"

abbreviation i64_MIN :: int where
  "i64_MIN \<equiv> - 9223372036854775808"

definition GtfaComparison_lower_bound :: "GtfaComparison \<Rightarrow> int option" where
  "GtfaComparison_lower_bound c = (case (gc_gte c, gc_gt c, gc_eq c) of
     (_, _, Some eq) \<Rightarrow> Some eq
   | (Some gte, Some gt, _) \<Rightarrow> Some (max gte (min (gt + 1) i64_MAX))
   | (Some gte, None, _) \<Rightarrow> Some gte
   | (None, Some gt, _) \<Rightarrow> Some (min (gt + 1) i64_MAX)
   | (None, None, _) \<Rightarrow> None)"

definition GtfaComparison_upper_bound :: "GtfaComparison \<Rightarrow> int option" where
  "GtfaComparison_upper_bound c = (case (gc_lte c, gc_lt c, gc_eq c) of
     (_, _, Some eq) \<Rightarrow> Some eq
   | (Some lte, Some lt, _) \<Rightarrow> Some (min lte (max (lt - 1) i64_MIN))
   | (Some lte, None, _) \<Rightarrow> Some lte
   | (None, Some lt, _) \<Rightarrow> Some (max (lt - 1) i64_MIN)
   | (None, None, _) \<Rightarrow> None)"

record GtfaSignatureComparison =
  gsc_gte :: "string option"
  gsc_gt :: "string option"
  gsc_lte :: "string option"
  gsc_lt :: "string option"

record GtfaSignatureFilter =
  gsf_gte :: "Signature option"
  gsf_gt :: "Signature option"
  gsf_lte :: "Signature option"
  gsf_lt :: "Signature option"

definition GtfaSignatureFilter_parse :: "'e rpc_ext \<Rightarrow> GtfaSignatureComparison \<Rightarrow> string + GtfaSignatureFilter" where
  "GtfaSignatureFilter_parse ex raw =
     (case verify_opt (verify_signature ex) (gsc_gte raw) of Inl e \<Rightarrow> Inl e | Inr gte \<Rightarrow>
     (case verify_opt (verify_signature ex) (gsc_gt raw) of Inl e \<Rightarrow> Inl e | Inr gt \<Rightarrow>
     (case verify_opt (verify_signature ex) (gsc_lte raw) of Inl e \<Rightarrow> Inl e | Inr lte \<Rightarrow>
     (case verify_opt (verify_signature ex) (gsc_lt raw) of Inl e \<Rightarrow> Inl e | Inr lt \<Rightarrow>
       Inr \<lparr>gsf_gte = gte, gsf_gt = gt, gsf_lte = lte, gsf_lt = lt\<rparr>))))"

type_synonym position = "Slot \<times> nat"

text \<open>Tuples are compared lexicographically.\<close>

definition pos_less :: "position \<Rightarrow> position \<Rightarrow> bool" where
  "pos_less a b \<longleftrightarrow> fst a < fst b \<or> (fst a = fst b \<and> snd a < snd b)"

definition pos_le :: "position \<Rightarrow> position \<Rightarrow> bool" where
  "pos_le a b \<longleftrightarrow> pos_less a b \<or> a = b"

record GtfaSignaturePositionFilter =
  gpf_gte :: "position option"
  gpf_gt :: "position option"
  gpf_lte :: "position option"
  gpf_lt :: "position option"

definition GtfaSignaturePositionFilter_default :: GtfaSignaturePositionFilter where
  "GtfaSignaturePositionFilter_default = \<lparr>gpf_gte = None, gpf_gt = None, gpf_lte = None, gpf_lt = None\<rparr>"

definition GtfaSignaturePositionFilter_matches :: "GtfaSignaturePositionFilter \<Rightarrow> position \<Rightarrow> bool" where
  "GtfaSignaturePositionFilter_matches f pos \<longleftrightarrow>
     is_none_or (\<lambda>bound. pos_le bound pos) (gpf_gte f) \<and> is_none_or (\<lambda>bound. pos_less bound pos) (gpf_gt f) \<and>
     is_none_or (\<lambda>bound. pos_le pos bound) (gpf_lte f) \<and> is_none_or (\<lambda>bound. pos_less pos bound) (gpf_lt f)"

text \<open>The stricter of two optional bounds.\<close>

definition combine :: "('a \<Rightarrow> 'a \<Rightarrow> 'a) \<Rightarrow> 'a option \<Rightarrow> 'a option \<Rightarrow> 'a option" where
  "combine f a b = (case (a, b) of
     (Some x, Some y) \<Rightarrow> Some (f x y) | (Some x, None) \<Rightarrow> Some x | (None, Some y) \<Rightarrow> Some y | (None, None) \<Rightarrow> None)"

definition lower_slot :: "GtfaSignaturePositionFilter \<Rightarrow> Slot option" where
  "lower_slot f = combine max (map_option fst (gpf_gte f)) (map_option fst (gpf_gt f))"

definition upper_slot :: "GtfaSignaturePositionFilter \<Rightarrow> Slot option" where
  "upper_slot f = combine min (map_option fst (gpf_lte f)) (map_option fst (gpf_lt f))"

record GtfaFilters =
  gf_slot :: "GtfaComparison option"
  gf_block_time :: "GtfaComparison option"
  gf_signature :: "GtfaSignatureComparison option"
  gf_status :: GtfaStatusFilter
  gf_token_accounts :: GtfaTokenAccountsFilter

record GtfaOptions =
  go_transaction_details :: GtfaTransactionDetails
  go_sort_order :: GtfaSortOrder
  go_limit :: "nat option"
  go_pagination_token :: "string option"
  go_commitment :: "CommitmentLevel option"
  go_min_context_slot :: "Slot option"
  go_encoding :: "UiTransactionEncoding option"
  go_max_supported_transaction_version :: "u8 option"
  go_filters :: "GtfaFilters option"

definition GtfaOptions_default :: GtfaOptions where
  "GtfaOptions_default = \<lparr>go_transaction_details = GtfaSignatures, go_sort_order = GtfaDesc, go_limit = None,
     go_pagination_token = None, go_commitment = None, go_min_context_slot = None, go_encoding = None,
     go_max_supported_transaction_version = None, go_filters = None\<rparr>"

section \<open>The cursor\<close>

record GtfaCursor =
  cu_slot :: Slot
  cu_transaction_index :: nat

definition GtfaCursor_encode :: "GtfaCursor \<Rightarrow> string" where
  "GtfaCursor_encode c = to_string (cu_slot c) @ '':'' @ to_string (cu_transaction_index c)"

text \<open>\<open>split_once\<close>, and \<open>parse\<close> of a 64-bit integer: an optional plus sign and decimal digits.\<close>

fun split_once :: "char \<Rightarrow> string \<Rightarrow> (string \<times> string) option" where
  "split_once c [] = None"
| "split_once c (x # xs) = (if x = c then Some ([], xs) else map_option (\<lambda>(a, b). (x # a, b)) (split_once c xs))"

definition is_digit :: "char \<Rightarrow> bool" where
  "is_digit c \<longleftrightarrow> 48 \<le> (of_char c :: nat) \<and> (of_char c :: nat) \<le> 57"

definition digit_value :: "char \<Rightarrow> nat" where
  "digit_value c = of_char c - 48"

definition parse_u64 :: "string \<Rightarrow> nat option" where
  "parse_u64 s =
     (let digits = (case s of c # cs \<Rightarrow> if c = CHR ''+'' then cs else s | [] \<Rightarrow> []);
          value = foldl (\<lambda>n c. 10 * n + digit_value c) 0 digits
      in if digits \<noteq> [] \<and> list_all is_digit digits \<and> value \<le> u64_MAX then Some value else None)"

definition GtfaCursor_decode :: "string \<Rightarrow> string + GtfaCursor" where
  "GtfaCursor_decode input =
     (case split_once (CHR '':'') input of
        None \<Rightarrow> Inl ''Invalid paginationToken''
      | Some (slot, txidx) \<Rightarrow>
          (case (parse_u64 slot, parse_u64 txidx) of
             (Some slot, Some txidx) \<Rightarrow> Inr \<lparr>cu_slot = slot, cu_transaction_index = txidx\<rparr>
           | _ \<Rightarrow> Inl ''Invalid paginationToken''))"

section \<open>The request\<close>

record RpcRequestTransactionsForAddress =
  rta_id :: request_id
  rta_address :: Pubkey
  rta_transaction_details :: GtfaTransactionDetails
  rta_desc :: bool
  rta_limit :: nat
  rta_pagination_token :: "GtfaCursor option"
  rta_commitment :: CommitmentLevel
  rta_encoding :: UiTransactionEncoding
  rta_max_supported_transaction_version :: "u8 option"
  rta_filters :: "GtfaFilters option"
  rta_token_accounts :: GtfaTokenAccountsFilter
  rta_slot_filter_lower :: "Slot option"
  rta_slot_filter_upper :: "Slot option"
  rta_block_time_filter_lower :: "UnixTimestamp option"
  rta_block_time_filter_upper :: "UnixTimestamp option"
  rta_signature_filter :: "GtfaSignatureFilter option"

text \<open>The checks that do not read the tips, in their order; the signature filter is checked last, after the context.\<close>

definition slot_bound :: "(GtfaComparison \<Rightarrow> int option) \<Rightarrow> GtfaComparison option \<Rightarrow> Slot option" where
  "slot_bound bound c = Option.bind c (\<lambda>cmp. map_option (\<lambda>b. nat (max b 0)) (bound cmp))"

definition RpcRequestTransactionsForAddress_parse ::
  "'e rpc_ext \<Rightarrow> State \<Rightarrow> (string \<times> GtfaOptions option) request \<Rightarrow> ('e, 'e response + RpcRequestTransactionsForAddress) rpc" where
  "RpcRequestTransactionsForAddress_parse ex state rq = (case parse_params rq of
     Inl r \<Rightarrow> Done (Inl r)
   | Inr (id', address, options) \<Rightarrow>
       let opts = or_default GtfaOptions_default options; invalid = (\<lambda>e. Done (Inl (RespInvalidParams id' e)))
       in case verify_pubkey ex address of Inl e \<Rightarrow> invalid e | Inr address \<Rightarrow>
       let default_limit = (case go_transaction_details opts of
             GtfaSignatures \<Rightarrow> st_gtfa_limit_signatures state | GtfaFull \<Rightarrow> st_gtfa_limit_full state);
           limit = or_default default_limit (go_limit opts)
       in if limit = 0 \<or> default_limit < limit then invalid ''Invalid limit''
       else case verify_opt GtfaCursor_decode (go_pagination_token opts) of Inl e \<Rightarrow> invalid e | Inr cursor \<Rightarrow>
       let commitment = commitment_or_default (go_commitment opts); filters = go_filters opts;
           slot_filter = Option.bind filters gf_slot; time_filter = Option.bind filters gf_block_time
       in confirmed_context id' (go_min_context_slot opts) commitment
            (case verify_opt (GtfaSignatureFilter_parse ex) (Option.bind filters gf_signature) of
               Inl e \<Rightarrow> invalid e
             | Inr signature_filter \<Rightarrow> Done (Inr
                 \<lparr>rta_id = id', rta_address = address, rta_transaction_details = go_transaction_details opts,
                  rta_desc = (go_sort_order opts = GtfaDesc), rta_limit = limit, rta_pagination_token = cursor,
                  rta_commitment = commitment, rta_encoding = or_default EncJson (go_encoding opts),
                  rta_max_supported_transaction_version = go_max_supported_transaction_version opts, rta_filters = filters,
                  rta_token_accounts = or_default TokenNone (map_option gf_token_accounts filters),
                  rta_slot_filter_lower = slot_bound GtfaComparison_lower_bound slot_filter,
                  rta_slot_filter_upper = slot_bound GtfaComparison_upper_bound slot_filter,
                  rta_block_time_filter_lower = Option.bind time_filter GtfaComparison_lower_bound,
                  rta_block_time_filter_upper = Option.bind time_filter GtfaComparison_upper_bound,
                  rta_signature_filter = signature_filter\<rparr>)))"

section \<open>Positions of signatures\<close>

definition resolve_signature_position ::
  "RpcRequestTransactionsForAddress \<Rightarrow> Signature \<Rightarrow> ('e, position option result) rpc" where
  "resolve_signature_position req signature =
     ask (ReqSignaturePosition (rta_address req) signature) (\<lambda>res. case res of
         ResSignaturePosition result \<Rightarrow> (case result of
             RP_Position pos \<Rightarrow> Done (Inr pos)
           | RP_Timeout \<Rightarrow> timeout
           | RP_ReadError e \<Rightarrow> read_error e)
       | _ \<Rightarrow> bad_reply)"

definition empty_response :: "RpcRequestTransactionsForAddress \<Rightarrow> 'e response" where
  "empty_response req = RespSuccess (rta_id req) (PGtfaSignatures [] None)"

text \<open>One of the four bounds: an unknown signature makes the response empty.\<close>

definition resolve_bound ::
  "RpcRequestTransactionsForAddress \<Rightarrow> Signature option \<Rightarrow> ('e, ('e response + position option) result) rpc" where
  "resolve_bound req signature = (case signature of
     None \<Rightarrow> Done (Inr (Inr None))
   | Some signature \<Rightarrow> rpc_try (resolve_signature_position req signature) (\<lambda>r. Done (Inr (case r of
       Some pos \<Rightarrow> Inr (Some pos) | None \<Rightarrow> Inl (empty_response req)))))"

definition resolve_filter ::
  "RpcRequestTransactionsForAddress \<Rightarrow> ('e, ('e response + GtfaSignaturePositionFilter option) result) rpc" where
  "resolve_filter req = (case rta_signature_filter req of
     None \<Rightarrow> Done (Inr (Inr None))
   | Some f \<Rightarrow>
       rpc_or (resolve_bound req (gsf_gte f)) (\<lambda>gte.
       rpc_or (resolve_bound req (gsf_gt f)) (\<lambda>gt.
       rpc_or (resolve_bound req (gsf_lte f)) (\<lambda>lte.
       rpc_or (resolve_bound req (gsf_lt f)) (\<lambda>lt.
         Done (Inr (Inr (Some \<lparr>gpf_gte = gte, gpf_gt = gt, gpf_lte = lte, gpf_lt = lt\<rparr>))))))))"

section \<open>A batch\<close>

type_synonym 'e raw_entry = "('e RpcConfirmedTransactionStatusWithSignature \<times> nat) \<times> u8"

definition token_ok :: "GtfaTokenAccountsFilter \<Rightarrow> u8 \<Rightarrow> bool" where
  "token_ok f flags =
     (let is_token_owner = (and flags 1 \<noteq> 0); balance_changed = (and flags 2 \<noteq> 0)
      in case f of TokenNone \<Rightarrow> \<not> is_token_owner | TokenAll \<Rightarrow> True | TokenBalanceChanged \<Rightarrow> \<not> is_token_owner \<or> balance_changed)"

definition filters_ok :: "GtfaFilters option \<Rightarrow> 'e RpcConfirmedTransactionStatusWithSignature \<Rightarrow> bool" where
  "filters_ok filters raw = (case filters of
     None \<Rightarrow> True
   | Some f \<Rightarrow>
       (case gf_block_time f of
          None \<Rightarrow> True
        | Some cmp \<Rightarrow> (case rc_block_time raw of Some t \<Rightarrow> GtfaComparison_matches cmp t | None \<Rightarrow> False)) \<and>
       (case gf_status f of StatusAny \<Rightarrow> True | StatusSucceeded \<Rightarrow> rc_err raw = None | StatusFailed \<Rightarrow> rc_err raw \<noteq> None))"

definition entry_matches ::
  "RpcRequestTransactionsForAddress \<Rightarrow> GtfaSignaturePositionFilter option \<Rightarrow> 'e raw_entry \<Rightarrow> bool" where
  "entry_matches req position_filter = (\<lambda>((raw, txidx), flags).
     token_ok (rta_token_accounts req) flags \<and> filters_ok (rta_filters req) raw \<and>
     is_none_or (\<lambda>f. GtfaSignaturePositionFilter_matches f (rc_slot raw, txidx)) position_filter)"

text \<open>The variables of the loop that the scan of a batch changes.\<close>

record 'e gtfa_scan =
  gx_storage_cursor :: "position option"
  gx_page_cursor :: "GtfaCursor option"
  gx_sig_entries :: "'e GtfaSignatureEntry list"
  gx_pending_full :: "('e RpcConfirmedTransactionStatusWithSignature \<times> nat option) list"
  gx_reached_limit :: bool

definition add_entry :: "RpcRequestTransactionsForAddress \<Rightarrow> 'e RpcConfirmedTransactionStatusWithSignature \<Rightarrow> nat \<Rightarrow> 'e gtfa_scan \<Rightarrow> 'e gtfa_scan" where
  "add_entry req raw txidx s =
     (let s = (case rta_transaction_details req of
            GtfaSignatures \<Rightarrow> s\<lparr>gx_sig_entries := gx_sig_entries s @ [\<lparr>gs_inner = raw, gs_transaction_index = Some txidx\<rparr>]\<rparr>
          | GtfaFull \<Rightarrow> s\<lparr>gx_pending_full := gx_pending_full s @ [(raw, Some txidx)]\<rparr>)
      in s\<lparr>gx_page_cursor := Some \<lparr>cu_slot = rc_slot raw, cu_transaction_index = txidx\<rparr>\<rparr>)"

fun scan_batch ::
  "RpcRequestTransactionsForAddress \<Rightarrow> GtfaSignaturePositionFilter option \<Rightarrow> nat \<Rightarrow> 'e raw_entry list \<Rightarrow> 'e gtfa_scan \<Rightarrow> 'e gtfa_scan" where
  "scan_batch req pf full [] s = s"
| "scan_batch req pf full (((raw, txidx), flags) # batch) s =
     (let s = s\<lparr>gx_storage_cursor := Some (rc_slot raw, txidx)\<rparr>
      in if \<not> entry_matches req pf ((raw, txidx), flags) then scan_batch req pf full batch s
         else
           let s = add_entry req raw txidx s
           in if length (gx_sig_entries s) + full + length (gx_pending_full s) = rta_limit req
              then s\<lparr>gx_reached_limit := True\<rparr>
              else scan_batch req pf full batch s)"

section \<open>Full transactions\<close>

definition fetch_transaction :: "Signature \<Rightarrow> ('e, (Slot \<times> UnixTimestamp option \<times> bytes) option result) rpc" where
  "fetch_transaction signature = ask_transaction signature (\<lambda>result. case result of
     RN_Timeout \<Rightarrow> timeout
   | RN_NotFound \<Rightarrow> Done (Inr None)
   | RN_Transaction slot block_time buf index \<Rightarrow> Done (Inr (Some (slot, block_time, buf)))
   | RN_ReadError e \<Rightarrow> read_error e)"

text \<open>\<open>as u32\<close> on an index.\<close>

definition as_u32 :: "nat \<Rightarrow> nat" where
  "as_u32 n = n mod 4294967296"

definition build_full_entry ::
  "'e rpc_ext \<Rightarrow> RpcRequestTransactionsForAddress \<Rightarrow> Signature \<Rightarrow> Slot \<Rightarrow> UnixTimestamp option \<Rightarrow> nat option \<Rightarrow>
     ('e, ('e response + GtfaFullEntry) result) rpc" where
  "build_full_entry ex req signature index_slot index_block_time transaction_index =
     rpc_try (fetch_transaction signature) (\<lambda>r. case r of
         None \<Rightarrow> Done (Inl (Err ''transaction referenced by address index but not found in storage''))
       | Some (slot, block_time, buf) \<Rightarrow>
           let block_time = (case block_time of Some t \<Rightarrow> Some t | None \<Rightarrow> index_block_time)
           in Work (\<lambda>outcome. Done (
                if outcome \<noteq> WorkDone then Inl (Err ''encode task panicked'')
                else case rx_decode_transaction ex buf of
                    Inl ConvertFailed \<Rightarrow> Inl (Err ''failed to decode transaction'')
                  | Inl ProtobufFailed \<Rightarrow> Inl (Err ''failed to decode transaction protobuf / bincode'')
                  | Inr tx_with_meta \<Rightarrow>
                      Inr (case rx_encode_transaction ex (rta_encoding req) (rta_max_supported_transaction_version req) slot
                                  block_time (case transaction_index of Some index \<Rightarrow> as_u32 index | None \<Rightarrow> 0) tx_with_meta of
                             Inr encoded \<Rightarrow> Inr \<lparr>ge_slot = index_slot, ge_transaction_index = transaction_index,
                                                ge_block_time = block_time, ge_transaction = encoded\<rparr>
                           | Inl e \<Rightarrow> Inl (RespCustom (rta_id req) e)))))"

fun build_full_entries ::
  "'e rpc_ext \<Rightarrow> RpcRequestTransactionsForAddress \<Rightarrow> ('e RpcConfirmedTransactionStatusWithSignature \<times> nat option) list \<Rightarrow>
     ('e, ('e response + GtfaFullEntry) list result) rpc" where
  "build_full_entries ex req [] = Done (Inr [])"
| "build_full_entries ex req ((raw, transaction_index) # pending) =
     rpc_try (build_full_entry ex req (rc_signature raw) (rc_slot raw) (rc_block_time raw) transaction_index) (\<lambda>entry.
     rpc_try (build_full_entries ex req pending) (\<lambda>entries. Done (Inr (entry # entries))))"

fun push_full :: "('e response + GtfaFullEntry) list \<Rightarrow> GtfaFullEntry list \<Rightarrow> 'e response + GtfaFullEntry list" where
  "push_full [] full = Inr full"
| "push_full (Inr entry # results) full = push_full results (full @ [entry])"
| "push_full (Inl response # results) full = Inl response"

section \<open>The loop\<close>

definition request_limit :: "State \<Rightarrow> RpcRequestTransactionsForAddress \<Rightarrow> nat \<Rightarrow> nat" where
  "request_limit state req remaining =
     (if rta_filters req \<noteq> None then max (min (min (remaining * 4) u64_MAX) (st_gtfa_limit_signatures state)) remaining
      else remaining)"

definition gtfa_response ::
  "RpcRequestTransactionsForAddress \<Rightarrow> 'e gtfa_scan \<Rightarrow> GtfaFullEntry list \<Rightarrow> bool \<Rightarrow> 'e response" where
  "gtfa_response req s full storage_finished =
     (let token = (if storage_finished \<and> \<not> gx_reached_limit s then None else map_option GtfaCursor_encode (gx_page_cursor s))
      in RespSuccess (rta_id req) (case rta_transaction_details req of
           GtfaSignatures \<Rightarrow> PGtfaSignatures (gx_sig_entries s) token
         | GtfaFull \<Rightarrow> PGtfaFull full token))"

text \<open>An error ends the loop.\<close>

definition try_loop :: "('e, 'a result) rpc \<Rightarrow> ('a \<Rightarrow> ('e, 'b result option) rpc) \<Rightarrow> ('e, 'b result option) rpc" where
  "try_loop p f = rpc_bind p (\<lambda>r. case r of Inl e \<Rightarrow> Done (Some (Inl e)) | Inr v \<Rightarrow> f v)"

definition ask_batch ::
  "RpcRequestTransactionsForAddress \<Rightarrow> position option \<Rightarrow> Slot option \<Rightarrow> Slot option \<Rightarrow> nat \<Rightarrow> ('e, ('e raw_entry list \<times> bool \<times> bool) result) rpc" where
  "ask_batch req cursor slot_lower slot_upper limit =
     ask (ReqTransactionsForAddress (rta_commitment req) (rta_address req) (rta_desc req) cursor slot_lower slot_upper
            (rta_block_time_filter_lower req) (rta_block_time_filter_upper req) limit) (\<lambda>res. case res of
         ResTransactionsForAddress result \<Rightarrow> (case result of
             RX_Timeout \<Rightarrow> timeout
           | RX_Transactions signatures indices flags finished \<Rightarrow> Done (Inr (zip (zip signatures indices) flags, signatures = [], finished))
           | RX_ReadError e \<Rightarrow> read_error e)
       | _ \<Rightarrow> bad_reply)"

fun gtfa_loop ::
  "nat \<Rightarrow> 'e rpc_ext \<Rightarrow> State \<Rightarrow> RpcRequestTransactionsForAddress \<Rightarrow> GtfaSignaturePositionFilter option \<Rightarrow> Slot option \<Rightarrow> Slot option \<Rightarrow>
     bool \<Rightarrow> GtfaFullEntry list \<Rightarrow> 'e gtfa_scan \<Rightarrow> ('e, 'e response result option) rpc" where
  "gtfa_loop 0 ex state req pf lower upper storage_finished full s = Done None"
| "gtfa_loop (Suc fuel) ex state req pf lower upper storage_finished full s =
     (let remaining = sub64 (rta_limit req) (length (gx_sig_entries s) + length full)
      in if remaining = 0 then Done (Some (Inr (gtfa_response req s full storage_finished)))
      else try_loop (ask_batch req (gx_storage_cursor s) lower upper (request_limit state req remaining)) (\<lambda>(batch, batch_was_empty, finished).
        let s = scan_batch req pf (length full) batch (s\<lparr>gx_reached_limit := False, gx_pending_full := []\<rparr>)
        in try_loop (build_full_entries ex req (gx_pending_full s)) (\<lambda>results.
             case push_full results full of
               Inl response \<Rightarrow> Done (Some (Inr response))
             | Inr full \<Rightarrow>
                 if gx_reached_limit s \<or> finished \<or> batch_was_empty
                 then Done (Some (Inr (gtfa_response req s full finished)))
                 else gtfa_loop fuel ex state req pf lower upper finished full s)))"

definition RpcRequestTransactionsForAddress_process ::
  "nat \<Rightarrow> 'e rpc_ext \<Rightarrow> State \<Rightarrow> RpcRequestTransactionsForAddress \<Rightarrow> ('e, 'e response result option) rpc" where
  "RpcRequestTransactionsForAddress_process fuel ex state req =
     try_loop (resolve_filter req) (\<lambda>r. case r of
         Inl response \<Rightarrow> Done (Some (Inr response))
       | Inr pf \<Rightarrow>
           gtfa_loop fuel ex state req pf
             (combine max (rta_slot_filter_lower req) (Option.bind pf lower_slot))
             (combine min (rta_slot_filter_upper req) (Option.bind pf upper_slot)) False []
             \<lparr>gx_storage_cursor = map_option (\<lambda>c. (cu_slot c, as_u32 (cu_transaction_index c))) (rta_pagination_token req),
              gx_page_cursor = None, gx_sig_entries = [], gx_pending_full = [], gx_reached_limit = False\<rparr>)"

end
