(* ===== verification/Alp_Rpc_Reward.thy ===== *)
theory Alp_Rpc_Reward
  imports Alp_Rpc
begin

text \<open>
  getInflationReward (src/src/rpc/api_jsonrpc.rs): rewards that the database does not have are
  looked up in the blocks at the epoch boundary and after it, from the local storage or from an
  upstream node, and sent to the database.
\<close>

section \<open>The request\<close>

record RpcEpochConfig =
  epc_epoch :: "nat option"
  epc_commitment :: "CommitmentLevel option"
  epc_min_context_slot :: "Slot option"

definition RpcEpochConfig_default :: RpcEpochConfig where
  "RpcEpochConfig_default = \<lparr>epc_epoch = None, epc_commitment = None, epc_min_context_slot = None\<rparr>"

record RpcRequestInflationReward =
  rir_upstream_disabled :: bool
  rir_id :: request_id
  rir_commitment :: CommitmentLevel
  rir_epoch :: nat
  rir_addresses :: "Pubkey list"

definition RpcRequestInflationReward_parse ::
  "'e rpc_ext \<Rightarrow> bool \<Rightarrow> (string list \<times> RpcEpochConfig option) request \<Rightarrow> ('e, 'e response + RpcRequestInflationReward) rpc" where
  "RpcRequestInflationReward_parse ex upstream_disabled rq = (case parse_params_or ([], None) rq of
     Inl r \<Rightarrow> Done (Inl r)
   | Inr (id', address_strs, config) \<Rightarrow>
       (case verify_all (verify_pubkey ex) address_strs of
          Inl e \<Rightarrow> Done (Inl (RespInvalidParams id' e))
        | Inr addresses \<Rightarrow>
            let config = or_default RpcEpochConfig_default config;
                commitment = commitment_or_default (epc_commitment config);
                mk = (\<lambda>epoch. Done (Inr \<lparr>rir_upstream_disabled = upstream_disabled, rir_id = id', rir_commitment = commitment,
                        rir_epoch = epoch, rir_addresses = addresses\<rparr>));
                of_slot = (\<lambda>slot. mk (rx_get_epoch ex slot - 1))
            in case epc_epoch config of
                 Some epoch \<Rightarrow> mk epoch
               | None \<Rightarrow> rpc_bind (min_context_check id' (epc_min_context_slot config) commitment) (\<lambda>r. case r of
                   Inl response \<Rightarrow> Done (Inl response)
                 | Inr (Some slot) \<Rightarrow> of_slot slot
                 | Inr None \<Rightarrow> Load (atomic_of commitment) of_slot)))"

section \<open>Blocks and rewards\<close>

definition ir_get_blocks_with_limit ::
  "'e rpc_ext \<Rightarrow> State \<Rightarrow> RpcRequestInflationReward \<Rightarrow> Slot \<Rightarrow> nat \<Rightarrow> ('e, ('e response + Slot list) result) rpc" where
  "ir_get_blocks_with_limit ex state req start_slot limit =
     Load AtFirstAvailable (\<lambda>first_available.
       case (if start_slot < add64 first_available 150 \<and> \<not> rir_upstream_disabled req
             then get_upstream state GetBlocksWithLimit else None) of
         Some up \<Rightarrow> up_get_blocks_parsed (rx_json_slots ex) up (rir_id req) start_slot limit BELOW_RETENTION
       | None \<Rightarrow> ask_blocks start_slot (Limit limit) LevelConfirmed (\<lambda>result. case result of
           RS_Timeout \<Rightarrow> timeout
         | RS_Blocks blocks \<Rightarrow> Done (Inr (Inr blocks))
         | RS_Removed \<Rightarrow> Load AtFirstAvailable (\<lambda>first_available.
             Done (Inr (Inl (RespCustom (rir_id req) (CE_BlockCleanedUp start_slot first_available)))))
         | RS_ReadError e \<Rightarrow> read_error e))"

definition get_block_with_rewards_upstream ::
  "'e rpc_ext \<Rightarrow> State \<Rightarrow> RpcRequestInflationReward \<Rightarrow> Slot \<Rightarrow> reason \<Rightarrow> ('e, ('e response + UiConfirmedBlock) result) rpc" where
  "get_block_with_rewards_upstream ex state req slot reason =
     (case (if \<not> rir_upstream_disabled req then get_upstream state GetBlock else None) of
        Some up \<Rightarrow> rpc_or (up_get_block_rewards (rx_json_block ex) up (rir_id req) slot reason) (\<lambda>b. Done (Inr (case b of
            Some block \<Rightarrow> Inr block
          | None \<Rightarrow> Inl (error_not_available (rir_id req) slot))))
      | None \<Rightarrow> Done (Inr (Inl (error_skipped_long_term_storage (rir_id req) slot))))"

definition get_block_with_rewards ::
  "'e rpc_ext \<Rightarrow> State \<Rightarrow> RpcRequestInflationReward \<Rightarrow> Slot \<Rightarrow> ('e, ('e response + UiConfirmedBlock) result) rpc" where
  "get_block_with_rewards ex state req slot =
     Load AtFirstAvailable (\<lambda>first_available.
       if slot \<le> first_available then get_block_with_rewards_upstream ex state req slot BELOW_RETENTION
       else ask_block slot (\<lambda>result. case result of
           RB_Timeout \<Rightarrow> timeout
         | RB_Removed \<Rightarrow> get_block_with_rewards_upstream ex state req slot REMOVED
         | RB_Dead \<Rightarrow> Done (Inr (Inl (error_skipped (rir_id req) slot)))
         | RB_NotAvailable \<Rightarrow> Done (Inr (Inl (error_not_available (rir_id req) slot)))
         | RB_ReadError e \<Rightarrow> read_error e
         | RB_Block buf \<Rightarrow>
             Load AtFirstAvailable (\<lambda>first_available.
               if slot \<le> first_available then get_block_with_rewards_upstream ex state req slot BELOW_RETENTION
               else Done (parse_and_encode ex buf (rir_id req) EncBase58
                      \<lparr>bo_transaction_details = DetailsNone, bo_show_rewards = True, bo_max_supported_transaction_version = None\<rparr>))))"

definition inflation_reward_of :: "nat \<Rightarrow> Slot \<Rightarrow> Reward \<Rightarrow> RpcInflationReward" where
  "inflation_reward_of epoch slot reward =
     \<lparr>ir_epoch = epoch, ir_effective_slot = slot, ir_amount = nat (abs (rw_lamports reward)),
      ir_post_balance = rw_post_balance reward, ir_commission = rw_commission reward, ir_commission_bps = rw_commission_bps reward\<rparr>"

fun filter_rewards_loop ::
  "'e rpc_ext \<Rightarrow> nat \<Rightarrow> Slot \<Rightarrow> (RewardType \<Rightarrow> bool) \<Rightarrow> Reward list \<Rightarrow> (Pubkey, RpcInflationReward) hmap \<Rightarrow>
     (Pubkey, RpcInflationReward) hmap result" where
  "filter_rewards_loop ex epoch slot wanted [] m = Inr m"
| "filter_rewards_loop ex epoch slot wanted (reward # rewards) m =
     (if (case rw_reward_type reward of Some t \<Rightarrow> wanted t | None \<Rightarrow> False)
      then case rx_parse_pubkey ex (rw_pubkey reward) of
          Inl e \<Rightarrow> Inl (Err ''failed to parse pubkey'')
        | Inr pubkey \<Rightarrow>
            filter_rewards_loop ex epoch slot wanted rewards (hm_insert pubkey (inflation_reward_of epoch slot reward) m)
      else filter_rewards_loop ex epoch slot wanted rewards m)"

definition filter_rewards ::
  "'e rpc_ext \<Rightarrow> nat \<Rightarrow> Slot \<Rightarrow> Reward list option \<Rightarrow> (RewardType \<Rightarrow> bool) \<Rightarrow> (Pubkey, RpcInflationReward) hmap result" where
  "filter_rewards ex epoch slot rewards wanted = filter_rewards_loop ex epoch slot wanted (or_default [] rewards) []"

text \<open>
  The loops over the indexes of the missed addresses: the rewards found are put in their places,
  and the indexes of those not found remain. The vectors are indexed.
\<close>

type_synonym rewards = "RpcInflationReward option list"

fun take_rewards ::
  "(Pubkey, RpcInflationReward) hmap \<Rightarrow> Pubkey list \<Rightarrow> nat list \<Rightarrow> rewards \<Rightarrow> (rewards \<times> nat list) result" where
  "take_rewards m addresses [] rewards = Inr (rewards, [])"
| "take_rewards m addresses (index # missed) rewards =
     (if \<not> index < length addresses then Inl (Panic ''index out of bounds'')
      else case hm_get m (addresses ! index) of
          Some reward \<Rightarrow>
            if index < length rewards then take_rewards m addresses missed (rewards[index := Some reward])
            else Inl (Panic ''index out of bounds'')
        | None \<Rightarrow> bind_result (take_rewards m addresses missed rewards) (\<lambda>(rewards, rest). Inr (rewards, index # rest)))"

section \<open>The base of an epoch\<close>

definition get_inflation_reward_base ::
  "'e rpc_ext \<Rightarrow> State \<Rightarrow> RpcRequestInflationReward \<Rightarrow> Pubkey list \<Rightarrow> rewards \<Rightarrow> nat list \<Rightarrow>
     ('e, ('e response + InflationRewardBaseValue \<times> rewards \<times> nat list) result) rpc" where
  "get_inflation_reward_base ex state req addresses rewards missed =
     (let first_slot = rx_get_first_slot_in_epoch ex (saturating_add (rir_epoch req) 1)
      in Load AtConfirmed (\<lambda>confirmed.
        if confirmed < first_slot then Done (Inr (Inl (error_not_available (rir_id req) first_slot)))
        else rpc_or (ir_get_blocks_with_limit ex state req first_slot 1) (\<lambda>slots. case slots of
            [] \<Rightarrow> Done (Inr (Inl (error_not_available (rir_id req) first_slot)))
          | slot # _ \<Rightarrow> rpc_or (get_block_with_rewards ex state req slot) (\<lambda>block.
              case rx_parse_hash ex (ub_previous_blockhash block) of
                Inl e \<Rightarrow> Done (Inl (Panic ''UiConfirmedBlock::previous_blockhash should be properly formed''))
              | Inr previous_blockhash \<Rightarrow>
                  let partitioned = (ub_num_reward_partitions block \<noteq> None)
                  in rpc_try (Done (filter_rewards ex (rir_epoch req) slot (ub_rewards block)
                               (\<lambda>t. t = Voting \<or> (\<not> partitioned \<and> t = Staking)))) (\<lambda>reward_map.
                     rpc_try (Done (take_rewards reward_map addresses missed rewards)) (\<lambda>(rewards, missed).
                     Push (InflationRewardBase (rir_epoch req) slot (ub_block_height block) previous_blockhash
                             (ub_num_reward_partitions block) reward_map)
                       (Done (Inr (Inr (InflationRewardBaseValue_new slot (ub_block_height block) previous_blockhash
                          (ub_num_reward_partitions block), rewards, missed))))))))))"

section \<open>The partitions\<close>

definition error_epoch_rewards_period_active ::
  "RpcRequestInflationReward \<Rightarrow> Slot \<Rightarrow> ('e, 'e response result) rpc" where
  "error_epoch_rewards_period_active req rewards_complete_block_height =
     ask_height (rir_commitment req) (\<lambda>result. case result of
         RH_Timeout \<Rightarrow> timeout
       | RH_BlockHeight block_height slot \<Rightarrow>
           Done (Inr (RespCustom (rir_id req) (CE_EpochRewardsPeriodActive slot block_height rewards_complete_block_height)))
       | RH_ReadError e \<Rightarrow> read_error e)"

text \<open>The addresses of each partition; \<open>entry(..).or_insert_with(..).push(index)\<close>.\<close>

definition push_entry :: "nat \<Rightarrow> nat \<Rightarrow> (nat, nat list) hmap \<Rightarrow> (nat, nat list) hmap" where
  "push_entry partition' index m = hm_insert partition' (or_default [] (hm_get m partition') @ [index]) m"

fun partition_addresses ::
  "(Pubkey \<Rightarrow> nat) \<Rightarrow> Pubkey list \<Rightarrow> nat list \<Rightarrow> (nat, nat list) hmap \<Rightarrow> (nat, nat list) hmap result" where
  "partition_addresses hasher addresses [] m = Inr m"
| "partition_addresses hasher addresses (index # missed) m =
     (if index < length addresses
      then partition_addresses hasher addresses missed (push_entry (hasher (addresses ! index)) index m)
      else Inl (Panic ''index out of bounds''))"

fun partitions_loop ::
  "'e rpc_ext \<Rightarrow> State \<Rightarrow> RpcRequestInflationReward \<Rightarrow> InflationRewardBaseValue \<Rightarrow> nat \<Rightarrow> Slot list \<Rightarrow> Pubkey list \<Rightarrow>
     (nat \<times> nat list) list \<Rightarrow> rewards \<Rightarrow> ('e, ('e response + rewards) result) rpc" where
  "partitions_loop ex state req base num_partitions block_list addresses [] rewards = Done (Inr (Inr rewards))"
| "partitions_loop ex state req base num_partitions block_list addresses ((partition_index, missed) # parts) rewards =
     (if \<not> partition_index < length block_list
      then case irb_block_height base of
          None \<Rightarrow> Done (Inl (Panic ''every block after partitioned_epoch_reward_enabled should have a populated block_height''))
        | Some block_height \<Rightarrow>
            rpc_try (error_epoch_rewards_period_active req (saturating_add (saturating_add block_height num_partitions) 1))
              (\<lambda>response. Done (Inr (Inl response)))
      else
        let slot = block_list ! partition_index
        in rpc_or (get_block_with_rewards ex state req slot) (\<lambda>block.
           rpc_try (Done (filter_rewards ex (rir_epoch req) slot (ub_rewards block)
             (\<lambda>t. t = Staking \<or> t = DeactivatedStake))) (\<lambda>reward_map.
           rpc_try (Done (take_rewards reward_map addresses missed rewards)) (\<lambda>(rewards, _).
           Push (InflationRewardPartition (rir_epoch req) partition_index reward_map)
             (partitions_loop ex state req base num_partitions block_list addresses parts rewards)))))"

definition get_inflation_reward ::
  "'e rpc_ext \<Rightarrow> State \<Rightarrow> RpcRequestInflationReward \<Rightarrow> Pubkey list \<Rightarrow> rewards \<Rightarrow> nat list \<Rightarrow>
     InflationRewardBaseValue option \<Rightarrow> ('e, ('e response + rewards) result) rpc" where
  "get_inflation_reward ex state req addresses rewards missed base =
     (let partitions = (\<lambda>base rewards missed.
            case irb_num_reward_partitions base of
              None \<Rightarrow> Done (Inr (Inr rewards))
            | Some num_partitions \<Rightarrow>
                rpc_or (ir_get_blocks_with_limit ex state req (add64 (irb_slot base) 1) num_partitions) (\<lambda>block_list.
                rpc_try (Done (partition_addresses (rx_hasher ex num_partitions (irb_previous_blockhash base)) addresses missed []))
                  (\<lambda>parts. partitions_loop ex state req base num_partitions block_list addresses (rx_order ex parts) rewards)))
      in case base of
           Some base \<Rightarrow> partitions base rewards missed
         | None \<Rightarrow> rpc_or (get_inflation_reward_base ex state req addresses rewards missed) (\<lambda>(base, rewards, missed).
             if missed = [] then Done (Inr (Inr rewards)) else partitions base rewards missed))"

definition RpcRequestInflationReward_process ::
  "'e rpc_ext \<Rightarrow> State \<Rightarrow> RpcRequestInflationReward \<Rightarrow> ('e, 'e response result) rpc" where
  "RpcRequestInflationReward_process ex state req =
     ask (ReqInflationReward (rir_epoch req) (rir_addresses req)) (\<lambda>res. case res of
         ResInflationReward result \<Rightarrow> (case result of
             RI_Timeout \<Rightarrow> timeout
           | RI_ReadError e \<Rightarrow> read_error e
           | RI_Reward addresses scan \<Rightarrow>
               if rs_missed scan = [] then Done (Inr (RespSuccess (rir_id req) (PRewards (rs_rewards scan))))
               else rpc_try (get_inflation_reward ex state req addresses (rs_rewards scan) (rs_missed scan) (rs_base scan))
                      (\<lambda>r. Done (Inr (case r of
                         Inl error \<Rightarrow> error
                       | Inr rewards \<Rightarrow> RespSuccess (rir_id req) (PRewards rewards)))))
       | _ \<Rightarrow> bad_reply)"

end
