(* ===== verification/Alp_Httpget.thy ===== *)
theory Alp_Httpget
  imports Alp_Rpc
begin

text \<open>
  The interface over plain HTTP (src/src/rpc/api_httpget.rs): blocks and transactions as they are
  stored, and the switch of the health check for the administrator. The handlers are trees as those of the JSON-RPC
  interface. Of a request the handlers use the path, the method, two headers and
  the body, which is given as what serde makes of it.
\<close>

datatype ConfigRpcCallHttpGet = HttpGetBlock | HttpGetTransaction | HttpSetHealth

record http_request =
  hq_path :: string
  hq_is_post :: bool
  hq_authorization :: "string option"
  hq_upstream_disabled :: bool
  hq_body :: "(string + bool) result"

record HttpgetState =
  hs_calls :: "ConfigRpcCallHttpGet list"
  hs_upstreams :: "upstream list"
  hs_upstream_paths :: "string list list"
  hs_admin_token :: "string option"

definition response_plain :: "nat \<Rightarrow> http_response" where
  "response_plain status = \<lparr>hr_status = status, hr_x_slot = None, hr_x_error = None, hr_body = []\<rparr>"

definition response_200 :: "string \<Rightarrow> http_response" where
  "response_200 body = (response_plain 200)\<lparr>hr_body := string_bytes body\<rparr>"

definition response_401 :: http_response where
  "response_401 = response_plain 401"

definition response_404 :: http_response where
  "response_404 = response_plain 404"

definition response_400 :: "string \<Rightarrow> string \<Rightarrow> http_response" where
  "response_400 body x_error = \<lparr>hr_status = 400, hr_x_slot = None, hr_x_error = Some x_error, hr_body = string_bytes body\<rparr>"

section \<open>Paths\<close>

text \<open>The regular expressions: a prefix, a group of the given length and characters, an optional slash.\<close>

definition strip_prefix :: "string \<Rightarrow> string \<Rightarrow> string option" where
  "strip_prefix p s = (if take (length p) s = p then Some (drop (length p) s) else None)"

definition strip_slash :: "string \<Rightarrow> string" where
  "strip_slash s = (if s \<noteq> [] \<and> last s = CHR ''/'' then butlast s else s)"

definition capture :: "string \<Rightarrow> nat \<Rightarrow> nat \<Rightarrow> (char \<Rightarrow> bool) \<Rightarrow> string \<Rightarrow> string option" where
  "capture prefix' lo hi ok path = Option.bind (strip_prefix prefix' path) (\<lambda>rest.
     let group' = strip_slash rest
     in if lo \<le> length group' \<and> length group' \<le> hi \<and> list_all ok group' then Some group' else None)"

definition is_base58 :: "char \<Rightarrow> bool" where
  "is_base58 c \<longleftrightarrow> c \<in> set ''123456789ABCDEFGHJKLMNPQRSTUVWXYZabcdefghijkmnopqrstuvwxyz''"

definition ascii_digit :: "char \<Rightarrow> bool" where
  "ascii_digit c \<longleftrightarrow> c \<in> set ''0123456789''"

definition block_path_slot :: "string \<Rightarrow> Slot option" where
  "block_path_slot path = map_option (foldl (\<lambda>n c. 10 * n + (of_char c - 48)) 0) (capture ''/block/'' 1 9 ascii_digit path)"

section \<open>Blocks\<close>

definition block_error_not_available :: "Slot \<Rightarrow> http_response" where
  "block_error_not_available slot = response_400 (''Block not available for slot '' @ to_string slot @ [CHR 0x0A]) ''BlockNotAvailable''"

definition block_error_skipped :: "Slot \<Rightarrow> http_response" where
  "block_error_skipped slot =
     response_400 (''Slot '' @ to_string slot @ '' was skipped, or missing due to ledger jump to recent snapshot'' @ [CHR 0x0A]) ''SlotSkipped''"

definition block_error_skipped_long_term_storage :: "Slot \<Rightarrow> http_response" where
  "block_error_skipped_long_term_storage slot =
     response_400 (''Slot '' @ to_string slot @ '' was skipped, or missing in long-term storage'' @ [CHR 0x0A]) ''LongTermStorageSlotSkipped''"

definition find_upstream :: "HttpgetState \<Rightarrow> bool \<Rightarrow> ConfigRpcCallJson \<Rightarrow> nat option" where
  "find_upstream st upstream_disabled call =
     (if upstream_disabled then None
      else find (\<lambda>i. is_supported (hs_upstreams st ! i) call) [0..<length (hs_upstreams st)])"

definition get_block_upstream :: "HttpgetState \<Rightarrow> bool \<Rightarrow> Slot \<Rightarrow> ('e, http_response result) rpc" where
  "get_block_upstream st upstream_disabled slot =
     (case find_upstream st upstream_disabled GetBlock of
        Some up \<Rightarrow> CallHttp up (httpget_block_path (hs_upstream_paths st ! up) slot) Done
      | None \<Rightarrow> Done (Inr (block_error_skipped_long_term_storage slot)))"

definition httpget_process_block :: "HttpgetState \<Rightarrow> bool \<Rightarrow> Slot \<Rightarrow> ('e, http_response result) rpc" where
  "httpget_process_block st upstream_disabled slot =
     Load AtConfirmed (\<lambda>slot_tip.
       if slot_tip < slot then Done (Inr (block_error_not_available slot))
       else Load AtFirstAvailable (\<lambda>first_available.
         if slot \<le> first_available then get_block_upstream st upstream_disabled slot
         else ask_block slot (\<lambda>result. case result of
             RB_Timeout \<Rightarrow> timeout
           | RB_Removed \<Rightarrow> get_block_upstream st upstream_disabled slot
           | RB_Dead \<Rightarrow> Done (Inr (block_error_skipped slot))
           | RB_NotAvailable \<Rightarrow> Done (Inr (block_error_not_available slot))
           | RB_ReadError e \<Rightarrow> read_error e
           | RB_Block buf \<Rightarrow>
               Load AtFirstAvailable (\<lambda>first_available.
                 if slot \<le> first_available then get_block_upstream st upstream_disabled slot
                 else Done (Inr \<lparr>hr_status = 200, hr_x_slot = None, hr_x_error = None, hr_body = buf\<rparr>)))))"

section \<open>Transactions\<close>

definition transaction_error_history_not_available :: http_response where
  "transaction_error_history_not_available =
     response_400 (''Transaction history is not available from this node'' @ [CHR 0x0A]) ''TransactionHistoryNotAvailable''"

definition get_transaction_upstream ::
  "(Signature \<Rightarrow> string) \<Rightarrow> HttpgetState \<Rightarrow> bool \<Rightarrow> Signature \<Rightarrow> ('e, http_response result) rpc" where
  "get_transaction_upstream show_signature st upstream_disabled signature =
     (case find_upstream st upstream_disabled GetTransaction of
        Some up \<Rightarrow> CallHttp up (httpget_transaction_path show_signature (hs_upstream_paths st ! up) signature) Done
      | None \<Rightarrow> Done (Inr transaction_error_history_not_available))"

definition httpget_process_transaction ::
  "(Signature \<Rightarrow> string) \<Rightarrow> HttpgetState \<Rightarrow> bool \<Rightarrow> Signature \<Rightarrow> ('e, http_response result) rpc" where
  "httpget_process_transaction show_signature st upstream_disabled signature =
     ask_transaction signature (\<lambda>result. case result of
         RN_Timeout \<Rightarrow> timeout
       | RN_NotFound \<Rightarrow> get_transaction_upstream show_signature st upstream_disabled signature
       | RN_ReadError e \<Rightarrow> read_error e
       | RN_Transaction slot block_time buf index \<Rightarrow>
           Load AtFirstAvailable (\<lambda>first_available.
             if slot \<le> first_available then get_transaction_upstream show_signature st upstream_disabled signature
             else Done (Inr \<lparr>hr_status = 200, hr_x_slot = Some (to_string slot), hr_x_error = None, hr_body = buf\<rparr>)))"

section \<open>The switch of the health check\<close>

definition enabled_json :: "string \<Rightarrow> string" where
  "enabled_json value = ''{'' @ [CHR 0x22] @ ''enabled'' @ [CHR 0x22] @ '':'' @ value @ ''}''"

definition process_admin_health :: "HttpgetState \<Rightarrow> http_request \<Rightarrow> ('e, http_response result) rpc" where
  "process_admin_health st req =
     (case hs_admin_token st of
        None \<Rightarrow> Done (Inr response_404)
      | Some admin_token \<Rightarrow>
          if \<not> hq_is_post req then Done (Inr response_404)
          else if \<not> (case Option.bind (hq_authorization req) (strip_prefix ''Bearer '') of
                       Some token \<Rightarrow> tokens_match (string_bytes token) (string_bytes admin_token) | None \<Rightarrow> False)
          then Done (Inr response_401)
          else case hq_body req of
              Inl e \<Rightarrow> Done (Inl e)
            | Inr (Inl e) \<Rightarrow> Done (Inr (response_400 (e @ [CHR 0x0A]) ''InvalidParams''))
            | Inr (Inr enabled) \<Rightarrow> StoreHealthDisabled (\<not> enabled)
                (Done (Inr (response_200 (if enabled then enabled_json ''true'' else enabled_json ''false'')))))"

section \<open>Dispatch\<close>

text \<open>
  \<open>None\<close> when the path belongs to no handler. The text of the version and the response to an error, which
  the library \<open>richat_shared\<close> builds, are arguments.
\<close>

definition get_handler ::
  "'e rpc_ext \<Rightarrow> (Signature \<Rightarrow> string) \<Rightarrow> (rust_error \<Rightarrow> http_response) \<Rightarrow> string \<Rightarrow> HttpgetState \<Rightarrow> http_request \<Rightarrow>
     ('e, http_response) rpc option" where
  "get_handler ex show_signature response_500 version_body st req =
     (let answer = (\<lambda>p. Some (rpc_bind p (\<lambda>r. Done (case r of Inr response \<Rightarrow> response | Inl e \<Rightarrow> response_500 e))));
          slot = (if HttpGetBlock \<in> set (hs_calls st) then block_path_slot (hq_path req) else None);
          signature = (if HttpGetTransaction \<in> set (hs_calls st)
            then Option.bind (capture ''/tx/'' 64 88 is_base58 (hq_path req))
                   (\<lambda>s. case rx_parse_signature ex s of Inr signature \<Rightarrow> Some signature | Inl e \<Rightarrow> None)
            else None)
      in case slot of
           Some slot \<Rightarrow> answer (httpget_process_block st (hq_upstream_disabled req) slot)
         | None \<Rightarrow>
         (case signature of
           Some signature \<Rightarrow> answer (httpget_process_transaction show_signature st (hq_upstream_disabled req) signature)
         | None \<Rightarrow>
             if HttpSetHealth \<in> set (hs_calls st) \<and> hq_path req = ''/admin/health'' then answer (process_admin_health st req)
             else if hq_path req = ''/version'' then Some (Done (response_200 version_body))
             else None))"

end
