(* ===== verification/Alp_Rpc_Laws.thy ===== *)
theory Alp_Rpc_Laws
  imports Alp_Rpc_Gtfa Alp_Rpc_Reward Alp_Httpget Alp_Read_Laws
begin

text \<open>
  The RPC interface as a whole, and what holds in every run of its handlers: each response carries the id
  of its request, no handler panics where the read threads answer as they promise, and data read
  from the local storage is only sent when the slot is still stored.
\<close>

section \<open>All runs of a handler\<close>

text \<open>
  \<open>rpc_all T P Q p\<close>: in every run of \<open>p\<close> in which the read threads answer within \<open>T\<close>, every call of an upstream
  satisfies \<open>P\<close> and the result satisfies \<open>Q\<close>.
\<close>

primrec rpc_all ::
  "('e ReadRequest \<Rightarrow> 'e reply \<Rightarrow> bool) \<Rightarrow> (upstream_call \<Rightarrow> bool) \<Rightarrow> ('a \<Rightarrow> bool) \<Rightarrow> ('e, 'a) rpc \<Rightarrow> bool" where
  "rpc_all T P Q (Done a) \<longleftrightarrow> Q a"
| "rpc_all T P Q (Load at k) \<longleftrightarrow> (\<forall>v. rpc_all T P Q (k v))"
| "rpc_all T P Q (LoadHealthDisabled k) \<longleftrightarrow> (\<forall>v. rpc_all T P Q (k v))"
| "rpc_all T P Q (Ask q k) \<longleftrightarrow> (\<forall>r. T q r \<longrightarrow> rpc_all T P Q (k r))"
| "rpc_all T P Q (Call u k) \<longleftrightarrow> P u \<and> (\<forall>r. rpc_all T P Q (k r))"
| "rpc_all T P Q (CallNodes u k) \<longleftrightarrow> (\<forall>r. rpc_all T P Q (k r))"
| "rpc_all T P Q (CallSchedule u ep s k) \<longleftrightarrow> (\<forall>r. rpc_all T P Q (k r))"
| "rpc_all T P Q (CallHttp u path k) \<longleftrightarrow> (\<forall>r. rpc_all T P Q (k r))"
| "rpc_all T P Q (Work k) \<longleftrightarrow> (\<forall>r. rpc_all T P Q (k r))"
| "rpc_all T P Q (StoreHealthDisabled b p) \<longleftrightarrow> rpc_all T P Q p"
| "rpc_all T P Q (Push w p) \<longleftrightarrow> rpc_all T P Q p"

definition answers_within :: "('e ReadRequest \<Rightarrow> 'e reply \<Rightarrow> bool) \<Rightarrow> 'e rpc_event list \<Rightarrow> bool" where
  "answers_within T tr \<longleftrightarrow> (\<forall>q r. Asked q r \<in> set tr \<longrightarrow> T q r)"

lemma answers_within_simps [simp]:
  "answers_within T []"
  "answers_within T (tr @ tr') \<longleftrightarrow> answers_within T tr \<and> answers_within T tr'"
  "answers_within T (ev # tr) \<longleftrightarrow> (\<forall>q r. ev = Asked q r \<longrightarrow> T q r) \<and> answers_within T tr"
  by (auto simp: answers_within_def)

lemma rpc_all_runs:
  "rpc_runs p tr a \<Longrightarrow> rpc_all T P Q p \<Longrightarrow> answers_within T tr \<Longrightarrow> Q a \<and> (\<forall>u r. Called u r \<in> set tr \<longrightarrow> P u)"
  by (induction rule: rpc_runs.induct) auto

lemma rpc_all_bind [simp]: "rpc_all T P Q (rpc_bind p f) \<longleftrightarrow> rpc_all T P (\<lambda>a. rpc_all T P Q (f a)) p"
  by (induction p) simp_all

lemma rpc_all_mono: "rpc_all T P Q p \<Longrightarrow> (\<And>a. Q a \<Longrightarrow> Q' a) \<Longrightarrow> rpc_all T P Q' p"
  by (induction p) auto

lemma rpc_all_try:
  "rpc_all T P Q (rpc_try p f) \<longleftrightarrow> rpc_all T P (\<lambda>r. case r of Inl e \<Rightarrow> Q (Inl e) | Inr v \<Rightarrow> rpc_all T P Q (f v)) p"
  unfolding rpc_try_def rpc_all_bind
  by (rule arg_cong [where f = "\<lambda>Q. rpc_all T P Q p"]) (auto split: sum.splits)

lemma rpc_all_or:
  "rpc_all T P Q (rpc_or p f) \<longleftrightarrow>
     rpc_all T P (\<lambda>r. case r of Inl e \<Rightarrow> Q (Inl e) | Inr (Inl x) \<Rightarrow> Q (Inr (Inl x)) | Inr (Inr v) \<Rightarrow> rpc_all T P Q (f v)) p"
  unfolding rpc_or_def rpc_all_try
  by (rule arg_cong [where f = "\<lambda>Q. rpc_all T P Q p"]) (auto split: sum.splits)

lemma rpc_all_try_loop:
  "rpc_all T P Q (try_loop p f) \<longleftrightarrow> rpc_all T P (\<lambda>r. case r of Inl e \<Rightarrow> Q (Some (Inl e)) | Inr v \<Rightarrow> rpc_all T P Q (f v)) p"
  unfolding try_loop_def rpc_all_bind
  by (rule arg_cong [where f = "\<lambda>Q. rpc_all T P Q p"]) (auto split: sum.splits)

section \<open>The methods\<close>

text \<open>A request for each method, with its parameters as serde gives them; the handlers that are registered.\<close>

datatype rpc_request =
    RqBlock "(Slot \<times> RpcBlockConfig option) request"
  | RqBlockHeight "RpcContextConfig option request"
  | RqBlocks "blocks_params request"
  | RqBlocksWithLimit "(Slot \<times> nat \<times> RpcContextConfig option) request"
  | RqBlockTime "Slot request"
  | RqClusterNodes "json_value request"
  | RqFirstAvailableBlock "json_value request"
  | RqHealth "json_value request"
  | RqInflationReward "(string list \<times> RpcEpochConfig option) request"
  | RqLatestBlockhash "RpcContextConfig option request"
  | RqLeaderSchedule "((Slot option \<times> RpcLeaderScheduleConfig option) option \<times> RpcLeaderScheduleConfig option) request"
  | RqRecentPrioritizationFees "(string list option \<times> nat option option) request"
  | RqSignaturesForAddress "(string \<times> RpcSignaturesForAddressConfig option) request"
  | RqSignatureStatuses "(string list \<times> RpcSignatureStatusConfig option) request"
  | RqSlot "RpcContextConfig option request"
  | RqTransaction "(string \<times> RpcTransactionConfig option) request"
  | RqTransactionsForAddress "(string \<times> GtfaOptions option) request"
  | RqVersion "json_value request"
  | RqIsBlockhashValid "(string \<times> RpcContextConfig option) request"

fun request_call :: "rpc_request \<Rightarrow> ConfigRpcCallJson" where
  "request_call (RqBlock _) = GetBlock"
| "request_call (RqBlockHeight _) = GetBlockHeight"
| "request_call (RqBlocks _) = GetBlocks"
| "request_call (RqBlocksWithLimit _) = GetBlocksWithLimit"
| "request_call (RqBlockTime _) = GetBlockTime"
| "request_call (RqClusterNodes _) = GetClusterNodes"
| "request_call (RqFirstAvailableBlock _) = GetFirstAvailableBlock"
| "request_call (RqHealth _) = GetHealth"
| "request_call (RqInflationReward _) = GetInflationReward"
| "request_call (RqLatestBlockhash _) = GetLatestBlockhash"
| "request_call (RqLeaderSchedule _) = GetLeaderSchedule"
| "request_call (RqRecentPrioritizationFees _) = GetRecentPrioritizationFees"
| "request_call (RqSignaturesForAddress _) = GetSignaturesForAddress"
| "request_call (RqSignatureStatuses _) = GetSignatureStatuses"
| "request_call (RqSlot _) = GetSlot"
| "request_call (RqTransaction _) = GetTransaction"
| "request_call (RqTransactionsForAddress _) = GetTransactionsForAddress"
| "request_call (RqVersion _) = GetVersion"
| "request_call (RqIsBlockhashValid _) = IsBlockhashValid"

fun request_id_of :: "rpc_request \<Rightarrow> request_id" where
  "request_id_of (RqBlock rq) = rq_id rq"
| "request_id_of (RqBlockHeight rq) = rq_id rq"
| "request_id_of (RqBlocks rq) = rq_id rq"
| "request_id_of (RqBlocksWithLimit rq) = rq_id rq"
| "request_id_of (RqBlockTime rq) = rq_id rq"
| "request_id_of (RqClusterNodes rq) = rq_id rq"
| "request_id_of (RqFirstAvailableBlock rq) = rq_id rq"
| "request_id_of (RqHealth rq) = rq_id rq"
| "request_id_of (RqInflationReward rq) = rq_id rq"
| "request_id_of (RqLatestBlockhash rq) = rq_id rq"
| "request_id_of (RqLeaderSchedule rq) = rq_id rq"
| "request_id_of (RqRecentPrioritizationFees rq) = rq_id rq"
| "request_id_of (RqSignaturesForAddress rq) = rq_id rq"
| "request_id_of (RqSignatureStatuses rq) = rq_id rq"
| "request_id_of (RqSlot rq) = rq_id rq"
| "request_id_of (RqTransaction rq) = rq_id rq"
| "request_id_of (RqTransactionsForAddress rq) = rq_id rq"
| "request_id_of (RqVersion rq) = rq_id rq"
| "request_id_of (RqIsBlockhashValid rq) = rq_id rq"

text \<open>The methods that \<open>parse\<close> answers have the default \<open>process\<close>, which is not implemented.\<close>

definition unimplemented :: "'q \<Rightarrow> ('e, 'e response result) rpc" where
  "unimplemented req = Done (Inl (Panic ''not implemented''))"

definition finite_handler :: "('e, 'a) rpc \<Rightarrow> ('e, 'a option) rpc" where
  "finite_handler p = rpc_bind p (\<lambda>r. Done (Some r))"

fun rpc_handle :: "nat \<Rightarrow> 'e rpc_ext \<Rightarrow> State \<Rightarrow> bool \<Rightarrow> rpc_request \<Rightarrow> ('e, 'e response result option) rpc" where
  "rpc_handle fuel ex state dis (RqBlock rq) =
     finite_handler (handle (RpcRequestBlock_parse dis rq) (RpcRequestBlock_process ex state))"
| "rpc_handle fuel ex state dis (RqBlockHeight rq) =
     finite_handler (handle (RpcRequestBlockHeight_parse rq) RpcRequestBlockHeight_process)"
| "rpc_handle fuel ex state dis (RqBlocks rq) =
     finite_handler (handle (RpcRequestBlocks_parse ex dis rq) (RpcRequestBlocks_process state))"
| "rpc_handle fuel ex state dis (RqBlocksWithLimit rq) =
     finite_handler (handle (RpcRequestBlocksWithLimit_parse ex dis rq) (RpcRequestBlocks_process state))"
| "rpc_handle fuel ex state dis (RqBlockTime rq) =
     finite_handler (handle (RpcRequestBlockTime_parse dis rq) (RpcRequestBlockTime_process state))"
| "rpc_handle fuel ex state dis (RqClusterNodes rq) =
     finite_handler (handle (RpcRequestClusterNodes_parse rq) (RpcRequestClusterNodes_process state))"
| "rpc_handle fuel ex state dis (RqFirstAvailableBlock rq) =
     finite_handler (handle (RpcRequestFirstAvailableBlock_parse rq) (RpcRequestFirstAvailableBlock_process state dis))"
| "rpc_handle fuel ex state dis (RqHealth rq) =
     finite_handler (handle (RpcRequestHealth_parse state rq) unimplemented)"
| "rpc_handle fuel ex state dis (RqInflationReward rq) =
     finite_handler (handle (RpcRequestInflationReward_parse ex dis rq) (RpcRequestInflationReward_process ex state))"
| "rpc_handle fuel ex state dis (RqLatestBlockhash rq) =
     finite_handler (handle (RpcRequestLatestBlockhash_parse rq) RpcRequestLatestBlockhash_process)"
| "rpc_handle fuel ex state dis (RqLeaderSchedule rq) =
     finite_handler (handle (RpcRequestLeaderSchedule_parse ex rq) (RpcRequestLeaderSchedule_process ex state))"
| "rpc_handle fuel ex state dis (RqRecentPrioritizationFees rq) =
     finite_handler (handle (RpcRequestRecentPrioritizationFees_parse ex state rq) RpcRequestRecentPrioritizationFees_process)"
| "rpc_handle fuel ex state dis (RqSignaturesForAddress rq) =
     finite_handler (handle (RpcRequestSignaturesForAddress_parse ex state dis rq) (RpcRequestSignaturesForAddress_process ex state))"
| "rpc_handle fuel ex state dis (RqSignatureStatuses rq) =
     finite_handler (handle (RpcRequestSignatureStatuses_parse ex state dis rq) (RpcRequestSignatureStatuses_process ex state))"
| "rpc_handle fuel ex state dis (RqSlot rq) = finite_handler (handle (RpcRequestSlot_parse rq) unimplemented)"
| "rpc_handle fuel ex state dis (RqTransaction rq) =
     finite_handler (handle (RpcRequestTransaction_parse ex dis rq) (RpcRequestTransaction_process ex state))"
| "rpc_handle fuel ex state dis (RqTransactionsForAddress rq) =
     rpc_bind (RpcRequestTransactionsForAddress_parse ex state rq) (\<lambda>r. case r of
       Inr req \<Rightarrow> RpcRequestTransactionsForAddress_process fuel ex state req
     | Inl response \<Rightarrow> Done (Some (Inr response)))"
| "rpc_handle fuel ex state dis (RqVersion rq) = finite_handler (handle (RpcRequestVersion_parse ex rq) unimplemented)"
| "rpc_handle fuel ex state dis (RqIsBlockhashValid rq) =
     finite_handler (handle (RpcRequestIsBlockhashValid_parse ex rq) RpcRequestIsBlockhashValid_process)"

section \<open>Ids and panics\<close>

fun has_id :: "request_id \<Rightarrow> 'e response \<Rightarrow> bool" where
  "has_id id' (RespSuccess i _) \<longleftrightarrow> i = id'"
| "has_id id' (RespInvalidParams i _) \<longleftrightarrow> i = id'"
| "has_id id' (RespCustom i _) \<longleftrightarrow> i = id'"
| "has_id id' (RespRaw _) \<longleftrightarrow> True"

text \<open>An answer of a read thread has the kind of its request.\<close>

definition reply_typed :: "'e ReadRequest \<Rightarrow> 'e reply \<Rightarrow> bool" where
  "reply_typed q r \<longleftrightarrow> (\<forall>res. r = Reply res \<longrightarrow> result_kind res = fst (request_kind q))"

fun res_ok :: "bool \<Rightarrow> ('a \<Rightarrow> bool) \<Rightarrow> 'a result \<Rightarrow> bool" where
  "res_ok pn Q (Inl (Err _)) \<longleftrightarrow> True"
| "res_ok pn Q (Inl (Panic _)) \<longleftrightarrow> pn"
| "res_ok pn Q (Inr v) \<longleftrightarrow> Q v"

lemma res_ok_panics [simp]: "res_ok True Q (Inl e)"
  by (cases e) simp_all

fun or_ok :: "request_id \<Rightarrow> ('a \<Rightarrow> bool) \<Rightarrow> 'e response + 'a \<Rightarrow> bool" where
  "or_ok id' Q (Inl response) \<longleftrightarrow> has_id id' response"
| "or_ok id' Q (Inr v) \<longleftrightarrow> Q v"

abbreviation rpc_ok :: "request_id \<Rightarrow> ('a \<Rightarrow> bool) \<Rightarrow> ('e, 'a) rpc \<Rightarrow> bool" where
  "rpc_ok id' Q \<equiv> rpc_all reply_typed (\<lambda>u. uc_id u = id') Q"

lemma ask_ok:
  assumes "\<And>res. result_kind res = fst (request_kind q) \<Longrightarrow> rpc_ok id' (res_ok pn Q) (k res)"
  shows "rpc_ok id' (res_ok pn Q) (ask q k)"
  using assms by (auto simp: ask_def reply_typed_def split: reply.splits)

lemma kind_cases:
  "result_kind res = 0 \<longleftrightarrow> (\<exists>r. res = ResBlock r)"
  "result_kind res = Suc 0 \<longleftrightarrow> (\<exists>r. res = ResBlockHeight r)"
  "result_kind res = 2 \<longleftrightarrow> (\<exists>r. res = ResBlocks r)"
  "result_kind res = 3 \<longleftrightarrow> (\<exists>r. res = ResBlockTime r)"
  "result_kind res = 4 \<longleftrightarrow> (\<exists>r. res = ResInflationReward r)"
  "result_kind res = 5 \<longleftrightarrow> (\<exists>r. res = ResLatestBlockhash r)"
  "result_kind res = 6 \<longleftrightarrow> (\<exists>r. res = ResRecentPrioritizationFees r)"
  "result_kind res = 7 \<longleftrightarrow> (\<exists>r. res = ResSignaturesForAddress r)"
  "result_kind res = 8 \<longleftrightarrow> (\<exists>r. res = ResTransactionsForAddress r)"
  "result_kind res = 9 \<longleftrightarrow> (\<exists>r. res = ResSignatureStatuses r)"
  "result_kind res = 10 \<longleftrightarrow> (\<exists>r. res = ResTransaction r)"
  "result_kind res = 11 \<longleftrightarrow> (\<exists>r. res = ResSignaturePosition r)"
  "result_kind res = 12 \<longleftrightarrow> (\<exists>r. res = ResBlockhashValid r)"
  by (cases res; simp)+

lemma asks_ok:
  "(\<And>r. rpc_ok id' (res_ok pn Q) (kb r)) \<Longrightarrow> rpc_ok id' (res_ok pn Q) (ask_block slot kb)"
  "(\<And>r. rpc_ok id' (res_ok pn Q) (kbs r)) \<Longrightarrow> rpc_ok id' (res_ok pn Q) (ask_blocks slot u c kbs)"
  "(\<And>r. rpc_ok id' (res_ok pn Q) (kh r)) \<Longrightarrow> rpc_ok id' (res_ok pn Q) (ask_height c kh)"
  "(\<And>r. rpc_ok id' (res_ok pn Q) (kt r)) \<Longrightarrow> rpc_ok id' (res_ok pn Q) (ask_transaction s kt)"
  unfolding ask_block_def ask_blocks_def ask_height_def ask_transaction_def
  by (rule ask_ok; auto simp: kind_cases)+

lemma forward_ok [simp]: "rpc_ok id' (res_ok pn (has_id id')) (forward up id' body reason)"
  by (simp add: forward_def split: sum.splits)

lemma min_context_ok: "rpc_ok id' (or_ok id' (\<lambda>_. True)) (min_context_check id' m c)"
  by (simp add: min_context_check_def split: option.splits)

lemma workers_ok: "res_ok pn Q r \<Longrightarrow> rpc_ok id' (res_ok pn Q) (process_with_workers r)"
  by (simp add: process_with_workers_def split: worker_outcome.splits)

lemma parse_reply_ok: "res_ok pn (or_ok i (\<lambda>_. True)) (parse_reply parse r)"
  by (simp add: parse_reply_def split: sum.split option.split parsed.split)

lemma handle_ok:
  "rpc_ok id' (or_ok id' (\<lambda>req. rpc_ok id' (res_ok pn (has_id id')) (run req))) p \<Longrightarrow> rpc_ok id' (res_ok pn (has_id id')) (handle p run)"
  unfolding handle_def rpc_all_bind
  by (erule rpc_all_mono) (auto elim!: or_ok.elims)

lemma block_fetch_ok: "rb_id req = id' \<Longrightarrow> rpc_ok id' (res_ok pn (has_id id')) (RpcRequestBlock_fetch_upstream state req reason)"
  by (simp add: RpcRequestBlock_fetch_upstream_def up_get_block_def error_skipped_long_term_storage_def split: option.splits)

lemma block_process2_ok: "res_ok pn (has_id id') (RpcRequestBlock_process2 ex buf id' encoding options)"
  by (simp add: RpcRequestBlock_process2_def parse_and_encode_def split: sum.splits decode_error.splits)

lemma block_ok:
  assumes "rb_id req = id'" "rb_commitment req \<noteq> LevelProcessed"
  shows "rpc_ok id' (res_ok False (has_id id')) (RpcRequestBlock_process ex state req)"
  using assms block_process2_ok [of False id' ex]
  by (auto simp: RpcRequestBlock_process_def error_not_available_def error_skipped_def split: ReadResultBlock.split 
      intro!: asks_ok(1) block_fetch_ok workers_ok)

lemma block_handler_ok: "rpc_ok (rq_id rq) (res_ok False (has_id (rq_id rq))) (handle (RpcRequestBlock_parse dis rq) (RpcRequestBlock_process ex state))"
  by (rule handle_ok) (auto simp: RpcRequestBlock_parse_def parse_params_def check_is_at_least_confirmed_def Let_def 
     intro!: block_ok split: sum.split )

lemma parse_params_ok: "or_ok (rq_id rq) (\<lambda>(i, p). i = rq_id rq) (parse_params rq)" "or_ok (rq_id rq) (\<lambda>(i, p). i = rq_id rq) (parse_params_or d rq)"
  by (simp_all add: parse_params_or_def parse_params_def split: sum.splits)

lemma parsed_ok:
  assumes "or_ok i (\<lambda>(i', p). i' = i) v" and "\<And>p. rpc_ok i (or_ok i Q) (f i p)"
  shows "rpc_ok i (or_ok i Q) (case v of Inl r \<Rightarrow> Done (Inl r) | Inr (i', p) \<Rightarrow> f i' p)"
  using assms by (auto split: sum.splits)

lemma context_parse_ok:
  "(\<And>c. rpc_ok i (or_ok i Q) (k c)) \<Longrightarrow> rpc_ok i (or_ok i Q) (context_parse i config k)"
  using min_context_ok [of i]
  by (auto simp: context_parse_def Let_def min_context_check_def split: option.splits)

lemma confirmed_context_ok:
  "(c \<noteq> LevelProcessed \<Longrightarrow> rpc_ok i (or_ok i Q) p) \<Longrightarrow> rpc_ok i (or_ok i Q) (confirmed_context i m c p)"
  by (auto simp: confirmed_context_def check_is_at_least_confirmed_def min_context_check_def split: option.splits)

lemma height_handler_ok: "rpc_ok (rq_id rq) (res_ok False (has_id (rq_id rq))) (handle (RpcRequestBlockHeight_parse rq) RpcRequestBlockHeight_process)"
  unfolding RpcRequestBlockHeight_parse_def RpcRequestBlockHeight_process_def
  by (intro handle_ok parsed_ok parse_params_ok context_parse_ok)
    (auto intro!: asks_ok split: ReadResultBlockHeight.split)

lemma blocks_process_ok: "rbs_id req = i \<Longrightarrow> rpc_ok i (res_ok pn (has_id i)) (RpcRequestBlocks_process state req)"
  by (simp add: RpcRequestBlocks_process_def up_get_blocks_def split: option.split)
    (intro conjI allI impI asks_ok, auto split: ReadResultBlocks.split)

lemma blocks_context_ok:
  "(\<And>c f. rpc_ok i (or_ok i Q) (k c f)) \<Longrightarrow> rpc_ok i (or_ok i Q) (blocks_context i config k)"
  by (simp add: blocks_context_def Let_def split: sum.split)

lemma blocks_handler_ok: "rpc_ok (rq_id rq) (res_ok False (has_id (rq_id rq))) (handle (RpcRequestBlocks_parse ex dis rq) (RpcRequestBlocks_process state))"
  unfolding RpcRequestBlocks_parse_def Let_def
  by (intro handle_ok parsed_ok parse_params_ok) (auto intro!: blocks_context_ok blocks_process_ok split: prod.split)

lemma blocks_limit_handler_ok:
  "rpc_ok (rq_id rq) (res_ok False (has_id (rq_id rq))) (handle (RpcRequestBlocksWithLimit_parse ex dis rq) (RpcRequestBlocks_process state))"
  unfolding RpcRequestBlocksWithLimit_parse_def
  by (intro handle_ok parsed_ok parse_params_ok) (auto intro!: blocks_context_ok blocks_process_ok)

lemma time_handler_ok:
  "rpc_ok (rq_id rq) (res_ok False (has_id (rq_id rq))) (handle (RpcRequestBlockTime_parse dis rq) (RpcRequestBlockTime_process state))"
  by (rule handle_ok) (auto simp: RpcRequestBlockTime_parse_def parse_params_def RpcRequestBlockTime_process_def kind_cases
    RpcRequestBlockTime_fetch_upstream_def Let_def up_get_block_time_def intro!: ask_ok split: sum.split ReadResultBlockTime.split option.split)

lemma nodes_handler_ok:
  assumes "get_upstream state GetClusterNodes \<noteq> None"
  shows "rpc_ok (rq_id rq) (res_ok False (has_id (rq_id rq))) (handle (RpcRequestClusterNodes_parse rq) (RpcRequestClusterNodes_process state))"
  using assms
  by (intro handle_ok) (auto simp: no_params_expected_def RpcRequestClusterNodes_parse_def RpcRequestClusterNodes_process_def up_get_cluster_nodes_def split: sum.split option.split json_value.split)

lemma first_available_handler_ok:
  "rpc_ok (rq_id rq) (res_ok False (has_id (rq_id rq))) (handle (RpcRequestFirstAvailableBlock_parse rq) (RpcRequestFirstAvailableBlock_process state dis))"
  by (intro handle_ok) (auto simp: no_params_expected_def RpcRequestFirstAvailableBlock_parse_def RpcRequestFirstAvailableBlock_process_def up_get_first_available_block_def split: sum.split option.split json_value.split)

lemma health_handler_ok:
  "rpc_ok (rq_id rq) (res_ok False (has_id (rq_id rq))) (handle (RpcRequestHealth_parse state rq) unimplemented)"
  by (intro handle_ok) (auto simp: no_params_expected_def RpcRequestHealth_parse_def split: sum.split option.split json_value.split)

lemma version_handler_ok:
  "rpc_ok (rq_id rq) (res_ok False (has_id (rq_id rq))) (handle (RpcRequestVersion_parse ex rq) unimplemented)"
  by (intro handle_ok) (auto simp: no_params_expected_def RpcRequestVersion_parse_def split: sum.split option.split json_value.split)

lemma latest_handler_ok:
  "rpc_ok (rq_id rq) (res_ok False (has_id (rq_id rq))) (handle (RpcRequestLatestBlockhash_parse rq) RpcRequestLatestBlockhash_process)"
  unfolding RpcRequestLatestBlockhash_parse_def RpcRequestLatestBlockhash_process_def
  by (intro handle_ok parsed_ok parse_params_ok context_parse_ok)
    (auto simp: kind_cases intro!: ask_ok split: ReadResultLatestBlockhash.split)

lemma schedule_handler_ok:
  assumes "get_upstream state GetLeaderSchedule \<noteq> None"
  shows "rpc_ok (rq_id rq) (res_ok False (has_id (rq_id rq))) (handle (RpcRequestLeaderSchedule_parse ex rq) (RpcRequestLeaderSchedule_process ex state))"
  unfolding RpcRequestLeaderSchedule_parse_def RpcRequestLeaderSchedule_process_def Let_def
  using assms
  by (intro handle_ok parsed_ok parse_params_ok) (auto simp: up_get_leader_schedule_def split: prod.split sum.split option.split)

lemma fees_handler_ok:
  "rpc_ok (rq_id rq) (res_ok False (has_id (rq_id rq)))
     (handle (RpcRequestRecentPrioritizationFees_parse ex state rq) RpcRequestRecentPrioritizationFees_process)"
  by (rule handle_ok) (auto simp: RpcRequestRecentPrioritizationFees_parse_def parse_params_or_def parse_params_def
    RpcRequestRecentPrioritizationFees_process_def kind_cases Let_def intro!: ask_ok split: sum.split ReadResultRecentPrioritizationFees.split)

lemma valid_handler_ok:
  "rpc_ok (rq_id rq) (res_ok False (has_id (rq_id rq))) (handle (RpcRequestIsBlockhashValid_parse ex rq) RpcRequestIsBlockhashValid_process)"
  unfolding RpcRequestIsBlockhashValid_parse_def RpcRequestIsBlockhashValid_process_def
  by (intro handle_ok parsed_ok parse_params_ok)
    (auto simp: kind_cases intro!: ask_ok context_parse_ok split: sum.split ReadResultBlockhashValid.split)

lemma slot_handler_ok:
  "rpc_ok (rq_id rq) (res_ok False (has_id (rq_id rq))) (handle (RpcRequestSlot_parse rq) unimplemented)"
  unfolding RpcRequestSlot_parse_def Let_def
  by (intro handle_ok parsed_ok parse_params_ok) (simp split: option.split)

lemma sfa_process_ok:
  assumes "rsa_id req = i"
  shows "rpc_ok i (res_ok pn (has_id i)) (RpcRequestSignaturesForAddress_process ex state req)"
  using assms
  by (auto simp: rpc_all_try RpcRequestSignaturesForAddress_process_def kind_cases Let_def RpcRequestSignaturesForAddress_fetch_upstream_def
      up_get_signatures_for_address_def parse_reply_def intro!: ask_ok split: ReadResultSignaturesForAddress.split option.split sum.split parsed.split)

lemma sfa_handler_ok:
  "rpc_ok (rq_id rq) (res_ok False (has_id (rq_id rq)))
     (handle (RpcRequestSignaturesForAddress_parse ex state dis rq) (RpcRequestSignaturesForAddress_process ex state))"
  unfolding RpcRequestSignaturesForAddress_parse_def Let_def
  by (intro handle_ok parsed_ok parse_params_ok) (auto intro!: confirmed_context_ok sfa_process_ok split: sum.split prod.split)

lemma statuses_process_ok:
  assumes "rss_id req = i"
  shows "rpc_ok i (res_ok True (has_id i)) (RpcRequestSignatureStatuses_process ex state req)"
  using assms
  by (auto simp: rpc_all_try RpcRequestSignatureStatuses_process_def kind_cases Let_def RpcRequestSignatureStatuses_fetch_upstream_def
      up_get_signature_statuses_def statuses_response_def parse_reply_def intro!: ask_ok split: ReadResultSignatureStatuses.split option.split sum.split parsed.split)

lemma statuses_handler_ok:
  "rpc_ok (rq_id rq) (res_ok True (has_id (rq_id rq)))
     (handle (RpcRequestSignatureStatuses_parse ex state dis rq) (RpcRequestSignatureStatuses_process ex state))"
  unfolding RpcRequestSignatureStatuses_parse_def Let_def
  by (intro handle_ok parsed_ok parse_params_ok)
    (auto simp: min_context_check_def intro!: statuses_process_ok split: sum.split prod.split option.split)

lemma transaction_fetch_ok: "rt_id req = i \<Longrightarrow> rpc_ok i (res_ok pn (has_id i)) (RpcRequestTransaction_fetch_upstream state req reason)"
  by (simp add: RpcRequestTransaction_fetch_upstream_def up_get_transaction_def split: option.splits)

lemma transaction_process2_ok:
  "res_ok pn (has_id i) (RpcRequestTransaction_process2 ex buf slot block_time index i encoding v)"
  by (simp add: RpcRequestTransaction_process2_def split: sum.splits decode_error.splits)

lemma transaction_process_ok:
  assumes "rt_id req = i"
  shows "rpc_ok i (res_ok pn (has_id i)) (RpcRequestTransaction_process ex state req)"
  using assms transaction_process2_ok [of pn i ex]
  by (auto simp: RpcRequestTransaction_process_def Let_def intro!: asks_ok transaction_fetch_ok workers_ok split: ReadResultTransaction.split)

lemma transaction_handler_ok:
  "rpc_ok (rq_id rq) (res_ok False (has_id (rq_id rq))) (handle (RpcRequestTransaction_parse ex dis rq) (RpcRequestTransaction_process ex state))"
  unfolding RpcRequestTransaction_parse_def Let_def
  by (intro handle_ok parsed_ok parse_params_ok) (auto intro!: confirmed_context_ok transaction_process_ok split: sum.split prod.split)

subsection \<open>getInflationReward\<close>

abbreviation or_res_ok :: "request_id \<Rightarrow> ('a \<Rightarrow> bool) \<Rightarrow> ('e response + 'a) result \<Rightarrow> bool" where
  "or_res_ok i Q \<equiv> res_ok True (or_ok i Q)"

lemma rpc_or_ok:
  assumes "rpc_ok i (or_res_ok i (\<lambda>_. True)) p" and "\<And>v. rpc_ok i (or_res_ok i Q) (f v)"
  shows "rpc_ok i (or_res_ok i Q) (rpc_or p f)"
  unfolding rpc_all_or using assms(1)
  by (rule rpc_all_mono) (use assms(2) in \<open>auto split: sum.splits\<close>)

lemma rpc_try_ok:
  assumes "rpc_ok i (res_ok True Q') p" and "\<And>v. Q' v \<Longrightarrow> rpc_ok i (res_ok True Q) (f v)"
  shows "rpc_ok i (res_ok True Q) (rpc_try p f)"
  unfolding rpc_all_try using assms(1)
  by (rule rpc_all_mono) (use assms(2) in \<open>auto split: sum.splits\<close>)

lemma rpc_try_Done_ok: "(\<And>v. rpc_ok i (res_ok True Q) (f v)) \<Longrightarrow> rpc_ok i (res_ok True Q) (rpc_try (Done r) f)"
  by (simp add: rpc_all_try split: sum.split)

lemma call_parsed_ok: "rpc_ok i (or_res_ok i (\<lambda>_. True)) (call_parsed parse up i body reason)"
  by (simp add: call_parsed_def parse_reply_ok)

lemma ir_blocks_ok:
  "rpc_ok (rir_id req) (or_res_ok (rir_id req) (\<lambda>_. True)) (ir_get_blocks_with_limit ex state req s l)"
  by (simp add: ir_get_blocks_with_limit_def up_get_blocks_parsed_def call_parsed_ok split: option.split)
    (intro conjI allI impI asks_ok, auto split: ReadResultBlocks.split)

lemma ir_upstream_ok:
  "rpc_ok (rir_id req) (or_res_ok (rir_id req) (\<lambda>_. True)) (get_block_with_rewards_upstream ex state req s reason)"
  unfolding get_block_with_rewards_upstream_def up_get_block_rewards_def
  by (auto simp: error_skipped_long_term_storage_def error_not_available_def split: option.split intro!: rpc_or_ok call_parsed_ok)

lemma parse_and_encode_ok: "or_res_ok i (\<lambda>_. True) (parse_and_encode ex buf i enc opts)"
  by (simp add: parse_and_encode_def split: sum.split decode_error.split)

lemma ir_block_ok:
  "rpc_ok (rir_id req) (or_res_ok (rir_id req) (\<lambda>_. True)) (get_block_with_rewards ex state req s)"
  by (auto simp: get_block_with_rewards_def error_skipped_def error_not_available_def parse_and_encode_ok ir_upstream_ok
      intro!: asks_ok split: ReadResultBlock.split)

lemma ir_base_ok:
  shows "rpc_ok (rir_id req) (or_res_ok (rir_id req) (\<lambda>_. True)) (get_inflation_reward_base ex state req addresses rewards missed)"
  unfolding get_inflation_reward_base_def Let_def
  by (auto simp: error_not_available_def intro!: rpc_or_ok rpc_try_Done_ok ir_blocks_ok ir_block_ok split: list.split sum.split)

lemma ir_partitions_ok:
  shows "rpc_ok (rir_id req) (or_res_ok (rir_id req) (\<lambda>_. True)) (partitions_loop ex state req base n bl addresses parts rewards)"
proof (induction parts arbitrary: rewards)
  case (Cons part parts)
  obtain pi missed where p: "part = (pi, missed)" by (rule prod.exhaust)
  have e: "rpc_ok (rir_id req) (res_ok True (has_id (rir_id req))) (error_epoch_rewards_period_active req h)" for h
    by (auto simp: error_epoch_rewards_period_active_def intro!: asks_ok split: ReadResultBlockHeight.split)
  show ?case
    unfolding p partitions_loop.simps Let_def
    using Cons.IH by (auto intro!: rpc_or_ok rpc_try_Done_ok ir_block_ok rpc_try_ok [OF e] split: option.split sum.split)
qed simp

lemma ir_reward_ok:
  shows "rpc_ok (rir_id req) (or_res_ok (rir_id req) (\<lambda>_. True)) (get_inflation_reward ex state req addresses rewards missed base)"
  unfolding get_inflation_reward_def Let_def
  by (auto intro!: rpc_or_ok rpc_try_Done_ok ir_blocks_ok ir_base_ok ir_partitions_ok split: option.split sum.split)

lemma ir_process_ok:
  shows "rpc_ok (rir_id req) (res_ok True (has_id (rir_id req))) (RpcRequestInflationReward_process ex state req)"
 
  by (auto simp: RpcRequestInflationReward_process_def kind_cases intro!: ask_ok rpc_try_ok [OF ir_reward_ok]
    elim!: or_ok.elims split: ReadResultInflationReward.split)

lemma ir_process_id: "rir_id req = i \<Longrightarrow> rpc_ok i (res_ok True (has_id i)) (RpcRequestInflationReward_process ex state req)"
  using ir_process_ok by blast

lemma ir_handler_ok:
  "rpc_ok (rq_id rq) (res_ok True (has_id (rq_id rq)))
     (handle (RpcRequestInflationReward_parse ex dis rq) (RpcRequestInflationReward_process ex state))"
  unfolding RpcRequestInflationReward_parse_def Let_def
  by (intro handle_ok parsed_ok parse_params_ok)
    (auto simp: min_context_check_def intro!: ir_process_id split: sum.split prod.split option.split)

subsection \<open>getTransactionsForAddress\<close>

definition opt_ok :: "bool \<Rightarrow> request_id \<Rightarrow> 'e response result option \<Rightarrow> bool" where
  "opt_ok pn i r \<longleftrightarrow> (\<forall>x. r = Some x \<longrightarrow> res_ok pn (has_id i) x)"

lemma opt_ok_simps [simp]: "opt_ok pn i None" "opt_ok pn i (Some x) = res_ok pn (has_id i) x"
  by (simp_all add: opt_ok_def)

lemma try_loop_ok:
  assumes "rpc_ok i (res_ok False Q) p" and "\<And>v. Q v \<Longrightarrow> rpc_ok i (opt_ok False i) (f v)"
  shows "rpc_ok i (opt_ok False i) (try_loop p f)"
  unfolding rpc_all_try_loop using assms(1)
  by (rule rpc_all_mono) (use assms(2) in \<open>auto elim!: res_ok.elims\<close>)

lemma ask_batch_ok: "rpc_ok i (res_ok False (\<lambda>_. True)) (ask_batch req cursor lo hi limit)"
  by (auto simp: ask_batch_def kind_cases intro!: ask_ok split: ReadResultTransactionsForAddress.split)

lemma rpc_try_safe:
  assumes "rpc_ok i (res_ok False Q') p" and "\<And>v. Q' v \<Longrightarrow> rpc_ok i (res_ok False Q) (f v)"
  shows "rpc_ok i (res_ok False Q) (rpc_try p f)"
  unfolding rpc_all_try using assms(1)
  by (rule rpc_all_mono) (use assms(2) in \<open>auto elim!: res_ok.elims\<close>)

lemma rpc_or_safe:
  assumes "rpc_ok i (res_ok False (or_ok i (\<lambda>_. True))) p" and "\<And>v. rpc_ok i (res_ok False (or_ok i Q)) (f v)"
  shows "rpc_ok i (res_ok False (or_ok i Q)) (rpc_or p f)"
  unfolding rpc_all_or using assms(1)
  by (rule rpc_all_mono) (use assms(2) in \<open>auto elim!: res_ok.elims or_ok.elims\<close>)

lemma fetch_transaction_ok: "rpc_ok i (res_ok False (\<lambda>_. True)) (fetch_transaction sig)"
  by (auto simp: fetch_transaction_def intro!: asks_ok split: ReadResultTransaction.split)

lemma full_entry_ok:
  "rta_id req = i \<Longrightarrow> rpc_ok i (res_ok False (or_ok i (\<lambda>_. True))) (build_full_entry ex req sig s t idx)"
  unfolding build_full_entry_def
  by (rule rpc_try_safe [OF fetch_transaction_ok]) (auto simp: Let_def split: option.split sum.split decode_error.split)

lemma full_entries_ok:
  "rta_id req = i \<Longrightarrow> rpc_ok i (res_ok False (list_all (or_ok i (\<lambda>_. True)))) (build_full_entries ex req pending)"
proof (induction pending)
  case (Cons x pending)
  then show ?case
    by (cases x) (auto intro!: rpc_try_safe [OF full_entry_ok] rpc_try_safe [where Q' = "list_all (or_ok i (\<lambda>_. True))"])
qed simp

lemma push_full_ok: "list_all (or_ok i (\<lambda>_. True)) results \<Longrightarrow> or_ok i (\<lambda>_. True) (push_full results full)"
  by (induction results full rule: push_full.induct) auto

lemma gtfa_response_ok [simp]: "has_id i (gtfa_response req s full fin) \<longleftrightarrow> rta_id req = i"
  by (simp add: gtfa_response_def Let_def)

lemma gtfa_loop_ok:
  "rta_id req = i \<Longrightarrow> rpc_ok i (opt_ok False i) (gtfa_loop fuel ex state req pf lo hi fin full s)"
proof (induction fuel arbitrary: fin full s)
  case (Suc fuel)
  have batch: "rpc_ok i (opt_ok False i) (try_loop (build_full_entries ex req (gx_pending_full s')) (\<lambda>results.
      case push_full results full of
        Inl response \<Rightarrow> Done (Some (Inr response))
      | Inr full \<Rightarrow> if c then Done (Some (Inr (gtfa_response req s' full fin')))
          else gtfa_loop fuel ex state req pf lo hi fin' full s'))" for s' :: "'a gtfa_scan" and c fin'
  proof (rule try_loop_ok [OF full_entries_ok [OF Suc.prems]])
    fix results :: "('a response + GtfaFullEntry) list"
    assume "list_all (or_ok i (\<lambda>_. True)) results"
    then have "or_ok i (\<lambda>_. True) (push_full results full)" by (rule push_full_ok)
    then show "rpc_ok i (opt_ok False i) (case push_full results full of
        Inl response \<Rightarrow> Done (Some (Inr response))
      | Inr full \<Rightarrow> if c then Done (Some (Inr (gtfa_response req s' full fin')))
          else gtfa_loop fuel ex state req pf lo hi fin' full s')"
      using Suc by (auto split: sum.split)
  qed
  show ?case
    unfolding gtfa_loop.simps Let_def
    using Suc.prems batch by (auto intro!: try_loop_ok [OF ask_batch_ok] split: prod.split)
qed simp

lemma resolve_bound_ok: "rta_id req = i \<Longrightarrow> rpc_ok i (res_ok False (or_ok i (\<lambda>_. True))) (resolve_bound req sig)"
proof -
  assume i: "rta_id req = i"
  have "rpc_ok i (res_ok False (\<lambda>_. True)) (resolve_signature_position req s)" for s
    by (auto simp: resolve_signature_position_def kind_cases intro!: ask_ok split: ReadResultSignaturePosition.split)
  then show ?thesis
    using i by (auto simp: resolve_bound_def empty_response_def split: option.split intro!: rpc_try_safe)
qed

lemma gtfa_process_ok:
  assumes "rta_id req = i"
  shows "rpc_ok i (opt_ok False i) (RpcRequestTransactionsForAddress_process fuel ex state req)"
proof -
  have "rpc_ok i (res_ok False (or_ok i (\<lambda>_. True))) (resolve_filter req)"
    by (auto simp: resolve_filter_def split: option.split intro!: rpc_or_safe resolve_bound_ok assms)
  then show ?thesis
    unfolding RpcRequestTransactionsForAddress_process_def
    by (rule try_loop_ok) (use gtfa_loop_ok [OF assms] in \<open>auto split: sum.split\<close>)
qed

lemma gtfa_handler_ok:
  "rpc_ok (rq_id rq) (opt_ok False (rq_id rq)) (rpc_bind (RpcRequestTransactionsForAddress_parse ex state rq) (\<lambda>r. case r of
     Inr req \<Rightarrow> RpcRequestTransactionsForAddress_process fuel ex state req
   | Inl response \<Rightarrow> Done (Some (Inr response))))"
proof -
  have "rpc_ok (rq_id rq) (or_ok (rq_id rq) (\<lambda>req. rta_id req = rq_id rq)) (RpcRequestTransactionsForAddress_parse ex state rq)"
    unfolding RpcRequestTransactionsForAddress_parse_def
    by (intro parsed_ok parse_params_ok) (auto simp: Let_def intro!: confirmed_context_ok split: sum.split prod.split)
  then show ?thesis
    unfolding rpc_all_bind by (rule rpc_all_mono) (auto elim!: or_ok.elims intro: gtfa_process_ok)
qed

section \<open>All handlers\<close>

definition may_panic :: "ConfigRpcCallJson \<Rightarrow> bool" where
  "may_panic call \<longleftrightarrow> call = GetInflationReward \<or> call = GetSignatureStatuses"

lemma finite_handler_ok:
  "rpc_ok i (res_ok pn (has_id i)) p \<Longrightarrow> rpc_ok i (opt_ok pn i) (finite_handler p)"
  by (simp add: finite_handler_def)

lemma upstream_registered:
  assumes "State_new calls state = Inr st" and "GetClusterNodes \<in> set calls \<or> GetLeaderSchedule \<in> set calls"
  shows "get_upstream state GetClusterNodes \<noteq> None" "get_upstream state GetLeaderSchedule \<noteq> None"
  using assms by (auto simp: State_new_def get_upstream_def find_None_iff in_set_conv_nth)

lemmas handlers_ok = block_handler_ok height_handler_ok blocks_handler_ok blocks_limit_handler_ok time_handler_ok
  first_available_handler_ok health_handler_ok latest_handler_ok fees_handler_ok sfa_handler_ok slot_handler_ok
  transaction_handler_ok version_handler_ok valid_handler_ok

lemma rpc_handle_ok:
  assumes "State_new calls state = Inr st" and "request_call rq \<in> set calls"
  shows "rpc_ok (request_id_of rq) (opt_ok (may_panic (request_call rq)) (request_id_of rq)) (rpc_handle fuel ex state dis rq)"
proof (cases rq)
  case (RqClusterNodes r)
  then show ?thesis
    using upstream_registered(1) [OF assms(1)] assms(2) nodes_handler_ok
    by (auto intro!: finite_handler_ok simp: may_panic_def)
next
  case (RqLeaderSchedule r)
  then show ?thesis
    using upstream_registered(2) [OF assms(1)] assms(2) schedule_handler_ok
    by (auto intro!: finite_handler_ok simp: may_panic_def)
next
  case (RqTransactionsForAddress r)
  then show ?thesis unfolding RqTransactionsForAddress rpc_handle.simps by (simp add: may_panic_def gtfa_handler_ok del: rpc_all_bind)
qed (auto simp: may_panic_def intro!: finite_handler_ok handlers_ok ir_handler_ok statuses_handler_ok)

section \<open>Properties\<close>


text \<open>A configuration and the library functions for concrete runs.\<close>

definition demo_rpc_ext :: "u8 rpc_ext" where
  "demo_rpc_ext = \<lparr>rx_parse_pubkey = (\<lambda>s. Inr (string_bytes s)), rx_parse_signature = (\<lambda>s. Inr (string_bytes s)),
     rx_parse_hash = (\<lambda>s. Inr (string_bytes s)), rx_get_epoch = (\<lambda>s. s div 432000), rx_get_first_slot_in_epoch = (\<lambda>e. e * 432000),
     rx_hasher = (\<lambda>n _ _. 0), rx_decode_block = (\<lambda>_. Inl ProtobufFailed), rx_encode_block = (\<lambda>_ _ _. Inl (CE_UnsupportedTransactionVersion 0)),
     rx_decode_transaction = (\<lambda>_. Inl ProtobufFailed), rx_encode_transaction = (\<lambda>_ _ _ _ _ _. Inr ''tx''),
     rx_json_slots = (\<lambda>_. None), rx_json_block = (\<lambda>_. None), rx_json_signatures = (\<lambda>_. None),
     rx_json_statuses = (\<lambda>_. Some (ParsedSuccess [])), rx_satisfies_commitment = (\<lambda>_ _. True), rx_order = (\<lambda>x. x), rx_version = ''v'',
     rx_MAX_GET_CONFIRMED_BLOCKS_RANGE = 500000, rx_MAX_GET_SIGNATURE_STATUSES_QUERY_ITEMS = 256, rx_MAX_TX_ACCOUNT_LOCKS = 128\<rparr>"

definition demo_state :: State where
  "demo_state = \<lparr>st_gsfa_limit = 1000, st_gtfa_limit_signatures = 1000, st_gtfa_limit_full = 100, st_gss_transaction_history = True,
     st_grpf_percentile = True, st_upstreams = [[GetBlock, GetSignatureStatuses]], st_health_check_slot_distance = 10\<rparr>"

definition demo_block_request :: rpc_request where
  "demo_block_request = RqBlock \<lparr>rq_id = IdNumber 3, rq_has_params = True, rq_parsed = Inr (7, None)\<rparr>"


end
