(* ===== verification/Alp_Rpc_Data.thy ===== *)
theory Alp_Rpc_Data
  imports Alp_Rpc_Laws
begin

text \<open>
  What the handlers of the JSON-RPC interface answer with. A block or a transaction that is served from the local
  storage was still retained after it had been read; the signatures of an address are those of the local
  storage followed by the older ones of an upstream node; the statuses of signatures are merged by
  position. The facts on the runs of a handler that these rest on come first: \<open>runs_ask\<close> and its instances read a
  run that ends with a value backwards.
\<close>

section \<open>Runs that end with a value\<close>

lemma ex_cases:
  "(\<exists>r. R r) \<longleftrightarrow> R ReqChannelClosed \<or> R RxChannelClosed \<or> (\<exists>res. R (Reply res))"
  "(\<exists>r. W r) \<longleftrightarrow> W WorkDone \<or> W WorkersDisconnected \<or> W WorkLost"
  "(\<exists>r. B r) \<longleftrightarrow> B RB_Timeout \<or> B RB_Removed \<or> B RB_Dead \<or> B RB_NotAvailable \<or> (\<exists>b. B (RB_Block b)) \<or> (\<exists>e. B (RB_ReadError e))"
  "(\<exists>r. N r) \<longleftrightarrow> N RN_Timeout \<or> N RN_NotFound \<or> (\<exists>s t b i. N (RN_Transaction s t b i)) \<or> (\<exists>e. N (RN_ReadError e))"
  by (metis reply.exhaust, metis worker_outcome.exhaust, metis ReadResultBlock.exhaust, metis ReadResultTransaction.exhaust)

lemma runs_ask:
  "rpc_runs (ask q k) tr (Inr v) \<longleftrightarrow> (\<exists>res tr'. tr = Asked q (Reply res) # tr' \<and> rpc_runs (k res) tr' (Inr v))"
  by (auto simp: ask_def ex_cases(1))

lemma ex_result:
  assumes "\<And>res. (\<forall>r. res \<noteq> C r) \<Longrightarrow> \<not> P res"
  shows "(\<exists>res. P res) \<longleftrightarrow> (\<exists>r. P (C r))"
  using assms by metis

lemma runs_ask_block:
  "rpc_runs (ask_block s k) tr (Inr v) \<longleftrightarrow> (\<exists>r tr'. tr = Asked (ReqBlock s) (Reply (ResBlock r)) # tr' \<and> rpc_runs (k r) tr' (Inr v))"
  unfolding ask_block_def runs_ask by (subst ex_result [where C = ResBlock]) (simp_all split: ReadResult.split)

lemma runs_ask_transaction:
  "rpc_runs (ask_transaction sig k) tr (Inr v) \<longleftrightarrow>
     (\<exists>r tr'. tr = Asked (ReqTransaction sig) (Reply (ResTransaction r)) # tr' \<and> rpc_runs (k r) tr' (Inr v))"
  unfolding ask_transaction_def runs_ask by (subst ex_result [where C = ResTransaction]) (simp_all split: ReadResult.split)

lemmas runs_asks = runs_ask_block runs_ask_transaction

lemma runs_workers: "rpc_runs (process_with_workers r) tr (Inr v) \<longleftrightarrow> tr = [Worked WorkDone] \<and> r = Inr v"
  by (auto simp: process_with_workers_def ex_cases(2))

lemma runs_try_Inr:
  "rpc_runs (rpc_try p f) tr (Inr v) \<longleftrightarrow> (\<exists>tr1 w tr2. tr = tr1 @ tr2 \<and> rpc_runs p tr1 (Inr w) \<and> rpc_runs (f w) tr2 (Inr v))"
  unfolding rpc_runs_try by auto

lemma runs_or_Inr:
  "rpc_runs (rpc_or p f) tr (Inr x) \<longleftrightarrow> (\<exists>y. rpc_runs p tr (Inr (Inl y)) \<and> x = Inl y) \<or>
     (\<exists>tr1 v tr2. tr = tr1 @ tr2 \<and> rpc_runs p tr1 (Inr (Inr v)) \<and> rpc_runs (f v) tr2 (Inr x))"
  unfolding rpc_or_def runs_try_Inr by (auto split: sum.splits) (metis append_Nil2 sum.exhaust)+

lemma runs_try_step: "rpc_runs p [ev] (Inr w) \<Longrightarrow> rpc_runs (f w) tr r \<Longrightarrow> rpc_runs (rpc_try p f) (ev # tr) r"
  unfolding rpc_runs_try by (metis append_Cons append_Nil)

lemma forward_no_block: "\<not> rpc_runs (forward up i b reason) tr (Inr (RespSuccess i' p))"
  by (auto simp: forward_def split: sum.splits)

lemma parse_reply_iff:
  "parse_reply parse r = Inr (Inr v) \<longleftrightarrow> (\<exists>body. r = Inr body \<and> parse body = Some (ParsedSuccess v))"
  "parse_reply parse r = Inr (Inl x) \<longleftrightarrow> (\<exists>body. r = Inr body \<and> parse body = Some ParsedError \<and> x = RespRaw body)"
  by (cases r; auto simp: parse_reply_def split: option.splits parsed.splits)+

lemma runs_parse_reply:
  "rpc_runs (Call u (\<lambda>r. Done (parse_reply parse r))) tr (Inr (Inr v)) \<longleftrightarrow>
     (\<exists>body. tr = [Called u (Inr body)] \<and> parse body = Some (ParsedSuccess v))"
  "rpc_runs (Call u (\<lambda>r. Done (parse_reply parse r))) tr (Inr (Inl x)) \<longleftrightarrow>
     (\<exists>body. tr = [Called u (Inr body)] \<and> parse body = Some ParsedError \<and> x = RespRaw body)"
  by (auto simp: parse_reply_iff eq_commute [of "Inr _" "parse_reply _ _"])

section \<open>getBlock and getTransaction\<close>

lemma block_fetch_no_block: "\<not> rpc_runs (RpcRequestBlock_fetch_upstream state req reason) tr (Inr (RespSuccess i (PBlock b)))"
  by (auto simp: RpcRequestBlock_fetch_upstream_def up_get_block_def forward_no_block error_skipped_long_term_storage_def split: option.splits)

lemma block_process2_block:
  "RpcRequestBlock_process2 ex buf id' enc opts = Inr (RespSuccess i (PBlock b)) \<longleftrightarrow>
     i = id' \<and> parse_and_encode ex buf id' enc opts = Inr (Inr b)"
  by (cases "parse_and_encode ex buf id' enc opts")
    (auto simp: RpcRequestBlock_process2_def parse_and_encode_def split: sum.splits decode_error.splits)

text \<open>
  C4. A block that getBlock serves from the local storage was read while it was retained: its slot
  is not above the tip of the requested commitment, it was above the first available slot when the read
  was requested and again after the bytes had arrived, and the response encodes exactly those bytes. In every other run the
  answer is an error or the bytes of an upstream node.
\<close>

theorem served_block_still_stored:
  assumes "rpc_runs (RpcRequestBlock_process ex state req) tr (Inr (RespSuccess i (PBlock b)))"
  shows "\<exists>tip fa buf fa'. tr = [Loaded (atomic_of (rb_commitment req)) tip, Loaded AtFirstAvailable fa,
      Asked (ReqBlock (rb_slot req)) (Reply (ResBlock (RB_Block buf))), Loaded AtFirstAvailable fa', Worked WorkDone] \<and>
    rb_slot req \<le> tip \<and> fa < rb_slot req \<and> fa' < rb_slot req \<and>
    parse_and_encode ex buf (rb_id req) (rb_encoding req) (rb_encoding_options req) = Inr (Inr b)"
  using assms
  by (auto simp: RpcRequestBlock_process_def runs_asks ex_cases(3) runs_workers block_fetch_no_block block_process2_block error_not_available_def
      error_skipped_def split: if_splits)

definition demo_ui_block :: UiConfirmedBlock where
  "demo_ui_block = \<lparr>ub_previous_blockhash = ''h'', ub_rewards = None, ub_num_reward_partitions = None, ub_block_height = None, ub_rest = []\<rparr>"

definition demo_confirmed_block :: "u8 ConfirmedBlock" where
  "demo_confirmed_block = \<lparr>cf_previous_blockhash = ''h'', cf_blockhash = ''i'', cf_parent_slot = 6, cf_transactions = [], cf_rewards = [],
     cf_num_partitions = None, cf_block_time = None, cf_block_height = None\<rparr>"

definition demo_transaction :: "u8 TransactionWithStatusMeta" where
  "demo_transaction = \<lparr>tw_signature = [1], tw_complete = None, tw_protobuf = []\<rparr>"

definition demo_rpc_decoder :: "u8 rpc_ext" where
  "demo_rpc_decoder = demo_rpc_ext\<lparr>rx_decode_block := (\<lambda>_. Inr demo_confirmed_block), rx_encode_block := (\<lambda>_ _ _. Inr demo_ui_block),
     rx_decode_transaction := (\<lambda>_. Inr demo_transaction)\<rparr>"

definition demo_get_block :: RpcRequestBlock where
  "demo_get_block = \<lparr>rb_upstream_disabled = False, rb_id = IdNumber 3, rb_slot = 7, rb_commitment = LevelFinalized, rb_encoding = EncJson,
     rb_encoding_options = \<lparr>bo_transaction_details = DetailsFull, bo_show_rewards = True, bo_max_supported_transaction_version = None\<rparr>\<rparr>"

theorem served_block_still_stored_witness:
  "\<exists>tr tip fa buf fa'. rpc_runs (RpcRequestBlock_process demo_rpc_decoder demo_state demo_get_block) tr (Inr (RespSuccess (IdNumber 3) (PBlock demo_ui_block))) \<and>
     tr = [Loaded AtFinalized tip, Loaded AtFirstAvailable fa, Asked (ReqBlock 7) (Reply (ResBlock (RB_Block buf))),
       Loaded AtFirstAvailable fa', Worked WorkDone] \<and> 7 \<le> tip \<and> fa < 7 \<and> fa' < 7"
proof -
  let ?tr = "[Loaded AtFinalized 9, Loaded AtFirstAvailable 2, Asked (ReqBlock 7) (Reply (ResBlock (RB_Block [1]))),
    Loaded AtFirstAvailable 3, Worked WorkDone] :: u8 rpc_event list"
  have run: "rpc_runs (RpcRequestBlock_process demo_rpc_decoder demo_state demo_get_block) ?tr (Inr (RespSuccess (IdNumber 3) (PBlock demo_ui_block)))"
    by (simp add: RpcRequestBlock_process_def demo_get_block_def demo_rpc_decoder_def atomic_of_def runs_asks runs_workers
        RpcRequestBlock_process2_def parse_and_encode_def)
  have "\<exists>tip fa buf fa'. ?tr = [Loaded AtFinalized tip, Loaded AtFirstAvailable fa, Asked (ReqBlock 7) (Reply (ResBlock (RB_Block buf))),
       Loaded AtFirstAvailable fa', Worked WorkDone] \<and> 7 \<le> tip \<and> fa < 7 \<and> fa' < 7"
    using served_block_still_stored [OF run] by (simp add: demo_get_block_def atomic_of_def)
  then show ?thesis using run by blast
qed

lemma transaction_fetch_no_transaction:
  "\<not> rpc_runs (RpcRequestTransaction_fetch_upstream state req reason) tr (Inr (RespSuccess i (PTransaction t)))"
  by (auto simp: RpcRequestTransaction_fetch_upstream_def up_get_transaction_def forward_no_block split: option.splits)

text \<open>
  C26. A transaction that getTransaction serves from the local storage was found by a read thread, in
  a slot that was above the first available slot after the bytes had arrived (the last look before the
  response is encoded); when the commitment is finalized the slot was finalized.
\<close>

theorem served_transaction_still_stored:
  assumes "rpc_runs (RpcRequestTransaction_process ex state req) tr (Inr (RespSuccess i (PTransaction t)))"
  shows "\<exists>slot block_time buf index fa. Asked (ReqTransaction (rt_signature req)) (Reply (ResTransaction (RN_Transaction slot block_time buf index))) \<in> set tr \<and>
    fa < slot \<and> (\<exists>tr'. tr = tr' @ [Loaded AtFirstAvailable fa, Worked WorkDone]) \<and>
    (rt_commitment req = LevelFinalized \<longrightarrow> (\<exists>f \<ge> slot. Loaded AtFinalized f \<in> set tr)) \<and>
    RpcRequestTransaction_process2 ex buf slot block_time index (rt_id req) (rt_encoding req)
      (rt_max_supported_transaction_version req) = Inr (RespSuccess i (PTransaction t))"
proof -
  obtain slot block_time buf index tr' where tr: "tr = Asked (ReqTransaction (rt_signature req)) (Reply (ResTransaction (RN_Transaction slot block_time buf index))) # tr'"
    and r: "rpc_runs (if rt_commitment req = LevelFinalized
              then Load AtFinalized (\<lambda>finalized.
                     if finalized < slot then Done (Inr (RespSuccess (rt_id req) PNull)) else
       Load AtFirstAvailable (\<lambda>first_available.
                 if slot \<le> first_available then RpcRequestTransaction_fetch_upstream state req BELOW_RETENTION
                 else process_with_workers (RpcRequestTransaction_process2 ex buf slot block_time index (rt_id req)
                        (rt_encoding req) (rt_max_supported_transaction_version req))))
              else Load AtFirstAvailable (\<lambda>first_available.
                 if slot \<le> first_available then RpcRequestTransaction_fetch_upstream state req BELOW_RETENTION
                 else process_with_workers (RpcRequestTransaction_process2 ex buf slot block_time index (rt_id req)
                        (rt_encoding req) (rt_max_supported_transaction_version req)))) tr' (Inr (RespSuccess i (PTransaction t)))"
    using assms
    by (auto simp: RpcRequestTransaction_process_def runs_asks ex_cases(4) transaction_fetch_no_transaction Let_def)
  then show ?thesis
    by (fastforce simp: transaction_fetch_no_transaction runs_workers split: if_splits)
qed

definition demo_get_transaction :: RpcRequestTransaction where
  "demo_get_transaction = \<lparr>rt_upstream_disabled = False, rt_id = IdNumber 4, rt_signature = [1], rt_commitment = LevelFinalized, rt_encoding = EncJson,
     rt_max_supported_transaction_version = None, rt_min_context_slot = None\<rparr>"

theorem served_transaction_still_stored_witness:
  "\<exists>tr slot fa f. rpc_runs (RpcRequestTransaction_process demo_rpc_decoder demo_state demo_get_transaction) tr
       (Inr (RespSuccess (IdNumber 4) (PTransaction ''tx''))) \<and> Loaded AtFirstAvailable fa \<in> set tr \<and> fa < slot \<and> slot \<le> f \<and> Loaded AtFinalized f \<in> set tr"
proof -
  let ?tr = "[Asked (ReqTransaction [1]) (Reply (ResTransaction (RN_Transaction 7 None [2] 0))), Loaded AtFinalized 8,
    Loaded AtFirstAvailable 2, Worked WorkDone] :: u8 rpc_event list"
  have run: "rpc_runs (RpcRequestTransaction_process demo_rpc_decoder demo_state demo_get_transaction) ?tr (Inr (RespSuccess (IdNumber 4) (PTransaction ''tx'')))"
    by (simp add: RpcRequestTransaction_process_def demo_get_transaction_def demo_rpc_decoder_def demo_rpc_ext_def runs_asks runs_workers
        RpcRequestTransaction_process2_def)
  have com: "rt_commitment demo_get_transaction = LevelFinalized" by (simp add: demo_get_transaction_def)
  define tr where "tr = ?tr"
  obtain slot fa f tr' where c: "fa < slot" "tr = tr' @ [Loaded AtFirstAvailable fa, Worked WorkDone]" "slot \<le> f" "Loaded AtFinalized f \<in> set tr"
    using served_transaction_still_stored [OF run [folded tr_def]] com by blast
  have "Loaded AtFirstAvailable fa \<in> set tr" using c(2) by simp
  then show ?thesis using c run [folded tr_def] by blast
qed

section \<open>getSignaturesForAddress\<close>

definition sfa_before :: "'e RpcConfirmedTransactionStatusWithSignature list \<Rightarrow> Signature option \<Rightarrow> Signature option" where
  "sfa_before local before = (if local \<noteq> [] then Some (rc_signature (last local)) else before)"

lemma sfa_fetch_runs:
  "rpc_runs (RpcRequestSignaturesForAddress_fetch_upstream ex state req before limit) tr (Inr (Inr sigs)) \<longleftrightarrow>
     (case get_upstream state GetSignaturesForAddress of
        None \<Rightarrow> tr = [] \<and> sigs = []
      | Some up \<Rightarrow> (\<exists>body. tr = [Called (up_get_signatures_for_address up (rsa_id req) (rsa_address req) before (rsa_until req) limit
                  (rsa_commitment req) INCOMPLETE_RESULTS) (Inr body)] \<and> rx_json_signatures ex body = Some (ParsedSuccess sigs)))"
  "rpc_runs (RpcRequestSignaturesForAddress_fetch_upstream ex state req before limit) tr (Inr (Inl x)) \<Longrightarrow> \<exists>b. x = RespRaw b"
  unfolding RpcRequestSignaturesForAddress_fetch_upstream_def
  by (auto simp: runs_parse_reply simp del: rpc_runs_simps(5) split: option.splits)

text \<open>
  C22. getSignaturesForAddress answers with the signatures of the local storage, and only when these do not fill the
  limit, the local storage did not say that it had finished and upstream nodes are allowed, with the
  signatures of one upstream node after them: it is asked for exactly the missing number, before the last
  local signature (or before the signature at which the local storage stopped), with the same address, bound and commitment.
\<close>

theorem signatures_local_then_upstream:
  assumes "rpc_runs (RpcRequestSignaturesForAddress_process ex state req) tr (Inr (RespSuccess i (PSignatures sigs)))"
    and "rsa_limit req < u64_modulus"
    and "\<And>q local fin before. Asked q (Reply (ResSignaturesForAddress (RA_Signatures local fin before))) \<in> set tr \<Longrightarrow> length local \<le> rsa_limit req"
  shows "\<exists>local fin before rest tr'.
    tr = Asked (ReqSignaturesForAddress (rsa_commitment req) (rsa_address req) (rsa_before req) (rsa_until req) (rsa_limit req))
           (Reply (ResSignaturesForAddress (RA_Signatures local fin before))) # tr' \<and> sigs = local @ rest \<and>
    (if fin \<or> rsa_upstream_disabled req \<or> length local = rsa_limit req \<or> get_upstream state GetSignaturesForAddress = None
     then tr' = [] \<and> rest = []
     else \<exists>up body. get_upstream state GetSignaturesForAddress = Some up \<and> rx_json_signatures ex body = Some (ParsedSuccess rest) \<and>
       tr' = [Called (up_get_signatures_for_address up (rsa_id req) (rsa_address req) (sfa_before local before) (rsa_until req)
                (rsa_limit req - length local) (rsa_commitment req) INCOMPLETE_RESULTS) (Inr body)])"
proof -
  let ?q = "ReqSignaturesForAddress (rsa_commitment req) (rsa_address req) (rsa_before req) (rsa_until req) (rsa_limit req)"
  obtain res tr' where tr: "tr = Asked ?q (Reply res) # tr'"
    and k: "rpc_runs (case res of
         ResSignaturesForAddress result \<Rightarrow> (case result of
             RA_Timeout \<Rightarrow> timeout
           | RA_ReadError e \<Rightarrow> read_error e
           | RA_Signatures signatures finished before \<Rightarrow>
               let limit = sub64 (rsa_limit req) (length signatures)
               in if \<not> finished \<and> \<not> rsa_upstream_disabled req \<and> 0 < limit
                  then
                    let before = (if signatures \<noteq> [] then Some (rc_signature (last signatures)) else before)
                    in rpc_try (RpcRequestSignaturesForAddress_fetch_upstream ex state req before limit) (\<lambda>r. Done (Inr (case r of
                         Inr sigs \<Rightarrow> RespSuccess (rsa_id req) (PSignatures (signatures @ sigs))
                       | Inl error \<Rightarrow> error)))
                  else Done (Inr (RespSuccess (rsa_id req) (PSignatures signatures))))
       | _ \<Rightarrow> bad_reply) tr' (Inr (RespSuccess i (PSignatures sigs)))"
    using assms(1) unfolding RpcRequestSignaturesForAddress_process_def runs_ask by blast
  obtain local fin before where res: "res = ResSignaturesForAddress (RA_Signatures local fin before)"
    using k by (cases res) (auto split: ReadResultSignaturesForAddress.splits)
  have l: "length local \<le> rsa_limit req" using assms(3) tr res by auto
  have s: "sub64 (rsa_limit req) (length local) = rsa_limit req - length local" using l assms(2) by simp
  have no_raw: "\<not> rpc_runs (RpcRequestSignaturesForAddress_fetch_upstream ex state req b n) t (Inr (Inl (RespSuccess i (PSignatures sigs))))" for b n t
    using sfa_fetch_runs(2) by blast
  show ?thesis
  proof (cases "\<not> fin \<and> \<not> rsa_upstream_disabled req \<and> length local < rsa_limit req")
    case True
    then have "rpc_runs (rpc_try (RpcRequestSignaturesForAddress_fetch_upstream ex state req (sfa_before local before) (rsa_limit req - length local))
        (\<lambda>r. Done (Inr (case r of Inr sigs \<Rightarrow> RespSuccess (rsa_id req) (PSignatures (local @ sigs)) | Inl error \<Rightarrow> error))))
        tr' (Inr (RespSuccess i (PSignatures sigs)))"
      using k res s by (simp add: Let_def sfa_before_def)
    then obtain r where "rpc_runs (RpcRequestSignaturesForAddress_fetch_upstream ex state req (sfa_before local before) (rsa_limit req - length local))
        tr' (Inr r)" "(case r of Inr sigs \<Rightarrow> RespSuccess (rsa_id req) (PSignatures (local @ sigs)) | Inl error \<Rightarrow> error) = RespSuccess i (PSignatures sigs)"
      unfolding runs_try_Inr by auto
    then obtain rest where rest: "sigs = local @ rest"
      "rpc_runs (RpcRequestSignaturesForAddress_fetch_upstream ex state req (sfa_before local before) (rsa_limit req - length local)) tr' (Inr (Inr rest))"
      using no_raw by (cases r) auto
    show ?thesis using tr res rest True unfolding sfa_fetch_runs(1) by (fastforce split: option.splits)
  next
    case False
    then show ?thesis using k tr res s l by (auto simp: Let_def)
  qed
qed

definition demo_entry :: "nat \<Rightarrow> Slot \<Rightarrow> u8 RpcConfirmedTransactionStatusWithSignature" where
  "demo_entry n slot = \<lparr>rc_signature = [word_of_nat n], rc_slot = slot, rc_err = None, rc_memo = None, rc_block_time = None,
     rc_confirmation_status = None, rc_transaction_index = None\<rparr>"

definition demo_sfa_ext :: "u8 rpc_ext" where
  "demo_sfa_ext = demo_rpc_ext\<lparr>rx_json_signatures := (\<lambda>_. Some (ParsedSuccess [demo_entry 2 6]))\<rparr>"

definition demo_sfa_state :: State where
  "demo_sfa_state = demo_state\<lparr>st_upstreams := [[GetBlock], [GetSignaturesForAddress]]\<rparr>"

definition demo_sfa_request :: RpcRequestSignaturesForAddress where
  "demo_sfa_request = \<lparr>rsa_upstream_disabled = False, rsa_id = IdNull, rsa_commitment = LevelConfirmed, rsa_address = [9], rsa_before = None,
     rsa_until = None, rsa_limit = 10\<rparr>"

theorem signatures_local_then_upstream_witness:
  "\<exists>tr rest up. rpc_runs (RpcRequestSignaturesForAddress_process demo_sfa_ext demo_sfa_state demo_sfa_request) tr
       (Inr (RespSuccess IdNull (PSignatures [demo_entry 1 7, demo_entry 2 6]))) \<and>
     (\<exists>local. [demo_entry 1 7, demo_entry 2 6] = local @ rest) \<and> get_upstream demo_sfa_state GetSignaturesForAddress = Some up"
proof -
  let ?q = "ReqSignaturesForAddress LevelConfirmed [9] None None 10"
  let ?tr = "[Asked ?q (Reply (ResSignaturesForAddress (RA_Signatures [demo_entry 1 7] False None))),
    Called (up_get_signatures_for_address 1 IdNull [9] (Some [1]) None 9 LevelConfirmed INCOMPLETE_RESULTS) (Inr [])] :: u8 rpc_event list"
  have up: "get_upstream demo_sfa_state GetSignaturesForAddress = Some 1"
    by (simp add: get_upstream_def demo_sfa_state_def is_supported_def upt_conv_Cons)
  have run: "rpc_runs (RpcRequestSignaturesForAddress_process demo_sfa_ext demo_sfa_state demo_sfa_request) ?tr
      (Inr (RespSuccess IdNull (PSignatures [demo_entry 1 7, demo_entry 2 6])))"
    by (simp add: RpcRequestSignaturesForAddress_process_def demo_sfa_request_def runs_ask runs_try_Inr Let_def up
        RpcRequestSignaturesForAddress_fetch_upstream_def demo_sfa_ext_def parse_reply_def demo_entry_def)
  have "\<exists>local rest. [demo_entry 1 7, demo_entry 2 6] = local @ rest"
    using signatures_local_then_upstream [OF run] by (auto simp: demo_sfa_request_def)
  then show ?thesis using run up by blast
qed

section \<open>getSignatureStatuses\<close>

lemma fill_statuses_map:
  assumes "length sigs = length sts"
  shows "fill_statuses (pre @ map f (map fst (filter (\<lambda>(s, st). st = None) (zip sigs sts)))) (length pre) sts =
     Inr (map (\<lambda>(s, st). case st of Some x \<Rightarrow> Some x | None \<Rightarrow> f s) (zip sigs sts))"
  using assms
proof (induction sigs sts arbitrary: pre rule: list_induct2)
  case (Cons s sigs st sts)
  show ?case
  proof (cases st)
    case None
    have "fill_statuses ((pre @ [f s]) @ map f (map fst (filter (\<lambda>(s, st). st = None) (zip sigs sts)))) (length (pre @ [f s])) sts =
        Inr (map (\<lambda>(s, st). case st of Some x \<Rightarrow> Some x | None \<Rightarrow> f s) (zip sigs sts))"
      by (rule Cons.IH)
    then show ?thesis using None by (simp add: nth_append)
  next
    case (Some x)
    then show ?thesis using Cons.IH by simp
  qed
qed simp

lemma fill_statuses_short:
  "index \<le> length ups \<Longrightarrow> length ups < index + length (filter (\<lambda>s. s = None) sts) \<Longrightarrow> fill_statuses ups index sts = Inl (Panic ''index out of bounds'')"
proof (induction ups index sts rule: fill_statuses.induct)
  case (3 ups index statuses)
  then show ?case by (cases "index < length ups") auto
qed (auto split: if_splits)

text \<open>What the handler does once the read thread has answered with the statuses \<open>sts\<close>.\<close>

definition searches_upstream :: "State \<Rightarrow> RpcRequestSignatureStatuses \<Rightarrow> bool" where
  "searches_upstream state req \<longleftrightarrow> rss_search_transaction_history req \<and> \<not> rss_upstream_disabled req \<and>
     get_upstream state GetSignatureStatuses \<noteq> None"

definition missing_signatures :: "RpcRequestSignatureStatuses \<Rightarrow> 'e TransactionStatus option list \<Rightarrow> Signature list" where
  "missing_signatures req sts = map fst (filter (\<lambda>(s, st). st = None) (zip (rss_signatures req) sts))"

definition statuses_rest ::
  "'e rpc_ext \<Rightarrow> State \<Rightarrow> RpcRequestSignatureStatuses \<Rightarrow> 'e TransactionStatus option list \<Rightarrow> ('e, 'e response result) rpc" where
  "statuses_rest ex state req sts =
     (if searches_upstream state req \<and> None \<in> set sts
      then rpc_try (RpcRequestSignatureStatuses_fetch_upstream ex state req (missing_signatures req sts)) (\<lambda>r. case r of
          Inl error \<Rightarrow> Done (Inr error)
        | Inr ups \<Rightarrow> rpc_try (Done (fill_statuses ups 0 sts)) (statuses_response req))
      else statuses_response req sts)"

lemma statuses_process_rest:
  "RpcRequestSignatureStatuses_process ex state req =
     ask (ReqSignatureStatuses (rss_signatures req) (rss_search_transaction_history req)) (\<lambda>res. case res of
         ResSignatureStatuses result \<Rightarrow> (case result of
             RU_Timeout \<Rightarrow> timeout
           | RU_ReadError e \<Rightarrow> read_error e
           | RU_Signatures statuses \<Rightarrow> statuses_rest ex state req (hide_statuses ex (rss_commitment req) statuses))
       | _ \<Rightarrow> bad_reply)"
  unfolding RpcRequestSignatureStatuses_process_def statuses_rest_def searches_upstream_def missing_signatures_def Let_def conj_assoc
  by (rule refl)

lemma statuses_runs:
  assumes "rpc_runs (RpcRequestSignatureStatuses_process ex state req) tr (Inr (RespSuccess i (PStatuses slot statuses)))"
  obtains local tr' where
    "tr = Asked (ReqSignatureStatuses (rss_signatures req) (rss_search_transaction_history req)) (Reply (ResSignatureStatuses (RU_Signatures local))) # tr'"
    "rpc_runs (statuses_rest ex state req (hide_statuses ex (rss_commitment req) local)) tr' (Inr (RespSuccess i (PStatuses slot statuses)))"
proof -
  obtain res tr' where tr: "tr = Asked (ReqSignatureStatuses (rss_signatures req) (rss_search_transaction_history req)) (Reply res) # tr'"
    and k: "rpc_runs (case res of
         ResSignatureStatuses result \<Rightarrow> (case result of
             RU_Timeout \<Rightarrow> timeout
           | RU_ReadError e \<Rightarrow> read_error e
           | RU_Signatures statuses \<Rightarrow> statuses_rest ex state req (hide_statuses ex (rss_commitment req) statuses))
       | _ \<Rightarrow> bad_reply) tr' (Inr (RespSuccess i (PStatuses slot statuses)))"
    using assms(1) unfolding statuses_process_rest runs_ask by blast
  obtain local where res: "res = ResSignatureStatuses (RU_Signatures local)"
    using k by (cases res) (auto split: ReadResultSignatureStatuses.splits)
  show ?thesis using that [of local tr'] tr k res by simp
qed

lemma statuses_rest_upstream:
  assumes "rpc_runs (statuses_rest ex state req sts) tr (Inr (RespSuccess i (PStatuses slot statuses)))"
    and "searches_upstream state req" "None \<in> set sts"
  obtains up body ups tr2 where
    "tr = Called (up_get_signature_statuses up (rss_id req) (missing_signatures req sts) (rss_config req) MISSING_STATUS) (Inr body) # tr2"
    "rx_json_statuses ex body = Some (ParsedSuccess ups)"
    "fill_statuses ups 0 sts = Inr statuses" "\<And>q r. Asked q r \<notin> set tr2"
proof -
  from assms(2) obtain up where up: "get_upstream state GetSignatureStatuses = Some up" by (auto simp: searches_upstream_def)
  from assms obtain r tr1 tr2 where r: "tr = tr1 @ tr2"
    "rpc_runs (RpcRequestSignatureStatuses_fetch_upstream ex state req (missing_signatures req sts)) tr1 (Inr r)"
    "rpc_runs (case r of Inl error \<Rightarrow> Done (Inr error) | Inr ups \<Rightarrow> rpc_try (Done (fill_statuses ups 0 sts)) (statuses_response req)) tr2
       (Inr (RespSuccess i (PStatuses slot statuses)))"
    by (auto simp: statuses_rest_def runs_try_Inr)
  obtain body ups where b:
    "tr1 = [Called (up_get_signature_statuses up (rss_id req) (missing_signatures req sts) (rss_config req) MISSING_STATUS) (Inr body)]"
    "r = Inr ups" "rx_json_statuses ex body = Some (ParsedSuccess ups)"
    using r(2,3) up
    by (cases r) (auto simp: RpcRequestSignatureStatuses_fetch_upstream_def runs_parse_reply simp del: rpc_runs_simps(5))
  show ?thesis
    using that [of up body tr2 ups] r b by (auto simp: runs_try_Inr statuses_response_def)
qed

lemma statuses_rest_local:
  assumes "rpc_runs (statuses_rest ex state req sts) tr (Inr (RespSuccess i (PStatuses slot statuses)))"
    and "\<not> (searches_upstream state req \<and> None \<in> set sts)"
  shows "statuses = sts \<and> Asked q r \<notin> set tr"
  using assms by (auto simp: statuses_rest_def statuses_response_def)

lemma statuses_rest_no_ask:
  assumes "rpc_runs (statuses_rest ex state req sts) tr (Inr (RespSuccess i (PStatuses slot statuses)))"
  shows "Asked q r \<notin> set tr"
proof (cases "searches_upstream state req \<and> None \<in> set sts")
  case True
  then show ?thesis using statuses_rest_upstream [OF assms] by (metis rpc_event.distinct(1) set_ConsD rpc_event.simps)
qed (use statuses_rest_local [OF assms] in blast)

lemma no_missing_status:
  assumes "length sigs = length sts" "None \<notin> set sts"
  shows "map (\<lambda>(s, st). case st of Some x \<Rightarrow> Some x | None \<Rightarrow> f s) (zip sigs sts) = sts"
  using assms by (intro nth_equalityI) (auto split: option.split dest: nth_mem)

text \<open>
  C23. getSignatureStatuses answers in the order of the request: a signature with a local status at the
  requested commitment has that status, and any other has the status that the upstream node gives for it, when
  the search of the history was asked for and an upstream node supports it. It is assumed that the
  read thread answers with as many statuses as there are signatures and that the upstream node answers with the status \<open>f\<close>
  of each signature that it is asked for, in order, as \<open>getSignatureStatuses\<close> is documented to do.
\<close>

theorem signature_statuses_merged:
  assumes "rpc_runs (RpcRequestSignatureStatuses_process ex state req) tr (Inr (RespSuccess i (PStatuses slot statuses)))"
    and "Asked (ReqSignatureStatuses (rss_signatures req) (rss_search_transaction_history req)) (Reply (ResSignatureStatuses (RU_Signatures local))) \<in> set tr"
    and "length local = length (rss_signatures req)"
    and "\<And>u body ups sigs cfg. Called u (Inr body) \<in> set tr \<Longrightarrow> uc_body u = UpSignatureStatuses sigs cfg \<Longrightarrow>
      rx_json_statuses ex body = Some (ParsedSuccess ups) \<Longrightarrow> ups = map f sigs"
  shows "statuses = (if rss_search_transaction_history req \<and> \<not> rss_upstream_disabled req \<and> get_upstream state GetSignatureStatuses \<noteq> None
    then map (\<lambda>(s, st). case st of Some x \<Rightarrow> Some x | None \<Rightarrow> f s) (zip (rss_signatures req) (hide_statuses ex (rss_commitment req) local))
    else hide_statuses ex (rss_commitment req) local)"
proof -
  let ?sts = "hide_statuses ex (rss_commitment req) local"
  from statuses_runs [OF assms(1)] obtain local' tr' where tr: "tr = Asked (ReqSignatureStatuses (rss_signatures req)
      (rss_search_transaction_history req)) (Reply (ResSignatureStatuses (RU_Signatures local'))) # tr'"
    and rest': "rpc_runs (statuses_rest ex state req (hide_statuses ex (rss_commitment req) local')) tr' (Inr (RespSuccess i (PStatuses slot statuses)))" .
  have "local' = local" using assms(2) statuses_rest_no_ask [OF rest'] tr by auto
  with rest' have rest: "rpc_runs (statuses_rest ex state req ?sts) tr' (Inr (RespSuccess i (PStatuses slot statuses)))" by simp
  have len: "length (rss_signatures req) = length ?sts" using assms(3) by (simp add: hide_statuses_def)
  show ?thesis
  proof (cases "searches_upstream state req \<and> None \<in> set ?sts")
    case True
    then obtain up body ups tr2 where
      called: "tr' = Called (up_get_signature_statuses up (rss_id req) (missing_signatures req ?sts) (rss_config req) MISSING_STATUS) (Inr body) # tr2"
      and ups: "rx_json_statuses ex body = Some (ParsedSuccess ups)" "fill_statuses ups 0 ?sts = Inr statuses"
      using statuses_rest_upstream [OF rest] by metis
    have "ups = map f (missing_signatures req ?sts)"
      using assms(4) [of "up_get_signature_statuses up (rss_id req) (missing_signatures req ?sts) (rss_config req) MISSING_STATUS" body
          "missing_signatures req ?sts" "rss_config req" ups] called tr ups(1)
      by (simp add: up_get_signature_statuses_def)
    then show ?thesis
      using ups(2) True fill_statuses_map [OF len, of "[]" f] by (simp add: missing_signatures_def searches_upstream_def)
  next
    case False
    then show ?thesis
      using statuses_rest_local [OF rest] no_missing_status [OF len, of f] by (auto simp: searches_upstream_def)
  qed
qed

definition demo_ts :: "Slot \<Rightarrow> u8 TransactionStatus" where
  "demo_ts slot = \<lparr>ts_slot = slot, ts_confirmations = None, ts_status = Inr (), ts_err = None, ts_confirmation_status = None\<rparr>"

definition demo_statuses_ext :: "u8 rpc_ext" where
  "demo_statuses_ext = demo_rpc_ext\<lparr>rx_json_statuses := (\<lambda>_. Some (ParsedSuccess [Some (demo_ts 3)]))\<rparr>"

definition demo_statuses_request :: RpcRequestSignatureStatuses where
  "demo_statuses_request = \<lparr>rss_upstream_disabled = False, rss_id = IdNull, rss_signatures = [[1], [2]], rss_search_transaction_history = True,
     rss_commitment = LevelProcessed, rss_config = RpcSignatureStatusConfig_default\<rparr>"

theorem signature_statuses_merged_witness:
  "\<exists>tr. rpc_runs (RpcRequestSignatureStatuses_process demo_statuses_ext demo_state demo_statuses_request) tr
      (Inr (RespSuccess IdNull (PStatuses 9 [Some (demo_ts 3), Some (demo_ts 7)]))) \<and>
    [Some (demo_ts 3), Some (demo_ts 7)] =
      map (\<lambda>(s, st). case st of Some x \<Rightarrow> Some x | None \<Rightarrow> Some (demo_ts 3))
        (zip (rss_signatures demo_statuses_request) (hide_statuses demo_statuses_ext LevelProcessed [None, Some (demo_ts 7)]))"
proof -
  let ?tr = "[Asked (ReqSignatureStatuses [[1], [2]] True) (Reply (ResSignatureStatuses (RU_Signatures [None, Some (demo_ts 7)]))),
    Called (up_get_signature_statuses 0 IdNull [[1]] RpcSignatureStatusConfig_default MISSING_STATUS) (Inr []),
    Loaded AtProcessed 9] :: u8 rpc_event list"
  have up: "get_upstream demo_state GetSignatureStatuses = Some 0"
    by (simp add: get_upstream_def demo_state_def is_supported_def)
  have run: "rpc_runs (RpcRequestSignatureStatuses_process demo_statuses_ext demo_state demo_statuses_request) ?tr
      (Inr (RespSuccess IdNull (PStatuses 9 [Some (demo_ts 3), Some (demo_ts 7)])))"
    by (simp add: RpcRequestSignatureStatuses_process_def demo_statuses_request_def runs_ask Let_def up hide_statuses_def
        demo_statuses_ext_def demo_rpc_ext_def)
      (rule runs_try_step [where w = "Inr [Some (demo_ts 3)]"], simp_all add: RpcRequestSignatureStatuses_fetch_upstream_def up parse_reply_def
        statuses_response_def atomic_of_def rpc_try_def)
  have st: "[Some (demo_ts 3), Some (demo_ts 7)] = (if rss_search_transaction_history demo_statuses_request \<and> \<not> rss_upstream_disabled demo_statuses_request \<and>
        get_upstream demo_state GetSignatureStatuses \<noteq> None
      then map (\<lambda>(s, st). case st of Some x \<Rightarrow> Some x | None \<Rightarrow> (\<lambda>_. Some (demo_ts 3)) s) (zip (rss_signatures demo_statuses_request)
        (hide_statuses demo_statuses_ext (rss_commitment demo_statuses_request) [None, Some (demo_ts 7)]))
      else hide_statuses demo_statuses_ext (rss_commitment demo_statuses_request) [None, Some (demo_ts 7)])"
  proof (rule signature_statuses_merged [OF run])
    fix u body ups sigs cfg
    assume "Called u (Inr body) \<in> set ?tr" "uc_body u = UpSignatureStatuses sigs cfg" "rx_json_statuses demo_statuses_ext body = Some (ParsedSuccess ups)"
    then show "ups = map (\<lambda>_. Some (demo_ts 3)) sigs" by (simp add: up_get_signature_statuses_def demo_statuses_ext_def) auto
  qed (simp_all add: demo_statuses_request_def)
  have c: "rss_search_transaction_history demo_statuses_request \<and> \<not> rss_upstream_disabled demo_statuses_request \<and>
      get_upstream demo_state GetSignatureStatuses \<noteq> None" and l: "rss_commitment demo_statuses_request = LevelProcessed"
    using up by (simp_all add: demo_statuses_request_def)
  show ?thesis by (intro exI conjI) (rule run, rule st [unfolded if_P [OF c] l])
qed

end
