(* ===== verification/Alp_Rpc_Pages.thy ===== *)
theory Alp_Rpc_Pages
  imports Alp_Rpc_Data
begin

text \<open>
  getTransactionsForAddress: the token of a page leads to the next page, and a client that follows the tokens gets
  every transaction that matches its filters exactly once, in order.
\<close>

section \<open>The cursor\<close>

lemma to_string_parse:
  "to_string n \<noteq> [] \<and> list_all is_digit (to_string n) \<and> foldl (\<lambda>n c. 10 * n + digit_value c) 0 (to_string n) = n"
proof (induction n rule: to_string.induct)
  case (1 n)
  show ?case
  proof (cases "n < 10")
    case True
    then show ?thesis by (subst (1 2 3) to_string.simps) (simp add: is_digit_def digit_value_def)
  next
    case False
    have d: "n mod 10 < 10" by simp
    have "is_digit (char_of (48 + n mod 10))" "digit_value (char_of (48 + n mod 10)) = n mod 10"
      using d by (simp_all add: is_digit_def digit_value_def)
    then show ?thesis using 1 False by (subst (1 2 3) to_string.simps) simp
  qed
qed

lemma parse_u64_to_string:
  assumes "n \<le> u64_MAX"
  shows "parse_u64 (to_string n) = Some n"
proof -
  have plus: "\<not> is_digit (CHR ''+'')" by (simp add: is_digit_def)
  obtain c cs where c: "to_string n = c # cs" "is_digit c" using to_string_parse [of n] by (cases "to_string n") auto
  then have "c \<noteq> CHR ''+''" using plus by blast
  then show ?thesis using to_string_parse [of n] assms c(1) by (simp add: parse_u64_def Let_def)
qed

lemma split_once_append: "c \<notin> set a \<Longrightarrow> split_once c (a @ c # b) = Some (a, b)"
  by (induction a) auto

text \<open>The token of a page decodes to the cursor it was made from.\<close>

lemma gtfa_cursor_roundtrip:
  assumes "cu_slot c \<le> u64_MAX" and "cu_transaction_index c \<le> u64_MAX"
  shows "GtfaCursor_decode (GtfaCursor_encode c) = Inr c"
proof -
  have "\<not> is_digit (CHR '':'')" by (simp add: is_digit_def)
  then have "CHR '':'' \<notin> set (to_string (cu_slot c))" using to_string_parse [of "cu_slot c"] by (auto simp: list_all_iff)
  then show ?thesis
    using assms split_once_append [of "CHR '':''" "to_string (cu_slot c)"]
    by (simp add: GtfaCursor_decode_def GtfaCursor_encode_def parse_u64_to_string)
qed

section \<open>Bounds of a comparison\<close>

text \<open>
  The range of slots or block times that is sent to the storage contains every value that the filter accepts, and,
  when the filter has no \<open>eq\<close>, nothing else: the bounds saturate at the ends of the 64-bit range. With an \<open>eq\<close> the other bounds are
  ignored, and slots are not compared with the filter again.
\<close>

lemma gtfa_bounds_exact:
  assumes "\<And>x. gc_gt c = Some x \<Longrightarrow> x < i64_MAX" and "\<And>x. gc_lt c = Some x \<Longrightarrow> i64_MIN < x"
  shows "(GtfaComparison_matches c v \<longrightarrow>
      is_none_or (\<lambda>b. b \<le> v) (GtfaComparison_lower_bound c) \<and> is_none_or (\<lambda>b. v \<le> b) (GtfaComparison_upper_bound c)) \<and>
    (gc_eq c = None \<longrightarrow> is_none_or (\<lambda>b. b \<le> v) (GtfaComparison_lower_bound c) \<longrightarrow>
      is_none_or (\<lambda>b. v \<le> b) (GtfaComparison_upper_bound c) \<longrightarrow> GtfaComparison_matches c v)"
proof -
  have lo: "is_none_or (\<lambda>b. b \<le> v) (GtfaComparison_lower_bound c) \<longleftrightarrow>
      is_none_or (\<lambda>b. b \<le> v) (gc_gte c) \<and> is_none_or (\<lambda>b. b < v) (gc_gt c)" if "gc_eq c = None"
    using that assms(1) by (auto simp: is_none_or_def GtfaComparison_lower_bound_def split: option.splits)
  have up: "is_none_or (\<lambda>b. v \<le> b) (GtfaComparison_upper_bound c) \<longleftrightarrow>
      is_none_or (\<lambda>b. v \<le> b) (gc_lte c) \<and> is_none_or (\<lambda>b. v < b) (gc_lt c)" if "gc_eq c = None"
    using that assms(2) by (auto simp: is_none_or_def GtfaComparison_upper_bound_def split: option.splits)
  show ?thesis
    using lo up
    by (cases "gc_eq c") (auto simp: GtfaComparison_matches_def is_none_or_def GtfaComparison_lower_bound_def GtfaComparison_upper_bound_def split: option.splits)
qed

lemma gtfa_eq_overrides:
  "gc_eq c = Some e \<Longrightarrow> GtfaComparison_lower_bound c = Some e \<and> GtfaComparison_upper_bound c = Some e"
  by (simp add: GtfaComparison_lower_bound_def GtfaComparison_upper_bound_def split: option.split)

section \<open>What the storage promises\<close>

definition entry_position :: "'e raw_entry \<Rightarrow> position" where
  "entry_position e = (rc_slot (fst (fst e)), snd (fst e))"

text \<open>
  \<open>store c\<close> is what the storage holds for a request after the cursor \<open>c\<close>, in the order of the scan. A cursor is the
  position of an entry, slots have 64 and transaction indexes 32 bits.
\<close>

definition ordered_store :: "(position option \<Rightarrow> 'e raw_entry list) \<Rightarrow> bool" where
  "ordered_store store \<longleftrightarrow>
     (\<forall>c i. i < length (store c) \<longrightarrow> store (Some (entry_position (store c ! i))) = drop (Suc i) (store c)) \<and>
     (\<forall>c. \<forall>e \<in> set (store c). fst (entry_position e) \<le> u64_MAX \<and> snd (entry_position e) < 2 ^ 32)"

text \<open>
  The read threads answer a request with the first entries after its cursor: with all of them if they say that they have
  finished, and with at least one if there is one.
\<close>

definition honest_batches :: "(position option \<Rightarrow> 'e raw_entry list) \<Rightarrow> 'e rpc_event list \<Rightarrow> bool" where
  "honest_batches store tr \<longleftrightarrow> (\<forall>level address desc c lower upper tlower tupper n sigs indices flags finished.
     Asked (ReqTransactionsForAddress level address desc c lower upper tlower tupper n)
       (Reply (ResTransactionsForAddress (RX_Transactions sigs indices flags finished))) \<in> set tr \<longrightarrow>
     length indices = length sigs \<and> length flags = length sigs \<and> length sigs \<le> length (store c) \<and>
     zip (zip sigs indices) flags = take (length sigs) (store c) \<and>
     (finished \<longrightarrow> length sigs = length (store c)) \<and> (sigs = [] \<longrightarrow> store c = []))"

lemma honest_batches_mono: "honest_batches store tr \<Longrightarrow> set tr' \<subseteq> set tr \<Longrightarrow> honest_batches store tr'"
  unfolding honest_batches_def by blast

section \<open>The scan of a batch\<close>

definition cursor_of :: "'e raw_entry \<Rightarrow> GtfaCursor" where
  "cursor_of e = \<lparr>cu_slot = fst (entry_position e), cu_transaction_index = snd (entry_position e)\<rparr>"

definition add_entries :: "RpcRequestTransactionsForAddress \<Rightarrow> 'e raw_entry list \<Rightarrow> 'e gtfa_scan \<Rightarrow> 'e gtfa_scan" where
  "add_entries req es s = foldl (\<lambda>s e. add_entry req (fst (fst e)) (snd (fst e)) s) s es"

lemma add_entries_simps [simp]:
  "add_entries req [] s = s"
  "add_entries req (e # es) s = add_entries req es (add_entry req (fst (fst e)) (snd (fst e)) s)"
  by (simp_all add: add_entries_def)

lemma add_entry_update [simp]:
  "add_entry req raw i (s\<lparr>gx_storage_cursor := c\<rparr>) = (add_entry req raw i s)\<lparr>gx_storage_cursor := c\<rparr>"
  "gx_reached_limit (add_entry req raw i s) = gx_reached_limit s"
  by (auto simp: add_entry_def Let_def split: GtfaTransactionDetails.split)

lemma add_entry_length:
  "length (gx_sig_entries (add_entry req raw i s)) + length (gx_pending_full (add_entry req raw i s)) =
     Suc (length (gx_sig_entries s) + length (gx_pending_full s))"
  by (auto simp: add_entry_def Let_def split: GtfaTransactionDetails.split)

lemma add_entries_update [simp]:
  "add_entries req es (s\<lparr>gx_storage_cursor := c\<rparr>) = (add_entries req es s)\<lparr>gx_storage_cursor := c\<rparr>"
  by (induction es arbitrary: s) simp_all

lemma scan_batch_add:
  fixes s :: "'e gtfa_scan"
  assumes "length (gx_sig_entries s) + full + length (gx_pending_full s) + k = rta_limit req" and "0 < k" and "\<not> gx_reached_limit s"
  shows "scan_batch req pf full batch s =
    (let ms = filter (entry_matches req pf) batch; s' = add_entries req (take k ms) s
     in if k \<le> length ms then s'\<lparr>gx_storage_cursor := Some (entry_position (ms ! (k - 1))), gx_reached_limit := True\<rparr>
        else s'\<lparr>gx_storage_cursor := (if batch = [] then gx_storage_cursor s else Some (entry_position (last batch)))\<rparr>)"
  using assms
proof (induction batch arbitrary: s k)
  case (Cons e batch)
  obtain raw i flags where e: "e = ((raw, i), flags)" by (metis surj_pair)
  let ?s = "s\<lparr>gx_storage_cursor := Some (rc_slot raw, i)\<rparr>"
  show ?case
  proof (cases "entry_matches req pf e")
    case False
    have "scan_batch req pf full (e # batch) s = scan_batch req pf full batch ?s" using False e by simp
    then show ?thesis using Cons.IH [of ?s k] Cons.prems False e by (auto simp: Let_def entry_position_def)
  next
    case True
    let ?t = "add_entry req raw i ?s"
    have len: "length (gx_sig_entries ?t) + full + length (gx_pending_full ?t) =
        Suc (length (gx_sig_entries s) + full + length (gx_pending_full s))"
      using add_entry_length [of req raw i ?s] by simp
    show ?thesis
    proof (cases "k = 1")
      case True
      then have "length (gx_sig_entries ?t) + full + length (gx_pending_full ?t) = rta_limit req" using len Cons.prems by simp
      then show ?thesis using \<open>entry_matches req pf e\<close> \<open>k = 1\<close> e by (simp add: Let_def entry_position_def)
    next
      case False
      then have k: "0 < k - 1" using Cons.prems by simp
      have "length (gx_sig_entries ?t) + full + length (gx_pending_full ?t) + (k - 1) = rta_limit req" using len Cons.prems False by simp
      moreover from this have "length (gx_sig_entries ?t) + full + length (gx_pending_full ?t) \<noteq> rta_limit req" using k by simp
      then have "scan_batch req pf full (e # batch) s = scan_batch req pf full batch ?t" using \<open>entry_matches req pf e\<close> e by simp
      ultimately show ?thesis
        using Cons.IH [of ?t "k - 1"] k Cons.prems(3) \<open>entry_matches req pf e\<close> e
        by (cases k) (auto simp: Let_def entry_position_def nth_Cons' split: if_splits)
    qed
  qed
qed simp

section \<open>What has been collected\<close>

definition sig_entry :: "'e raw_entry \<Rightarrow> 'e GtfaSignatureEntry" where
  "sig_entry e = \<lparr>gs_inner = fst (fst e), gs_transaction_index = Some (snd (fst e))\<rparr>"

definition full_entry_of :: "'e raw_entry \<Rightarrow> GtfaFullEntry \<Rightarrow> bool" where
  "full_entry_of e f \<longleftrightarrow> ge_slot f = fst (entry_position e) \<and> ge_transaction_index f = Some (snd (entry_position e))"

text \<open>A response shows a page: the entries themselves, or a full transaction at the position of each, with a token.\<close>

fun shows_page :: "'e response \<Rightarrow> 'e raw_entry list \<Rightarrow> string option \<Rightarrow> bool" where
  "shows_page (RespSuccess i (PGtfaSignatures sigs token)) es tok \<longleftrightarrow> sigs = map sig_entry es \<and> token = tok"
| "shows_page (RespSuccess i (PGtfaFull full token)) es tok \<longleftrightarrow> list_all2 full_entry_of es full \<and> token = tok"
| "shows_page _ es tok \<longleftrightarrow> False"

definition holds_page :: "RpcRequestTransactionsForAddress \<Rightarrow> 'e raw_entry list \<Rightarrow> 'e GtfaSignatureEntry list \<Rightarrow> GtfaFullEntry list \<Rightarrow> bool" where
  "holds_page req es sigs full = (case rta_transaction_details req of
     GtfaSignatures \<Rightarrow> sigs = map sig_entry es \<and> full = [] | GtfaFull \<Rightarrow> sigs = [] \<and> list_all2 full_entry_of es full)"

lemma holds_page_length: "holds_page req es sigs full \<Longrightarrow> length sigs + length full = length es"
  by (auto simp: holds_page_def list_all2_lengthD split: GtfaTransactionDetails.splits)

lemma add_entries_fields:
  "rta_transaction_details req = GtfaSignatures \<Longrightarrow> gx_sig_entries (add_entries req es s) = gx_sig_entries s @ map sig_entry es"
  "rta_transaction_details req = GtfaSignatures \<Longrightarrow> gx_pending_full (add_entries req es s) = gx_pending_full s"
  "rta_transaction_details req = GtfaFull \<Longrightarrow> gx_sig_entries (add_entries req es s) = gx_sig_entries s"
  "rta_transaction_details req = GtfaFull \<Longrightarrow>
     gx_pending_full (add_entries req es s) = gx_pending_full s @ map (\<lambda>e. (fst (fst e), Some (snd (fst e)))) es"
  "gx_page_cursor (add_entries req es s) = (if es = [] then gx_page_cursor s else Some (cursor_of (last es)))"
  "gx_reached_limit (add_entries req es s) = gx_reached_limit s"
  by (induction es arbitrary: s) (auto simp: add_entry_def Let_def sig_entry_def cursor_of_def entry_position_def split: GtfaTransactionDetails.splits)

lemma rpc_all_True: "rpc_all T (\<lambda>_. True) (\<lambda>_. True) p"
  by (induction p) auto

lemma build_full_entry_runs:
  assumes "rpc_runs (build_full_entry ex req sig slot bt idx) tr (Inr r)"
  shows "(\<exists>f. r = Inr f \<and> ge_slot f = slot \<and> ge_transaction_index f = idx) \<or> (\<exists>i e. r = Inl (RespCustom i e))"
proof -
  let ?Q = "\<lambda>v. \<forall>r. v = Inr r \<longrightarrow> (\<exists>f. r = Inr f \<and> ge_slot f = slot \<and> ge_transaction_index f = idx) \<or> (\<exists>i e. r = Inl (RespCustom i e))"
  have "rpc_all (\<lambda>_ _. True) (\<lambda>_. True) ?Q (build_full_entry ex req sig slot bt idx)"
    unfolding build_full_entry_def rpc_all_try
    by (rule rpc_all_mono [OF rpc_all_True]) (auto simp: Let_def split: sum.split option.split decode_error.split)
  moreover have "answers_within (\<lambda>_ _. True) tr" by (simp add: answers_within_def)
  ultimately have "?Q (Inr r)" using rpc_all_runs [OF assms, of "\<lambda>_ _. True" "\<lambda>_. True" ?Q] by blast
  then show ?thesis by simp
qed

lemma build_full_entries_runs:
  "rpc_runs (build_full_entries ex req pending) tr (Inr results) \<Longrightarrow>
     list_all2 (\<lambda>p r. (\<exists>f. r = Inr f \<and> ge_slot f = rc_slot (fst p) \<and> ge_transaction_index f = snd p) \<or> (\<exists>i e. r = Inl (RespCustom i e))) pending results"
proof (induction ex req pending arbitrary: tr results rule: build_full_entries.induct)
  case (2 ex req raw idx pending)
  then show ?case by (fastforce simp: runs_try_Inr dest: build_full_entry_runs)
qed simp

lemma push_full_Inr: "push_full results full = Inr full' \<Longrightarrow> \<exists>fs. results = map Inr fs \<and> full' = full @ fs"
  by (induction results full rule: push_full.induct) auto

lemma push_full_Inl: "push_full results full = Inl x \<Longrightarrow> Inl x \<in> set results"
  by (induction results full rule: push_full.induct) auto

lemma full_entries_error:
  assumes "rpc_runs (build_full_entries ex req pending) tr (Inr results)" and "push_full results full = Inl x"
  shows "\<exists>i e. x = RespCustom i e"
proof -
  obtain j where j: "j < length results" "results ! j = Inl x" using push_full_Inl [OF assms(2)] by (auto simp: in_set_conv_nth)
  then show ?thesis using list_all2_nthD2 [OF build_full_entries_runs [OF assms(1)] j(1)] by auto
qed

lemma runs_try_loop:
  "rpc_runs (try_loop p f) tr r \<longleftrightarrow> (\<exists>e. rpc_runs p tr (Inl e) \<and> r = Some (Inl e)) \<or>
     (\<exists>tr1 v tr2. tr = tr1 @ tr2 \<and> rpc_runs p tr1 (Inr v) \<and> rpc_runs (f v) tr2 r)"
  unfolding try_loop_def rpc_runs_bind by (auto split: sum.splits) (metis append_Nil2 sum.exhaust)+

lemma ask_batch_runs:
  assumes "rpc_runs (ask_batch req c lower upper n) tr (Inr v)"
  obtains sigs indices flags finished where
    "tr = [Asked (ReqTransactionsForAddress (rta_commitment req) (rta_address req) (rta_desc req) c lower upper
        (rta_block_time_filter_lower req) (rta_block_time_filter_upper req) n) (Reply (ResTransactionsForAddress (RX_Transactions sigs indices flags finished)))]"
    "v = (zip (zip sigs indices) flags, sigs = [], finished)"
proof -
  obtain res tr' where tr: "tr = Asked (ReqTransactionsForAddress (rta_commitment req) (rta_address req) (rta_desc req) c lower upper
        (rta_block_time_filter_lower req) (rta_block_time_filter_upper req) n) (Reply res) # tr'"
    and k: "rpc_runs (case res of
         ResTransactionsForAddress result \<Rightarrow> (case result of
             RX_Timeout \<Rightarrow> timeout
           | RX_Transactions signatures indices flags finished \<Rightarrow> Done (Inr (zip (zip signatures indices) flags, signatures = [], finished))
           | RX_ReadError e \<Rightarrow> read_error e)
       | _ \<Rightarrow> bad_reply) tr' (Inr v)"
    using assms unfolding ask_batch_def runs_ask by blast
  obtain result where res: "res = ResTransactionsForAddress result" using k by (cases res) auto
  show ?thesis using tr k res that by (cases result) auto
qed

text \<open>A batch of honest read threads is a beginning of what is left.\<close>

lemma honest_batch:
  assumes "rpc_runs (ask_batch req c lower upper n) tr (Inr (batch, was_empty, finished))" and "honest_batches store tr"
  obtains m where "batch = take m (store c)" "m \<le> length (store c)" "was_empty \<longleftrightarrow> m = 0" "finished \<longrightarrow> m = length (store c)"
    "m = 0 \<longrightarrow> store c = []"
proof -
  obtain sigs indices flags fin where a: "tr = [Asked (ReqTransactionsForAddress (rta_commitment req) (rta_address req) (rta_desc req) c lower upper
        (rta_block_time_filter_lower req) (rta_block_time_filter_upper req) n) (Reply (ResTransactionsForAddress (RX_Transactions sigs indices flags fin)))]"
    and b: "(batch, was_empty, finished) = (zip (zip sigs indices) flags, sigs = [], fin)"
    using ask_batch_runs [OF assms(1)] .
  have "length sigs \<le> length (store c) \<and> zip (zip sigs indices) flags = take (length sigs) (store c) \<and>
      (finished \<longrightarrow> length sigs = length (store c)) \<and> (sigs = [] \<longrightarrow> store c = [])"
    using assms(2) b unfolding a honest_batches_def by simp
  then show ?thesis using that [of "length sigs"] b by simp
qed

section \<open>The loop\<close>

text \<open>
  What the loop answers when \<open>es\<close> has been collected, \<open>k\<close> entries are missing and \<open>left\<close> is what the storage
  holds after the storage cursor, of which the entries in \<open>ms\<close> match: the next \<open>k\<close> of them are added. Without a token there are no
  others; a token is the cursor of the last entry of the page.
\<close>

definition page_cursor_after :: "'e raw_entry list \<Rightarrow> GtfaCursor option \<Rightarrow> GtfaCursor option" where
  "page_cursor_after es cursor = (if es = [] then cursor else Some (cursor_of (last es)))"

lemma page_cursor_after_append: "page_cursor_after (es @ es') cursor = page_cursor_after es' (page_cursor_after es cursor)"
  by (simp add: page_cursor_after_def)

definition page_result :: "'e raw_entry list \<Rightarrow> nat \<Rightarrow> GtfaCursor option \<Rightarrow> 'e raw_entry list \<Rightarrow> 'e response \<Rightarrow> bool" where
  "page_result es k cursor ms response \<longleftrightarrow> (\<exists>tok. shows_page response (es @ take k ms) tok \<and>
     (tok = None \<longrightarrow> length ms \<le> k) \<and>
     (tok \<noteq> None \<longrightarrow> tok = map_option GtfaCursor_encode (page_cursor_after (take k ms) cursor)))"

lemma gtfa_response_page:
  assumes "holds_page req (es @ take k ms) (gx_sig_entries s) full" and "gx_page_cursor s = page_cursor_after (take k ms) cursor"
    and "\<not> gx_reached_limit s \<Longrightarrow> length ms \<le> k" and "gx_reached_limit s \<Longrightarrow> take k ms \<noteq> []"
  shows "page_result es k cursor ms (gtfa_response req s full finished)"
proof -
  let ?tok = "if finished \<and> \<not> gx_reached_limit s then None else map_option GtfaCursor_encode (gx_page_cursor s)"
  have a: "shows_page (gtfa_response req s full finished) (es @ take k ms) ?tok"
    using assms(1) by (cases "rta_transaction_details req") (simp_all add: gtfa_response_def holds_page_def Let_def)
  have b: "length ms \<le> k" if "?tok = None"
    using that assms(2-4) by (cases "gx_reached_limit s") (simp_all add: page_cursor_after_def)
  have c: "?tok = map_option GtfaCursor_encode (page_cursor_after (take k ms) cursor)" if "?tok \<noteq> None"
    using that assms(2) by auto
  show ?thesis unfolding page_result_def using a b c by (intro exI [of _ ?tok] conjI impI)
qed

lemma page_result_add:
  assumes "page_result (es @ ms) (k - length ms) (page_cursor_after ms cursor) ms' response" and "length ms < k"
  shows "page_result es k cursor (ms @ ms') response"
  using assms unfolding page_result_def by (auto simp: page_cursor_after_append)

text \<open>One round: the entries of a batch that match are added to what is collected.\<close>

lemma round_holds:
  assumes "holds_page req es (gx_sig_entries s) full" and "gx_pending_full s = []"
    and "rpc_runs (build_full_entries ex req (gx_pending_full (add_entries req new s))) tr (Inr results)"
    and "push_full results full = Inr full'"
  shows "holds_page req (es @ new) (gx_sig_entries (add_entries req new s)) full'"
proof (cases "rta_transaction_details req")
  case GtfaSignatures
  then have "results = []" using assms(2,3) by (simp add: add_entries_fields)
  then show ?thesis using assms(1,4) GtfaSignatures by (simp add: holds_page_def add_entries_fields)
next
  case GtfaFull
  obtain fs where fs: "results = map Inr fs" "full' = full @ fs" using push_full_Inr [OF assms(4)] by blast
  have "list_all2 (\<lambda>e f. full_entry_of e f) new fs"
    using build_full_entries_runs [OF assms(3)] fs(1) assms(2) GtfaFull
    by (simp add: add_entries_fields list_all2_map1 list_all2_map2 full_entry_of_def [abs_def] entry_position_def)
  then show ?thesis using assms(1) GtfaFull fs(2) by (simp add: holds_page_def add_entries_fields list_all2_appendI)
qed

text \<open>The scan of a batch that is a beginning of what is left.\<close>

lemma scan_round:
  fixes s :: "'e gtfa_scan"
  assumes "length (gx_sig_entries s) + full + k = rta_limit req" and "0 < k" and "\<not> gx_reached_limit s" and "gx_pending_full s = []"
    and "s' = scan_batch req pf full (take m left) s" and "ms = filter (entry_matches req pf) (take m left)"
  obtains
    (full) "k \<le> length ms" "take k (filter (entry_matches req pf) left) = take k ms" "gx_reached_limit s'"
      "gx_page_cursor s' = page_cursor_after (take k ms) (gx_page_cursor s)"
      "gx_sig_entries s' = gx_sig_entries (add_entries req (take k ms) s)" "gx_pending_full s' = gx_pending_full (add_entries req (take k ms) s)"
  | (part) "length ms < k" "filter (entry_matches req pf) left = ms @ filter (entry_matches req pf) (drop m left)" "\<not> gx_reached_limit s'"
      "gx_page_cursor s' = page_cursor_after ms (gx_page_cursor s)"
      "gx_sig_entries s' = gx_sig_entries (add_entries req ms s)" "gx_pending_full s' = gx_pending_full (add_entries req ms s)"
      "gx_storage_cursor s' = (if take m left = [] then gx_storage_cursor s else Some (entry_position (last (take m left))))"
proof -
  have split: "filter (entry_matches req pf) left = ms @ filter (entry_matches req pf) (drop m left)"
    unfolding assms(6) by (metis append_take_drop_id filter_append)
  have len: "length (gx_sig_entries s) + full + length (gx_pending_full s) + k = rta_limit req" using assms(1,4) by simp
  have scan: "s' = (if k \<le> length ms
      then (add_entries req (take k ms) s)\<lparr>gx_storage_cursor := Some (entry_position (ms ! (k - 1))), gx_reached_limit := True\<rparr>
      else (add_entries req (take k ms) s)\<lparr>gx_storage_cursor := (if take m left = [] then gx_storage_cursor s else Some (entry_position (last (take m left))))\<rparr>)"
    unfolding assms(5,6) using scan_batch_add [OF len assms(2,3), of pf "take m left"] by (simp only: Let_def)
  show ?thesis
  proof (cases "k \<le> length ms")
    case True
    show ?thesis using True scan split by (intro full) (simp_all add: add_entries_fields(5) page_cursor_after_def)
  next
    case False
    then show ?thesis using scan split assms(3) by (intro part) (simp_all add: add_entries_fields(5,6) page_cursor_after_def)
  qed
qed

text \<open>A round of the loop that does not end with an error.\<close>

lemma gtfa_loop_round:
  fixes s :: "'e gtfa_scan"
  assumes "rpc_runs (gtfa_loop (Suc fuel) ex state req pf lower upper sf full s) tr r" and "honest_batches store tr"
    and "sub64 (rta_limit req) (length (gx_sig_entries s) + length full) = k" and "0 < k" and "\<And>e. r \<noteq> Some (Inl e)"
  obtains m was_empty finished tr3 tr4 results s' where
    "m \<le> length (store (gx_storage_cursor s))" "was_empty \<longleftrightarrow> m = 0" "finished \<longrightarrow> m = length (store (gx_storage_cursor s))"
    "m = 0 \<longrightarrow> store (gx_storage_cursor s) = []" "honest_batches store tr4"
    "s' = scan_batch req pf (length full) (take m (store (gx_storage_cursor s))) (s\<lparr>gx_reached_limit := False, gx_pending_full := []\<rparr>)"
    "rpc_runs (build_full_entries ex req (gx_pending_full s')) tr3 (Inr results)"
    "rpc_runs (case push_full results full of
               Inl response \<Rightarrow> Done (Some (Inr response))
             | Inr full \<Rightarrow>
                 if gx_reached_limit s' \<or> finished \<or> was_empty
                 then Done (Some (Inr (gtfa_response req s' full finished)))
                 else gtfa_loop fuel ex state req pf lower upper finished full s') tr4 r"
proof -
  have k: "k \<noteq> 0" using assms(4) by simp
  let ?s = "s\<lparr>gx_reached_limit := False, gx_pending_full := []\<rparr>"
  have run: "rpc_runs (try_loop (ask_batch req (gx_storage_cursor s) lower upper (request_limit state req k)) (\<lambda>(batch, batch_was_empty, finished).
        let s = scan_batch req pf (length full) batch ?s
        in try_loop (build_full_entries ex req (gx_pending_full s)) (\<lambda>results.
             case push_full results full of
               Inl response \<Rightarrow> Done (Some (Inr response))
             | Inr full \<Rightarrow>
                 if gx_reached_limit s \<or> finished \<or> batch_was_empty
                 then Done (Some (Inr (gtfa_response req s full finished)))
                 else gtfa_loop fuel ex state req pf lower upper finished full s))) tr r"
    using assms(1) unfolding gtfa_loop.simps Let_def assms(3) if_not_P [OF k] .
  obtain tr1 tr2 batch was_empty finished where tr: "tr = tr1 @ tr2"
    and ask: "rpc_runs (ask_batch req (gx_storage_cursor s) lower upper (request_limit state req k)) tr1 (Inr (batch, was_empty, finished))"
    and rest: "rpc_runs (let s = scan_batch req pf (length full) batch ?s
        in try_loop (build_full_entries ex req (gx_pending_full s)) (\<lambda>results.
             case push_full results full of
               Inl response \<Rightarrow> Done (Some (Inr response))
             | Inr full \<Rightarrow>
                 if gx_reached_limit s \<or> finished \<or> was_empty
                 then Done (Some (Inr (gtfa_response req s full finished)))
                 else gtfa_loop fuel ex state req pf lower upper finished full s)) tr2 r"
    using run assms(5) unfolding runs_try_loop by auto
  have honest: "honest_batches store tr1" "honest_batches store tr2" using assms(2) tr by (auto intro: honest_batches_mono)
  obtain m where m: "batch = take m (store (gx_storage_cursor s))" "m \<le> length (store (gx_storage_cursor s))" "was_empty \<longleftrightarrow> m = 0"
      "finished \<longrightarrow> m = length (store (gx_storage_cursor s))" "m = 0 \<longrightarrow> store (gx_storage_cursor s) = []"
    using honest_batch [OF ask honest(1)] .
  define s' where "s' = scan_batch req pf (length full) (take m (store (gx_storage_cursor s))) ?s"
  obtain tr3 tr4 results where tr2: "tr2 = tr3 @ tr4" and build: "rpc_runs (build_full_entries ex req (gx_pending_full s')) tr3 (Inr results)"
    and fin: "rpc_runs (case push_full results full of
               Inl response \<Rightarrow> Done (Some (Inr response))
             | Inr full \<Rightarrow>
                 if gx_reached_limit s' \<or> finished \<or> was_empty
                 then Done (Some (Inr (gtfa_response req s' full finished)))
                 else gtfa_loop fuel ex state req pf lower upper finished full s') tr4 r"
    using rest assms(5) unfolding Let_def runs_try_loop m(1) s'_def [symmetric] by auto
  have "honest_batches store tr4" using honest(2) tr2 by (auto intro: honest_batches_mono)
  then show ?thesis using that [OF m(2-5) _ s'_def build fin] by blast
qed

lemma gtfa_loop_page:
  fixes s :: "'e gtfa_scan"
  assumes "ordered_store store" and "rta_limit req < u64_modulus" and "honest_batches store tr"
    and "rpc_runs (gtfa_loop fuel ex state req pf lower upper sf full s) tr r"
    and "length (store (gx_storage_cursor s)) < fuel" and "holds_page req es (gx_sig_entries s) full"
    and "length es + k = rta_limit req" and "0 < k"
  shows "\<exists>res. r = Some res \<and> (\<forall>i p. res = Inr (RespSuccess i p) \<longrightarrow>
    page_result es k (gx_page_cursor s) (filter (entry_matches req pf) (store (gx_storage_cursor s))) (RespSuccess i p))"
  using assms(3-)
proof (induction fuel arbitrary: s es k full sf tr)
  case (Suc fuel)
  let ?M = "filter (entry_matches req pf)"
  let ?R = "store (gx_storage_cursor s)"
  let ?s = "s\<lparr>gx_reached_limit := False, gx_pending_full := []\<rparr>"
  have len: "length (gx_sig_entries s) + length full + k = rta_limit req" using holds_page_length [OF Suc.prems(4)] Suc.prems(5) by simp
  then have rem: "sub64 (rta_limit req) (length (gx_sig_entries s) + length full) = k" using assms(2) by simp
  show ?case
  proof (cases "\<exists>e. r = Some (Inl e)")
    case False
    then have noerr: "\<And>e. r \<noteq> Some (Inl e)" by blast
    obtain m was_empty finished tr3 tr4 results s' where m: "m \<le> length ?R" "was_empty \<longleftrightarrow> m = 0" "finished \<longrightarrow> m = length ?R" "m = 0 \<longrightarrow> ?R = []"
      and honest: "honest_batches store tr4" and s': "s' = scan_batch req pf (length full) (take m ?R) ?s"
      and build: "rpc_runs (build_full_entries ex req (gx_pending_full s')) tr3 (Inr results)"
      and fin: "rpc_runs (case push_full results full of
               Inl response \<Rightarrow> Done (Some (Inr response))
             | Inr full \<Rightarrow>
                 if gx_reached_limit s' \<or> finished \<or> was_empty
                 then Done (Some (Inr (gtfa_response req s' full finished)))
                 else gtfa_loop fuel ex state req pf lower upper finished full s') tr4 r"
      using gtfa_loop_round [OF Suc.prems(2,1) rem Suc.prems(6) noerr] .
    show ?thesis
    proof (cases "push_full results full")
      case (Inl x)
      then show ?thesis using full_entries_error [OF build Inl] fin by auto
    next
      case (Inr full')
      have holds: "holds_page req (es @ new) (gx_sig_entries s') full'" if "gx_sig_entries s' = gx_sig_entries (add_entries req new ?s)"
          "gx_pending_full s' = gx_pending_full (add_entries req new ?s)" for new
        using round_holds [of req es ?s full ex new tr3 results full'] Suc.prems(4) build Inr that by simp
      have sc: "length (gx_sig_entries ?s) + length full + k = rta_limit req" "\<not> gx_reached_limit ?s" "gx_pending_full ?s = []" using len by simp_all
      show ?thesis using sc(1) Suc.prems(6) sc(2,3) s' refl
      proof (cases rule: scan_round)
        case full
        have "page_result es k (gx_page_cursor s) (?M ?R) (gtfa_response req s' full' finished)"
          using holds [OF full(5,6)] full Suc.prems(6) by (intro gtfa_response_page) auto
        then show ?thesis using fin Inr full(3) by auto
      next
        case part
        let ?ms = "?M (take m ?R)"
        note holds = holds [OF part(5,6)]
        show ?thesis
        proof (cases "finished \<or> was_empty")
          case True
          then have "?M ?R = ?ms" using m part(2) by auto
          then have "page_result es k (gx_page_cursor s) (?M ?R) (gtfa_response req s' full' finished)"
            using holds part(1,3,4) by (intro gtfa_response_page) simp_all
          then show ?thesis using fin Inr True by auto
        next
          case False
          then have pos: "0 < m" "take m ?R \<noteq> []" using m by auto
          have "last (take m ?R) = ?R ! (m - 1)" using pos m(1) by (simp add: last_conv_nth)
          then have left: "store (gx_storage_cursor s') = drop m ?R"
            using assms(1) pos m(1) part(7) unfolding ordered_store_def by (metis Suc_pred' diff_less le_simps(3) less_le_trans zero_less_one)
          have "\<exists>res. r = Some res \<and> (\<forall>i p. res = Inr (RespSuccess i p) \<longrightarrow>
              page_result (es @ ?ms) (k - length ?ms) (gx_page_cursor s') (?M (store (gx_storage_cursor s'))) (RespSuccess i p))"
            using fin Inr False part(1,3) left pos(1) m(1) Suc.prems(3,5) by (intro Suc.IH [OF honest _ _ holds]) simp_all
          then show ?thesis using page_result_add [OF _ part(1)] unfolding left part(2,4) by auto
        qed
      qed
    qed
  qed auto
qed simp

section \<open>Positions of signatures\<close>

text \<open>
  \<open>position_of\<close> is where the storage has a signature. The filter with its signatures replaced by their positions; there is none when
  a signature is unknown, and then nothing matches.
\<close>

definition honest_positions :: "(Signature \<Rightarrow> position option) \<Rightarrow> 'e rpc_event list \<Rightarrow> bool" where
  "honest_positions position_of tr \<longleftrightarrow> (\<forall>address sig p.
     Asked (ReqSignaturePosition address sig) (Reply (ResSignaturePosition (RP_Position p))) \<in> set tr \<longrightarrow> p = position_of sig)"

lemma honest_positions_mono: "honest_positions f tr \<Longrightarrow> set tr' \<subseteq> set tr \<Longrightarrow> honest_positions f tr'"
  unfolding honest_positions_def by blast

definition resolved_bound :: "(Signature \<Rightarrow> position option) \<Rightarrow> Signature option \<Rightarrow> position option option" where
  "resolved_bound position_of sig = (case sig of None \<Rightarrow> Some None | Some s \<Rightarrow> map_option Some (position_of s))"

definition resolved_filter :: "(Signature \<Rightarrow> position option) \<Rightarrow> RpcRequestTransactionsForAddress \<Rightarrow> GtfaSignaturePositionFilter option option" where
  "resolved_filter position_of req = (case rta_signature_filter req of
     None \<Rightarrow> Some None
   | Some f \<Rightarrow>
       Option.bind (resolved_bound position_of (gsf_gte f)) (\<lambda>gte.
       Option.bind (resolved_bound position_of (gsf_gt f)) (\<lambda>gt.
       Option.bind (resolved_bound position_of (gsf_lte f)) (\<lambda>lte.
       Option.bind (resolved_bound position_of (gsf_lt f)) (\<lambda>lt.
         Some (Some \<lparr>gpf_gte = gte, gpf_gt = gt, gpf_lte = lte, gpf_lt = lt\<rparr>))))))"

definition gtfa_matches :: "(Signature \<Rightarrow> position option) \<Rightarrow> RpcRequestTransactionsForAddress \<Rightarrow> 'e raw_entry \<Rightarrow> bool" where
  "gtfa_matches position_of req e = (case resolved_filter position_of req of None \<Rightarrow> False | Some pf \<Rightarrow> entry_matches req pf e)"

lemma resolve_position_runs:
  assumes "rpc_runs (resolve_signature_position req sig) tr (Inr p)" and "honest_positions position_of tr"
  shows "p = position_of sig"
proof -
  obtain res tr' where tr: "tr = Asked (ReqSignaturePosition (rta_address req) sig) (Reply res) # tr'"
    and k: "rpc_runs (case res of
         ResSignaturePosition result \<Rightarrow> (case result of
             RP_Position pos \<Rightarrow> Done (Inr pos)
           | RP_Timeout \<Rightarrow> timeout
           | RP_ReadError e \<Rightarrow> read_error e)
       | _ \<Rightarrow> bad_reply) tr' (Inr p)"
    using assms(1) unfolding resolve_signature_position_def runs_ask by blast
  obtain result where "res = ResSignaturePosition result" using k by (cases res) auto
  then show ?thesis using k tr assms(2) by (cases result) (auto simp: honest_positions_def)
qed

lemma resolve_bound_runs:
  assumes "rpc_runs (resolve_bound req sig) tr (Inr x)" and "honest_positions position_of tr"
  shows "x = (case resolved_bound position_of sig of Some p \<Rightarrow> Inr p | None \<Rightarrow> Inl (empty_response req))"
proof (cases sig)
  case None
  then show ?thesis using assms(1) by (simp add: resolve_bound_def resolved_bound_def)
next
  case (Some s)
  then obtain p where "rpc_runs (resolve_signature_position req s) tr (Inr p)" "x = (case p of Some pos \<Rightarrow> Inr (Some pos) | None \<Rightarrow> Inl (empty_response req))"
    using assms(1) by (auto simp: resolve_bound_def runs_try_Inr)
  then show ?thesis using resolve_position_runs [OF _ assms(2)] Some by (auto simp: resolved_bound_def split: option.splits)
qed

lemma resolve_bound_or:
  assumes "rpc_runs (rpc_or (resolve_bound req sig) f) tr (Inr x)" and "honest_positions position_of tr"
  shows "case resolved_bound position_of sig of None \<Rightarrow> x = Inl (empty_response req)
    | Some p \<Rightarrow> (\<exists>tr'. honest_positions position_of tr' \<and> rpc_runs (f p) tr' (Inr x))"
proof -
  have sub: "honest_positions position_of tr1" "honest_positions position_of tr2" if "tr = tr1 @ tr2" for tr1 tr2
    using assms(2) that by (auto intro: honest_positions_mono)
  show ?thesis
    using assms(1) unfolding runs_or_Inr
    by (elim disjE exE conjE) (auto dest!: resolve_bound_runs [OF _ assms(2)] resolve_bound_runs [OF _ sub(1)] dest: sub(2) split: option.splits)
qed

lemma resolve_filter_runs:
  assumes "rpc_runs (resolve_filter req) tr (Inr x)" and "honest_positions position_of tr"
  shows "x = (case resolved_filter position_of req of Some pf \<Rightarrow> Inr pf | None \<Rightarrow> Inl (empty_response req))"
proof (cases "rta_signature_filter req")
  case None
  then show ?thesis using assms(1) by (simp add: resolve_filter_def resolved_filter_def)
next
  case (Some f)
  then show ?thesis
    using assms unfolding resolve_filter_def resolved_filter_def
    by (fastforce dest!: resolve_bound_or split: option.splits)
qed

section \<open>Pages\<close>

definition start_cursor :: "RpcRequestTransactionsForAddress \<Rightarrow> position option" where
  "start_cursor req = map_option (\<lambda>c. (cu_slot c, as_u32 (cu_transaction_index c))) (rta_pagination_token req)"

lemma filter_after_page:
  assumes "take k (filter P xs) \<noteq> []"
  shows "\<exists>j < length xs. xs ! j = last (take k (filter P xs)) \<and> filter P (drop (Suc j) xs) = drop k (filter P xs)"
  using assms
proof (induction xs arbitrary: k)
  case (Cons x xs)
  show ?case
  proof (cases "P x \<and> take (k - 1) (filter P xs) = []")
    case True
    then have "filter P xs = drop (k - 1) (filter P xs)" by (metis append_take_drop_id append_Nil)
    then show ?thesis using True Cons.prems by (intro exI [of _ 0]) (cases k; simp)
  next
    case False
    then obtain j where "j < length xs" "xs ! j = last (take (if P x then k - 1 else k) (filter P xs))"
        "filter P (drop (Suc j) xs) = drop (if P x then k - 1 else k) (filter P xs)"
      using Cons.IH [of "if P x then k - 1 else k"] Cons.prems by (auto split: if_splits)
    then show ?thesis using False Cons.prems by (intro exI [of _ "Suc j"]) (cases k; auto)
  qed
qed simp

lemma process_page:
  assumes "ordered_store store" and "0 < rta_limit req" and "rta_limit req < u64_modulus" and "honest_batches store tr" and "honest_positions position_of tr"
    and "rpc_runs (RpcRequestTransactionsForAddress_process fuel ex state req) tr r" and "length (store (start_cursor req)) < fuel"
  shows "\<exists>res. r = Some res \<and> (\<forall>i p. res = Inr (RespSuccess i p) \<longrightarrow>
    page_result [] (rta_limit req) None (filter (gtfa_matches position_of req) (store (start_cursor req))) (RespSuccess i p))"
proof (cases "\<exists>e. r = Some (Inl e)")
  case False
  then obtain tr1 x tr2 where tr: "tr = tr1 @ tr2" and f: "rpc_runs (resolve_filter req) tr1 (Inr x)"
    and k: "rpc_runs (case x of Inl response \<Rightarrow> Done (Some (Inr response)) | Inr pf \<Rightarrow>
           gtfa_loop fuel ex state req pf
             (combine max (rta_slot_filter_lower req) (Option.bind pf lower_slot))
             (combine min (rta_slot_filter_upper req) (Option.bind pf upper_slot)) False []
             \<lparr>gx_storage_cursor = start_cursor req,
              gx_page_cursor = None, gx_sig_entries = [], gx_pending_full = [], gx_reached_limit = False\<rparr>) tr2 r"
    using assms(6) unfolding RpcRequestTransactionsForAddress_process_def runs_try_loop start_cursor_def by blast
  have honest: "honest_positions position_of tr1" "honest_batches store tr2"
    using assms(4,5) tr by (auto intro: honest_positions_mono honest_batches_mono)
  show ?thesis
  proof (cases "resolved_filter position_of req")
    case None
    then have "r = Some (Inr (empty_response req))" using k resolve_filter_runs [OF f honest(1)] by simp
    then show ?thesis using None by (auto simp: empty_response_def page_result_def gtfa_matches_def)
  next
    case (Some pf)
    then have x: "x = Inr pf" using resolve_filter_runs [OF f honest(1)] by simp
    have m: "gtfa_matches position_of req = entry_matches req pf" using Some by (auto simp: gtfa_matches_def)
    have "holds_page req [] [] []" by (auto simp: holds_page_def split: GtfaTransactionDetails.split)
    then show ?thesis
      using gtfa_loop_page [OF assms(1,3) honest(2) k [unfolded x sum.case], of "[]" "rta_limit req"] assms(2,7)
      unfolding m by simp
  qed
qed auto

lemma next_page:
  assumes "ordered_store store" and "c = cursor_of (last (take k (filter P (store c0))))" and "take k (filter P (store c0)) \<noteq> []"
  shows "GtfaCursor_decode (GtfaCursor_encode c) = Inr c \<and> filter P (store (Some (cu_slot c, as_u32 (cu_transaction_index c)))) = drop k (filter P (store c0))"
proof -
  obtain j where j: "j < length (store c0)" "store c0 ! j = last (take k (filter P (store c0)))" "filter P (drop (Suc j) (store c0)) = drop k (filter P (store c0))"
    using filter_after_page [OF assms(3)] by blast
  let ?e = "store c0 ! j"
  have e: "fst (entry_position ?e) \<le> u64_MAX" "snd (entry_position ?e) < 2 ^ 32" "store (Some (entry_position ?e)) = drop (Suc j) (store c0)"
    using assms(1) j(1) nth_mem [OF j(1)] unfolding ordered_store_def by blast+
  have c: "c = \<lparr>cu_slot = fst (entry_position ?e), cu_transaction_index = snd (entry_position ?e)\<rparr>" using assms(2) j(2) by (simp add: cursor_of_def)
  have "GtfaCursor_decode (GtfaCursor_encode c) = Inr c" using e(1,2) by (intro gtfa_cursor_roundtrip) (simp_all add: c)
  then show ?thesis using e j(3) c by (simp add: as_u32_def)
qed

text \<open>A page with its token: without a token there is nothing left, and a token leads to what is left.\<close>

lemma page_token:
  assumes "ordered_store store" and "page_result [] k None (filter P (store c0)) response"
  shows "\<exists>token. shows_page response (take k (filter P (store c0))) token \<and> (case token of
       None \<Rightarrow> length (filter P (store c0)) \<le> k
     | Some t \<Rightarrow> \<exists>c. GtfaCursor_decode t = Inr c \<and> take k (filter P (store c0)) \<noteq> [] \<and>
         filter P (store (Some (cu_slot c, as_u32 (cu_transaction_index c)))) = drop k (filter P (store c0)))"
proof -
  let ?ms = "filter P (store c0)"
  obtain token where t: "shows_page response (take k ?ms) token" "token = None \<longrightarrow> length ?ms \<le> k"
      "token \<noteq> None \<longrightarrow> token = map_option GtfaCursor_encode (page_cursor_after (take k ?ms) None)"
    using assms(2) unfolding page_result_def by auto
  show ?thesis
  proof (cases token)
    case None
    then show ?thesis using t by auto
  next
    case (Some s)
    then have ne: "take k ?ms \<noteq> []" and s: "s = GtfaCursor_encode (cursor_of (last (take k ?ms)))"
      using t(3) by (auto simp: page_cursor_after_def split: if_splits)
    show ?thesis using next_page [OF assms(1) refl ne] t(1) Some s ne by (intro exI [of _ token] conjI) auto
  qed
qed


section \<open>Following the tokens\<close>

fun page_positions :: "'e payload \<Rightarrow> ((Slot \<times> nat option) list \<times> string option) option" where
  "page_positions (PGtfaSignatures sigs token) = Some (map (\<lambda>e. (rc_slot (gs_inner e), gs_transaction_index e)) sigs, token)"
| "page_positions (PGtfaFull full token) = Some (map (\<lambda>e. (ge_slot e, ge_transaction_index e)) full, token)"
| "page_positions _ = None"

definition shown_position :: "'e raw_entry \<Rightarrow> Slot \<times> nat option" where
  "shown_position e = (fst (entry_position e), Some (snd (entry_position e)))"

lemma shows_page_positions:
  assumes "shows_page (RespSuccess i p) es tok"
  shows "page_positions p = Some (map shown_position es, tok)"
proof (cases p)
  case (PGtfaFull full token)
  then have "list_all2 full_entry_of es full" "token = tok" using assms by auto
  then have "map (\<lambda>e. (ge_slot e, ge_transaction_index e)) full = map shown_position es"
    by (induction rule: list_all2_induct) (auto simp: full_entry_of_def shown_position_def)
  then show ?thesis using PGtfaFull \<open>token = tok\<close> by simp
qed (use assms in \<open>auto simp: sig_entry_def shown_position_def entry_position_def\<close>)

text \<open>A client that asks for a page, and as long as it gets a token for the next one; the positions that it is shown.\<close>

inductive follows_tokens ::
  "(position option \<Rightarrow> 'e raw_entry list) \<Rightarrow> (Signature \<Rightarrow> position option) \<Rightarrow> 'e rpc_ext \<Rightarrow> State \<Rightarrow>
     RpcRequestTransactionsForAddress \<Rightarrow> (Slot \<times> nat option) list \<Rightarrow> bool"
  for store position_of ex state where
  Last: "rpc_runs (RpcRequestTransactionsForAddress_process fuel ex state req) tr (Some (Inr (RespSuccess i p))) \<Longrightarrow>
    length (store (start_cursor req)) < fuel \<Longrightarrow> honest_batches store tr \<Longrightarrow> honest_positions position_of tr \<Longrightarrow>
    page_positions p = Some (ps, None) \<Longrightarrow> follows_tokens store position_of ex state req ps"
| Next: "rpc_runs (RpcRequestTransactionsForAddress_process fuel ex state req) tr (Some (Inr (RespSuccess i p))) \<Longrightarrow>
    length (store (start_cursor req)) < fuel \<Longrightarrow> honest_batches store tr \<Longrightarrow> honest_positions position_of tr \<Longrightarrow>
    page_positions p = Some (ps, Some t) \<Longrightarrow> GtfaCursor_decode t = Inr c \<Longrightarrow>
    follows_tokens store position_of ex state (req\<lparr>rta_pagination_token := Some c\<rparr>) rest \<Longrightarrow>
    follows_tokens store position_of ex state req (ps @ rest)"

lemma one_page:
  assumes "ordered_store store" and "0 < rta_limit req" and "rta_limit req < u64_modulus" and "honest_batches store tr" and "honest_positions position_of tr"
    and "rpc_runs (RpcRequestTransactionsForAddress_process fuel ex state req) tr (Some (Inr (RespSuccess i p)))" and "length (store (start_cursor req)) < fuel"
    and "page_positions p = Some (ps, tok)"
  defines "matching \<equiv> \<lambda>c. filter (gtfa_matches position_of req) (store c)"
  shows "ps = map shown_position (take (rta_limit req) (matching (start_cursor req)))"
    "tok = None \<Longrightarrow> length (matching (start_cursor req)) \<le> rta_limit req"
    "tok = Some t \<Longrightarrow> GtfaCursor_decode t = Inr c \<Longrightarrow> matching (Some (cu_slot c, as_u32 (cu_transaction_index c))) = drop (rta_limit req) (matching (start_cursor req))"
proof -
  obtain token where tok: "shows_page (RespSuccess i p) (take (rta_limit req) (matching (start_cursor req))) token"
      "case token of None \<Rightarrow> length (matching (start_cursor req)) \<le> rta_limit req
       | Some t \<Rightarrow> \<exists>c. GtfaCursor_decode t = Inr c \<and> take (rta_limit req) (matching (start_cursor req)) \<noteq> [] \<and>
         matching (Some (cu_slot c, as_u32 (cu_transaction_index c))) = drop (rta_limit req) (matching (start_cursor req))"
    using process_page [OF assms(1-7)] page_token [OF assms(1)] unfolding matching_def by blast
  have "page_positions p = Some (map shown_position (take (rta_limit req) (matching (start_cursor req))), token)"
    by (rule shows_page_positions [OF tok(1)])
  then have "ps = map shown_position (take (rta_limit req) (matching (start_cursor req)))" "tok = token" using assms(8) by simp_all
  then show "ps = map shown_position (take (rta_limit req) (matching (start_cursor req)))"
    "tok = None \<Longrightarrow> length (matching (start_cursor req)) \<le> rta_limit req"
    "tok = Some t \<Longrightarrow> GtfaCursor_decode t = Inr c \<Longrightarrow> matching (Some (cu_slot c, as_u32 (cu_transaction_index c))) = drop (rta_limit req) (matching (start_cursor req))"
    using tok(2) by auto
qed

lemma matches_token [simp]: "gtfa_matches position_of (req\<lparr>rta_pagination_token := c\<rparr>) = gtfa_matches position_of req"
  by (auto simp: gtfa_matches_def resolved_filter_def entry_matches_def fun_eq_iff split: option.splits)


section \<open>A concrete storage\<close>

definition demo_raw :: "nat \<Rightarrow> Slot \<Rightarrow> u8 raw_entry" where
  "demo_raw n slot = ((demo_entry n slot, n), 0)"

definition demo_entries :: "position option \<Rightarrow> u8 raw_entry list" where
  "demo_entries c = (if c = None then [demo_raw 1 9, demo_raw 2 8] else if c = Some (9, 1) then [demo_raw 2 8] else [])"

definition demo_gtfa :: RpcRequestTransactionsForAddress where
  "demo_gtfa = \<lparr>rta_id = IdNull, rta_address = [9], rta_transaction_details = GtfaSignatures, rta_desc = True, rta_limit = 2,
     rta_pagination_token = None, rta_commitment = LevelConfirmed, rta_encoding = EncJson, rta_max_supported_transaction_version = None,
     rta_filters = None, rta_token_accounts = TokenNone, rta_slot_filter_lower = None, rta_slot_filter_upper = None,
     rta_block_time_filter_lower = None, rta_block_time_filter_upper = None, rta_signature_filter = None\<rparr>"

definition demo_batch :: "position option \<Rightarrow> u8 raw_entry list \<Rightarrow> bool \<Rightarrow> u8 rpc_event" where
  "demo_batch c es finished = Asked (ReqTransactionsForAddress LevelConfirmed [9] True c None None None None 2)
     (Reply (ResTransactionsForAddress (RX_Transactions (map (fst \<circ> fst) es) (map (snd \<circ> fst) es) (map snd es) finished)))"

definition demo_token :: string where
  "demo_token = GtfaCursor_encode \<lparr>cu_slot = 8, cu_transaction_index = 2\<rparr>"

lemma demo_ordered: "ordered_store demo_entries"
  by (auto simp: ordered_store_def demo_entries_def demo_raw_def demo_entry_def entry_position_def nth_Cons' split: if_splits)

lemma demo_honest:
  "honest_batches demo_entries [demo_batch None [demo_raw 1 9, demo_raw 2 8] False]" "honest_positions f [demo_batch None es fin]"
  "honest_batches demo_entries [demo_batch (Some (8, 2)) [] True]" "honest_positions f [demo_batch (Some (8, 2)) es fin]"
  by (simp_all add: honest_batches_def honest_positions_def demo_batch_def demo_entries_def demo_raw_def)

lemmas demo_run_simps = RpcRequestTransactionsForAddress_process_def demo_gtfa_def resolve_filter_def try_loop_def combine_def
  request_limit_def ask_batch_def ask_def demo_batch_def entry_matches_def token_ok_def filters_ok_def is_none_or_def add_entry_def
  gtfa_response_def Let_def demo_raw_def demo_entry_def sig_entry_def demo_token_def as_u32_def

lemma demo_first_page:
  "rpc_runs (RpcRequestTransactionsForAddress_process (Suc (Suc (Suc 0))) demo_rpc_ext demo_state demo_gtfa) [demo_batch None [demo_raw 1 9, demo_raw 2 8] False]
     (Some (Inr (RespSuccess IdNull (PGtfaSignatures [sig_entry (demo_raw 1 9), sig_entry (demo_raw 2 8)] (Some demo_token)))))"
  by (simp add: demo_run_simps)

lemma demo_second_page:
  "rpc_runs (RpcRequestTransactionsForAddress_process (Suc 0) demo_rpc_ext demo_state (demo_gtfa\<lparr>rta_pagination_token := Some \<lparr>cu_slot = 8, cu_transaction_index = 2\<rparr>\<rparr>))
     [demo_batch (Some (8, 2)) [] True] (Some (Inr (RespSuccess IdNull (PGtfaSignatures [] None))))"
  by (simp add: demo_run_simps)

lemma demo_matching:
  "filter (gtfa_matches (\<lambda>_. None) demo_gtfa) (demo_entries (start_cursor demo_gtfa)) = [demo_raw 1 9, demo_raw 2 8]"
  by (simp add: gtfa_matches_def resolved_filter_def start_cursor_def demo_entries_def demo_run_simps)



end
