(* ===== verification/Alp_Rpc_Rewards.thy ===== *)
theory Alp_Rpc_Rewards
  imports Alp_Rpc_Data
begin

text \<open>
  getInflationReward: the rewards that the local cache misses are taken from the blocks of the epoch's reward period, and
  every reward that is added to an answer is in a map that is sent to the database in the same run.
\<close>

section \<open>The rewards of a block\<close>

definition reward_wanted :: "'e rpc_ext \<Rightarrow> (RewardType \<Rightarrow> bool) \<Rightarrow> Pubkey \<Rightarrow> Reward \<Rightarrow> bool" where
  "reward_wanted ex wanted address reward \<longleftrightarrow>
     (\<exists>t. rw_reward_type reward = Some t \<and> wanted t) \<and> rx_parse_pubkey ex (rw_pubkey reward) = Inr address"

lemma filter_rewards_loop_get:
  "filter_rewards_loop ex epoch slot wanted rewards m = Inr m' \<Longrightarrow>
     hm_get m' a = (case filter (reward_wanted ex wanted a) rewards of
       [] \<Rightarrow> hm_get m a | rs \<Rightarrow> Some (inflation_reward_of epoch slot (last rs)))"
proof (induction ex epoch slot wanted rewards m rule: filter_rewards_loop.induct)
  case (2 ex epoch slot wanted reward rewards m)
  show ?case
  proof (cases "case rw_reward_type reward of Some t \<Rightarrow> wanted t | None \<Rightarrow> False")
    case True
    then obtain p where p: "rx_parse_pubkey ex (rw_pubkey reward) = Inr p" using "2.prems" by (auto split: sum.splits)
    then show ?thesis
      using "2.IH"(1) [OF True p] "2.prems" True
      by (auto simp: reward_wanted_def split: option.splits list.splits)
  next
    case False
    then show ?thesis using "2.IH"(2) [OF False] "2.prems" by (auto simp: reward_wanted_def split: option.splits)
  qed
qed simp

text \<open>
  The reference: the reward of an address in a block is the last one listed for it, of a wanted type.
\<close>

definition block_reward :: "'e rpc_ext \<Rightarrow> nat \<Rightarrow> Slot \<Rightarrow> Reward list option \<Rightarrow> (RewardType \<Rightarrow> bool) \<Rightarrow> Pubkey \<Rightarrow> RpcInflationReward option" where
  "block_reward ex epoch slot rewards wanted a = (case filter (reward_wanted ex wanted a) (or_default [] rewards) of
     [] \<Rightarrow> None | rs \<Rightarrow> Some (inflation_reward_of epoch slot (last rs)))"

lemma filter_rewards_get:
  "filter_rewards ex epoch slot rewards wanted = Inr m \<Longrightarrow> hm_get m a = block_reward ex epoch slot rewards wanted a"
  unfolding filter_rewards_def block_reward_def by (drule filter_rewards_loop_get [of _ _ _ _ _ _ _ a]) (simp add: hm_get_def split: list.split)

section \<open>Filling the missed places\<close>

lemma take_rewards_fills:
  "take_rewards m addresses missed rewards = Inr (rewards', rest) \<Longrightarrow>
     length rewards' = length rewards \<and> set rest = {i \<in> set missed. hm_get m (addresses ! i) = None} \<and>
     (\<forall>i < length rewards. rewards' ! i = (if i \<in> set missed \<and> hm_get m (addresses ! i) \<noteq> None then hm_get m (addresses ! i) else rewards ! i))"
proof (induction m addresses missed rewards arbitrary: rewards' rest rule: take_rewards.induct)
  case (2 m addresses index missed rewards)
  then have i: "index < length addresses" by (auto split: if_splits)
  show ?case
  proof (cases "hm_get m (addresses ! index)")
    case None
    then obtain rest' where "take_rewards m addresses missed rewards = Inr (rewards', rest')" "rest = index # rest'"
      using "2.prems" i by auto
    then show ?thesis using "2.IH"(1) [of rewards' rest'] i None by auto
  next
    case (Some r)
    then have l: "index < length rewards" using "2.prems" i by (auto split: if_splits)
    then have t: "take_rewards m addresses missed (rewards[index := Some r]) = Inr (rewards', rest)" using "2.prems" i Some by simp
    show ?thesis using "2.IH"(2) [OF _ Some l t] i l Some by (auto simp: nth_list_update)
  qed
qed auto

text \<open>
  \<open>filled\<close>: between two vectors of rewards only allowed places have changed, and the new reward of a place is the one of
  its address in a map that was sent to the database for the epoch.
\<close>

definition pushed_map :: "nat \<Rightarrow> 'e rpc_event list \<Rightarrow> (Pubkey, RpcInflationReward) hmap \<Rightarrow> bool" where
  "pushed_map epoch tr m \<longleftrightarrow> (\<exists>slot bh ph np. Pushed (InflationRewardBase epoch slot bh ph np m) \<in> set tr) \<or>
     (\<exists>part. Pushed (InflationRewardPartition epoch part m) \<in> set tr)"

definition filled :: "nat \<Rightarrow> Pubkey list \<Rightarrow> 'e rpc_event list \<Rightarrow> nat set \<Rightarrow> rewards \<Rightarrow> rewards \<Rightarrow> bool" where
  "filled epoch addresses tr allowed rewards rewards' \<longleftrightarrow> length rewards' = length rewards \<and>
     (\<forall>i < length rewards. rewards' ! i = rewards ! i \<or>
        (i \<in> allowed \<and> (\<exists>m r. pushed_map epoch tr m \<and> hm_get m (addresses ! i) = Some r \<and> rewards' ! i = Some r)))"

lemma filled_refl [simp]: "filled epoch addresses tr allowed rewards rewards"
  by (simp add: filled_def)

lemma filled_mono:
  "filled epoch addresses tr allowed rewards rewards' \<Longrightarrow> set tr \<subseteq> set tr' \<Longrightarrow> allowed \<subseteq> allowed' \<Longrightarrow>
     filled epoch addresses tr' allowed' rewards rewards'"
  unfolding filled_def pushed_map_def by blast

lemma filled_trans:
  "filled epoch addresses tr allowed a b \<Longrightarrow> filled epoch addresses tr allowed b c \<Longrightarrow> filled epoch addresses tr allowed a c"
  unfolding filled_def by metis

lemma take_rewards_filled:
  assumes "take_rewards m addresses missed rewards = Inr (rewards', rest)" and "pushed_map epoch tr m"
  shows "filled epoch addresses tr (set missed) rewards rewards'"
  using take_rewards_fills [OF assms(1)] assms(2) unfolding filled_def by (auto split: if_splits)

lemma runs_cases:
  "rpc_runs (if b then p else q) tr r \<longleftrightarrow> (b \<and> rpc_runs p tr r) \<or> (\<not> b \<and> rpc_runs q tr r)"
  "rpc_runs (case xs of [] \<Rightarrow> p | x # ys \<Rightarrow> f x ys) tr r \<longleftrightarrow> (xs = [] \<and> rpc_runs p tr r) \<or> (\<exists>x ys. xs = x # ys \<and> rpc_runs (f x ys) tr r)"
  "rpc_runs (case v of Inl a \<Rightarrow> g a | Inr b \<Rightarrow> h b) tr r \<longleftrightarrow> (\<exists>a. v = Inl a \<and> rpc_runs (g a) tr r) \<or> (\<exists>b. v = Inr b \<and> rpc_runs (h b) tr r)"
  "rpc_runs (case w of None \<Rightarrow> p | Some x \<Rightarrow> k x) tr r \<longleftrightarrow> (w = None \<and> rpc_runs p tr r) \<or> (\<exists>x. w = Some x \<and> rpc_runs (k x) tr r)"
  by (auto split: list.split sum.split option.split)

lemma base_filled:
  assumes "rpc_runs (get_inflation_reward_base ex state req addresses rewards missed) tr (Inr (Inr (base, rewards', missed')))"
  shows "filled (rir_epoch req) addresses tr (set missed) rewards rewards' \<and> set missed' \<subseteq> set missed"
proof -
  obtain m slot bh ph np tr' where m: "take_rewards m addresses missed rewards = Inr (rewards', missed')"
      "tr = tr' @ [Pushed (InflationRewardBase (rir_epoch req) slot bh ph np m)]"
    using assms by (auto simp: get_inflation_reward_base_def Let_def runs_or_Inr runs_try_Inr runs_cases eq_commute [of "Inr _" "take_rewards _ _ _ _"] split: prod.splits)
  then show ?thesis
    using take_rewards_filled [OF m(1), of "rir_epoch req" tr] take_rewards_fills [OF m(1)]
    by (auto simp: pushed_map_def)
qed

lemma partitions_filled:
  assumes "rpc_runs (partitions_loop ex state req base n block_list addresses parts rewards) tr (Inr (Inr rewards'))"
  shows "filled (rir_epoch req) addresses tr (\<Union>p \<in> set parts. set (snd p)) rewards rewards'"
  using assms
proof (induction parts arbitrary: rewards tr)
  case (Cons part parts)
  obtain index missed where part: "part = (index, missed)" by (cases part)
  obtain m rewards1 rest tr1 tr2 where m: "take_rewards m addresses missed rewards = Inr (rewards1, rest)"
      "tr = tr1 @ Pushed (InflationRewardPartition (rir_epoch req) index m) # tr2"
      "rpc_runs (partitions_loop ex state req base n block_list addresses parts rewards1) tr2 (Inr (Inr rewards'))"
    using Cons.prems part
    by (auto simp: Let_def runs_or_Inr runs_try_Inr runs_cases eq_commute [of "Inr _" "take_rewards _ _ _ _"] split: prod.splits)
  have "filled (rir_epoch req) addresses tr (\<Union>p \<in> set (part # parts). set (snd p)) rewards rewards1"
  proof (rule filled_mono [OF take_rewards_filled [OF m(1), of "rir_epoch req" tr]])
    show "pushed_map (rir_epoch req) tr m" using m(2) by (auto simp: pushed_map_def)
  qed (use part in auto)
  moreover have "filled (rir_epoch req) addresses tr (\<Union>p \<in> set (part # parts). set (snd p)) rewards1 rewards'"
    by (rule filled_mono [OF Cons.IH [OF m(3)]]) (use m(2) in auto)
  ultimately show ?case by (rule filled_trans)
qed simp

lemma hm_insert_set: "p \<in> set (hm_insert k v m) \<Longrightarrow> p = (k, v) \<or> p \<in> set m"
  by (induction k v m rule: hm_insert.induct) (auto split: if_splits)

definition part_indexes :: "(nat \<times> nat list) list \<Rightarrow> nat set" where
  "part_indexes parts = (\<Union>p \<in> set parts. set (snd p))"

lemma push_entry_indexes: "part_indexes (push_entry part index m) \<subseteq> insert index (part_indexes m)"
proof -
  have "set (or_default [] (hm_get m part)) \<subseteq> part_indexes m"
  proof (cases "hm_get m part")
    case (Some l)
    then have "(part, l) \<in> set m" by (simp add: hm_get_def map_of_SomeD)
    then show ?thesis using Some by (force simp: part_indexes_def)
  qed simp
  then show ?thesis unfolding part_indexes_def push_entry_def by (auto dest!: hm_insert_set simp: part_indexes_def)
qed

lemma partition_addresses_indexes:
  "partition_addresses hasher addresses missed m = Inr parts \<Longrightarrow> part_indexes parts \<subseteq> set missed \<union> part_indexes m"
proof (induction hasher addresses missed m rule: partition_addresses.induct)
  case (2 hasher addresses index missed m)
  then have "part_indexes parts \<subseteq> set missed \<union> part_indexes (push_entry (hasher (addresses ! index)) index m)" by (auto split: if_splits)
  then show ?case using push_entry_indexes [of "hasher (addresses ! index)" index m] by auto
qed simp

lemma inflation_filled:
  assumes "rpc_runs (get_inflation_reward ex state req addresses rewards missed base) tr (Inr (Inr rewards'))"
    and "\<And>parts. set (rx_order ex parts) \<subseteq> set parts"
  shows "filled (rir_epoch req) addresses tr (set missed) rewards rewards'"
proof -
  define partitions where "partitions base rewards missed = (case irb_num_reward_partitions base of
              None \<Rightarrow> Done (Inr (Inr rewards))
            | Some num_partitions \<Rightarrow>
                rpc_or (ir_get_blocks_with_limit ex state req (add64 (irb_slot base) 1) num_partitions) (\<lambda>block_list.
                rpc_try (Done (partition_addresses (rx_hasher ex num_partitions (irb_previous_blockhash base)) addresses missed []))
                  (\<lambda>parts. partitions_loop ex state req base num_partitions block_list addresses (rx_order ex parts) rewards)))"
    for base and rewards :: rewards and missed
  have part: "filled (rir_epoch req) addresses tr' (set missed) rewards rewards'"
    if run: "rpc_runs (partitions base rewards missed) tr' (Inr (Inr rewards'))" for base rewards missed tr'
  proof (cases "irb_num_reward_partitions base")
    case None
    then show ?thesis using run by (simp add: partitions_def)
  next
    case (Some n)
    then obtain block_list parts tr1 tr2 where p: "partition_addresses (rx_hasher ex n (irb_previous_blockhash base)) addresses missed [] = Inr parts"
        "rpc_runs (partitions_loop ex state req base n block_list addresses (rx_order ex parts) rewards) tr2 (Inr (Inr rewards'))" "tr' = tr1 @ tr2"
      using run by (auto simp: partitions_def runs_or_Inr runs_try_Inr eq_commute [of "Inr _" "partition_addresses _ _ _ _"])
    have "(\<Union>q \<in> set (rx_order ex parts). set (snd q)) \<subseteq> set missed"
      using partition_addresses_indexes [OF p(1)] assms(2) [of parts] by (auto simp: part_indexes_def)
    then show ?thesis using filled_mono [OF partitions_filled [OF p(2)]] p(3) by auto
  qed
  show ?thesis
  proof (cases base)
    case (Some b)
    then show ?thesis using assms(1) part unfolding get_inflation_reward_def partitions_def [symmetric] Let_def by simp
  next
    case None
    then obtain b rewards1 missed1 tr1 tr2 where b: "tr = tr1 @ tr2"
        "rpc_runs (get_inflation_reward_base ex state req addresses rewards missed) tr1 (Inr (Inr (b, rewards1, missed1)))"
        "rpc_runs (if missed1 = [] then Done (Inr (Inr rewards1)) else partitions b rewards1 missed1) tr2 (Inr (Inr rewards'))"
      using assms(1) unfolding get_inflation_reward_def partitions_def [symmetric] Let_def by (auto simp: runs_or_Inr)
    have f: "filled (rir_epoch req) addresses tr (set missed) rewards rewards1" "set missed1 \<subseteq> set missed"
      using base_filled [OF b(2)] b(1) by (auto intro: filled_mono)
    have "filled (rir_epoch req) addresses tr2 (set missed1) rewards1 rewards'" using b(3) part by (auto split: if_splits)
    then have "filled (rir_epoch req) addresses tr (set missed) rewards1 rewards'" by (rule filled_mono) (use b(1) f(2) in auto)
    then show ?thesis using f(1) filled_trans by blast
  qed
qed

text \<open>An early response of these steps is an error or the body of an upstream node.\<close>

definition early_error :: "('e response + 'a) result \<Rightarrow> bool" where
  "early_error r \<longleftrightarrow> (\<forall>i p. r \<noteq> Inr (Inl (RespSuccess i p)))"

lemma early_error_simps [simp]:
  "early_error (Inl e)" "early_error (Inr (Inr v))" "early_error (Inr (Inl (RespRaw b)))" "early_error (Inr (Inl (RespCustom i' ce)))"
  by (simp_all add: early_error_def)

abbreviation early :: "('e, ('e response + 'a) result) rpc \<Rightarrow> bool" where
  "early p \<equiv> rpc_all (\<lambda>_ _. True) (\<lambda>_. True) early_error p"

lemma early_runs: "rpc_runs p tr r \<Longrightarrow> early p \<Longrightarrow> early_error r"
  by (drule rpc_all_runs [where T = "\<lambda>_ _. True"]) (auto simp: answers_within_def)

lemma early_or: "early p \<Longrightarrow> (\<And>v. early (f v)) \<Longrightarrow> early (rpc_or p f)"
  unfolding rpc_all_or by (erule rpc_all_mono) (auto simp: early_error_def split: sum.splits)

lemma early_try: "(\<And>v. early (f v)) \<Longrightarrow> early (rpc_try p f)"
  unfolding rpc_all_try by (rule rpc_all_mono [where Q = "\<lambda>_. True"]) (induction p, auto split: sum.splits)

lemma early_calls:
  "early (call_parsed parse up i body reason)"
  by (auto simp: call_parsed_def parse_reply_def early_error_def split: sum.split option.split parsed.split)

lemma early_blocks: "early (ir_get_blocks_with_limit ex state req start limit)"
  using early_calls
  by (auto simp: ir_get_blocks_with_limit_def up_get_blocks_parsed_def ask_blocks_def ask_def split: option.split reply.split ReadResult.split ReadResultBlocks.split)

lemma early_block_upstream: "early (get_block_with_rewards_upstream ex state req slot reason)"
  unfolding get_block_with_rewards_upstream_def
  by (auto simp: up_get_block_rewards_def error_not_available_def error_skipped_long_term_storage_def intro!: early_or early_calls split: option.split)

lemma early_block: "early (get_block_with_rewards ex state req slot)"
  unfolding get_block_with_rewards_def ask_block_def ask_def
  by (auto simp: error_not_available_def error_skipped_def parse_and_encode_def early_block_upstream
      split: reply.split ReadResult.split ReadResultBlock.split sum.split decode_error.split)

lemma early_active: "early (rpc_try (error_epoch_rewards_period_active req h) (\<lambda>response. Done (Inr (Inl response))))"
  unfolding rpc_all_try error_epoch_rewards_period_active_def ask_height_def ask_def
  by (auto split: reply.split ReadResult.split ReadResultBlockHeight.split)

lemma early_partitions: "early (partitions_loop ex state req base n block_list addresses parts rewards)"
proof (induction parts arbitrary: rewards)
  case (Cons part parts)
  obtain index missed where part: "part = (index, missed)" by (cases part)
  show ?case
  proof (cases "index < length block_list")
    case True
    then show ?thesis unfolding part using Cons.IH by (auto simp: Let_def intro!: early_or early_block early_try)
  next
    case False
    then show ?thesis unfolding part by (simp add: early_active split: option.split)
  qed
qed simp

lemma early_inflation: "early (get_inflation_reward ex state req addresses rewards missed base)"
  unfolding get_inflation_reward_def get_inflation_reward_base_def Let_def
  by (auto simp: error_not_available_def intro!: early_or early_blocks early_block early_try early_partitions split: option.split list.split sum.split)

section \<open>Properties\<close>

text \<open>
  C25. getInflationReward changes only what the local storage missed: a successful answer has a place for each
  address of the answer of the read thread, in order; a place that was not missed is as the read thread gave it; and a reward that the handler added is
  the reward of that address in a map that the handler sent to the database in the same run, for the same epoch, so that
  the next request finds it in the cache. The order in which the partitions are fetched, that of a \<open>HashMap\<close>, does not matter.
\<close>

theorem inflation_rewards_cached:
  assumes "rpc_runs (RpcRequestInflationReward_process ex state req) tr (Inr (RespSuccess i (PRewards rewards)))"
    and "\<And>parts. set (rx_order ex parts) \<subseteq> set parts"
  shows "\<exists>addresses scan. Asked (ReqInflationReward (rir_epoch req) (rir_addresses req)) (Reply (ResInflationReward (RI_Reward addresses scan))) \<in> set tr \<and>
    length rewards = length (rs_rewards scan) \<and>
    (\<forall>j < length rewards. rewards ! j = rs_rewards scan ! j \<or>
       (j \<in> set (rs_missed scan) \<and> (\<exists>m r. pushed_map (rir_epoch req) tr m \<and> hm_get m (addresses ! j) = Some r \<and> rewards ! j = Some r)))"
proof -
  obtain res tr' where tr: "tr = Asked (ReqInflationReward (rir_epoch req) (rir_addresses req)) (Reply res) # tr'"
    and k: "rpc_runs (case res of
         ResInflationReward result \<Rightarrow> (case result of
             RI_Timeout \<Rightarrow> timeout
           | RI_ReadError e \<Rightarrow> read_error e
           | RI_Reward addresses scan \<Rightarrow>
               if rs_missed scan = [] then Done (Inr (RespSuccess (rir_id req) (PRewards (rs_rewards scan))))
               else rpc_try (get_inflation_reward ex state req addresses (rs_rewards scan) (rs_missed scan) (rs_base scan))
                      (\<lambda>r. Done (Inr (case r of
                         Inl error \<Rightarrow> error
                       | Inr rewards \<Rightarrow> RespSuccess (rir_id req) (PRewards rewards)))))
       | _ \<Rightarrow> bad_reply) tr' (Inr (RespSuccess i (PRewards rewards)))"
    using assms(1) unfolding RpcRequestInflationReward_process_def runs_ask by blast
  obtain result where res: "res = ResInflationReward result" using k by (cases res) auto
  obtain addresses scan where rs: "result = RI_Reward addresses scan" using k res by (cases result) auto
  have "filled (rir_epoch req) addresses tr (set (rs_missed scan)) (rs_rewards scan) rewards"
  proof (cases "rs_missed scan = []")
    case True
    then show ?thesis using k res rs by simp
  next
    case False
    then obtain w where w: "rpc_runs (get_inflation_reward ex state req addresses (rs_rewards scan) (rs_missed scan) (rs_base scan)) tr' (Inr w)"
        "(case w of Inl error \<Rightarrow> error | Inr rewards \<Rightarrow> RespSuccess (rir_id req) (PRewards rewards)) = RespSuccess i (PRewards rewards)"
      using k res rs by (auto simp: runs_try_Inr)
    then have "w = Inr rewards" using early_runs [OF w(1) early_inflation] by (cases w) (auto simp: early_error_def)
    then have "rpc_runs (get_inflation_reward ex state req addresses (rs_rewards scan) (rs_missed scan) (rs_base scan)) tr' (Inr (Inr rewards))"
      using w(1) by simp
    then show ?thesis by (rule filled_mono [OF inflation_filled [OF _ assms(2)]]) (use tr in auto)
  qed
  then show ?thesis using tr res rs unfolding filled_def by (intro exI [of _ addresses] exI [of _ scan]) auto
qed

definition demo_stake_reward :: Reward where
  "demo_stake_reward = \<lparr>rw_pubkey = ''a'', rw_lamports = 5, rw_post_balance = 9, rw_reward_type = Some Staking, rw_commission = None, rw_commission_bps = None\<rparr>"

definition demo_reward_ext :: "u8 rpc_ext" where
  "demo_reward_ext = demo_rpc_decoder\<lparr>rx_encode_block := (\<lambda>_ _ _. Inr (demo_ui_block\<lparr>ub_rewards := Some [demo_stake_reward]\<rparr>))\<rparr>"

definition demo_reward_request :: RpcRequestInflationReward where
  "demo_reward_request = \<lparr>rir_upstream_disabled = False, rir_id = IdNull, rir_commitment = LevelFinalized, rir_epoch = 4, rir_addresses = [[97], [98]]\<rparr>"

definition demo_scan :: reward_scan where
  "demo_scan = \<lparr>rs_rewards = [None, None], rs_missed = [0], rs_base = Some (InflationRewardBaseValue_new 10 (Some 8) [] (Some 1)), rs_base_fetched = True\<rparr>"

theorem inflation_rewards_cached_witness:
  "\<exists>tr rewards m r. rpc_runs (RpcRequestInflationReward_process demo_reward_ext demo_state demo_reward_request) tr (Inr (RespSuccess IdNull (PRewards rewards))) \<and>
     rewards ! 0 = Some r \<and> pushed_map 4 tr m \<and> hm_get m [97] = Some r"
proof -
  let ?r = "inflation_reward_of 4 11 demo_stake_reward"
  let ?tr = "[Asked (ReqInflationReward 4 [[97], [98]]) (Reply (ResInflationReward (RI_Reward [[97], [98]] demo_scan))),
    Loaded AtFirstAvailable 1, Asked (ReqBlocks 11 (Limit 1) LevelConfirmed) (Reply (ResBlocks (RS_Blocks [11]))),
    Loaded AtFirstAvailable 1, Asked (ReqBlock 11) (Reply (ResBlock (RB_Block [1]))), Loaded AtFirstAvailable 1,
    Pushed (InflationRewardPartition 4 0 [([97], ?r)])] :: u8 rpc_event list"
  have run: "rpc_runs (RpcRequestInflationReward_process demo_reward_ext demo_state demo_reward_request) ?tr (Inr (RespSuccess IdNull (PRewards [Some ?r, None])))"
    by (simp add: RpcRequestInflationReward_process_def demo_reward_request_def demo_reward_ext_def demo_rpc_decoder_def demo_rpc_ext_def demo_scan_def
        ask_def ask_block_def ask_blocks_def rpc_try_def rpc_or_def get_inflation_reward_def ir_get_blocks_with_limit_def get_upstream_def demo_state_def is_supported_def
        InflationRewardBaseValue_new_def Let_def get_block_with_rewards_def parse_and_encode_def filter_rewards_def demo_ui_block_def demo_stake_reward_def
        push_entry_def string_bytes_def add64_def)
  have ord: "set (rx_order demo_reward_ext parts) \<subseteq> set parts" for parts
    by (simp add: demo_reward_ext_def demo_rpc_decoder_def demo_rpc_ext_def)
  obtain addresses scan where s: "Asked (ReqInflationReward (rir_epoch demo_reward_request) (rir_addresses demo_reward_request)) (Reply (ResInflationReward (RI_Reward addresses scan))) \<in> set ?tr"
    and f: "\<forall>j < length [Some ?r, None]. [Some ?r, None] ! j = rs_rewards scan ! j \<or>
       (j \<in> set (rs_missed scan) \<and> (\<exists>m r. pushed_map (rir_epoch demo_reward_request) ?tr m \<and> hm_get m (addresses ! j) = Some r \<and> [Some ?r, None] ! j = Some r))"
    using inflation_rewards_cached [OF run ord] by blast
  have "addresses = [[97], [98]]" "scan = demo_scan" using s by auto
  then obtain m r where "pushed_map 4 ?tr m" "hm_get m [97] = Some r" "[Some ?r, None] ! 0 = Some r"
    using f [rule_format, of 0] by (auto simp: demo_scan_def demo_reward_request_def)
  then show ?thesis using run by blast
qed

end
