(* ===== verification/Alp_Httpget_Laws.thy ===== *)
theory Alp_Httpget_Laws
  imports Alp_Rpc_Data
begin

text \<open>
  The interface over plain HTTP: only the holder of the administrator's token switches the health check,
  and what is served from the local storage was still retained after the read.
\<close>

section \<open>The switch of the health check\<close>

lemma of_char_u8_inj: "(of_char c :: u8) = of_char d \<longleftrightarrow> c = d"
proof -
  have u: "unat (of_char c :: u8) = (of_char c :: nat)" for c :: char
  proof -
    have "(of_char c :: u8) = word_of_nat (of_char c)" by (rule of_nat_of_char [symmetric])
    moreover have "(of_char c :: nat) < 2 ^ LENGTH(8)" using nat_of_char_less_256 [of c] by simp
    ultimately show ?thesis by (simp add: unat_of_nat take_bit_nat_eq_self)
  qed
  show ?thesis using u [of c] u [of d] by (metis of_char_eq_iff)
qed

lemma string_bytes_inj: "string_bytes a = string_bytes b \<longleftrightarrow> a = b"
  unfolding string_bytes_def by (rule inj_map_eq_map) (simp add: inj_def of_char_u8_inj)

lemma strip_prefix_Some: "strip_prefix p s = Some t \<longleftrightarrow> s = p @ t"
  by (auto simp: strip_prefix_def) (metis append_take_drop_id)

text \<open>A handler that never switches it.\<close>

primrec never_stores :: "('e, 'a) rpc \<Rightarrow> bool" where
  "never_stores (Done a) = True"
| "never_stores (Load at k) = (\<forall>v. never_stores (k v))"
| "never_stores (LoadHealthDisabled k) = (\<forall>v. never_stores (k v))"
| "never_stores (Ask q k) = (\<forall>r. never_stores (k r))"
| "never_stores (Call u k) = (\<forall>r. never_stores (k r))"
| "never_stores (CallNodes u k) = (\<forall>r. never_stores (k r))"
| "never_stores (CallSchedule u epoch slot k) = (\<forall>r. never_stores (k r))"
| "never_stores (CallHttp u path k) = (\<forall>r. never_stores (k r))"
| "never_stores (StoreHealthDisabled b p) = False"
| "never_stores (Work k) = (\<forall>r. never_stores (k r))"
| "never_stores (Push w p) = never_stores p"

lemma never_stores_runs: "rpc_runs p tr r \<Longrightarrow> never_stores p \<Longrightarrow> StoredHealthDisabled b \<notin> set tr"
  by (induction rule: rpc_runs.induct) auto

lemma process_never_stores:
  "never_stores (httpget_process_block st dis slot)" "never_stores (httpget_process_transaction sh st dis sig)"
  by (auto simp: httpget_process_block_def httpget_process_transaction_def get_block_upstream_def get_transaction_upstream_def
      ask_block_def ask_transaction_def ask_def split: option.split reply.split ReadResult.split ReadResultBlock.split ReadResultTransaction.split)

lemmas process_no_store = never_stores_runs [OF _ process_never_stores(1)] never_stores_runs [OF _ process_never_stores(2)]

lemma health_runs:
  assumes "rpc_runs (process_admin_health st req) tr r"
  shows "StoredHealthDisabled b \<in> set tr \<longleftrightarrow> hq_is_post req \<and>
      (\<exists>token. hs_admin_token st = Some token \<and> hq_authorization req = Some (''Bearer '' @ token)) \<and>
      hq_body req = Inr (Inr (\<not> b)) \<and> tr = [StoredHealthDisabled b] \<and> (\<exists>x. r = Inr x \<and> hr_status x = 200)"
proof (cases "\<exists>token. hs_admin_token st = Some token \<and> hq_authorization req = Some (''Bearer '' @ token)")
  case True
  then show ?thesis
    using assms
    by (auto simp: process_admin_health_def tokens_match_iff_equal response_200_def response_plain_def strip_prefix_def
        split: if_splits sum.splits)
next
  case False
  then have "\<not> (case Option.bind (hq_authorization req) (strip_prefix ''Bearer '') of
      Some token \<Rightarrow> tokens_match (string_bytes token) (string_bytes admin_token) | None \<Rightarrow> False)" if "hs_admin_token st = Some admin_token" for admin_token
    using that by (auto simp: tokens_match_iff_equal string_bytes_inj bind_eq_Some_conv strip_prefix_Some split: option.splits)
  then show ?thesis
    using assms False by (auto simp: process_admin_health_def split: option.splits if_splits)
qed

lemma health_path: "pre = ''/block/'' \<or> pre = ''/tx/'' \<Longrightarrow> capture pre lo hi ok ''/admin/health'' = None"
  by (auto simp: capture_def strip_prefix_def)

text \<open>
  C24. The health check is switched by exactly the requests that the administrator can send: a POST of
  the path \<open>/admin/health\<close>, when the call is configured, with the header \<open>Bearer\<close> and the configured token,
  and a body that says on or off; the switch is then set to that value and the response has status 200. No
  other request of this interface touches it.
\<close>

theorem health_switched_only_with_token:
  assumes "get_handler ex show_signature response_500 version_body st req = Some p" and "rpc_runs p tr response"
  shows "StoredHealthDisabled b \<in> set tr \<longleftrightarrow>
    HttpSetHealth \<in> set (hs_calls st) \<and> hq_path req = ''/admin/health'' \<and> hq_is_post req \<and>
    (\<exists>token. hs_admin_token st = Some token \<and> hq_authorization req = Some (''Bearer '' @ token)) \<and>
    hq_body req = Inr (Inr (\<not> b)) \<and> tr = [StoredHealthDisabled b] \<and> hr_status response = 200"
proof (cases "hq_path req = ''/admin/health''")
  case True
  then have p: "HttpSetHealth \<in> set (hs_calls st)"
      "p = rpc_bind (process_admin_health st req) (\<lambda>r. Done (case r of Inr response \<Rightarrow> response | Inl e \<Rightarrow> response_500 e))"
    using assms(1) by (auto simp: get_handler_def Let_def block_path_slot_def health_path split: if_splits)
  then obtain r where "rpc_runs (process_admin_health st req) tr r" "response = (case r of Inr response \<Rightarrow> response | Inl e \<Rightarrow> response_500 e)"
    using assms(2) by (auto simp: rpc_runs_bind)
  then show ?thesis using health_runs [of st req tr r b] p(1) True by auto
next
  case False
  then show ?thesis
    using assms by (auto simp: get_handler_def Let_def rpc_runs_bind dest: process_no_store split: option.splits if_splits)
qed

definition demo_http_state :: HttpgetState where
  "demo_http_state = \<lparr>hs_calls = [HttpSetHealth], hs_upstreams = [], hs_upstream_paths = [], hs_admin_token = Some ''secret''\<rparr>"

definition demo_http_request :: http_request where
  "demo_http_request = \<lparr>hq_path = ''/admin/health'', hq_is_post = True, hq_authorization = Some ''Bearer secret'', hq_upstream_disabled = False,
     hq_body = Inr (Inr False)\<rparr>"

theorem health_switched_only_with_token_witness:
  "\<exists>p response. get_handler demo_rpc_ext (\<lambda>_. []) (\<lambda>_. response_404) [] demo_http_state demo_http_request = Some p \<and>
     rpc_runs p [StoredHealthDisabled True] response \<and> hr_status response = 200"
proof -
  let ?p = "rpc_bind (process_admin_health demo_http_state demo_http_request) (\<lambda>r. Done (case r of Inr response \<Rightarrow> response | Inl e \<Rightarrow> response_404))"
  let ?r = "response_200 (enabled_json ''false'')"
  have p: "get_handler demo_rpc_ext (\<lambda>_. []) (\<lambda>_. response_404) [] demo_http_state demo_http_request = Some ?p"
    by (simp add: get_handler_def Let_def demo_http_state_def demo_http_request_def)
  have run: "rpc_runs ?p [StoredHealthDisabled True] ?r"
    by (simp add: process_admin_health_def demo_http_state_def demo_http_request_def strip_prefix_def tokens_match_iff_equal)
  show ?thesis using health_switched_only_with_token [OF p run, of True] p run by auto
qed

end
