(* ===== verification/Alp_Workers.thy ===== *)
theory Alp_Workers
  imports Alp_Rpc_Data
begin

text \<open>
  The pool of threads that decode and encode blocks and transactions (src/src/rpc/workers.rs, with the
  work requests of src/src/rpc/api_jsonrpc.rs). The handlers send work requests over a bounded channel
  that all threads receive from; the answer goes back over a one-shot channel, here its number.

  The pool is a state machine: an event is one step of one thread, so that every interleaving of
  the handlers, the threads and the shutdown is a list of events. A thread that finds the channel empty for
  half a second looks at the shutdown token in a later step, since the channel may be used in between.
\<close>

section \<open>Work requests\<close>

record RpcRequestBlockWorkRequest =
  kb_id :: request_id
  kb_slot :: Slot
  kb_encoding :: UiTransactionEncoding
  kb_encoding_options :: BlockEncodingOptions
  kb_bytes :: bytes
  kb_tx :: "nat option"

record RpcRequestTransactionWorkRequest =
  kt_id :: request_id
  kt_encoding :: UiTransactionEncoding
  kt_max_supported_transaction_version :: "u8 option"
  kt_slot :: Slot
  kt_block_time :: "UnixTimestamp option"
  kt_bytes :: bytes
  kt_index :: nat
  kt_tx :: "nat option"

datatype WorkRequest =
    WorkBlock RpcRequestBlockWorkRequest
  | WorkTransaction RpcRequestTransactionWorkRequest

definition RpcRequestBlockWorkRequest_create :: "nat \<Rightarrow> RpcRequestBlock \<Rightarrow> bytes \<Rightarrow> WorkRequest" where
  "RpcRequestBlockWorkRequest_create channel request buf =
     WorkBlock \<lparr>kb_id = rb_id request, kb_slot = rb_slot request, kb_encoding = rb_encoding request,
       kb_encoding_options = rb_encoding_options request, kb_bytes = buf, kb_tx = Some channel\<rparr>"

definition RpcRequestTransactionWorkRequest_create ::
  "nat \<Rightarrow> RpcRequestTransaction \<Rightarrow> Slot \<Rightarrow> UnixTimestamp option \<Rightarrow> bytes \<Rightarrow> nat \<Rightarrow> WorkRequest" where
  "RpcRequestTransactionWorkRequest_create channel request slot block_time buf index =
     WorkTransaction \<lparr>kt_id = rt_id request, kt_encoding = rt_encoding request,
       kt_max_supported_transaction_version = rt_max_supported_transaction_version request, kt_slot = slot,
       kt_block_time = block_time, kt_bytes = buf, kt_index = index, kt_tx = Some channel\<rparr>"

text \<open>\<open>process\<close>: what is sent, and over which one-shot channel; a closed channel is ignored.\<close>

definition block_work_process ::
  "'e rpc_ext \<Rightarrow> RpcRequestBlockWorkRequest \<Rightarrow> (nat \<times> 'e response result) option" where
  "block_work_process ex r =
     map_option (\<lambda>tx. (tx, RpcRequestBlock_process2 ex (kb_bytes r) (kb_id r) (kb_encoding r) (kb_encoding_options r))) (kb_tx r)"

definition transaction_work_process ::
  "'e rpc_ext \<Rightarrow> RpcRequestTransactionWorkRequest \<Rightarrow> (nat \<times> 'e response result) option" where
  "transaction_work_process ex r =
     map_option (\<lambda>tx. (tx, RpcRequestTransaction_process2 ex (kt_bytes r) (kt_slot r) (kt_block_time r) (kt_index r) (kt_id r)
       (kt_encoding r) (kt_max_supported_transaction_version r))) (kt_tx r)"

definition work_process :: "'e rpc_ext \<Rightarrow> WorkRequest \<Rightarrow> (nat \<times> 'e response result) option" where
  "work_process ex request =
     (case request of
        WorkBlock r \<Rightarrow> block_work_process ex r
      | WorkTransaction r \<Rightarrow> transaction_work_process ex r)"

section \<open>The pool\<close>

datatype worker = WorkerReceiving | WorkerTimedOut | WorkerReturned

record pool =
  po_channel_size :: nat
  po_queue :: "WorkRequest list"
  po_senders :: bool
  po_cancelled :: bool
  po_workers :: "worker list"

record ConfigRpcWorkers =
  cw_threads :: nat
  cw_affinity :: "nat list option"
  cw_channel_size :: nat

text \<open>The processors of the thread with the given index.\<close>

definition thread_cpus :: "nat \<Rightarrow> nat list option \<Rightarrow> nat \<Rightarrow> nat list option" where
  "thread_cpus threads affinity index =
     map_option (\<lambda>affinity. if threads = length affinity then [affinity ! index] else affinity) affinity"

definition workers_start :: "ConfigRpcWorkers \<Rightarrow> (pool \<times> nat list option list) result" where
  "workers_start config =
     (if \<not> 0 < cw_threads config then Inl (Err ''number of threads can't be zero'')
      else Inr (\<lparr>po_channel_size = cw_channel_size config, po_queue = [], po_senders = True, po_cancelled = False,
                 po_workers = replicate (cw_threads config) WorkerReceiving\<rparr>,
                map (thread_cpus (cw_threads config) (cw_affinity config)) [0..<cw_threads config]))"

datatype pool_event =
    TrySend WorkRequest
  | SendToWaiting nat WorkRequest
  | Recv nat
  | CheckShutdown nat
  | Cancel
  | DropSenders

datatype 'e pool_output =
    Accepted WorkRequest
  | SendFull WorkRequest
  | SendDisconnected WorkRequest
  | Handled WorkRequest "(nat \<times> 'e response result) option"
  | Lost WorkRequest

definition receivers_gone :: "pool \<Rightarrow> bool" where
  "receivers_gone po \<longleftrightarrow> list_all (\<lambda>w. w = WorkerReturned) (po_workers po)"

text \<open>
  A thread returns; with the last one the channel loses its receiving side, and what is still in it is lost.
\<close>

definition worker_return :: "nat \<Rightarrow> pool \<Rightarrow> pool \<times> 'e pool_output list" where
  "worker_return i po =
     (let po = po\<lparr>po_workers := (po_workers po)[i := WorkerReturned]\<rparr>
      in if receivers_gone po then (po\<lparr>po_queue := []\<rparr>, map Lost (po_queue po)) else (po, []))"

definition worker_receiving :: "nat \<Rightarrow> pool \<Rightarrow> bool" where
  "worker_receiving i po \<longleftrightarrow> nth_opt (po_workers po) i = Some WorkerReceiving"

text \<open>
  \<open>try_send\<close> of \<open>process_with_workers\<close>, \<open>recv_timeout\<close> of \<open>wrk_loop\<close> and the test of the token
  after a timeout. A channel of size 0 only hands a request to a thread that waits for one.
\<close>

fun pool_step :: "'e rpc_ext \<Rightarrow> pool_event \<Rightarrow> pool \<Rightarrow> pool \<times> 'e pool_output list" where
  "pool_step ex (TrySend request) po =
     (if \<not> po_senders po then (po, [])
      else if receivers_gone po then (po, [SendDisconnected request])
      else if length (po_queue po) < po_channel_size po then (po\<lparr>po_queue := po_queue po @ [request]\<rparr>, [Accepted request])
      else (po, [SendFull request]))"
| "pool_step ex (SendToWaiting i request) po =
     (if po_senders po \<and> po_channel_size po = 0 \<and> worker_receiving i po
      then (po, [Accepted request, Handled request (work_process ex request)])
      else (po, []))"
| "pool_step ex (Recv i) po =
     (if \<not> worker_receiving i po then (po, [])
      else
        case po_queue po of
          request # queue \<Rightarrow> (po\<lparr>po_queue := queue\<rparr>, [Handled request (work_process ex request)])
        | [] \<Rightarrow>
            if po_senders po then (po\<lparr>po_workers := (po_workers po)[i := WorkerTimedOut]\<rparr>, [])
            else worker_return i po)"
| "pool_step ex (CheckShutdown i) po =
     (if nth_opt (po_workers po) i \<noteq> Some WorkerTimedOut then (po, [])
      else if po_cancelled po then worker_return i po
      else (po\<lparr>po_workers := (po_workers po)[i := WorkerReceiving]\<rparr>, []))"
| "pool_step ex Cancel po = (po\<lparr>po_cancelled := True\<rparr>, [])"
| "pool_step ex DropSenders po = (po\<lparr>po_senders := False\<rparr>, [])"

fun pool_run :: "'e rpc_ext \<Rightarrow> pool_event list \<Rightarrow> pool \<Rightarrow> pool \<times> 'e pool_output list" where
  "pool_run ex [] po = (po, [])"
| "pool_run ex (e # es) po =
     (let (po, out) = pool_step ex e po; (po, outs) = pool_run ex es po in (po, out @ outs))"

text \<open>What \<open>process_with_workers\<close> gives for a request, by what the pool did with it.\<close>

fun work_outcome :: "'e pool_output \<Rightarrow> worker_outcome option" where
  "work_outcome (Handled r answer) = Some WorkDone"
| "work_outcome (Lost r) = Some WorkLost"
| "work_outcome (SendDisconnected r) = Some WorkersDisconnected"
| "work_outcome _ = None"

section \<open>Every accepted request is answered once, in order\<close>

fun accepted :: "'e pool_output list \<Rightarrow> WorkRequest list" where
  "accepted [] = []"
| "accepted (Accepted r # out) = r # accepted out"
| "accepted (_ # out) = accepted out"

fun handled :: "'e pool_output list \<Rightarrow> WorkRequest list" where
  "handled [] = []"
| "handled (Handled r a # out) = r # handled out"
| "handled (_ # out) = handled out"

fun lost :: "'e pool_output list \<Rightarrow> WorkRequest list" where
  "lost [] = []"
| "lost (Lost r # out) = r # lost out"
| "lost (_ # out) = lost out"

fun answers_of :: "'e pool_output list \<Rightarrow> (nat \<times> 'e response result) list" where
  "answers_of [] = []"
| "answers_of (Handled r (Some a) # out) = a # answers_of out"
| "answers_of (_ # out) = answers_of out"

named_theorems pool_out

lemma accepted_append [pool_out]: "accepted (xs @ ys) = accepted xs @ accepted ys"
  by (induction xs rule: accepted.induct) auto

lemma handled_append [pool_out]: "handled (xs @ ys) = handled xs @ handled ys"
  by (induction xs rule: handled.induct) auto

lemma lost_append [pool_out]: "lost (xs @ ys) = lost xs @ lost ys"
  by (induction xs rule: lost.induct) auto

lemma answers_of_append [pool_out]: "answers_of (xs @ ys) = answers_of xs @ answers_of ys"
  by (induction xs rule: answers_of.induct) auto

lemma outputs_lost [pool_out]:
  "accepted (map Lost q) = []" "handled (map Lost q) = []" "lost (map Lost q) = q" "answers_of (map Lost q) = []"
  by (induction q) auto

text \<open>The invariant, with all that the pool has put out as a ghost history.\<close>

definition pool_inv :: "'e rpc_ext \<Rightarrow> pool \<Rightarrow> 'e pool_output list \<Rightarrow> bool" where
  "pool_inv ex po out \<longleftrightarrow>
     accepted out = handled out @ lost out @ po_queue po \<and>
     answers_of out = List.map_filter (work_process ex) (handled out) \<and>
     length (po_queue po) \<le> po_channel_size po \<and>
     (receivers_gone po \<longrightarrow> po_queue po = []) \<and>
     (lost out \<noteq> [] \<longrightarrow> po_cancelled po \<and> receivers_gone po) \<and>
     (WorkerReturned \<in> set (po_workers po) \<longrightarrow> po_cancelled po \<or> \<not> po_senders po)"

lemma map_filter_append [pool_out]: "List.map_filter f (xs @ ys) = List.map_filter f xs @ List.map_filter f ys"
  by (simp add: List.map_filter_def)

lemma map_filter_single [pool_out]:
  "List.map_filter f [x] = (case f x of None \<Rightarrow> [] | Some y \<Rightarrow> [y])"
  by (simp add: List.map_filter_def split: option.splits)

lemma answers_of_handled [pool_out]:
  "answers_of [Handled r a] = (case a of None \<Rightarrow> [] | Some y \<Rightarrow> [y])"
  "answers_of [Accepted r', Handled r a] = (case a of None \<Rightarrow> [] | Some y \<Rightarrow> [y])"
  by (cases a; simp)+

lemma not_gone: "nth_opt (po_workers po) i = Some w \<Longrightarrow> w \<noteq> WorkerReturned \<Longrightarrow> \<not> receivers_gone po"
  by (auto simp: receivers_gone_def nth_opt_def list_all_length split: if_splits)

lemma not_gone_update:
  assumes "nth_opt (po_workers po) i \<noteq> None" "w \<noteq> WorkerReturned"
  shows "\<not> receivers_gone (po\<lparr>po_workers := (po_workers po)[i := w]\<rparr>)"
  using assms by (intro not_gone [of _ i w]) (auto simp: nth_opt_def split: if_splits)

lemma pool_inv_update:
  assumes "pool_inv ex po out" "nth_opt (po_workers po) i \<noteq> None" "w \<noteq> WorkerReturned"
    and "\<not> receivers_gone po"
  shows "pool_inv ex (po\<lparr>po_workers := (po_workers po)[i := w]\<rparr>) out"
  using assms not_gone_update [OF assms(2,3)] set_update_subset_insert [of "po_workers po" i w]
  unfolding pool_inv_def by auto

lemma pool_inv_return:
  assumes "pool_inv ex po out" "worker_return i po = (po', out')" "\<not> receivers_gone po"
    and "po_cancelled po \<or> \<not> po_senders po \<and> po_queue po = []"
  shows "pool_inv ex po' (out @ out')"
  using assms unfolding pool_inv_def worker_return_def
  by (auto simp: pool_out receivers_gone_def Let_def split: if_splits)

lemma pool_inv_take:
  assumes "pool_inv ex po out" "po_queue po = r # q" "\<not> receivers_gone po"
  shows "pool_inv ex (po\<lparr>po_queue := q\<rparr>) (out @ [Handled r (work_process ex r)])"
  using assms unfolding pool_inv_def
  by (auto simp: pool_out receivers_gone_def split: option.splits)

lemma pool_step_inv:
  assumes "pool_inv ex po out" "pool_step ex e po = (po', out')"
  shows "pool_inv ex po' (out @ out')"
proof (cases e)
  case (TrySend r)
  then show ?thesis using assms
    by (auto simp: pool_inv_def pool_out receivers_gone_def split: if_splits)
next
  case (SendToWaiting i r)
  show ?thesis
  proof (cases "po_senders po \<and> po_channel_size po = 0 \<and> worker_receiving i po")
    case True
    then have "\<not> receivers_gone po" using not_gone by (auto simp: worker_receiving_def)
    with True SendToWaiting assms show ?thesis
      by (auto simp: pool_inv_def pool_out split: option.splits)
  qed (use SendToWaiting assms in auto)
next
  case (Recv i)
  show ?thesis
  proof (cases "worker_receiving i po")
    case True
    then have ng: "\<not> receivers_gone po" and i: "nth_opt (po_workers po) i \<noteq> None"
      using not_gone by (auto simp: worker_receiving_def)
    show ?thesis
    proof (cases "po_queue po")
      case Nil
      with True Recv assms ng show ?thesis
        using pool_inv_update [OF assms(1) i _ ng, of WorkerTimedOut] pool_inv_return [OF assms(1) _ ng]
        by (auto split: if_splits)
    next
      case (Cons r q)
      with True Recv assms show ?thesis using pool_inv_take [OF assms(1) Cons ng] by auto
    qed
  qed (use Recv assms in auto)
next
  case (CheckShutdown i)
  show ?thesis
  proof (cases "nth_opt (po_workers po) i = Some WorkerTimedOut")
    case True
    then have ng: "\<not> receivers_gone po" using not_gone by auto
    with True CheckShutdown assms show ?thesis
      using pool_inv_update [OF assms(1) _ _ ng, of i WorkerReceiving] pool_inv_return [OF assms(1) _ ng]
      by (auto split: if_splits)
  qed (use CheckShutdown assms in auto)
qed (use assms in \<open>auto simp: pool_inv_def receivers_gone_def\<close>)

lemma pool_run_inv:
  "pool_inv ex po out \<Longrightarrow> pool_run ex es po = (po', out') \<Longrightarrow> pool_inv ex po' (out @ out')"
proof (induction es arbitrary: po out out')
  case (Cons e es)
  obtain po1 out1 po2 out2 where *: "pool_step ex e po = (po1, out1)" "pool_run ex es po1 = (po2, out2)"
    by (metis surj_pair)
  with Cons.prems(2) have "pool_run ex es po1 = (po', out2)" "out' = out1 @ out2" by auto
  with Cons.IH [OF pool_step_inv [OF Cons.prems(1) *(1)]] show ?case by simp
qed simp

lemma workers_start_inv: "workers_start config = Inr (po, cpus) \<Longrightarrow> pool_inv ex po []"
  by (auto simp: workers_start_def pool_inv_def receivers_gone_def List.map_filter_def split: if_splits)

lemma pool_run_drain:
  assumes "worker_receiving i po"
  shows "pool_run ex (replicate (length (po_queue po)) (Recv i)) po =
    (po\<lparr>po_queue := []\<rparr>, map (\<lambda>r. Handled r (work_process ex r)) (po_queue po))"
  using assms
proof (induction "po_queue po" arbitrary: po)
  case (Cons r q)
  have "worker_receiving i (po\<lparr>po_queue := q\<rparr>)" using Cons.prems by (simp add: worker_receiving_def)
  from Cons.hyps(1) [OF _ this] Cons.hyps(2) [symmetric] Cons.prems show ?case by simp
qed simp


text \<open>
  Two threads and a queue of one place: the second request has to wait, the third one is taken while the threads
  shut down and is lost.
\<close>

definition demo_work :: "nat \<Rightarrow> WorkRequest" where
  "demo_work channel = RpcRequestBlockWorkRequest_create channel demo_get_block [1, 2]"

definition demo_pool :: pool where
  "demo_pool = \<lparr>po_channel_size = 1, po_queue = [], po_senders = True, po_cancelled = False,
     po_workers = [WorkerReceiving, WorkerReceiving]\<rparr>"

definition demo_pool_events :: "pool_event list" where
  "demo_pool_events = [TrySend (demo_work 0), TrySend (demo_work 1), Recv 1, TrySend (demo_work 1), Recv 0, Recv 0, Recv 1,
     TrySend (demo_work 2), Cancel, CheckShutdown 0, CheckShutdown 1]"

definition demo_pool_out :: "u8 pool_output list" where
  "demo_pool_out = [Accepted (demo_work 0), SendFull (demo_work 1), Handled (demo_work 0) (work_process demo_rpc_decoder (demo_work 0)),
     Accepted (demo_work 1), Handled (demo_work 1) (work_process demo_rpc_decoder (demo_work 1)), Accepted (demo_work 2),
     Lost (demo_work 2)]"


end
