(* ===== verification/Alp_Http.thy ===== *)
theory Alp_Http
  imports Alp_Connect
begin

text \<open>
  The HTTP source (src/src/source/http.rs): the calls to the node, what their errors become, and
  the conversion of a block from the form of the RPC interface to the form that is stored.

  The Solana crates, bs58, base64, prost and reqwest are parameters: the record \<open>http_ext\<close> has the
  functions that the code calls, and the replies of the node are arguments. The data of the RPC
  interface has the fields that the code reads; an \<open>OptionSerializer\<close> is the \<open>Option\<close> that the code
  makes of it. A task that panics closes the channel for its answer, so the value of the code that
  can panic is an option, with \<open>None\<close> for the panic, which is what the other end of the channel sees.
\<close>

section \<open>Data of the RPC interface\<close>

record MessageHeader =
  mh_num_required_signatures :: u8
  mh_num_readonly_signed_accounts :: u8
  mh_num_readonly_unsigned_accounts :: u8

record CompiledInstruction =
  ci_program_id_index :: u8
  ci_accounts :: bytes
  ci_data :: bytes

record Message =
  ms_header :: MessageHeader
  ms_account_keys :: "Pubkey list"
  ms_recent_blockhash :: bytes
  ms_instructions :: "CompiledInstruction list"

text \<open>The three versions of a message; of the other fields of a v0 or v1 message nothing is read.\<close>

datatype VersionedMessage =
    MessageLegacy Message
  | MessageV0 (v0_header: MessageHeader) (v0_account_keys: "Pubkey list") (v0_recent_blockhash: bytes)
      (v0_instructions: "CompiledInstruction list")
  | MessageV1 (v1_header: MessageHeader) (v1_account_keys: "Pubkey list") (v1_lifetime_specifier: bytes)
      (v1_instructions: "CompiledInstruction list")

record VersionedTransaction =
  vt_signatures :: "Signature list"
  vt_message :: VersionedMessage

record UiCompiledInstruction =
  uc_program_id_index :: u8
  uc_accounts :: bytes
  uc_data :: string
  uc_stack_height :: "nat option"

datatype UiInstruction = UiCompiled UiCompiledInstruction | UiParsed string

record UiInnerInstructions =
  un_index :: u8
  un_instructions :: "UiInstruction list"

record UiTransactionTokenBalance =
  ub_account_index :: u8
  ub_mint :: string
  ub_ui_token_amount :: string
  ub_owner :: "string option"
  ub_program_id :: "string option"

datatype UiReturnDataEncoding = ReturnBase64

record UiTransactionReturnData =
  ur_program_id :: string
  ur_data :: "string \<times> UiReturnDataEncoding"

record UiLoadedAddresses =
  ul_writable :: "string list"
  ul_readonly :: "string list"

record 'u UiTransactionStatusMeta =
  um_status :: "'u + unit"
  um_fee :: nat
  um_pre_balances :: "nat list"
  um_post_balances :: "nat list"
  um_inner_instructions :: "UiInnerInstructions list option"
  um_log_messages :: "string list option"
  um_pre_token_balances :: "UiTransactionTokenBalance list option"
  um_post_token_balances :: "UiTransactionTokenBalance list option"
  um_rewards :: "Reward list option"
  um_loaded_addresses :: "UiLoadedAddresses option"
  um_return_data :: "UiTransactionReturnData option"
  um_compute_units_consumed :: "nat option"
  um_cost_units :: "nat option"

record 'u EncodedTransactionWithStatusMeta =
  et_transaction :: string
  et_meta :: "'u UiTransactionStatusMeta option"

record 'u UiBlock =
  ui_previous_blockhash :: string
  ui_blockhash :: string
  ui_parent_slot :: Slot
  ui_transactions :: "'u EncodedTransactionWithStatusMeta list option"
  ui_rewards :: "Reward list option"
  ui_num_reward_partitions :: "nat option"
  ui_block_time :: "UnixTimestamp option"
  ui_block_height :: "Slot option"

section \<open>Data of the stored form\<close>

record InnerInstruction =
  ii_instruction :: CompiledInstruction
  ii_stack_height :: "nat option"

record InnerInstructions =
  in_index :: u8
  in_instructions :: "InnerInstruction list"

record TransactionTokenBalance =
  tt_account_index :: u8
  tt_mint :: string
  tt_ui_token_amount :: string
  tt_owner :: string
  tt_program_id :: string

record TransactionReturnData =
  rd_program_id :: Pubkey
  rd_data :: bytes

record LoadedAddresses =
  la_writable :: "Pubkey list"
  la_readonly :: "Pubkey list"

record 'e TransactionStatusMeta =
  sm_status :: "'e + unit"
  sm_fee :: nat
  sm_pre_balances :: "nat list"
  sm_post_balances :: "nat list"
  sm_inner_instructions :: "InnerInstructions list option"
  sm_log_messages :: "string list option"
  sm_pre_token_balances :: "TransactionTokenBalance list option"
  sm_post_token_balances :: "TransactionTokenBalance list option"
  sm_rewards :: "Reward list option"
  sm_loaded_addresses :: LoadedAddresses
  sm_return_data :: "TransactionReturnData option"
  sm_compute_units_consumed :: "nat option"
  sm_cost_units :: "nat option"

record Transaction =
  tr_signatures :: "Signature list"
  tr_message :: Message

datatype 'e DecodedTransaction =
    Complete VersionedTransaction "'e TransactionStatusMeta"
  | MissingMetadata Transaction

record 'e DecodedBlock =
  db_previous_blockhash :: string
  db_blockhash :: string
  db_parent_slot :: Slot
  db_transactions :: "'e DecodedTransaction list"
  db_rewards :: "Reward list"
  db_num_partitions :: "nat option"
  db_block_time :: "UnixTimestamp option"
  db_block_height :: "Slot option"

text \<open>
  What the code calls: \<open>EncodedTransaction::decode\<close>, the parser of a public key, the decoders of bs58
  and base64, the conversion of a transaction error; what block.rs reads of a decoded transaction;
  the decoding of the protobuf bytes of a block with its conversion; the parser of URLs and its
  \<open>join\<close>; and the three error codes of the RPC interface.
\<close>

record ('u, 'e) http_ext =
  hx_decode_transaction :: "string \<Rightarrow> VersionedTransaction option"
  hx_parse_pubkey :: "string \<Rightarrow> Pubkey option"
  hx_bs58 :: "string \<Rightarrow> bytes option"
  hx_base64 :: "string \<Rightarrow> bytes option"
  hx_error :: "'u \<Rightarrow> 'e"
  hx_view :: "'e DecodedTransaction \<Rightarrow> 'e TransactionWithStatusMeta"
  hx_decode_block :: "bytes \<Rightarrow> 'e ConfirmedBlock option"
  hx_url_parse :: "string \<Rightarrow> string option"
  hx_url_join :: "string \<Rightarrow> string \<Rightarrow> string option"
  hx_BLOCK_NOT_AVAILABLE :: int
  hx_SLOT_SKIPPED :: int
  hx_LONG_TERM_STORAGE_SLOT_SKIPPED :: int

section \<open>Code that returns a result or panics\<close>

type_synonym ('x, 'a) fallible = "('x + 'a) option"

text \<open>The operator \<open>?\<close>, \<open>ok_or\<close> and \<open>collect\<close> into a \<open>Result\<close>, which stops at the first error.\<close>

definition try_or :: "('x, 'a) fallible \<Rightarrow> ('a \<Rightarrow> ('x, 'b) fallible) \<Rightarrow> ('x, 'b) fallible" where
  "try_or m f = (case m of None \<Rightarrow> None | Some (Inl e) \<Rightarrow> Some (Inl e) | Some (Inr a) \<Rightarrow> f a)"

definition ok_or :: "'x \<Rightarrow> 'a option \<Rightarrow> ('x, 'a) fallible" where
  "ok_or e m = Some (case m of None \<Rightarrow> Inl e | Some a \<Rightarrow> Inr a)"

fun collect :: "('a \<Rightarrow> ('x, 'b) fallible) \<Rightarrow> 'a list \<Rightarrow> ('x, 'b list) fallible" where
  "collect f [] = Some (Inr [])"
| "collect f (x # xs) = try_or (f x) (\<lambda>y. try_or (collect f xs) (\<lambda>ys. Some (Inr (y # ys))))"

definition transpose_map :: "('a \<Rightarrow> ('x, 'b) fallible) \<Rightarrow> 'a option \<Rightarrow> ('x, 'b option) fallible" where
  "transpose_map f m = (case m of None \<Rightarrow> Some (Inr None) | Some a \<Rightarrow> try_or (f a) (\<lambda>b. Some (Inr (Some b))))"

section \<open>Decoding of a block\<close>

definition ix_compiled_decode :: "('u, 'e) http_ext \<Rightarrow> UiCompiledInstruction \<Rightarrow> InnerInstruction option" where
  "ix_compiled_decode hx ix =
     (case hx_bs58 hx (uc_data ix) of
        None \<Rightarrow> None
      | Some data \<Rightarrow> Some \<lparr>ii_instruction = \<lparr>ci_program_id_index = uc_program_id_index ix,
            ci_accounts = uc_accounts ix, ci_data = data\<rparr>, ii_stack_height = uc_stack_height ix\<rparr>)"

definition inner_instruction_conv :: "('u, 'e) http_ext \<Rightarrow> UiInstruction \<Rightarrow> (BlockDecodeError, InnerInstruction) fallible" where
  "inner_instruction_conv hx ui_ix =
     (case ui_ix of
        UiCompiled ix \<Rightarrow> map_option Inr (ix_compiled_decode hx ix)
      | UiParsed _ \<Rightarrow> Some (Inl FailedInnerInstructions))"

definition tx_meta_inner_instructions_conv ::
  "('u, 'e) http_ext \<Rightarrow> UiInnerInstructions list \<Rightarrow> (BlockDecodeError, InnerInstructions list) fallible" where
  "tx_meta_inner_instructions_conv hx ixs =
     collect (\<lambda>ix. try_or (collect (inner_instruction_conv hx) (un_instructions ix))
       (\<lambda>instructions. Some (Inr \<lparr>in_index = un_index ix, in_instructions = instructions\<rparr>))) ixs"

definition token_balance_conv :: "UiTransactionTokenBalance \<Rightarrow> TransactionTokenBalance" where
  "token_balance_conv balance =
     \<lparr>tt_account_index = ub_account_index balance, tt_mint = ub_mint balance,
      tt_ui_token_amount = ub_ui_token_amount balance,
      tt_owner = (case ub_owner balance of Some v \<Rightarrow> v | None \<Rightarrow> []),
      tt_program_id = (case ub_program_id balance of Some v \<Rightarrow> v | None \<Rightarrow> [])\<rparr>"

definition tx_meta_token_balances_conv :: "UiTransactionTokenBalance list \<Rightarrow> TransactionTokenBalance list" where
  "tx_meta_token_balances_conv balances = map token_balance_conv balances"

definition tx_meta_return_data_conv ::
  "('u, 'e) http_ext \<Rightarrow> UiTransactionReturnData \<Rightarrow> (BlockDecodeError, TransactionReturnData) fallible" where
  "tx_meta_return_data_conv hx return_data =
     try_or (ok_or FailedTransactionReturnDataProgramId (hx_parse_pubkey hx (ur_program_id return_data))) (\<lambda>program_id.
     try_or (case snd (ur_data return_data) of
         ReturnBase64 \<Rightarrow> ok_or FailedTransactionReturnData (hx_base64 hx (fst (ur_data return_data)))) (\<lambda>data.
     Some (Inr \<lparr>rd_program_id = program_id, rd_data = data\<rparr>)))"

definition parse_keys :: "('u, 'e) http_ext \<Rightarrow> BlockDecodeError \<Rightarrow> string list \<Rightarrow> (BlockDecodeError, Pubkey list) fallible" where
  "parse_keys hx error keys = collect (\<lambda>pk. ok_or error (hx_parse_pubkey hx pk)) keys"

definition tx_meta_decode ::
  "('u, 'e) http_ext \<Rightarrow> 'u UiTransactionStatusMeta \<Rightarrow> (BlockDecodeError, 'e TransactionStatusMeta) fallible" where
  "tx_meta_decode hx meta =
     try_or (ok_or MissedLoadedAddresses (um_loaded_addresses meta)) (\<lambda>loaded.
     try_or (transpose_map (tx_meta_inner_instructions_conv hx) (um_inner_instructions meta)) (\<lambda>inner_instructions.
     try_or (parse_keys hx FailedLoadedAddressesWritable (ul_writable loaded)) (\<lambda>writable.
     try_or (parse_keys hx FailedLoadedAddressesReadonly (ul_readonly loaded)) (\<lambda>readonly.
     try_or (transpose_map (tx_meta_return_data_conv hx) (um_return_data meta)) (\<lambda>return_data.
     Some (Inr \<lparr>sm_status = map_sum (hx_error hx) id (um_status meta), sm_fee = um_fee meta,
       sm_pre_balances = um_pre_balances meta, sm_post_balances = um_post_balances meta,
       sm_inner_instructions = inner_instructions, sm_log_messages = um_log_messages meta,
       sm_pre_token_balances = map_option tx_meta_token_balances_conv (um_pre_token_balances meta),
       sm_post_token_balances = map_option tx_meta_token_balances_conv (um_post_token_balances meta),
       sm_rewards = um_rewards meta,
       sm_loaded_addresses = \<lparr>la_writable = writable, la_readonly = readonly\<rparr>,
       sm_return_data = return_data, sm_compute_units_consumed = um_compute_units_consumed meta,
       sm_cost_units = um_cost_units meta\<rparr>))))))"

definition legacy_message :: "VersionedMessage \<Rightarrow> Message" where
  "legacy_message m =
     (case m of
        MessageLegacy message \<Rightarrow> message
      | MessageV0 header account_keys recent_blockhash instructions \<Rightarrow>
          \<lparr>ms_header = header, ms_account_keys = account_keys, ms_recent_blockhash = recent_blockhash,
           ms_instructions = instructions\<rparr>
      | MessageV1 header account_keys lifetime_specifier instructions \<Rightarrow>
          \<lparr>ms_header = header, ms_account_keys = account_keys, ms_recent_blockhash = lifetime_specifier,
           ms_instructions = instructions\<rparr>)"

definition tx_decode ::
  "('u, 'e) http_ext \<Rightarrow> 'u EncodedTransactionWithStatusMeta \<Rightarrow> (BlockDecodeError, 'e DecodedTransaction) fallible" where
  "tx_decode hx tx =
     try_or (ok_or FailedVersionedTransaction (hx_decode_transaction hx (et_transaction tx))) (\<lambda>transaction.
     case et_meta tx of
       Some meta \<Rightarrow> try_or (tx_meta_decode hx meta) (\<lambda>meta. Some (Inr (Complete transaction meta)))
     | None \<Rightarrow> Some (Inr (MissingMetadata \<lparr>tr_signatures = vt_signatures transaction,
         tr_message = legacy_message (vt_message transaction)\<rparr>)))"

definition block_decode :: "('u, 'e) http_ext \<Rightarrow> 'u UiBlock \<Rightarrow> (BlockDecodeError, 'e DecodedBlock) fallible" where
  "block_decode hx block =
     try_or (ok_or MissedTransactions (ui_transactions block)) (\<lambda>encoded.
     try_or (collect (tx_decode hx) encoded) (\<lambda>transactions.
     try_or (ok_or MissedRewards (ui_rewards block)) (\<lambda>rewards.
     Some (Inr \<lparr>db_previous_blockhash = ui_previous_blockhash block, db_blockhash = ui_blockhash block,
       db_parent_slot = ui_parent_slot block, db_transactions = transactions, db_rewards = rewards,
       db_num_partitions = ui_num_reward_partitions block, db_block_time = ui_block_time block,
       db_block_height = ui_block_height block\<rparr>))))"

section \<open>HttpSource\<close>

text \<open>\<open>strip_url\<close>: of the errors only those of reqwest have a URL.\<close>

definition strip_url :: "ClientError \<Rightarrow> ClientError" where
  "strip_url error = (case error of ReqwestError _ \<Rightarrow> ReqwestError None | kind \<Rightarrow> kind)"

datatype ConnectError = HttpUrl | Reqwest | Client ClientError

record HttpSource =
  hs_httpurl :: "string option"
  hs_semaphore :: nat
  hs_index_vote :: bool

record ConfigSourceHttp =
  ch_rpc :: string
  ch_httpget :: "string option"
  ch_timeout :: nat
  ch_concurrency :: nat
  ch_user_agent :: string

text \<open>\<open>HttpSource::new\<close>: the two clients may fail to build, and the node is asked for its version.\<close>

definition HttpSource_new ::
  "('u, 'e) http_ext \<Rightarrow> ConfigSourceHttp \<Rightarrow> bool \<Rightarrow> bool \<Rightarrow> bool \<Rightarrow> ClientError + string \<Rightarrow> ConnectError + HttpSource" where
  "HttpSource_new hx config index_vote httpget_client_built rpc_client_built version =
     (case (case ch_httpget config of
              None \<Rightarrow> Inr None
            | Some url \<Rightarrow>
                (case hx_url_parse hx url of
                   None \<Rightarrow> Inl HttpUrl
                 | Some url \<Rightarrow> if httpget_client_built then Inr (Some url) else Inl Reqwest)) of
        Inl e \<Rightarrow> Inl e
      | Inr httpurl \<Rightarrow>
          if \<not> rpc_client_built then Inl Reqwest
          else
            case version of
              Inl error \<Rightarrow> Inl (Client (strip_url error))
            | Inr _ \<Rightarrow> Inr \<lparr>hs_httpurl = httpurl, hs_semaphore = ch_concurrency config, hs_index_vote = index_vote\<rparr>)"

text \<open>
  What the node answers: to the three requests for a slot, to a GET of a URL (\<open>None\<close> when the request
  fails; the status and the body, which may fail to arrive), and to \<open>getBlock\<close> with the
  configuration of the code.
\<close>

record 'u node =
  nd_confirmed_slot :: "ClientError + Slot"
  nd_finalized_slot :: "ClientError + Slot"
  nd_first_available_block :: "ClientError + Slot"
  nd_get :: "string \<Rightarrow> (nat \<times> bytes option) option"
  nd_block :: "Slot \<Rightarrow> ClientError + 'u UiBlock"

definition http_get_confirmed_slot :: "'u node \<Rightarrow> ClientError + Slot" where
  "http_get_confirmed_slot node = map_sum strip_url id (nd_confirmed_slot node)"

definition http_get_finalized_slot :: "'u node \<Rightarrow> ClientError + Slot" where
  "http_get_finalized_slot node = map_sum strip_url id (nd_finalized_slot node)"

definition http_get_first_available_block :: "'u node \<Rightarrow> ClientError + Slot" where
  "http_get_first_available_block node = map_sum strip_url id (nd_first_available_block node)"

definition get_block_http ::
  "solana \<Rightarrow> 'e codec \<Rightarrow> proto \<Rightarrow> ('u, 'e) http_ext \<Rightarrow> 'u node \<Rightarrow> HttpSource \<Rightarrow> Slot \<Rightarrow> 'e BlockWithBinary option" where
  "get_block_http so c p hx node hs slot =
     (case hs_httpurl hs of
        None \<Rightarrow> None
      | Some url \<Rightarrow>
          (case hx_url_join hx url (''block/'' @ to_string slot) of
             None \<Rightarrow> None
           | Some url \<Rightarrow>
               (case nd_get node url of
                  None \<Rightarrow> None
                | Some (status, body) \<Rightarrow>
                    if status \<noteq> 200 then None
                    else
                      case body of
                        None \<Rightarrow> None
                      | Some bs \<Rightarrow>
                          (case hx_decode_block hx bs of
                             None \<Rightarrow> None
                           | Some block \<Rightarrow> Some (new_from_confirmed_block_and_slot so c p block slot (hs_index_vote hs))))))"

text \<open>The errors of \<open>getBlock\<close>, by the code of the response.\<close>

definition get_block_error :: "('u, 'e) http_ext \<Rightarrow> Slot \<Rightarrow> ClientError \<Rightarrow> GetBlockError" where
  "get_block_error hx slot error =
     (case error of
        RpcResponseError code \<Rightarrow>
          if code = hx_BLOCK_NOT_AVAILABLE hx then BlockNotAvailable slot
          else if code = hx_SLOT_SKIPPED hx then SlotSkipped slot
          else if code = hx_LONG_TERM_STORAGE_SLOT_SKIPPED hx then SlotSkipped slot
          else GbRequest (strip_url error)
      | _ \<Rightarrow> GbRequest (strip_url error))"

definition confirmed_block :: "('u, 'e) http_ext \<Rightarrow> 'e DecodedBlock \<Rightarrow> 'e ConfirmedBlock" where
  "confirmed_block hx b =
     \<lparr>cf_previous_blockhash = db_previous_blockhash b, cf_blockhash = db_blockhash b,
      cf_parent_slot = db_parent_slot b, cf_transactions = map (hx_view hx) (db_transactions b),
      cf_rewards = db_rewards b, cf_num_partitions = db_num_partitions b, cf_block_time = db_block_time b,
      cf_block_height = db_block_height b\<rparr>"

text \<open>The warning about a transaction without metadata prints its first signature.\<close>

fun unsigned_without_metadata :: "'e DecodedTransaction \<Rightarrow> bool" where
  "unsigned_without_metadata (MissingMetadata tx) \<longleftrightarrow> tr_signatures tx = []"
| "unsigned_without_metadata (Complete tx meta) \<longleftrightarrow> False"

definition get_block_rpc ::
  "solana \<Rightarrow> 'e codec \<Rightarrow> proto \<Rightarrow> ('u, 'e) http_ext \<Rightarrow> 'u node \<Rightarrow> HttpSource \<Rightarrow> Slot \<Rightarrow>
    (GetBlockError, 'e BlockWithBinary) fallible" where
  "get_block_rpc so c p hx node hs slot =
     (case nd_block node slot of
        Inl error \<Rightarrow> Some (Inl (get_block_error hx slot error))
      | Inr block \<Rightarrow>
          (case block_decode hx block of
             None \<Rightarrow> None
           | Some (Inl e) \<Rightarrow> Some (Inl (GbDecode e))
           | Some (Inr block) \<Rightarrow>
               if list_ex unsigned_without_metadata (db_transactions block) then None
               else Some (Inr (new_from_confirmed_block_and_slot so c p (confirmed_block hx block) slot (hs_index_vote hs)))))"

definition http_get_block ::
  "solana \<Rightarrow> 'e codec \<Rightarrow> proto \<Rightarrow> ('u, 'e) http_ext \<Rightarrow> 'u node \<Rightarrow> HttpSource \<Rightarrow> Slot \<Rightarrow> bool \<Rightarrow>
    (GetBlockError, 'e BlockWithBinary) fallible" where
  "http_get_block so c p hx node hs slot httpget =
     (case (if httpget \<and> hs_httpurl hs \<noteq> None then get_block_http so c p hx node hs slot else None) of
        Some block \<Rightarrow> Some (Inr block)
      | None \<Rightarrow> get_block_rpc so c p hx node hs slot)"

text \<open>The client that the source task asks.\<close>

definition http_source_client ::
  "solana \<Rightarrow> 'e codec \<Rightarrow> proto \<Rightarrow> ('u, 'e) http_ext \<Rightarrow> 'u node \<Rightarrow> HttpSource \<Rightarrow> 'e http_client" where
  "http_source_client so c p hx node hs =
     \<lparr>hc_finalized_slot = http_get_finalized_slot node, hc_confirmed_slot = http_get_confirmed_slot node,
      hc_first_available_block = http_get_first_available_block node,
      hc_block = http_get_block so c p hx node hs\<rparr>"

end
