(* ===== verification/Alp_Http_Laws.thy ===== *)
theory Alp_Http_Laws
  imports Alp_Http Alp_Write Alp_Source_Laws
begin

text \<open>
  Properties of the HTTP source. A block that the node encodes is decoded to the same block; what the
  source makes of the answers of the node is followed through the channel of the source task into the task
  of the write thread that fetches a slot, so that a slot is taken for skipped only when the node says so;
  and no error keeps the URL of a request.
\<close>

section \<open>Decoding\<close>

lemma try_or_simps [simp]:
  "try_or None f = None"
  "try_or (Some (Inl e)) f = Some (Inl e)"
  "try_or (Some (Inr a)) f = f a"
  by (simp_all add: try_or_def)

lemma try_or_Inr_iff: "try_or m f = Some (Inr b) \<longleftrightarrow> (\<exists>a. m = Some (Inr a) \<and> f a = Some (Inr b))"
  by (auto simp: try_or_def split: option.splits sum.splits)

lemma ok_or_simps [simp]: "ok_or e None = Some (Inl e)" "ok_or e (Some a) = Some (Inr a)"
  by (simp_all add: ok_or_def)

lemma collect_map [simp]:
  assumes "\<And>y. y \<in> set ys \<Longrightarrow> f (g y) = Some (Inr y)"
  shows "collect f (map g ys) = Some (Inr ys)"
  using assms by (induction ys) auto

lemma transpose_map_map [simp]:
  assumes "\<And>y. f (g y) = Some (Inr y)"
  shows "transpose_map f (map_option g m) = Some (Inr m)"
  by (cases m) (simp_all add: transpose_map_def assms)

text \<open>
  The encoders of the node, the inverses of what the code decodes with. The form of the RPC interface
  of a block is that of Agave with base64 transactions and full details.
\<close>

record ('u, 'e) node_enc =
  en_transaction :: "VersionedTransaction \<Rightarrow> string"
  en_pubkey :: "Pubkey \<Rightarrow> string"
  en_bs58 :: "bytes \<Rightarrow> string"
  en_base64 :: "bytes \<Rightarrow> string"
  en_error :: "'e \<Rightarrow> 'u"

definition decodes :: "('u, 'e) http_ext \<Rightarrow> ('u, 'e) node_enc \<Rightarrow> bool" where
  "decodes hx en \<longleftrightarrow>
     (\<forall>k. hx_parse_pubkey hx (en_pubkey en k) = Some k) \<and>
     (\<forall>b. hx_bs58 hx (en_bs58 en b) = Some b) \<and>
     (\<forall>b. hx_base64 hx (en_base64 en b) = Some b) \<and>
     (\<forall>e. hx_error hx (en_error en e) = e)"

definition ui_instruction :: "('u, 'e) node_enc \<Rightarrow> InnerInstruction \<Rightarrow> UiInstruction" where
  "ui_instruction en ix = UiCompiled \<lparr>uc_program_id_index = ci_program_id_index (ii_instruction ix),
     uc_accounts = ci_accounts (ii_instruction ix), uc_data = en_bs58 en (ci_data (ii_instruction ix)),
     uc_stack_height = ii_stack_height ix\<rparr>"

definition ui_inner :: "('u, 'e) node_enc \<Rightarrow> InnerInstructions \<Rightarrow> UiInnerInstructions" where
  "ui_inner en ixs = \<lparr>un_index = in_index ixs, un_instructions = map (ui_instruction en) (in_instructions ixs)\<rparr>"

definition ui_token_balance :: "TransactionTokenBalance \<Rightarrow> UiTransactionTokenBalance" where
  "ui_token_balance b = \<lparr>ub_account_index = tt_account_index b, ub_mint = tt_mint b,
     ub_ui_token_amount = tt_ui_token_amount b, ub_owner = Some (tt_owner b), ub_program_id = Some (tt_program_id b)\<rparr>"

definition ui_return_data :: "('u, 'e) node_enc \<Rightarrow> TransactionReturnData \<Rightarrow> UiTransactionReturnData" where
  "ui_return_data en d = \<lparr>ur_program_id = en_pubkey en (rd_program_id d),
     ur_data = (en_base64 en (rd_data d), ReturnBase64)\<rparr>"

definition ui_meta :: "('u, 'e) node_enc \<Rightarrow> 'e TransactionStatusMeta \<Rightarrow> 'u UiTransactionStatusMeta" where
  "ui_meta en m = \<lparr>um_status = map_sum (en_error en) id (sm_status m), um_fee = sm_fee m,
     um_pre_balances = sm_pre_balances m, um_post_balances = sm_post_balances m,
     um_inner_instructions = map_option (map (ui_inner en)) (sm_inner_instructions m),
     um_log_messages = sm_log_messages m,
     um_pre_token_balances = map_option (map ui_token_balance) (sm_pre_token_balances m),
     um_post_token_balances = map_option (map ui_token_balance) (sm_post_token_balances m),
     um_rewards = sm_rewards m,
     um_loaded_addresses = Some \<lparr>ul_writable = map (en_pubkey en) (la_writable (sm_loaded_addresses m)),
       ul_readonly = map (en_pubkey en) (la_readonly (sm_loaded_addresses m))\<rparr>,
     um_return_data = map_option (ui_return_data en) (sm_return_data m),
     um_compute_units_consumed = sm_compute_units_consumed m, um_cost_units = sm_cost_units m\<rparr>"

fun versioned :: "'e DecodedTransaction \<Rightarrow> VersionedTransaction" where
  "versioned (Complete tx meta) = tx"
| "versioned (MissingMetadata tx) = \<lparr>vt_signatures = tr_signatures tx, vt_message = MessageLegacy (tr_message tx)\<rparr>"

fun ui_transaction :: "('u, 'e) node_enc \<Rightarrow> 'e DecodedTransaction \<Rightarrow> 'u EncodedTransactionWithStatusMeta" where
  "ui_transaction en (Complete tx meta) =
     \<lparr>et_transaction = en_transaction en tx, et_meta = Some (ui_meta en meta)\<rparr>"
| "ui_transaction en (MissingMetadata tx) =
     \<lparr>et_transaction = en_transaction en \<lparr>vt_signatures = tr_signatures tx, vt_message = MessageLegacy (tr_message tx)\<rparr>,
      et_meta = None\<rparr>"

definition decodes_transaction :: "('u, 'e) http_ext \<Rightarrow> ('u, 'e) node_enc \<Rightarrow> 'e DecodedTransaction \<Rightarrow> bool" where
  "decodes_transaction hx en tx \<longleftrightarrow> hx_decode_transaction hx (en_transaction en (versioned tx)) = Some (versioned tx)"

definition ui_block :: "('u, 'e) node_enc \<Rightarrow> 'e DecodedBlock \<Rightarrow> 'u UiBlock" where
  "ui_block en b = \<lparr>ui_previous_blockhash = db_previous_blockhash b, ui_blockhash = db_blockhash b,
     ui_parent_slot = db_parent_slot b, ui_transactions = Some (map (ui_transaction en) (db_transactions b)),
     ui_rewards = Some (db_rewards b), ui_num_reward_partitions = db_num_partitions b,
     ui_block_time = db_block_time b, ui_block_height = db_block_height b\<rparr>"

named_theorems decode_defs

lemmas [decode_defs] = ix_compiled_decode_def inner_instruction_conv_def ui_instruction_def ui_inner_def
  tx_meta_inner_instructions_conv_def tx_meta_return_data_conv_def ui_return_data_def parse_keys_def decodes_def

lemma inner_roundtrip [simp]:
  assumes "decodes hx en"
  shows "tx_meta_inner_instructions_conv hx (map (ui_inner en) ixs) = Some (Inr ixs)"
  using assms by (simp add: decode_defs)

lemma return_data_roundtrip [simp]:
  assumes "decodes hx en"
  shows "tx_meta_return_data_conv hx (ui_return_data en d) = Some (Inr d)"
  using assms by (simp add: decode_defs)

lemma keys_roundtrip [simp]:
  assumes "decodes hx en"
  shows "parse_keys hx e (map (en_pubkey en) ks) = Some (Inr ks)"
  using assms by (simp add: decode_defs)

lemma balance_roundtrip [simp]: "token_balance_conv (ui_token_balance b) = b"
  by (simp add: token_balance_conv_def ui_token_balance_def)

lemma balances_roundtrip [simp]:
  "map_option tx_meta_token_balances_conv (map_option (map ui_token_balance) bs) = bs"
  by (cases bs) (simp_all add: tx_meta_token_balances_conv_def comp_def)

lemma status_roundtrip [simp]:
  assumes "decodes hx en"
  shows "map_sum (hx_error hx) id (map_sum (en_error en) id s) = s"
  using assms by (cases s) (simp_all add: decodes_def)

lemma meta_roundtrip [simp]:
  assumes "decodes hx en"
  shows "tx_meta_decode hx (ui_meta en m) = Some (Inr m)"
  using assms by (simp add: tx_meta_decode_def ui_meta_def)

lemma transaction_roundtrip [simp]:
  assumes "decodes hx en" "decodes_transaction hx en tx"
  shows "tx_decode hx (ui_transaction en tx) = Some (Inr tx)"
  using assms by (cases tx) (simp_all add: tx_decode_def legacy_message_def decodes_transaction_def)

lemma block_roundtrip:
  assumes "decodes hx en" "list_all (decodes_transaction hx en) (db_transactions b)"
  shows "block_decode hx (ui_block en b) = Some (Inr b)"
  using assms by (simp add: block_decode_def ui_block_def list_all_iff)

text \<open>
  C13. A block that the node encodes with encoders that the libraries invert is decoded to that block,
  so that the source delivers the stored form of exactly this block, unless a transaction without
  metadata has no signature.
\<close>

theorem encoded_block_delivered:
  assumes "decodes hx en"
    and "list_all (decodes_transaction hx en) (db_transactions b)"
    and "nd_block node slot = Inr (ui_block en b)"
    and "\<not> list_ex unsigned_without_metadata (db_transactions b)"
  shows "http_get_block so c p hx node hs slot False =
    Some (Inr (new_from_confirmed_block_and_slot so c p (confirmed_block hx b) slot (hs_index_vote hs)))"
  using assms by (simp add: http_get_block_def get_block_rpc_def block_roundtrip)

definition demo_en :: "(u8, u8) node_enc" where
  "demo_en = \<lparr>en_transaction = \<lambda>t. if vt_signatures t = [[1]] then ''a'' else ''b'',
     en_pubkey = map (\<lambda>b. char_of (unat b)), en_bs58 = map (\<lambda>b. char_of (unat b)),
     en_base64 = map (\<lambda>b. char_of (unat b)), en_error = id\<rparr>"

definition demo_message :: Message where
  "demo_message = \<lparr>ms_header = \<lparr>mh_num_required_signatures = 1, mh_num_readonly_signed_accounts = 0,
       mh_num_readonly_unsigned_accounts = 1\<rparr>,
     ms_account_keys = [[3], [4]], ms_recent_blockhash = [5],
     ms_instructions = [\<lparr>ci_program_id_index = 1, ci_accounts = [0], ci_data = [6, 7]\<rparr>]\<rparr>"

definition demo_versioned :: "u8 \<Rightarrow> VersionedTransaction" where
  "demo_versioned s = \<lparr>vt_signatures = [[s]], vt_message = MessageLegacy demo_message\<rparr>"

definition demo_status_meta :: "u8 TransactionStatusMeta" where
  "demo_status_meta = \<lparr>sm_status = Inl 9, sm_fee = 5000, sm_pre_balances = [10, 1], sm_post_balances = [5, 1],
     sm_inner_instructions = Some [\<lparr>in_index = 0, in_instructions =
       [\<lparr>ii_instruction = \<lparr>ci_program_id_index = 1, ci_accounts = [0], ci_data = [200, 1]\<rparr>, ii_stack_height = Some 2\<rparr>]\<rparr>],
     sm_log_messages = None,
     sm_pre_token_balances = Some [\<lparr>tt_account_index = 1, tt_mint = ''m'', tt_ui_token_amount = ''1'', tt_owner = ''o'',
       tt_program_id = ''p''\<rparr>],
     sm_post_token_balances = None, sm_rewards = Some [],
     sm_loaded_addresses = \<lparr>la_writable = [[1, 2]], la_readonly = []\<rparr>,
     sm_return_data = Some \<lparr>rd_program_id = [4], rd_data = [255]\<rparr>, sm_compute_units_consumed = Some 7,
     sm_cost_units = None\<rparr>"

definition demo_decoded :: "u8 DecodedBlock" where
  "demo_decoded = \<lparr>db_previous_blockhash = ''p'', db_blockhash = ''h'', db_parent_slot = 6,
     db_transactions = [Complete (demo_versioned 1) demo_status_meta,
       MissingMetadata \<lparr>tr_signatures = [[2]], tr_message = demo_message\<rparr>],
     db_rewards = [demo_reward], db_num_partitions = None, db_block_time = Some 5, db_block_height = Some 6\<rparr>"

definition demo_hx :: "(u8, u8) http_ext" where
  "demo_hx = \<lparr>hx_decode_transaction = \<lambda>s. if s = ''a'' then Some (demo_versioned 1)
       else if s = ''b'' then Some (demo_versioned 2) else None,
     hx_parse_pubkey = \<lambda>s. Some (map (\<lambda>ch. word_of_nat (of_char ch)) s),
     hx_bs58 = \<lambda>s. Some (map (\<lambda>ch. word_of_nat (of_char ch)) s),
     hx_base64 = \<lambda>s. Some (map (\<lambda>ch. word_of_nat (of_char ch)) s), hx_error = id,
     hx_view = \<lambda>tx. \<lparr>tw_signature = hd (vt_signatures (versioned tx)), tw_complete = None, tw_protobuf = [1]\<rparr>,
     hx_decode_block = \<lambda>bs. None, hx_url_parse = Some, hx_url_join = \<lambda>u s. Some (u @ s),
     hx_BLOCK_NOT_AVAILABLE = -32004, hx_SLOT_SKIPPED = -32007, hx_LONG_TERM_STORAGE_SLOT_SKIPPED = -32009\<rparr>"

definition demo_node :: "ClientError + u8 UiBlock \<Rightarrow> u8 node" where
  "demo_node answer = \<lparr>nd_confirmed_slot = Inr 9, nd_finalized_slot = Inr 5, nd_first_available_block = Inr 1,
     nd_get = \<lambda>url. None, nd_block = \<lambda>slot. answer\<rparr>"

definition demo_hs :: HttpSource where
  "demo_hs = \<lparr>hs_httpurl = Some ''http://127.0.0.1/'', hs_semaphore = 10, hs_index_vote = True\<rparr>"

lemma byte_char_roundtrip [simp]: "word_of_nat (unat (b :: u8) mod 256) = b"
proof -
  have "unat b < 2 ^ LENGTH(8)" by (rule unsigned_less)
  then show ?thesis by simp
qed

lemma demo_decodes: "decodes demo_hx demo_en"
  by (simp add: decodes_def demo_hx_def demo_en_def comp_def)

theorem encoded_block_delivered_witness:
  "http_get_block demo_solana leb_codec wire_proto demo_hx (demo_node (Inr (ui_block demo_en demo_decoded))) demo_hs 7 False =
    Some (Inr (new_from_confirmed_block_and_slot demo_solana leb_codec wire_proto (confirmed_block demo_hx demo_decoded) 7 True))"
  using encoded_block_delivered [OF demo_decodes, of demo_decoded "demo_node (Inr (ui_block demo_en demo_decoded))" 7
      demo_solana leb_codec wire_proto demo_hs]
  by (simp add: demo_node_def demo_hs_def demo_decoded_def decodes_transaction_def demo_hx_def demo_en_def demo_versioned_def)

section \<open>From the node to the write thread\<close>

text \<open>What the node says of a slot: that it is skipped, and a block that it delivers.\<close>

definition node_skips :: "('u, 'e) http_ext \<Rightarrow> 'u node \<Rightarrow> Slot \<Rightarrow> bool" where
  "node_skips hx node slot \<longleftrightarrow>
     (\<exists>code. nd_block node slot = Inl (RpcResponseError code) \<and> code \<noteq> hx_BLOCK_NOT_AVAILABLE hx \<and>
       code \<in> {hx_SLOT_SKIPPED hx, hx_LONG_TERM_STORAGE_SLOT_SKIPPED hx})"

definition node_sends :: "('u, 'e) http_ext \<Rightarrow> 'u node \<Rightarrow> HttpSource \<Rightarrow> Slot \<Rightarrow> bool \<Rightarrow> 'e ConfirmedBlock \<Rightarrow> bool" where
  "node_sends hx node hs slot httpget cb \<longleftrightarrow>
     httpget \<and> (\<exists>base url bs. hs_httpurl hs = Some base \<and> hx_url_join hx base (''block/'' @ to_string slot) = Some url \<and>
        nd_get node url = Some (200, Some bs) \<and> hx_decode_block hx bs = Some cb) \<or>
     (\<exists>ui d. nd_block node slot = Inr ui \<and> block_decode hx ui = Some (Inr d) \<and> cb = confirmed_block hx d)"

definition delivers ::
  "solana \<Rightarrow> 'e codec \<Rightarrow> proto \<Rightarrow> ('u, 'e) http_ext \<Rightarrow> HttpSource \<Rightarrow> Slot \<Rightarrow> bool \<Rightarrow> 'u node \<Rightarrow> 'e BlockWithBinary \<Rightarrow> bool" where
  "delivers so c p hx hs slot httpget node b \<longleftrightarrow>
     (\<exists>cb. node_sends hx node hs slot httpget cb \<and> b = new_from_confirmed_block_and_slot so c p cb slot (hs_index_vote hs))"

lemma get_block_http_delivers:
  assumes "get_block_http so c p hx node hs slot = Some b"
  shows "delivers so c p hx hs slot True node b"
  using assms unfolding get_block_http_def delivers_def node_sends_def
  by (auto split: option.splits if_splits)

lemma get_block_rpc_delivers:
  assumes "get_block_rpc so c p hx node hs slot = Some (Inr b)"
  shows "delivers so c p hx hs slot httpget node b"
  using assms unfolding get_block_rpc_def delivers_def node_sends_def
  by (auto split: option.splits sum.splits if_splits)

lemma http_get_block_delivers:
  assumes "http_get_block so c p hx node hs slot httpget = Some (Inr b)"
  shows "delivers so c p hx hs slot httpget node b"
  using assms get_block_http_delivers get_block_rpc_delivers
  by (fastforce simp: http_get_block_def split: option.splits if_splits)

lemma http_get_block_skipped:
  assumes "http_get_block so c p hx node hs slot httpget = Some (Inl (SlotSkipped s))"
  shows "node_skips hx node slot"
  using assms unfolding http_get_block_def get_block_rpc_def get_block_error_def node_skips_def
  by (auto split: option.splits sum.splits if_splits ClientError.splits)

text \<open>The answers that the task of the write thread gets from the source task for one slot.\<close>

definition slot_answers ::
  "solana \<Rightarrow> 'e codec \<Rightarrow> proto \<Rightarrow> ('u, 'e) http_ext \<Rightarrow> HttpSource \<Rightarrow> Slot \<Rightarrow> bool \<Rightarrow> (bool \<times> 'u node) list \<Rightarrow>
    (GetBlockError HttpSourceConnectedError + 'e BlockWithBinary) list" where
  "slot_answers so c p hx hs slot httpget calls =
     map (\<lambda>(sent, node). Alp_Connect.get_block sent (hc_block (http_source_client so c p hx node hs) slot httpget)) calls"

lemma slot_answer_simp:
  "Alp_Connect.get_block sent (hc_block (http_source_client so c p hx node hs) slot httpget) =
     connected_send sent (http_get_block so c p hx node hs slot httpget)"
  by (simp add: Alp_Connect.get_block_def http_source_client_def)

lemma connected_send_Inr: "connected_send sent reply = Inr b \<longleftrightarrow> sent \<and> reply = Some (Inr b)"
  by (auto simp: connected_send_def split: option.splits sum.splits)

lemma connected_send_error: "connected_send sent reply = Inl (SourceError e) \<longleftrightarrow> sent \<and> reply = Some (Inl e)"
  by (auto simp: connected_send_def split: option.splits sum.splits)

lemma fetch_task_decided:
  assumes "fetch_task retries backoff answers = Some (TaskOk r)"
  shows "\<exists>i<length answers. i \<le> retries \<and>
    (case r of None \<Rightarrow> \<exists>s. answers ! i = Inl (SourceError (SlotSkipped s)) | Some b \<Rightarrow> answers ! i = Inr b)"
  using assms
proof (induction answers arbitrary: retries backoff)
  case (Cons answer answers)
  show ?case
  proof (cases "(\<exists>b. answer = Inr b) \<or> (\<exists>s. answer = Inl (SourceError (SlotSkipped s)))")
    case True
    then show ?thesis using Cons.prems by (intro exI [of _ 0]) auto
  next
    case False
    then obtain d where d: "retries \<noteq> 0" "fetch_task (retries - 1) d answers = Some (TaskOk r)"
      "duration_double backoff = Some d"
      using Cons.prems by (auto split: sum.splits HttpSourceConnectedError.splits GetBlockError.splits if_splits option.splits)
    from Cons.IH [OF d(2)] obtain i where "i < length answers" "i \<le> retries - 1"
      "case r of None \<Rightarrow> \<exists>s. answers ! i = Inl (SourceError (SlotSkipped s)) | Some b \<Rightarrow> answers ! i = Inr b"
      by blast
    then show ?thesis using d(1) by (intro exI [of _ "Suc i"]) (auto split: option.splits)
  qed
qed simp

text \<open>
  C11. When the task that fetches a slot ends with a block, one of the nodes that were asked within the
  allowed number of retries sent that block, over plain HTTP or in an answer to \<open>getBlock\<close> that
  was decoded completely; when it ends with a skipped slot, a node answered \<open>getBlock\<close> with one of the two
  codes for it. No other error, no missing answer and no panic of the decoder makes a slot skipped.
\<close>

theorem fetched_slot_as_node_says:
  assumes "fetch_task retries backoff (slot_answers so c p hx hs slot httpget calls) = Some (TaskOk r)"
  shows "\<exists>i<length calls. i \<le> retries \<and> fst (calls ! i) \<and>
    (case r of
       None \<Rightarrow> node_skips hx (snd (calls ! i)) slot
     | Some b \<Rightarrow> delivers so c p hx hs slot httpget (snd (calls ! i)) b)"
proof -
  let ?as = "slot_answers so c p hx hs slot httpget calls"
  from fetch_task_decided [OF assms] obtain i where i: "i < length ?as" "i \<le> retries"
    "case r of None \<Rightarrow> \<exists>s. ?as ! i = Inl (SourceError (SlotSkipped s)) | Some b \<Rightarrow> ?as ! i = Inr b" by blast
  obtain sent node where call: "calls ! i = (sent, node)" by force
  have "?as ! i = connected_send sent (http_get_block so c p hx node hs slot httpget)"
    using i(1) call by (simp add: slot_answers_def slot_answer_simp)
  then show ?thesis
    using i call http_get_block_skipped http_get_block_delivers
    by (intro exI [of _ i])
      (auto simp: slot_answers_def connected_send_Inr connected_send_error split: option.splits)
qed

text \<open>A node that is not available at first, then fails to connect, then says that the slot is skipped.\<close>

definition demo_calls :: "(bool \<times> u8 node) list" where
  "demo_calls = [(True, demo_node (Inl (RpcResponseError (-32004)))),
     (True, demo_node (Inl (ReqwestError (Some ''http://node'')))), (True, demo_node (Inl (RpcResponseError (-32009))))]"

theorem fetched_slot_as_node_says_witness:
  "fetch_task 3 100 (slot_answers demo_solana leb_codec wire_proto demo_hx demo_hs 7 True demo_calls) = Some (TaskOk None) \<and>
   (\<exists>i<3. i \<le> 3 \<and> fst (demo_calls ! i) \<and> node_skips demo_hx (snd (demo_calls ! i)) 7)"
proof
  show *: "fetch_task 3 100 (slot_answers demo_solana leb_codec wire_proto demo_hx demo_hs 7 True demo_calls) = Some (TaskOk None)"
    by (simp add: slot_answers_def slot_answer_simp demo_calls_def connected_send_def http_get_block_def get_block_http_def
        get_block_rpc_def get_block_error_def demo_node_def demo_hs_def demo_hx_def strip_url_def duration_double_def)
  show "\<exists>i<3. i \<le> 3 \<and> fst (demo_calls ! i) \<and> node_skips demo_hx (snd (demo_calls ! i)) 7"
    using fetched_slot_as_node_says [OF *] by (simp add: demo_calls_def numeral_3_eq_3)
qed

section \<open>Panics and errors\<close>

text \<open>
  An instruction whose data is not base58 ends the task without an answer, where a public key that does not
  parse is an error value.
\<close>

lemma collect_panics:
  assumes "f x = None"
    and "\<And>y. y \<in> set ys \<Longrightarrow> \<exists>z. f y = Some (Inr z)"
  shows "collect f (ys @ x # zs) = None"
  using assms(2)
proof (induction ys)
  case Nil
  then show ?case by (simp add: assms(1))
next
  case (Cons y ys)
  from Cons.prems obtain z where "f y = Some (Inr z)" by auto
  with Cons show ?case by simp
qed

lemma bad_base58_closes_channel:
  assumes "nd_block node slot = Inr ui" "ui_transactions ui = Some [tx]"
    and "hx_decode_transaction hx (et_transaction tx) = Some t" "et_meta tx = Some meta"
    and "um_loaded_addresses meta = Some la" "um_inner_instructions meta = Some [ixs]"
    and "un_instructions ixs = UiCompiled ix # rest" "hx_bs58 hx (uc_data ix) = None"
  shows "Alp_Connect.get_block True (http_get_block so c p hx node hs slot False) = Inl RecvClosed"
  using assms
  by (simp add: Alp_Connect.get_block_def connected_send_def http_get_block_def get_block_rpc_def block_decode_def
      tx_decode_def tx_meta_decode_def transpose_map_def tx_meta_inner_instructions_conv_def
      inner_instruction_conv_def ix_compiled_decode_def)

definition url_free :: "ClientError \<Rightarrow> bool" where
  "url_free e \<longleftrightarrow> (\<forall>url. e \<noteq> ReqwestError (Some url))"

fun reply_url_free :: "'e http_reply \<Rightarrow> bool" where
  "reply_url_free (ReplySlots (Inl e)) \<longleftrightarrow> url_free e"
| "reply_url_free (ReplyFirstAvailable (Inl e)) \<longleftrightarrow> url_free e"
| "reply_url_free (ReplyBlock (Inl (GbRequest e))) \<longleftrightarrow> url_free e"
| "reply_url_free r \<longleftrightarrow> True"

lemma url_free_strip [simp]: "url_free (strip_url e)"
  by (cases e) (simp_all add: url_free_def strip_url_def)

lemma slot_error_url_free:
  "http_get_confirmed_slot node = Inl e \<Longrightarrow> url_free e"
  "http_get_finalized_slot node = Inl e \<Longrightarrow> url_free e"
  "http_get_first_available_block node = Inl e \<Longrightarrow> url_free e"
  by (auto simp: http_get_confirmed_slot_def http_get_finalized_slot_def http_get_first_available_block_def
      map_sum_def split: sum.splits)

lemma block_error_url_free:
  assumes "http_get_block so c p hx node hs slot httpget = Some (Inl (GbRequest e))"
  shows "url_free e"
  using assms unfolding http_get_block_def get_block_rpc_def get_block_error_def
  by (auto split: option.splits sum.splits if_splits ClientError.splits)

lemma connect_error_url_free:
  "HttpSource_new hx config index_vote built1 built2 version = Inl (Client e) \<Longrightarrow> url_free e"
  by (auto simp: HttpSource_new_def split: option.splits sum.splits if_splits)

text \<open>
  No error of a reply to a request of the write thread has the URL of a request in it, so that
  credentials in the URL are not logged with it.
\<close>

lemma errors_keep_no_url:
  assumes *: "handle_http (http_source_client so c p hx node hs) request = (Some reply, finished)"
  shows "reply_url_free reply"
proof (cases request)
    case (Some r)
    show ?thesis
    proof (cases r)
      case HttpSlots
      with * Some show ?thesis
        by (auto simp: http_source_client_def slot_error_url_free split: sum.splits)
    next
      case HttpFirstAvailableBlock
      with * Some show ?thesis
        by (cases "http_get_first_available_block node") (auto simp: http_source_client_def slot_error_url_free)
    next
      case (HttpBlock slot httpget)
      with * Some have "\<exists>x. http_get_block so c p hx node hs slot httpget = Some x \<and> reply = ReplyBlock x"
        by (auto simp: http_source_client_def)
      then obtain x where x: "http_get_block so c p hx node hs slot httpget = Some x" "reply = ReplyBlock x" by blast
      then show ?thesis
        using block_error_url_free [of so c p hx node hs slot httpget]
        by (cases reply rule: reply_url_free.cases) auto
    qed
qed (use * in simp)

end
