(* ===== verification/Alp_Service.thy ===== *)
theory Alp_Service
  imports Alp_Workers Alp_Httpget_Laws Alp_Http_Laws
begin

text \<open>
  The program around the components: the sections of the configuration with their defaults
  (src/src/config.rs), the endpoint of the metrics (src/src/metrics.rs), the RPC server
  (src/src/rpc/server.rs) and the main thread (src/src/bin/alpamayo.rs).

  Durations are in nanoseconds. The parsers of YAML, JSON5, headers and sizes, the number of processors and the
  sockets are parameters. A value that serde fills in is the value of the function named in the source.
\<close>

section \<open>Configuration (config.rs)\<close>

definition millis :: "nat \<Rightarrow> nat" where
  "millis n = n * 1000000"

definition secs :: "nat \<Rightarrow> nat" where
  "secs n = n * 1000000000"

record ConfigLogs =
  cl_json :: bool

record ConfigMetrics =
  cm_endpoint :: "nat list \<times> nat"
  cm_token :: "string option"

definition ConfigMetrics_default :: ConfigMetrics where
  "ConfigMetrics_default = \<lparr>cm_endpoint = ([127, 0, 0, 1], 8001), cm_token = None\<rparr>"

definition default_user_agent :: "string \<Rightarrow> string" where
  "default_user_agent package = ''alpamayo/v'' @ package"

definition ConfigSourceHttp_default :: "string \<Rightarrow> ConfigSourceHttp" where
  "ConfigSourceHttp_default package =
     \<lparr>ch_rpc = ''http://127.0.0.1:8899'', ch_httpget = None, ch_timeout = secs 30, ch_concurrency = 10,
      ch_user_agent = default_user_agent package\<rparr>"

datatype ConfigSourceStreamKind = DragonsMouth | Richat

definition ConfigSourceStreamReconnect_default :: ConfigSourceStreamReconnect where
  "ConfigSourceStreamReconnect_default =
     \<lparr>rc_backoff_init = millis 100, rc_backoff_max = secs 1, rc_from_slot_max_attempts = 2\<rparr>"

text \<open>The settings of the tokio runtime and of the gRPC client are those of other crates.\<close>

record ConfigSourceStream =
  ct_source :: ConfigSourceStreamKind
  ct_reconnect :: "ConfigSourceStreamReconnect option"

definition ConfigSourceStream_default :: ConfigSourceStream where
  "ConfigSourceStream_default = \<lparr>ct_source = Richat, ct_reconnect = None\<rparr>"

record ConfigSource =
  co_http :: ConfigSourceHttp
  co_stream :: ConfigSourceStream

definition ConfigSource_default :: "string \<Rightarrow> ConfigSource" where
  "ConfigSource_default package = \<lparr>co_http = ConfigSourceHttp_default package, co_stream = ConfigSourceStream_default\<rparr>"

datatype ConfigStorageRocksdbCompression = CompNone | CompSnappy | CompZlib | CompBz2 | CompLz4 | CompLz4hc | CompZstd

datatype DBCompressionType = DbNone | DbSnappy | DbZlib | DbBz2 | DbLz4 | DbLz4hc | DbZstd

fun DBCompressionType_from :: "ConfigStorageRocksdbCompression \<Rightarrow> DBCompressionType" where
  "DBCompressionType_from CompNone = DbNone"
| "DBCompressionType_from CompSnappy = DbSnappy"
| "DBCompressionType_from CompZlib = DbZlib"
| "DBCompressionType_from CompBz2 = DbBz2"
| "DBCompressionType_from CompLz4 = DbLz4"
| "DBCompressionType_from CompLz4hc = DbLz4hc"
| "DBCompressionType_from CompZstd = DbZstd"

record ConfigStorageRocksdb =
  cd_path :: string
  cd_index_slot_compression :: ConfigStorageRocksdbCompression
  cd_index_sfa_compression :: ConfigStorageRocksdbCompression
  cd_read_workers :: nat

definition default_read_workers :: "nat \<Rightarrow> nat" where
  "default_read_workers num_cpus = num_cpus"

definition default_http_getblock_max_retries :: nat where
  "default_http_getblock_max_retries = 10"

definition default_http_getblock_backoff_init :: nat where
  "default_http_getblock_backoff_init = millis 100"

record ConfigStorageBlocks =
  cb_max :: nat
  cb_http_getblock_max_retries :: nat
  cb_http_getblock_backoff_init :: nat
  cb_files :: "ConfigStorageFile list"

record ConfigStorageBackfilling =
  cf_sync_to :: nat

record ConfigStorageWrite =
  ce_affinity :: "nat list option"

record ConfigStorageRead =
  cr_threads :: nat
  cr_affinity :: "nat list option"
  cr_thread_max_async_requests :: nat
  cr_thread_max_files_requests :: nat

definition ConfigStorageRead_default :: ConfigStorageRead where
  "ConfigStorageRead_default =
     \<lparr>cr_threads = 1, cr_affinity = None, cr_thread_max_async_requests = 1024, cr_thread_max_files_requests = 32\<rparr>"

record ConfigStorage =
  cs_backfilling :: "ConfigStorageBackfilling option"
  cs_blocks :: ConfigStorageBlocks
  cs_rocksdb :: ConfigStorageRocksdb
  cs_write :: ConfigStorageWrite
  cs_read :: ConfigStorageRead
  cs_index_vote_transactions :: bool

definition default_index_vote_transactions :: bool where
  "default_index_vote_transactions = True"

record ConfigRpcHealthCheck =
  ck_rpc_uri :: "string option"
  ck_slot_distance :: nat
  ck_interval :: nat

definition ConfigRpcHealthCheck_default :: ConfigRpcHealthCheck where
  "ConfigRpcHealthCheck_default = \<lparr>ck_rpc_uri = None, ck_slot_distance = 150, ck_interval = secs 2\<rparr>"

definition ConfigRpcCallJson_all :: "ConfigRpcCallJson list" where
  "ConfigRpcCallJson_all =
     [GetBlock, GetBlockHeight, GetBlocks, GetBlocksWithLimit, GetBlockTime, GetClusterNodes, GetFirstAvailableBlock,
      GetHealth, GetInflationReward, GetLatestBlockhash, GetLeaderSchedule, GetRecentPrioritizationFees,
      GetSignaturesForAddress, GetSignatureStatuses, GetSlot, GetTransaction, GetTransactionsForAddress, GetVersion,
      IsBlockhashValid]"

datatype http_version = HTTP_09 | HTTP_10 | HTTP_11 | HTTP_2 | HTTP_3

record ConfigRpcUpstream =
  cu_name :: string
  cu_calls :: "ConfigRpcCallJson list"
  cu_endpoint :: string
  cu_user_agent :: string
  cu_version :: http_version
  cu_timeout :: nat

definition ConfigRpcUpstream_default :: "string \<Rightarrow> http_version \<Rightarrow> ConfigRpcUpstream" where
  "ConfigRpcUpstream_default package version_default =
     \<lparr>cu_name = ''main'', cu_calls = ConfigRpcCallJson_all, cu_endpoint = ''http://127.0.0.1:8899'',
      cu_user_agent = ''alpamayo/v'' @ package, cu_version = version_default, cu_timeout = secs 30\<rparr>"

definition deserialize_version :: "string \<Rightarrow> string + http_version" where
  "deserialize_version value =
     (if value = ''HTTP/0.9'' then Inr HTTP_09
      else if value = ''HTTP/1.0'' then Inr HTTP_10
      else if value = ''HTTP/1.1'' then Inr HTTP_11
      else if value = ''HTTP/2.0'' then Inr HTTP_2
      else if value = ''HTTP/3.0'' then Inr HTTP_3
      else Inl (''unknown HTTP version: '' @ value))"

definition ConfigRpcWorkers_default :: "nat \<Rightarrow> ConfigRpcWorkers" where
  "ConfigRpcWorkers_default num_cpus = \<lparr>cw_threads = num_cpus, cw_affinity = None, cw_channel_size = 4096\<rparr>"

text \<open>The headers in the order in which the hash map is walked; a later value replaces an earlier one.\<close>

fun deserialize_extra_headers ::
  "(string \<Rightarrow> string option) \<Rightarrow> (string \<Rightarrow> string option) \<Rightarrow> (string \<times> string) list \<Rightarrow> (string, string) hmap \<Rightarrow>
    string + (string, string) hmap" where
  "deserialize_extra_headers parse_name parse_value [] headers = Inr headers"
| "deserialize_extra_headers parse_name parse_value ((key, v) # rest) headers =
     (case parse_name key of
        None \<Rightarrow> Inl ''failed to parse header key: {key}''
      | Some name \<Rightarrow>
          (case parse_value v of
             None \<Rightarrow> Inl ''failed to parse header value: {value}''
           | Some v \<Rightarrow> deserialize_extra_headers parse_name parse_value rest (hm_insert name v headers)))"

definition deserialize_humansize :: "(string \<Rightarrow> string + nat) \<Rightarrow> string \<Rightarrow> string + nat" where
  "deserialize_humansize parse text =
     (case parse text of
        Inr to_bytes \<Rightarrow> Inr to_bytes
      | Inl error \<Rightarrow> Inl (''failed to parse size '' @ [CHR 0x22] @ text @ [CHR 0x22] @ '': '' @ error))"

definition deserialize_humansize_usize :: "(string \<Rightarrow> string + nat) \<Rightarrow> string \<Rightarrow> string + nat" where
  "deserialize_humansize_usize parse text =
     (case deserialize_humansize parse text of Inr v \<Rightarrow> Inr (v mod u64_modulus) | Inl e \<Rightarrow> Inl e)"

record ConfigRpc =
  cp_endpoint :: "nat list \<times> nat"
  cp_body_limit :: nat
  cp_extra_headers :: "(string, string) hmap"
  cp_request_timeout :: nat
  cp_calls_httpget :: "ConfigRpcCallHttpGet list"
  cp_calls_jsonrpc :: "ConfigRpcCallJson list"
  cp_gsfa_limit :: nat
  cp_gtfa_limit_signatures :: nat
  cp_gtfa_limit_full :: nat
  cp_gss_transaction_history :: bool
  cp_grpf_percentile :: bool
  cp_gcn_cache_ttl :: nat
  cp_request_channel_capacity :: nat
  cp_upstream_httpget :: "ConfigRpcUpstream list"
  cp_upstream_jsonrpc :: "ConfigRpcUpstream list"
  cp_workers :: ConfigRpcWorkers
  cp_health_check :: ConfigRpcHealthCheck
  cp_admin_token :: "string option"

text \<open>A section with only the endpoint given; the limit of getSignaturesForAddress and the number of processors are arguments.\<close>

definition ConfigRpc_defaults :: "nat \<Rightarrow> nat \<Rightarrow> nat list \<times> nat \<Rightarrow> ConfigRpc" where
  "ConfigRpc_defaults max_signatures num_cpus endpoint =
     \<lparr>cp_endpoint = endpoint, cp_body_limit = 50 * 1024, cp_extra_headers = [], cp_request_timeout = secs 60,
      cp_calls_httpget = [], cp_calls_jsonrpc = [], cp_gsfa_limit = max_signatures, cp_gtfa_limit_signatures = 1000,
      cp_gtfa_limit_full = 100, cp_gss_transaction_history = True, cp_grpf_percentile = True,
      cp_gcn_cache_ttl = secs 1, cp_request_channel_capacity = 4096, cp_upstream_httpget = [], cp_upstream_jsonrpc = [],
      cp_workers = ConfigRpcWorkers_default num_cpus, cp_health_check = ConfigRpcHealthCheck_default,
      cp_admin_token = None\<rparr>"

record Config =
  cg_logs :: ConfigLogs
  cg_metrics :: ConfigMetrics
  cg_source :: ConfigSource
  cg_storage :: ConfigStorage
  cg_rpc :: ConfigRpc

text \<open>
  \<open>load_from_file\<close>: \<open>contents\<close> is what reading the file gives.
\<close>

definition parse_config ::
  "(string \<Rightarrow> string + Config) \<Rightarrow> (string \<Rightarrow> string + Config) \<Rightarrow> string option \<Rightarrow> string \<Rightarrow> string + Config" where
  "parse_config yaml json5 extension contents =
     (if extension = Some ''yml'' \<or> extension = Some ''yaml'' then yaml contents else json5 contents)"

definition load_from_file ::
  "(string \<Rightarrow> string + Config) \<Rightarrow> (string \<Rightarrow> string + Config) \<Rightarrow> string option \<Rightarrow> string + string \<Rightarrow> Config result" where
  "load_from_file yaml json5 extension contents =
     (case contents of
        Inl e \<Rightarrow> Inl (Err e)
      | Inr contents \<Rightarrow>
          (case parse_config yaml json5 extension contents of
             Inl e \<Rightarrow> Inl (Err e)
           | Inr config \<Rightarrow>
               if cm_token (cg_metrics config) = None
               then Inr (config\<lparr>cg_metrics := (cg_metrics config)\<lparr>cm_token := cp_admin_token (cg_rpc config)\<rparr>\<rparr>)
               else Inr config))"

section \<open>The endpoint of the metrics (metrics.rs)\<close>

record metrics_response =
  mr_status :: nat
  mr_www_authenticate :: "string option"
  mr_body :: string

definition is_authorized :: "http_request \<Rightarrow> string option \<Rightarrow> bool" where
  "is_authorized req token =
     (case token of
        None \<Rightarrow> True
      | Some token \<Rightarrow>
          (case Option.bind (hq_authorization req) (strip_prefix ''Bearer '') of
             Some v \<Rightarrow> tokens_match (string_bytes v) (string_bytes token)
           | None \<Rightarrow> False))"

text \<open>The service of \<open>spawn_server\<close>; \<open>rendered\<close> is what the recorder prints.\<close>

definition metrics_service :: "ConfigMetrics \<Rightarrow> StoredSlots \<Rightarrow> string \<Rightarrow> http_request \<Rightarrow> metrics_response" where
  "metrics_service config stored_slots rendered req =
     (let (status, body) =
        (if hq_path req = ''/health'' then (200, ''OK'')
         else if hq_path req = ''/ready'' then
           (if is_ready stored_slots then (200, ''OK'') else (500, ''Service is not ready''))
         else if hq_path req = ''/metrics'' then
           (if is_authorized req (cm_token config) then (200, rendered) else (401, []))
         else (404, []))
      in \<lparr>mr_status = status, mr_www_authenticate = (if status = 401 then Some ''Bearer'' else None), mr_body = body\<rparr>)"

section \<open>The RPC server (server.rs)\<close>

text \<open>
  What \<open>spawn\<close> builds of the configuration, in its order. Arguments are what reqwest and the parser of URLs make of
  the configuration of an upstream node, for the HTTP get interface the path of its URL, and what binding the listener gives.
\<close>

definition HttpgetState_new :: "(ConfigRpcUpstream \<Rightarrow> string list result) \<Rightarrow> ConfigRpc \<Rightarrow> HttpgetState result" where
  "HttpgetState_new httpget_client config =
     bind_result (traverse_result httpget_client (cp_upstream_httpget config)) (\<lambda>paths.
       Inr \<lparr>hs_calls = cp_calls_httpget config, hs_upstreams = map cu_calls (cp_upstream_httpget config),
            hs_upstream_paths = paths, hs_admin_token = cp_admin_token config\<rparr>)"

definition jsonrpc_State_new :: "(ConfigRpcUpstream \<Rightarrow> unit result) \<Rightarrow> ConfigRpc \<Rightarrow> State result" where
  "jsonrpc_State_new jsonrpc_client config =
     bind_result (traverse_result jsonrpc_client (cp_upstream_jsonrpc config)) (\<lambda>_.
       State_new (cp_calls_jsonrpc config)
         \<lparr>st_gsfa_limit = cp_gsfa_limit config, st_gtfa_limit_signatures = cp_gtfa_limit_signatures config,
          st_gtfa_limit_full = cp_gtfa_limit_full config, st_gss_transaction_history = cp_gss_transaction_history config,
          st_grpf_percentile = cp_grpf_percentile config, st_upstreams = map cu_calls (cp_upstream_jsonrpc config),
          st_health_check_slot_distance = ck_slot_distance (cp_health_check config)\<rparr>)"

record server =
  sv_pool :: pool
  sv_cpus :: "nat list option list"
  sv_httpget :: HttpgetState
  sv_state :: State
  sv_handlers :: "(string \<times> ConfigRpcCallJson) list"

definition server_spawn ::
  "(ConfigRpcUpstream \<Rightarrow> string list result) \<Rightarrow> (ConfigRpcUpstream \<Rightarrow> unit result) \<Rightarrow> unit result \<Rightarrow> ConfigRpc \<Rightarrow> server result" where
  "server_spawn httpget_client jsonrpc_client listener config =
     bind_result (workers_start (cp_workers config)) (\<lambda>(pool, cpus).
     bind_result listener (\<lambda>_.
     bind_result (HttpgetState_new httpget_client config) (\<lambda>httpget.
     bind_result (jsonrpc_State_new jsonrpc_client config) (\<lambda>state.
     bind_result (create_request_processor (cp_calls_jsonrpc config) state) (\<lambda>handlers.
       Inr \<lparr>sv_pool = pool, sv_cpus = cpus, sv_httpget = httpget, sv_state = state, sv_handlers = handlers\<rparr>)))))"

text \<open>The service of a connection; \<open>on_request\<close> is the processor of JSON-RPC requests of \<open>richat_shared\<close>.\<close>

definition server_service ::
  "(http_request \<Rightarrow> ('e, http_response) rpc) \<Rightarrow> 'e rpc_ext \<Rightarrow> (Signature \<Rightarrow> string) \<Rightarrow> (rust_error \<Rightarrow> http_response) \<Rightarrow> string \<Rightarrow>
    HttpgetState \<Rightarrow> http_request \<Rightarrow> ('e, http_response) rpc" where
  "server_service on_request ex show_signature response_500 version_body httpget req =
     (if hq_path req = ''/'' then on_request req
      else case get_handler ex show_signature response_500 version_body httpget req of
          Some handler \<Rightarrow> handler
        | None \<Rightarrow> Done (response_plain 404))"

section \<open>The main thread (bin/alpamayo.rs)\<close>

text \<open>
  The loop of \<open>try_main\<close> after all threads are started. A round sees the number of pending interrupts and, for
  each thread that is not joined yet, whether it is finished and with what; the value is \<open>None\<close> when
  the rounds that are given do not end the loop.
\<close>

datatype join = Running | Joined "unit result" | JoinPanicked

record main_thread =
  mt_name :: string
  mt_handle :: bool

fun take_signals :: "nat \<Rightarrow> bool \<Rightarrow> bool option" where
  "take_signals 0 cancelled = Some cancelled"
| "take_signals (Suc n) cancelled = (if cancelled then None else take_signals n True)"

fun join_threads :: "(nat \<Rightarrow> join) \<Rightarrow> nat \<Rightarrow> main_thread list \<Rightarrow> main_thread list result" where
  "join_threads finished i [] = Inr []"
| "join_threads finished i (th # ths) =
     (if \<not> mt_handle th then bind_result (join_threads finished (Suc i) ths) (\<lambda>rest. Inr (th # rest))
      else case finished i of
          Running \<Rightarrow> bind_result (join_threads finished (Suc i) ths) (\<lambda>rest. Inr (th # rest))
        | Joined (Inr _) \<Rightarrow> bind_result (join_threads finished (Suc i) ths) (\<lambda>rest. Inr (th\<lparr>mt_handle := False\<rparr> # rest))
        | Joined (Inl e) \<Rightarrow> Inl e
        | JoinPanicked \<Rightarrow> Inl (Panic (mt_name th @ '' thread join failed'')))"

fun main_loop :: "(nat \<times> (nat \<Rightarrow> join)) list \<Rightarrow> bool \<Rightarrow> main_thread list \<Rightarrow> unit result option" where
  "main_loop rounds cancelled ths =
     (if \<not> list_ex mt_handle ths then Some (Inr ())
      else case rounds of
          [] \<Rightarrow> None
        | (signals, finished) # rounds \<Rightarrow>
            (case take_signals signals cancelled of
               None \<Rightarrow> Some (Inr ())
             | Some cancelled \<Rightarrow>
                 (case join_threads finished 0 ths of
                    Inl e \<Rightarrow> Some (Inl e)
                  | Inr ths \<Rightarrow> main_loop rounds cancelled ths)))"

text \<open>The processors of the read threads are chosen as those of the workers.\<close>

definition read_thread_affinity :: "ConfigStorageRead \<Rightarrow> nat \<Rightarrow> nat list option" where
  "read_thread_affinity config index =
     map_option (\<lambda>affinity. if length affinity = cr_threads config then [affinity ! index] else affinity) (cr_affinity config)"

end
