(* ===== verification/Alp_Service_Laws.thy ===== *)
theory Alp_Service_Laws
  imports Alp_Service
begin

text \<open>
  Properties of the program around the components: who reads the metrics, what a server that starts
  has, and when the main thread returns.
\<close>

section \<open>Metrics\<close>

text \<open>The token that the configuration asks for, before the fallback is filled in.\<close>

definition metrics_token :: "Config \<Rightarrow> string option" where
  "metrics_token config = (case cm_token (cg_metrics config) of Some t \<Rightarrow> Some t | None \<Rightarrow> cp_admin_token (cg_rpc config))"

lemma loaded_token:
  assumes "load_from_file yaml json5 extension (Inr contents) = Inr config"
    and "parse_config yaml json5 extension contents = Inr parsed"
  shows "cm_token (cg_metrics config) = metrics_token parsed"
  using assms by (auto simp: load_from_file_def metrics_token_def split: if_splits option.splits)

lemma bearer_iff: "Option.bind auth (strip_prefix ''Bearer '') = Some t \<longleftrightarrow> auth = Some (''Bearer '' @ t)"
  by (cases auth) (simp_all only: Option.bind.simps strip_prefix_Some option.inject option.distinct)

lemma is_authorized_iff:
  "is_authorized req token \<longleftrightarrow> (\<forall>t. token = Some t \<longrightarrow> hq_authorization req = Some (''Bearer '' @ t))"
proof (cases "Option.bind (hq_authorization req) (strip_prefix ''Bearer '')")
  case None
  then have "hq_authorization req \<noteq> Some (''Bearer '' @ t)" for t using bearer_iff [of _ t] by (metis option.distinct(1))
  with None show ?thesis by (auto simp: is_authorized_def split: option.splits)
next
  case (Some v)
  then have "hq_authorization req = Some (''Bearer '' @ v)" by (simp only: bearer_iff)
  with Some show ?thesis
    by (auto simp: is_authorized_def tokens_match_iff_equal string_bytes_inj split: option.splits)
qed

text \<open>
  C27. With a token for the metrics or for the administrator in the configuration file, the metrics are printed for
  exactly the requests that carry that token, and every other request for them gets status 401 with an empty
  body and the header \<open>WWW-Authenticate: Bearer\<close>; without any token they are open. \<open>/health\<close> is always
  open and \<open>/ready\<close> tells whether the storage is ready.
\<close>

theorem metrics_need_token:
  assumes "load_from_file yaml json5 extension (Inr contents) = Inr config"
    and "parse_config yaml json5 extension contents = Inr parsed"
  shows "metrics_service (cg_metrics config) slots rendered req =
    (if hq_path req = ''/metrics''
     then if metrics_token parsed = None \<or> hq_authorization req = Some (''Bearer '' @ the (metrics_token parsed))
          then \<lparr>mr_status = 200, mr_www_authenticate = None, mr_body = rendered\<rparr>
          else \<lparr>mr_status = 401, mr_www_authenticate = Some ''Bearer'', mr_body = []\<rparr>
     else if hq_path req = ''/health'' \<or> hq_path req = ''/ready'' \<and> is_ready slots
     then \<lparr>mr_status = 200, mr_www_authenticate = None, mr_body = ''OK''\<rparr>
     else if hq_path req = ''/ready'' then \<lparr>mr_status = 500, mr_www_authenticate = None, mr_body = ''Service is not ready''\<rparr>
     else \<lparr>mr_status = 404, mr_www_authenticate = None, mr_body = []\<rparr>)"
  using loaded_token [OF assms]
  by (cases "metrics_token parsed") (auto simp: metrics_service_def is_authorized_iff)

section \<open>The server\<close>

lemma traverse_result_length: "traverse_result f xs = Inr ys \<Longrightarrow> length ys = length xs"
  by (induction xs arbitrary: ys) (auto simp: bind_result_Inr_iff)

definition all_handlers :: "(string \<times> ConfigRpcCallJson) list" where
  "all_handlers =
     [(''getBlock'', GetBlock), (''getBlockHeight'', GetBlockHeight), (''getBlocks'', GetBlocks),
      (''getBlocksWithLimit'', GetBlocksWithLimit), (''getBlockTime'', GetBlockTime),
      (''getClusterNodes'', GetClusterNodes), (''getFirstAvailableBlock'', GetFirstAvailableBlock),
      (''getHealth'', GetHealth), (''getInflationReward'', GetInflationReward),
      (''getLatestBlockhash'', GetLatestBlockhash), (''getLeaderSchedule'', GetLeaderSchedule),
      (''getRecentPrioritizationFees'', GetRecentPrioritizationFees),
      (''getSignaturesForAddress'', GetSignaturesForAddress), (''getSignatureStatuses'', GetSignatureStatuses),
      (''getSlot'', GetSlot), (''getTransaction'', GetTransaction),
      (''getTransactionsForAddress'', GetTransactionsForAddress), (''getVersion'', GetVersion),
      (''isBlockhashValid'', IsBlockhashValid)]"

lemma handlers_complete: "snd ` set all_handlers = UNIV"
proof -
  have "call \<in> snd ` set all_handlers" for call by (cases call) (simp_all add: all_handlers_def)
  then show ?thesis by blast
qed

lemma distinct_handlers: "distinct (map fst all_handlers)"
  by (simp add: all_handlers_def)

lemma default_upstream_supports_all: "is_supported (cu_calls (ConfigRpcUpstream_default package v)) call"
  by (cases call) (simp_all add: is_supported_def ConfigRpcUpstream_default_def ConfigRpcCallJson_all_def)

text \<open>
  C28. A server that starts is well formed: it has at least one worker, all of them receiving from an empty queue,
  and a set of processors or none for each; a path for every upstream node of the HTTP get interface; a
  handler for exactly the configured calls; and, when \<open>getClusterNodes\<close> or \<open>getLeaderSchedule\<close> is configured, an
  upstream node that serves it, so that their handlers do not meet the panic for a missing one.
\<close>

theorem server_well_formed:
  assumes "server_spawn httpget_client jsonrpc_client listener config = Inr sv"
  shows "po_workers (sv_pool sv) \<noteq> [] \<and> set (po_workers (sv_pool sv)) = {WorkerReceiving} \<and> po_queue (sv_pool sv) = [] \<and>
    length (sv_cpus sv) = length (po_workers (sv_pool sv)) \<and>
    length (hs_upstream_paths (sv_httpget sv)) = length (hs_upstreams (sv_httpget sv)) \<and>
    set (map snd (sv_handlers sv)) = set (cp_calls_jsonrpc config) \<and> distinct (map fst (sv_handlers sv)) \<and>
    (\<forall>call \<in> {GetClusterNodes, GetLeaderSchedule}. call \<in> set (cp_calls_jsonrpc config) \<longrightarrow> get_upstream (sv_state sv) call \<noteq> None)"
proof -
  obtain pool cpus httpget state handlers where
    w: "workers_start (cp_workers config) = Inr (pool, cpus)" and
    h: "HttpgetState_new httpget_client config = Inr httpget" and
    st: "jsonrpc_State_new jsonrpc_client config = Inr state" and
    hs: "create_request_processor (cp_calls_jsonrpc config) state = Inr handlers" and
    sv: "sv = \<lparr>sv_pool = pool, sv_cpus = cpus, sv_httpget = httpget, sv_state = state, sv_handlers = handlers\<rparr>"
    using assms by (auto simp: server_spawn_def bind_result_Inr_iff)
  from hs obtain st' where st': "State_new (cp_calls_jsonrpc config) state = Inr st'"
    and handlers: "handlers = filter (\<lambda>h. snd h \<in> set (cp_calls_jsonrpc config)) all_handlers"
    by (auto simp: create_request_processor_def bind_result_Inr_iff all_handlers_def)
  have "po_workers pool \<noteq> []" "set (po_workers pool) = {WorkerReceiving}" "po_queue pool = []"
    "length cpus = length (po_workers pool)"
    using w by (auto simp: workers_start_def split: if_splits)
  moreover have "length (hs_upstream_paths httpget) = length (hs_upstreams httpget)"
    using h traverse_result_length by (auto simp: HttpgetState_new_def bind_result_Inr_iff)
  moreover have "set (map snd handlers) = set (cp_calls_jsonrpc config)" "distinct (map fst handlers)"
    using handlers_complete distinct_handlers unfolding handlers by (auto simp: distinct_map_filter)
  ultimately show ?thesis
    using upstream_registered [OF st'] by (auto simp: sv)
qed

section \<open>The main thread\<close>

lemma join_threads_Inr:
  assumes "join_threads f k ths = Inr ths'"
  shows "length ths' = length ths \<and> (\<forall>i<length ths. mt_name (ths' ! i) = mt_name (ths ! i) \<and>
    (mt_handle (ths' ! i) \<longrightarrow> mt_handle (ths ! i) \<and> f (k + i) = Running) \<and>
    (mt_handle (ths ! i) \<and> \<not> mt_handle (ths' ! i) \<longrightarrow> f (k + i) = Joined (Inr ())))"
  using assms
proof (induction ths arbitrary: k ths')
  case (Cons th ths)
  have rest: "join_threads f (Suc k) ths = Inr (tl ths')" "ths' = hd ths' # tl ths'"
    and th': "mt_name (hd ths') = mt_name th" "mt_handle (hd ths') \<longrightarrow> mt_handle th \<and> f k = Running"
      "mt_handle th \<and> \<not> mt_handle (hd ths') \<longrightarrow> f k = Joined (Inr ())"
    using Cons.prems by (auto simp: bind_result_Inr_iff split: if_splits join.splits sum.splits)
  from Cons.IH [OF rest(1)] th' show ?case
    by (subst (1 2 3 4) rest(2)) (auto simp: less_Suc_eq_0_disj)
qed simp

lemma join_threads_Inl:
  assumes "join_threads f k ths = Inl e"
  shows "\<exists>i<length ths. mt_handle (ths ! i) \<and>
    (f (k + i) = Joined (Inl e) \<or> f (k + i) = JoinPanicked \<and> e = Panic (mt_name (ths ! i) @ '' thread join failed''))"
  using assms
proof (induction ths arbitrary: k)
  case (Cons th ths)
  show ?case
  proof (cases "\<exists>e'. join_threads f (Suc k) ths = Inl e' \<and> e' = e")
    case True
    then obtain i where "i < length ths" "mt_handle (ths ! i)"
      "f (Suc k + i) = Joined (Inl e) \<or> f (Suc k + i) = JoinPanicked \<and> e = Panic (mt_name (ths ! i) @ '' thread join failed'')"
      using Cons.IH by blast
    then show ?thesis by (intro exI [of _ "Suc i"]) auto
  next
    case False
    with Cons.prems show ?thesis
      by (intro exI [of _ 0]) (cases "join_threads f (Suc k) ths"; auto split: if_splits join.splits sum.splits)
  qed
qed simp

lemma take_signals_None: "take_signals n c = None \<Longrightarrow> (if c then 1 else 2) \<le> n"
  by (induction n c rule: take_signals.induct) (auto split: if_splits)

lemma take_signals_Some: "take_signals n c = Some c' \<Longrightarrow> n + (if c then 1 else 0) = (if c' then 1 else 0)"
  by (induction n c rule: take_signals.induct) (auto split: if_splits)

text \<open>What the rounds say of the threads that are not joined yet, by the outcome of the loop.\<close>

fun outcome_explained :: "(nat \<times> (nat \<Rightarrow> join)) list \<Rightarrow> bool \<Rightarrow> main_thread list \<Rightarrow> unit result option \<Rightarrow> bool" where
  "outcome_explained rounds c ths (Some (Inr u)) \<longleftrightarrow>
     2 \<le> sum_list (map fst rounds) + (if c then 1 else 0) \<or>
     (\<forall>i<length ths. mt_handle (ths ! i) \<longrightarrow> (\<exists>r \<in> set rounds. snd r i = Joined (Inr ())))"
| "outcome_explained rounds c ths (Some (Inl e)) \<longleftrightarrow>
     (\<exists>i<length ths. mt_handle (ths ! i) \<and> (\<exists>r \<in> set rounds. snd r i = Joined (Inl e) \<or>
        snd r i = JoinPanicked \<and> e = Panic (mt_name (ths ! i) @ '' thread join failed'')))"
| "outcome_explained rounds c ths None \<longleftrightarrow>
     (\<exists>i<length ths. mt_handle (ths ! i) \<and> (\<forall>r \<in> set rounds. snd r i = Running))"

lemma main_outcome_cases:
  obtains (1) u where "x = Some (Inr u)" | (2) e where "x = Some (Inl e)" | (3) "x = None"
  by (cases x) (metis sum.exhaust)+

lemma main_loop_explained: "outcome_explained rounds c ths (main_loop rounds c ths)"
proof (induction rounds arbitrary: c ths)
  case Nil
  show ?case by (auto simp: list_ex_length)
next
  case (Cons r rounds)
  obtain signals f where r: "r = (signals, f)" by force
  show ?case
  proof (cases "list_ex mt_handle ths")
    case False
    then show ?thesis by (simp add: list_ex_length)
  next
    case alive: True
    show ?thesis
    proof (cases "take_signals signals c")
      case None
      with alive r take_signals_None [OF None] show ?thesis by (auto split: if_splits)
    next
      case (Some c')
      note sig = take_signals_Some [OF Some]
      show ?thesis
      proof (cases "join_threads f 0 ths")
        case (Inl e)
        with alive r Some join_threads_Inl [OF Inl] show ?thesis by auto
      next
        case (Inr ths')
        have step: "main_loop (r # rounds) c ths = main_loop rounds c' ths'" using alive r Some Inr by simp
        note j = join_threads_Inr [OF Inr]
        show ?thesis
        proof (cases "main_loop rounds c' ths'" rule: main_outcome_cases)
          case (1 u)
          then show ?thesis using Cons.IH [of c' ths'] j sig r unfolding step by (auto split: if_splits) 
        next
          case (2 e)
          then show ?thesis using Cons.IH [of c' ths'] j unfolding step by fastforce
        next
          case 3
          then show ?thesis using Cons.IH [of c' ths'] j r unfolding step by fastforce
        qed
      qed
    qed
  qed
qed

text \<open>
  The main thread returns without an error only when every thread was joined without one or the interrupt came
  twice; it returns an error or panics only with the error or the panic of a thread; and as long as it does not return,
  some thread was running in every round.
\<close>

lemma main_waits_for_threads:
  "case main_loop rounds False (map (\<lambda>name. \<lparr>mt_name = name, mt_handle = True\<rparr>) names) of
     None \<Rightarrow> \<exists>i<length names. list_all (\<lambda>r. snd r i = Running) rounds
   | Some (Inl e) \<Rightarrow> \<exists>i<length names. list_ex (\<lambda>r. snd r i = Joined (Inl e) \<or>
       snd r i = JoinPanicked \<and> e = Panic (names ! i @ '' thread join failed'')) rounds
   | Some (Inr u) \<Rightarrow> 2 \<le> sum_list (map fst rounds) \<or>
       list_all (\<lambda>i. list_ex (\<lambda>r. snd r i = Joined (Inr ())) rounds) [0..<length names]"
proof -
  let ?ths = "map (\<lambda>name. \<lparr>mt_name = name, mt_handle = True\<rparr>) names"
  note explained = main_loop_explained [of rounds False ?ths]
  show ?thesis
  proof (cases "main_loop rounds False ?ths" rule: main_outcome_cases)
    case (1 u)
    with explained show ?thesis by (auto simp del: main_loop.simps simp: list_all_iff list_ex_iff)
  next
    case (2 e)
    with explained obtain i r where "i < length names" "r \<in> set rounds"
      "snd r i = Joined (Inl e) \<or> snd r i = JoinPanicked \<and> e = Panic (names ! i @ '' thread join failed'')"
      by (auto simp del: main_loop.simps)
    with 2 show ?thesis by (auto simp del: main_loop.simps simp: list_ex_iff intro!: exI [of _ i] bexI [of _ r])
  next
    case 3
    with explained show ?thesis by (auto simp del: main_loop.simps simp: list_all_iff)
  qed
qed

section \<open>Concrete runs\<close>

definition demo_rpc_config :: ConfigRpc where
  "demo_rpc_config = (ConfigRpc_defaults 1000 2 ([127, 0, 0, 1], 8000))\<lparr>cp_calls_jsonrpc := [GetBlock, GetClusterNodes],
     cp_upstream_jsonrpc := [ConfigRpcUpstream_default ''0.1'' HTTP_11], cp_admin_token := Some ''t''\<rparr>"

definition demo_config :: Config where
  "demo_config = \<lparr>cg_logs = \<lparr>cl_json = False\<rparr>, cg_metrics = ConfigMetrics_default,
     cg_source = (ConfigSource_default ''0.1'')\<lparr>co_stream := ConfigSourceStream_default\<lparr>ct_reconnect := Some ConfigSourceStreamReconnect_default\<rparr>\<rparr>,
     cg_storage = \<lparr>cs_backfilling = None, cs_blocks = \<lparr>cb_max = 10, cb_http_getblock_max_retries = default_http_getblock_max_retries,
         cb_http_getblock_backoff_init = default_http_getblock_backoff_init, cb_files = []\<rparr>,
       cs_rocksdb = \<lparr>cd_path = ''db'', cd_index_slot_compression = CompNone, cd_index_sfa_compression = CompLz4, cd_read_workers = default_read_workers 2\<rparr>,
       cs_write = \<lparr>ce_affinity = None\<rparr>, cs_read = ConfigStorageRead_default, cs_index_vote_transactions = default_index_vote_transactions\<rparr>,
     cg_rpc = demo_rpc_config\<rparr>"

definition demo_http_get :: "string \<Rightarrow> string option \<Rightarrow> http_request" where
  "demo_http_get path auth = \<lparr>hq_path = path, hq_is_post = False, hq_authorization = auth, hq_upstream_disabled = False,
     hq_body = Inr (Inl [])\<rparr>"

theorem metrics_need_token_witness:
  "\<exists>config. load_from_file (\<lambda>_. Inr demo_config) (\<lambda>_. Inl ''json'') (Some ''yml'') (Inr ''rpc'') = Inr config \<and>
     mr_status (metrics_service (cg_metrics config) StoredSlots_default ''m'' (demo_http_get ''/metrics'' None)) = 401 \<and>
     mr_body (metrics_service (cg_metrics config) StoredSlots_default ''m'' (demo_http_get ''/metrics'' (Some ''Bearer t''))) = ''m''"
proof -
  have load: "load_from_file (\<lambda>_. Inr demo_config) (\<lambda>_. Inl ''json'') (Some ''yml'') (Inr ''rpc'') =
      Inr (demo_config\<lparr>cg_metrics := ConfigMetrics_default\<lparr>cm_token := Some ''t''\<rparr>\<rparr>)" (is "_ = Inr ?config")
    by (simp add: load_from_file_def parse_config_def demo_config_def ConfigMetrics_default_def demo_rpc_config_def)
  have parse: "parse_config (\<lambda>_. Inr demo_config) (\<lambda>_. Inl ''json'') (Some ''yml'') ''rpc'' = Inr demo_config"
    by (simp add: parse_config_def)
  have token: "metrics_token demo_config = Some ''t''"
    by (simp add: metrics_token_def demo_config_def ConfigMetrics_default_def demo_rpc_config_def)
  show ?thesis
    using load metrics_need_token [OF load parse, of StoredSlots_default "''m''" "demo_http_get ''/metrics'' None"]
      metrics_need_token [OF load parse, of StoredSlots_default "''m''" "demo_http_get ''/metrics'' (Some ''Bearer t'')"]
    by (intro exI [of _ ?config]) (simp add: token demo_http_get_def)
qed

theorem server_well_formed_witness:
  "\<exists>sv. server_spawn (\<lambda>_. Inr []) (\<lambda>_. Inr ()) (Inr ()) demo_rpc_config = Inr sv \<and>
     set (map snd (sv_handlers sv)) = {GetBlock, GetClusterNodes} \<and> get_upstream (sv_state sv) GetClusterNodes \<noteq> None"
proof -
  have "\<exists>sv. server_spawn (\<lambda>_. Inr []) (\<lambda>_. Inr ()) (Inr ()) demo_rpc_config = Inr sv"
    by (simp add: server_spawn_def demo_rpc_config_def ConfigRpc_defaults_def ConfigRpcWorkers_default_def workers_start_def
        HttpgetState_new_def jsonrpc_State_new_def State_new_def create_request_processor_def is_supported_def
        ConfigRpcUpstream_default_def ConfigRpcCallJson_all_def)
  then obtain sv where sv: "server_spawn (\<lambda>_. Inr []) (\<lambda>_. Inr ()) (Inr ()) demo_rpc_config = Inr sv" by blast
  have "cp_calls_jsonrpc demo_rpc_config = [GetBlock, GetClusterNodes]" by (simp add: demo_rpc_config_def)
  then show ?thesis using sv server_well_formed [OF sv] by (intro exI [of _ sv]) simp
qed

end
